(* ===== verification/Prelude.thy ===== *)
theory Prelude
  imports Main "HOL-Library.Word" "HOL-Library.AList" "HOL-Library.Char_ord"
    "HOL-Library.List_Lexorder" "HOL-Library.Multiset" "HOL-Library.Sublist"
begin

text \<open>
  What every component shares: the Go values the sources are written over (bytes, big-endian
  integers, strings, maps as association lists with an unspecified iteration order), the parts of
  the Go standard library the sources call, and the generic lemmas on them. A Go map is an
  association list with distinct keys: \<open>map_of\<close> looks up, \<open>AList.update\<close> stores,
  \<open>AList.delete\<close> removes, and the order of the list stands for the iteration order that Go leaves
  open. A Go string is a \<^typ>\<open>string\<close>, whose characters are bytes; nil and empty slices
  are both the empty list.
\<close>

named_theorems go_maps \<open>lookups and key sets of association lists\<close>
named_theorems wire_simps \<open>lengths and readings of big-endian fields\<close>

type_synonym byte = "8 word"
type_synonym ('k, 'v) gomap = "('k \<times> 'v) list"

subsection \<open>Big-endian integers\<close>

text \<open>
  \<open>be k n\<close> is the k-byte big-endian form of n modulo 256 to the k, and \<open>unbe\<close> reads one
  back. The functions of \<open>encoding/binary\<close> the sources use are instances at 2 and 4 bytes.
\<close>

fun be :: "nat \<Rightarrow> nat \<Rightarrow> byte list" where
  "be 0 n = []"
| "be (Suc k) n = be k (n div 256) @ [of_nat n]"

definition unbe :: "byte list \<Rightarrow> nat" where
  "unbe bs = foldl (\<lambda>a b. 256 * a + unat b) 0 bs"

lemma unbe_Nil [simp]: "unbe [] = 0"
  by (simp add: unbe_def)

lemma unbe_snoc [simp]: "unbe (bs @ [b]) = 256 * unbe bs + unat b"
  by (simp add: unbe_def)

lemma length_be [simp, wire_simps]: "length (be k n) = k"
  by (induction k arbitrary: n) auto

lemma unat_byte_of_nat [simp]: "unat (of_nat n :: byte) = n mod 256"
  by (simp add: unat_of_nat)

lemma unbe_be [simp, wire_simps]: "unbe (be k n) = n mod 256 ^ k"
proof (induction k arbitrary: n)
  case 0
  then show ?case by simp
next
  case (Suc k)
  then show ?case by (simp add: mod_mult2_eq)
qed

lemma unat_byte_less [simp]: "unat (b :: byte) < 256"
  using unsigned_less [of b] by simp

lemma unbe_less: "unbe bs < 256 ^ length bs"
proof (induction bs rule: rev_induct)
  case Nil
  then show ?case by simp
next
  case (snoc b bs)
  have "256 * unbe bs + unat b < 256 * Suc (unbe bs)"
    using unat_byte_less [of b] by (simp del: unat_byte_less)
  also have "\<dots> \<le> 256 * 256 ^ length bs"
    using snoc.IH by (intro mult_le_mono2) (rule Suc_leI)
  finally show ?case by simp
qed

lemma be_unbe [simp]: "be (length bs) (unbe bs) = bs"
proof (induction bs rule: rev_induct)
  case Nil
  then show ?case by simp
next
  case (snoc b bs)
  have "(256 * unbe bs + unat b) div 256 = unbe bs"
    using unat_byte_less [of b] by (simp del: unat_byte_less)
  moreover have "(of_nat (256 * unbe bs + unat b) :: byte) = b"
  proof -
    have "(256 :: byte) = 0" by simp
    then have "(of_nat (256 * unbe bs) :: byte) = 0"
      by (metis mult_zero_left of_nat_mult of_nat_numeral)
    then show ?thesis by (simp only: of_nat_add) simp
  qed
  ultimately show ?case using snoc.IH by simp
qed

definition PutUint16 :: "16 word \<Rightarrow> byte list" where
  "PutUint16 v = be 2 (unat v)"

definition Uint16 :: "byte list \<Rightarrow> 16 word" where
  "Uint16 bs = of_nat (unbe bs)"

definition PutUint32 :: "32 word \<Rightarrow> byte list" where
  "PutUint32 v = be 4 (unat v)"

definition Uint32 :: "byte list \<Rightarrow> 32 word" where
  "Uint32 bs = of_nat (unbe bs)"

text \<open>
  The contract of a fixed-width field: what is written has the width, what is written is read
  back, and every byte string of the width is the writing of what it reads as.
\<close>

locale field_codec =
  fixes enc :: "'v \<Rightarrow> byte list" and dec :: "byte list \<Rightarrow> 'v" and width :: nat
  assumes width: "length (enc v) = width"
    and dec_enc: "dec (enc v) = v"
    and enc_dec: "length bs = width \<Longrightarrow> enc (dec bs) = bs"
begin

lemma dec_take: "dec (take width (enc v @ rest)) = v"
  by (simp add: width dec_enc)

lemma enc_inject: "enc v = enc w \<longleftrightarrow> v = w"
  by (metis dec_enc)

lemma enc_dec_take: "width \<le> length bs \<Longrightarrow> enc (dec (take width bs)) = take width bs"
  by (simp add: enc_dec)

end

interpretation u16: field_codec PutUint16 Uint16 2
proof
  fix v :: "16 word" and bs :: "byte list"
  show "length (PutUint16 v) = 2" by (simp add: PutUint16_def)
  have "unat v < 65536" using unsigned_less [of v] by simp
  then show "Uint16 (PutUint16 v) = v" by (simp add: PutUint16_def Uint16_def)
  assume "length bs = 2"
  moreover from this have "unbe bs < 65536" using unbe_less [of bs] by simp
  ultimately show "PutUint16 (Uint16 bs) = bs"
    using be_unbe [of bs] by (simp add: PutUint16_def Uint16_def unat_of_nat)
qed

interpretation u32: field_codec PutUint32 Uint32 4
proof
  fix v :: "32 word" and bs :: "byte list"
  show "length (PutUint32 v) = 4" by (simp add: PutUint32_def)
  have "unat v < 4294967296" using unsigned_less [of v] by simp
  then show "Uint32 (PutUint32 v) = v" by (simp add: PutUint32_def Uint32_def)
  assume "length bs = 4"
  moreover from this have "unbe bs < 4294967296" using unbe_less [of bs] by simp
  ultimately show "PutUint32 (Uint32 bs) = bs"
    using be_unbe [of bs] by (simp add: PutUint32_def Uint32_def unat_of_nat)
qed

lemmas field_widths [simp, wire_simps] = u16.width u32.width
lemmas field_reads [simp, wire_simps] = u16.dec_enc u32.dec_enc u16.dec_take u32.dec_take


subsection \<open>Byte strings and in-place writes\<close>

text \<open>
  \<open>bytes_of\<close> is the conversion \<open>[]byte(s)\<close>. \<open>put\<close> is a write of a whole field into a buffer at an
  offset, and \<open>go_copy\<close> is the builtin \<open>copy(dst[off:], src)\<close>, which writes as much as fits and
  returns how much that was.
\<close>

definition bytes_of :: "string \<Rightarrow> byte list" where
  "bytes_of s = map of_char s"

lemma length_bytes_of [simp, wire_simps]: "length (bytes_of s) = length s"
  by (simp add: bytes_of_def)

definition put :: "nat \<Rightarrow> byte list \<Rightarrow> byte list \<Rightarrow> byte list" where
  "put off bs out = take off out @ bs @ drop (off + length bs) out"

definition go_copy :: "nat \<Rightarrow> byte list \<Rightarrow> byte list \<Rightarrow> byte list \<times> nat" where
  "go_copy off src dst =
     (let n = min (length dst - off) (length src) in (put off (take n src) dst, n))"

lemma length_put [simp]: "off + length bs \<le> length out \<Longrightarrow> length (put off bs out) = length out"
  by (simp add: put_def)

lemma put_append:
  "off = length pre \<Longrightarrow> length bs = length mid \<Longrightarrow> put off bs (pre @ mid @ post) = pre @ bs @ post"
  by (simp add: put_def)

lemma put_zeros:
  "off = length pre \<Longrightarrow> length bs \<le> n \<Longrightarrow>
   put off bs (pre @ replicate n 0) = pre @ bs @ replicate (n - length bs) 0"
  by (simp add: put_def)

subsection \<open>Characters, decimal and hexadecimal text\<close>

definition code_of :: "char \<Rightarrow> nat" where
  "code_of c = of_char c"

definition is_digit :: "char \<Rightarrow> bool" where
  "is_digit c \<longleftrightarrow> 48 \<le> code_of c \<and> code_of c \<le> 57"

definition digit :: "nat \<Rightarrow> char" where
  "digit d = char_of (48 + d)"

text \<open>\<open>strconv.FormatUint(n, 10)\<close> and \<open>strconv.ParseUint(s, 10, bits)\<close>.\<close>

fun FormatUint :: "nat \<Rightarrow> string" where
  "FormatUint n = (if n < 10 then [digit n] else FormatUint (n div 10) @ [digit (n mod 10)])"

declare FormatUint.simps [simp del]

definition dec_val :: "string \<Rightarrow> nat" where
  "dec_val s = foldl (\<lambda>a c. 10 * a + (code_of c - 48)) 0 s"

definition ParseUint :: "string \<Rightarrow> nat \<Rightarrow> nat option" where
  "ParseUint s bits =
     (if s = [] \<or> \<not> list_all is_digit s then None
      else if dec_val s < 2 ^ bits then Some (dec_val s) else None)"

lemma code_of_digit [simp]: "d < 10 \<Longrightarrow> code_of (digit d) = 48 + d"
  by (simp add: code_of_def digit_def)

lemma is_digit_digit [simp]: "d < 10 \<Longrightarrow> is_digit (digit d)"
  by (simp add: is_digit_def)

lemma dec_val_snoc [simp]: "dec_val (s @ [c]) = 10 * dec_val s + (code_of c - 48)"
  by (simp add: dec_val_def)

lemma FormatUint_digits: "FormatUint n \<noteq> [] \<and> list_all is_digit (FormatUint n) \<and> dec_val (FormatUint n) = n"
proof (induction n rule: FormatUint.induct)
  case (1 n)
  show ?case
  proof (cases "n < 10")
    case True
    then show ?thesis
      by (simp add: FormatUint.simps [of n]) (simp add: dec_val_def)
  next
    case False
    with "1.IH" show ?thesis by (simp add: FormatUint.simps [of n])
  qed
qed

lemma ParseUint_FormatUint: "n < 2 ^ bits \<Longrightarrow> ParseUint (FormatUint n) bits = Some n"
  using FormatUint_digits [of n] by (simp add: ParseUint_def)

lemma FormatUint_inject: "FormatUint m = FormatUint n \<longleftrightarrow> m = n"
  by (metis FormatUint_digits)

lemma ParseUint_Some: "ParseUint s bits = Some n \<Longrightarrow> n < 2 ^ bits \<and> list_all is_digit s \<and> s \<noteq> []"
  by (auto simp: ParseUint_def split: if_splits)

text \<open>
  Hexadecimal: \<open>hex_val\<close> is the value of one digit of either case, \<open>DecodeString\<close> is
  \<open>encoding/hex.DecodeString\<close>, whose error (odd length, a character that is no digit) is
  \<^const>\<open>None\<close>, and \<open>is_lhex\<close> is the class \<open>[a-f0-9]\<close>.
\<close>

definition hex_val :: "char \<Rightarrow> nat option" where
  "hex_val c =
     (let k = code_of c in
      if 48 \<le> k \<and> k \<le> 57 then Some (k - 48)
      else if 97 \<le> k \<and> k \<le> 102 then Some (k - 87)
      else if 65 \<le> k \<and> k \<le> 70 then Some (k - 55)
      else None)"

fun DecodeString :: "string \<Rightarrow> byte list option" where
  "DecodeString [] = Some []"
| "DecodeString [c] = None"
| "DecodeString (c # d # s) =
     (case (hex_val c, hex_val d, DecodeString s) of
        (Some h, Some l, Some bs) \<Rightarrow> Some (of_nat (16 * h + l) # bs)
      | _ \<Rightarrow> None)"

definition is_lhex :: "char \<Rightarrow> bool" where
  "is_lhex c \<longleftrightarrow> is_digit c \<or> (97 \<le> code_of c \<and> code_of c \<le> 102)"

lemma code_of_inject: "code_of c = code_of d \<longleftrightarrow> c = d"
  by (simp add: code_of_def)

lemma is_lhex_val: "is_lhex c \<Longrightarrow> \<exists>h < 16. hex_val c = Some h"
  by (auto simp: is_lhex_def is_digit_def hex_val_def Let_def)

lemma lhex_val_inject: "is_lhex c \<Longrightarrow> is_lhex d \<Longrightarrow> hex_val c = hex_val d \<Longrightarrow> c = d"
  by (auto simp: is_lhex_def is_digit_def hex_val_def Let_def code_of_inject [symmetric] split: if_splits)

lemma lhex_not_dash: "is_lhex c \<Longrightarrow> c \<noteq> CHR ''-''"
  by (auto simp: is_lhex_def is_digit_def code_of_def)

lemma DecodeString_lhex:
  "list_all is_lhex s \<Longrightarrow> even (length s) \<Longrightarrow> \<exists>bs. DecodeString s = Some bs \<and> 2 * length bs = length s"
proof (induction s rule: DecodeString.induct)
  case (3 c d s)
  then obtain bs h l where "DecodeString s = Some bs" "2 * length bs = length s"
      "hex_val c = Some h" "hex_val d = Some l"
    using is_lhex_val by fastforce
  then show ?case by simp
qed auto

lemma DecodeString_lhex_inject:
  "list_all is_lhex s \<Longrightarrow> list_all is_lhex t \<Longrightarrow> length s = length t \<Longrightarrow>
   DecodeString s = Some bs \<Longrightarrow> DecodeString t = Some bs \<Longrightarrow> s = t"
proof (induction s arbitrary: t bs rule: DecodeString.induct)
  case (3 c d s)
  then obtain c' d' t' where t: "t = c' # d' # t'"
    by (metis length_Suc_conv)
  from "3.prems"(1,2) t obtain h l h' l' where
      hl: "hex_val c = Some h" "hex_val d = Some l" "hex_val c' = Some h'" "hex_val d' = Some l'"
      and less: "h < 16" "l < 16" "h' < 16" "l' < 16"
    using is_lhex_val [of c] is_lhex_val [of d] is_lhex_val [of c'] is_lhex_val [of d'] by auto
  from "3.prems"(4,5) t hl obtain cs where
      cs: "DecodeString s = Some cs" "DecodeString t' = Some cs"
      and eq: "(of_nat (16 * h + l) :: byte) = of_nat (16 * h' + l')"
    by (auto split: option.splits)
  from eq have "unat (of_nat (16 * h + l) :: byte) = unat (of_nat (16 * h' + l') :: byte)"
    by (simp only:)
  then have "(16 * h + l) mod 256 = (16 * h' + l') mod 256" by (simp only: unat_byte_of_nat)
  then have "16 * h + l = 16 * h' + l'" using less by simp
  then have "(16 * h + l) div 16 = (16 * h' + l') div 16" "(16 * h + l) mod 16 = (16 * h' + l') mod 16"
    by (simp_all only:)
  then have "h = h'" "l = l'" using less by simp_all
  then have "c = c'" "d = d'"
    using hl "3.prems"(1,2) t by (auto intro: lhex_val_inject)
  moreover have "s = t'"
    by (rule "3.IH" [OF _ _ _ cs]) (use "3.prems"(1-3) t in simp_all)
  ultimately show ?case using t by simp
qed auto

subsection \<open>Maps with an open iteration order\<close>

declare map_of_eq_Some_iff [simp del] Some_eq_map_of_iff [simp del]

lemma map_of_update [go_maps]: "map_of (AList.update k v m) = (map_of m)(k \<mapsto> v)"
  by (simp add: update_conv')

lemma map_of_delete [go_maps]: "map_of (AList.delete k m) = (map_of m)(k := None)"
  by (simp add: delete_conv')

lemma distinct_keys_update [simp]: "distinct (map fst m) \<Longrightarrow> distinct (map fst (AList.update k v m))"
  by (rule distinct_update)

lemma distinct_keys_delete [simp]: "distinct (map fst m) \<Longrightarrow> distinct (map fst (AList.delete k m))"
  by (rule distinct_delete)

lemma set_gomap: "distinct (map fst m) \<Longrightarrow> (k, v) \<in> set m \<longleftrightarrow> map_of m k = Some v"
  by (simp add: map_of_eq_Some_iff)

lemma gomap_values: "distinct (map fst m) \<Longrightarrow> v \<in> snd ` set m \<longleftrightarrow> (\<exists>k. map_of m k = Some v)"
  by (metis (no_types, lifting) image_iff set_gomap prod.collapse snd_conv)

text \<open>
  Sorting by a key that identifies the elements does not depend on the order they arrived in:
  what makes an answer assembled from a map deterministic.
\<close>

lemma sort_key_order_independent:
  fixes f :: "'a \<Rightarrow> 'k::linorder"
  assumes "mset xs = mset ys" and "inj_on f (set xs)"
  shows "sort_key f xs = sort_key f ys"
  by (rule sort_key_inj_key_eq) (use assms in auto)

lemma inj_on_key_distinct: "distinct (map f xs) \<Longrightarrow> inj_on f (set xs)"
  by (simp add: distinct_map)

lemma keyed_list_unique:
  fixes f :: "'a \<Rightarrow> 'k::linorder"
  assumes "sorted (map f xs)" "distinct (map f xs)" "sorted (map f ys)" "distinct (map f ys)"
    and "set xs = set ys"
  shows "xs = ys"
proof -
  have "map f xs = map f ys"
    by (rule sorted_distinct_set_unique) (use assms in auto)
  moreover have "inj_on f (set xs \<union> set ys)"
    using assms by (simp add: distinct_map)
  ultimately show ?thesis by (rule map_inj_on)
qed

lemma distinct_sort_key [simp]: "distinct (map f (sort_key f xs)) = distinct (map f xs)"
proof -
  have "mset (map f (sort_key f xs)) = mset (map f xs)" by simp
  then show ?thesis by (rule mset_eq_imp_distinct_iff)
qed

end
