(* ===== verification/Netip.thy ===== *)
theory Netip
  imports Prelude
begin

text \<open>
  The address parsing of Go's standard library as \<open>src/x1\<close> uses it: \<open>netip.ParseAddr\<close> and
  \<open>net.SplitHostPort\<close>. A parsed address keeps its octets and, for IPv6, its zone, which the parser
  accepts with any content as long as it is not empty.
\<close>

subsection \<open>netip.ParseAddr\<close>

datatype addr = Addr4 "nat list" | Addr6 "nat list" string

fun Is4 :: "addr \<Rightarrow> bool" where
  "Is4 (Addr4 b) = True"
| "Is4 (Addr6 b z) = False"

text \<open>
  \<open>parseIPv4Fields\<close>: \<open>first\<close> is \<open>i == 0\<close>, \<open>dot\<close> is \<open>s[i-1] == '.'\<close>, \<open>fs\<close> the fields so far (their
  number is \<open>pos\<close>).
\<close>

fun parseIPv4Fields :: "string \<Rightarrow> bool \<Rightarrow> bool \<Rightarrow> nat list \<Rightarrow> nat \<Rightarrow> nat \<Rightarrow> nat list option" where
  "parseIPv4Fields [] first dot fs v digLen = (if length fs < 3 then None else Some (fs @ [v]))"
| "parseIPv4Fields (c # s) first dot fs v digLen =
     (if is_digit c then
        (if digLen = 1 \<and> v = 0 then None
         else let v1 = v * 10 + (code_of c - 48)
              in if v1 > 255 then None else parseIPv4Fields s False False fs v1 (digLen + 1))
      else if c = CHR ''.'' then
        (if first \<or> s = [] \<or> dot then None
         else if length fs = 3 then None
         else parseIPv4Fields s False True (fs @ [v]) 0 0)
      else None)"

definition parseIPv4 :: "string \<Rightarrow> nat list option" where
  "parseIPv4 s = parseIPv4Fields s True False [] 0 0"

text \<open>One group: the value of the digits at the front, refused beyond four, and what follows them.\<close>

definition hex_group :: "string \<Rightarrow> (nat \<times> string) option" where
  "hex_group s =
     (let ds = takeWhile (\<lambda>c. hex_val c \<noteq> None) s
      in if length ds > 4 then None
         else if length ds = 0 then None
         else Some (foldl (\<lambda>acc c. 16 * acc + the (hex_val c)) 0 ds, drop (length ds) s))"

text \<open>
  One round of the group loop of \<open>parseIPv6\<close>; \<open>ip\<close> holds the octets so far, so \<open>i\<close> is its length.
  The flag says whether the loop goes on.
\<close>

definition parseIPv6_group :: "string \<Rightarrow> nat list \<Rightarrow> nat option \<Rightarrow> ((string \<times> nat list \<times> nat option) \<times> bool) option" where
  "parseIPv6_group s ip ellipsis =
     (case hex_group s of
        None \<Rightarrow> None
      | Some (acc, rest) \<Rightarrow>
          let ip1 = ip @ [acc div 256, acc mod 256] in
          (case rest of
             [] \<Rightarrow> Some (([], ip1, ellipsis), False)
           | c # s1 \<Rightarrow>
               if c = CHR ''.'' then
                 (if ellipsis = None \<and> length ip \<noteq> 12 then None
                  else if length ip + 4 > 16 then None
                  else map_option (\<lambda>fields. (([], ip @ fields, ellipsis), False)) (parseIPv4 s))
               else if c \<noteq> CHR '':'' then None
               else (case s1 of
                       [] \<Rightarrow> None
                     | d # s2 \<Rightarrow>
                         if d = CHR '':'' then
                           (if ellipsis \<noteq> None then None
                            else Some ((s2, ip1, Some (length ip1)), s2 \<noteq> []))
                         else Some ((s1, ip1, ellipsis), True))))"

lemma parseIPv6_group_grows:
  "parseIPv6_group s ip e = Some ((s1, ip1, e1), True) \<Longrightarrow> length ip1 = length ip + 2"
  by (auto simp: parseIPv6_group_def Let_def split: option.splits list.splits if_splits)

function parseIPv6_loop :: "string \<Rightarrow> nat list \<Rightarrow> nat option \<Rightarrow> (string \<times> nat list \<times> nat option) option" where
  "parseIPv6_loop s ip ellipsis =
     (if length ip \<ge> 16 then Some (s, ip, ellipsis)
      else case parseIPv6_group s ip ellipsis of
        None \<Rightarrow> None
      | Some ((s1, ip1, ellipsis1), again) \<Rightarrow>
          if again then parseIPv6_loop s1 ip1 ellipsis1 else Some (s1, ip1, ellipsis1))"
  by pat_completeness auto
termination
  by (relation "measure (\<lambda>(s, ip, e). 16 - length ip)") (auto dest: parseIPv6_group_grows)

declare parseIPv6_loop.simps [simp del]

definition split_zone :: "string \<Rightarrow> (string \<times> string) option" where
  "split_zone s =
     (let a = takeWhile (\<lambda>c. c \<noteq> CHR ''%'') s; z = dropWhile (\<lambda>c. c \<noteq> CHR ''%'') s
      in if z = [] then Some (s, '''')
         else if tl z = [] then None else Some (a, tl z))"

definition parseIPv6 :: "string \<Rightarrow> addr option" where
  "parseIPv6 inp =
     (case split_zone inp of
        None \<Rightarrow> None
      | Some (s, zone) \<Rightarrow>
          let lead = take 2 s = ''::'';
              s0 = (if lead then drop 2 s else s)
          in if lead \<and> s0 = [] then Some (Addr6 (replicate 16 0) zone)
             else case parseIPv6_loop s0 [] (if lead then Some 0 else None) of
               None \<Rightarrow> None
             | Some (rest, ip, ellipsis) \<Rightarrow>
                 if rest \<noteq> [] then None
                 else if length ip < 16 then
                   (case ellipsis of
                      None \<Rightarrow> None
                    | Some e \<Rightarrow> Some (Addr6 (take e ip @ replicate (16 - length ip) 0 @ drop e ip) zone))
                 else if ellipsis \<noteq> None then None
                 else Some (Addr6 ip zone))"

fun parse_dispatch :: "string \<Rightarrow> string \<Rightarrow> addr option" where
  "parse_dispatch inp [] = None"
| "parse_dispatch inp (c # s) =
     (if c = CHR ''.'' then map_option Addr4 (parseIPv4 inp)
      else if c = CHR '':'' then parseIPv6 inp
      else if c = CHR ''%'' then None
      else parse_dispatch inp s)"

definition ParseAddr :: "string \<Rightarrow> addr option" where
  "ParseAddr s = parse_dispatch s s"

subsection \<open>net.SplitHostPort\<close>

text \<open>The parts around the last colon, and around the first closing bracket.\<close>

definition before_last_colon :: "string \<Rightarrow> string" where
  "before_last_colon s = rev (tl (dropWhile (\<lambda>c. c \<noteq> CHR '':'') (rev s)))"

definition after_last_colon :: "string \<Rightarrow> string" where
  "after_last_colon s = rev (takeWhile (\<lambda>c. c \<noteq> CHR '':'') (rev s))"

definition SplitHostPort :: "string \<Rightarrow> (string \<times> string) option" where
  "SplitHostPort hp =
     (if CHR '':'' \<notin> set hp then None
      else
        let port = after_last_colon hp in
        if hp ! 0 = CHR ''['' then
          (if CHR '']'' \<notin> set hp then None
           else
             let e = length (takeWhile (\<lambda>c. c \<noteq> CHR '']'') hp) in
             if e + 1 \<noteq> length (before_last_colon hp) then None
             else if CHR ''['' \<in> set (drop 1 hp) then None
             else if CHR '']'' \<in> set (drop (e + 1) hp) then None
             else Some (drop 1 (take e hp), port))
        else
          let host = before_last_colon hp in
          if CHR '':'' \<in> set host then None
          else if CHR ''['' \<in> set hp then None
          else if CHR '']'' \<in> set hp then None
          else Some (host, port))"

subsection \<open>Facts\<close>

lemma IPv4Fields_chars:
  "parseIPv4Fields s a b fs v n = Some r \<Longrightarrow> list_all (\<lambda>c. is_digit c \<or> c = CHR ''.'') s"
  by (induction s arbitrary: a b fs v n) (auto simp: Let_def split: if_splits)

lemma IPv4Fields_length: "parseIPv4Fields s a b fs v n = Some r \<Longrightarrow> length fs \<le> 3 \<Longrightarrow> length r = 4"
  by (induction s arbitrary: a b fs v n) (auto simp: Let_def split: if_splits)

lemma IPv4Fields_range:
  "parseIPv4Fields s a b fs v n = Some r \<Longrightarrow> list_all (\<lambda>x. x \<le> 255) fs \<Longrightarrow> v \<le> 255 \<Longrightarrow> list_all (\<lambda>x. x \<le> 255) r"
  by (induction s arbitrary: a b fs v n) (auto simp: Let_def split: if_splits)

lemma parse_dispatch_cases:
  "parse_dispatch inp s = Some a \<Longrightarrow> (\<exists>b. a = Addr4 b \<and> parseIPv4 inp = Some b) \<or> parseIPv6 inp = Some a"
  by (induction inp s rule: parse_dispatch.induct) (auto split: if_splits)

lemma parseIPv6_not4: "parseIPv6 s = Some a \<Longrightarrow> \<not> Is4 a"
  by (auto simp: parseIPv6_def Let_def split: option.splits if_splits)

text \<open>An accepted IPv4 address has four octets and consists of digits and dots.\<close>

lemma ParseAddr_4:
  assumes "ParseAddr s = Some a" and "Is4 a"
  shows "\<exists>b. a = Addr4 b \<and> length b = 4 \<and> list_all (\<lambda>x. x \<le> 255) b \<and> list_all (\<lambda>c. is_digit c \<or> c = CHR ''.'') s"
proof -
  from assms obtain b where "a = Addr4 b" "parseIPv4 s = Some b"
    using parse_dispatch_cases [of s s a] parseIPv6_not4 [of s a] by (auto simp: ParseAddr_def)
  moreover from this have "parseIPv4Fields s True False [] 0 0 = Some b" by (simp add: parseIPv4_def)
  ultimately show ?thesis
    using IPv4Fields_length [of s True False "[]" 0 0 b] IPv4Fields_range [of s True False "[]" 0 0 b]
      IPv4Fields_chars [of s True False "[]" 0 0 b] by simp
qed

lemma ParseAddr_6: "ParseAddr s = Some a \<Longrightarrow> \<not> Is4 a \<Longrightarrow> parseIPv6 s = Some a"
  using parse_dispatch_cases [of s s a] by (auto simp: ParseAddr_def)

definition addr_char :: "char \<Rightarrow> bool" where
  "addr_char c \<longleftrightarrow> hex_val c \<noteq> None \<or> c = CHR '':'' \<or> c = CHR ''.''"

lemma digit_hex: "is_digit c \<Longrightarrow> hex_val c \<noteq> None"
  by (auto simp: is_digit_def hex_val_def Let_def)

lemma hex_group_chars:
  "hex_group s = Some (acc, rest) \<Longrightarrow> list_all addr_char rest \<Longrightarrow> list_all addr_char s"
proof -
  assume a: "hex_group s = Some (acc, rest)" "list_all addr_char rest"
  let ?ds = "takeWhile (\<lambda>c. hex_val c \<noteq> None) s"
  have "rest = dropWhile (\<lambda>c. hex_val c \<noteq> None) s"
    using a(1) by (auto simp: hex_group_def Let_def dropWhile_eq_drop split: if_splits)
  then have s: "?ds @ rest = s" by simp
  have "list_all addr_char ?ds" by (auto simp: list_all_iff addr_char_def dest: set_takeWhileD)
  then have "list_all addr_char (?ds @ rest)" using a(2) by simp
  then show ?thesis unfolding s .
qed

lemma IPv4_addr_chars: "parseIPv4 s = Some b \<Longrightarrow> list_all addr_char s"
proof -
  assume "parseIPv4 s = Some b"
  then have "list_all (\<lambda>c. is_digit c \<or> c = CHR ''.'') s" unfolding parseIPv4_def by (rule IPv4Fields_chars)
  then show ?thesis using digit_hex unfolding list_all_iff addr_char_def by blast
qed

lemma parseIPv6_group_chars:
  "parseIPv6_group s ip e = Some ((s1, ip1, e1), again) \<Longrightarrow> list_all addr_char s1 \<Longrightarrow> list_all addr_char s"
proof -
  assume a: "parseIPv6_group s ip e = Some ((s1, ip1, e1), again)" "list_all addr_char s1"
  then obtain acc rest where g: "hex_group s = Some (acc, rest)" by (auto simp: parseIPv6_group_def split: option.splits)
  have "list_all addr_char rest \<or> (\<exists>b. parseIPv4 s = Some b)"
    using a g by (auto simp: parseIPv6_group_def Let_def addr_char_def split: list.splits if_splits)
  then show ?thesis using hex_group_chars [OF g] IPv4_addr_chars by blast
qed

lemma parseIPv6_loop_chars: "parseIPv6_loop s ip e = Some ([], ip', e') \<Longrightarrow> list_all addr_char s"
proof (induction s ip e rule: parseIPv6_loop.induct)
  case (1 s ip e)
  show ?case
  proof (cases "length ip \<ge> 16")
    case True
    with "1.prems" show ?thesis by (simp add: parseIPv6_loop.simps)
  next
    case False
    with "1.prems" obtain s1 ip1 e1 again where g: "parseIPv6_group s ip e = Some ((s1, ip1, e1), again)"
      by (subst (asm) parseIPv6_loop.simps) (auto split: option.splits)
    have "list_all addr_char s1"
    proof (cases again)
      case True
      from "1.prems" False g True have "parseIPv6_loop s1 ip1 e1 = Some ([], ip', e')"
        by (subst (asm) parseIPv6_loop.simps) simp
      with "1.IH" [OF False g refl refl refl True] show ?thesis by blast
    next
      case stop: False
      from "1.prems" False g stop have "s1 = []" by (subst (asm) parseIPv6_loop.simps) simp
      then show ?thesis by simp
    qed
    with g show ?thesis by (rule parseIPv6_group_chars)
  qed
qed

lemma list_all_split: "list_all P (take n s) \<Longrightarrow> list_all P (drop n s) \<Longrightarrow> list_all P s"
  by (metis append_take_drop_id list_all_append)

text \<open>An accepted IPv6 address with no zone consists of hexadecimal digits, colons and dots.\<close>

lemma parseIPv6_chars:
  assumes "parseIPv6 s = Some (Addr6 b '''')"
  shows "list_all addr_char s"
proof -
  obtain a z where z: "split_zone s = Some (a, z)" using assms by (auto simp: parseIPv6_def split: option.splits)
  let ?s = "if take 2 a = ''::'' then drop 2 a else a"
  let ?r = "parseIPv6_loop ?s [] (if take 2 a = ''::'' then Some 0 else None)"
  have "z = ''''" using assms z by (auto simp: parseIPv6_def Let_def split: option.splits if_splits)
  with z have a: "a = s" by (auto simp: split_zone_def Let_def split: if_splits)
  have "take 2 a = ''::'' \<and> ?s = [] \<or> (\<exists>ip e. ?r = Some ([], ip, e))"
  proof (rule ccontr)
    assume n: "\<not> ?thesis"
    then have "parseIPv6 s = None"
      unfolding parseIPv6_def z by (cases ?r) (auto simp: Let_def split: if_splits)
    with assms show False by simp
  qed
  then have body: "list_all addr_char ?s"
  proof
    assume "take 2 a = ''::'' \<and> ?s = []"
    then have "?s = []" ..
    then show ?thesis by (simp only: list.pred_inject)
  next
    assume "\<exists>ip e. ?r = Some ([], ip, e)"
    then show ?thesis using parseIPv6_loop_chars by blast
  qed
  show ?thesis
  proof (cases "take 2 s = ''::''")
    case True
    then have "list_all addr_char (take 2 s)" by (simp add: addr_char_def)
    moreover have "list_all addr_char (drop 2 s)" using body unfolding a True if_P [OF refl] .
    ultimately show ?thesis by (rule list_all_split)
  qed (use body a in simp)
qed

text \<open>A host and a port joined the way this program joins them come apart again.\<close>

lemma last_colon:
  assumes "CHR '':'' \<notin> set p"
  shows "after_last_colon (h @ '':'' @ p) = p" and "before_last_colon (h @ '':'' @ p) = h"
proof -
  have r: "rev (h @ '':'' @ p) = rev p @ CHR '':'' # rev h" by simp
  have a: "\<forall>c \<in> set (rev p). c \<noteq> CHR '':''" using assms by auto
  show "after_last_colon (h @ '':'' @ p) = p"
    unfolding after_last_colon_def r using a by (simp add: takeWhile_append2 del: set_rev)
  show "before_last_colon (h @ '':'' @ p) = h"
    unfolding before_last_colon_def r using a by (simp add: dropWhile_append2 del: set_rev)
qed

definition host_char :: "char \<Rightarrow> bool" where
  "host_char c \<longleftrightarrow> c \<noteq> CHR ''['' \<and> c \<noteq> CHR '']''"

lemma SplitHostPort_plain:
  assumes "list_all host_char h" and "CHR '':'' \<notin> set h" and "list_all host_char p" and "CHR '':'' \<notin> set p"
  shows "SplitHostPort (h @ '':'' @ p) = Some (h, p)"
proof -
  have "(h @ '':'' @ p) ! 0 \<noteq> CHR ''[''" using assms(1) by (cases h) (auto simp: host_char_def)
  then show ?thesis using assms
    by (auto simp: SplitHostPort_def Let_def last_colon [of p h, simplified] list_all_iff host_char_def)
qed

lemma SplitHostPort_bracket:
  assumes "list_all host_char h" and "list_all host_char p" and "CHR '':'' \<notin> set p"
  shows "SplitHostPort ((''['' @ h @ '']'') @ '':'' @ p) = Some (h, p)"
proof -
  have t: "takeWhile (\<lambda>c. c \<noteq> CHR '']'') ((''['' @ h @ '']'') @ '':'' @ p) = ''['' @ h"
    using assms(1) by (simp add: takeWhile_append2 list_all_iff host_char_def)
  show ?thesis using assms last_colon [OF assms(3), of "''['' @ h @ '']''"]
    unfolding SplitHostPort_def t by (auto simp: Let_def list_all_iff host_char_def)
qed

lemma split_zone_none: "CHR ''%'' \<notin> set s \<Longrightarrow> split_zone s = Some (s, '''')"
  by (simp add: split_zone_def Let_def)

lemma parseIPv6_zone_free: "parseIPv6 s = Some a \<Longrightarrow> CHR ''%'' \<notin> set s \<Longrightarrow> \<exists>b. a = Addr6 b ''''"
  by (auto simp: parseIPv6_def split_zone_none Let_def split: option.splits if_splits)

lemma addr_char_host: "addr_char c \<Longrightarrow> host_char c"
  by (auto simp: addr_char_def host_char_def hex_val_def code_of_def Let_def split: if_splits)

lemma digit_chars: "is_digit c \<Longrightarrow> host_char c \<and> c \<noteq> CHR '':''"
  by (auto simp: is_digit_def host_char_def code_of_def)

lemma dotted_chars: "is_digit c \<or> c = CHR ''.'' \<Longrightarrow> host_char c \<and> c \<noteq> CHR '':''"
  using digit_chars by (auto simp: host_char_def)

lemma FormatUint_chars: "list_all host_char (FormatUint n) \<and> CHR '':'' \<notin> set (FormatUint n)"
  using FormatUint_digits [of n] digit_chars by (auto simp: list_all_iff)

text \<open>A bracketed host that holds a bracket itself never comes apart.\<close>

lemma SplitHostPort_brackets:
  assumes "\<not> list_all host_char h" and "CHR '':'' \<notin> set p"
  shows "SplitHostPort ((''['' @ h @ '']'') @ '':'' @ p) = None"
proof (cases "CHR '']'' \<in> set h")
  case True
  let ?hp = "(''['' @ h @ '']'') @ '':'' @ p"
  have "takeWhile (\<lambda>c. c \<noteq> CHR '']'') ?hp = ''['' @ takeWhile (\<lambda>c. c \<noteq> CHR '']'') h"
    using True by (simp add: takeWhile_append1)
  moreover have "length (takeWhile (\<lambda>c. c \<noteq> CHR '']'') h) < length h"
    using True by (induction h) auto
  ultimately show ?thesis using last_colon [OF assms(2), of "''['' @ h @ '']''"]
    unfolding SplitHostPort_def by (simp add: Let_def)
next
  case False
  then have "CHR ''['' \<in> set h" using assms(1) by (auto simp: list_all_iff host_char_def)
  then show ?thesis unfolding SplitHostPort_def by (simp add: Let_def)
qed

text \<open>An IPv6 address may be given a zone, with any text.\<close>

lemma parse_dispatch_6:
  "parse_dispatch inp s = Some a \<Longrightarrow> \<not> Is4 a \<Longrightarrow> parse_dispatch inp' (s @ r) = parseIPv6 inp'"
  by (induction s) (auto split: if_splits)

lemma ParseAddr_zone:
  assumes "ParseAddr a = Some x" and "\<not> Is4 x" and "CHR ''%'' \<notin> set a" and "z \<noteq> ''''"
  shows "\<exists>b. ParseAddr (a @ ''%'' @ z) = Some (Addr6 b z)"
proof -
  have six: "parseIPv6 a = Some x" by (rule ParseAddr_6 [OF assms(1,2)])
  have "\<forall>c \<in> set a. c \<noteq> CHR ''%''" using assms(3) by blast
  then have s: "split_zone (a @ ''%'' @ z) = Some (a, z)"
    using assms(4) by (simp add: split_zone_def Let_def takeWhile_append2 dropWhile_append2)
  have "\<exists>b. parseIPv6 (a @ ''%'' @ z) = Some (Addr6 b z)"
    using six unfolding parseIPv6_def s split_zone_none [OF assms(3)]
    by (auto simp: Let_def split: option.splits if_splits)
  then show ?thesis
    using parse_dispatch_6 [of a a x "a @ ''%'' @ z" "''%'' @ z"] assms(1,2) by (simp add: ParseAddr_def)
qed

end
