(* ===== verification/Types.thy ===== *)
theory Types
  imports Prelude
begin

text \<open>
  The domain model of \<open>src/types/types.go\<close> and \<open>src/types/xml.go\<close>: the identifiers a warrant may
  target, the interception task, the endpoints its product goes to, and the questions a point of
  interception asks of a task. \<open>RecordScope\<close> stays a string because the code converts an
  arbitrary string to it; the task state has a third value for Go's zero value, which a task
  carries until the store stamps it.
\<close>

subsection \<open>Data\<close>

datatype TargetIdentifierType =
    TargetSUPI | TargetPEI | TargetGPSI | TargetFSEID | TargetFTEID | TargetUEIPv4 | TargetUEIPv6
  | TargetTCPPort | TargetUDPPort | TargetPDRID | TargetQERID | TargetNetworkInstance
  | TargetGTPTunnelDirection | TargetPDR

record TargetIdentifier =
  tiType :: TargetIdentifierType
  tiValue :: string

type_synonym xid = string

datatype ProductType = ProductIRI | ProductCC

datatype DeliveryType = DeliveryX2 | DeliveryX3

record DeliveryEndpoint =
  deType :: DeliveryType
  deAddress :: string
  deDID :: string

datatype TaskState = TaskUnset | TaskActive | TaskInactive

record InterceptTask =
  XID :: xid
  Targets :: "TargetIdentifier list"
  DIDs :: "string list"
  Products :: "ProductType list"
  Deliveries :: "DeliveryEndpoint list"
  State :: TaskState
  ProductID :: xid
  CorrelationID :: "64 word"
  RecordScope :: string

definition zero_task :: InterceptTask where
  "zero_task = \<lparr>XID = '''', Targets = [], DIDs = [], Products = [], Deliveries = [],
     State = TaskUnset, ProductID = '''', CorrelationID = 0, RecordScope = ''''\<rparr>"

definition RecordScopeStandard :: string where
  "RecordScopeStandard = ''''"

definition RecordScopeIdentifierAssociation :: string where
  "RecordScopeIdentifierAssociation = ''IdentifierAssociation''"

definition RecordScopeAll :: string where
  "RecordScopeAll = ''All''"

subsection \<open>Operations\<close>

definition IsPacketCriterion :: "TargetIdentifierType \<Rightarrow> bool" where
  "IsPacketCriterion t =
     (case t of
        TargetFSEID \<Rightarrow> True | TargetFTEID \<Rightarrow> True | TargetUEIPv4 \<Rightarrow> True | TargetUEIPv6 \<Rightarrow> True
      | TargetTCPPort \<Rightarrow> True | TargetUDPPort \<Rightarrow> True | TargetPDRID \<Rightarrow> True | TargetQERID \<Rightarrow> True
      | TargetNetworkInstance \<Rightarrow> True | TargetGTPTunnelDirection \<Rightarrow> True | TargetPDR \<Rightarrow> True
      | _ \<Rightarrow> False)"

definition zero_header_xid :: "byte list" where
  "zero_header_xid = replicate 16 0"

text \<open>\<open>XID.Bytes\<close>: the header form of an identifier, all zero when it does not decode.\<close>

definition XID_Bytes :: "xid \<Rightarrow> byte list" where
  "XID_Bytes x =
     (case DecodeString (filter (\<lambda>c. c \<noteq> CHR ''-'') x) of
        Some b \<Rightarrow> if length b = 16 then b else zero_header_xid
      | None \<Rightarrow> zero_header_xid)"

definition XID_IsZero :: "xid \<Rightarrow> bool" where
  "XID_IsZero x \<longleftrightarrow> XID_Bytes x = zero_header_xid"

definition WantsIdentifierAssociation :: "InterceptTask \<Rightarrow> bool" where
  "WantsIdentifierAssociation t \<longleftrightarrow> RecordScope t \<noteq> RecordScopeStandard"

definition WantsGeneralRecords :: "InterceptTask \<Rightarrow> bool" where
  "WantsGeneralRecords t \<longleftrightarrow> RecordScope t \<noteq> RecordScopeIdentifierAssociation"

fun any_equal :: "TargetIdentifier \<Rightarrow> TargetIdentifier list \<Rightarrow> bool" where
  "any_equal want [] = False"
| "any_equal want (have # ids) = (if want = have then True else any_equal want ids)"

fun targets_any_loop :: "TargetIdentifier list \<Rightarrow> TargetIdentifier list \<Rightarrow> bool" where
  "targets_any_loop [] ids = False"
| "targets_any_loop (want # ts) ids =
     (if any_equal want ids then True else targets_any_loop ts ids)"

definition TargetsAny :: "InterceptTask \<Rightarrow> TargetIdentifier list \<Rightarrow> bool" where
  "TargetsAny t ids = targets_any_loop (Targets t) ids"

fun names_any_loop :: "TargetIdentifier list \<Rightarrow> TargetIdentifierType list \<Rightarrow> bool" where
  "names_any_loop [] kinds = False"
| "names_any_loop (want # ts) kinds =
     (if tiType want \<in> set kinds then True else names_any_loop ts kinds)"

definition NamesAnyType :: "InterceptTask \<Rightarrow> TargetIdentifierType list \<Rightarrow> bool" where
  "NamesAnyType t kinds = names_any_loop (Targets t) kinds"

fun split_loop :: "TargetIdentifier list \<Rightarrow> TargetIdentifier list \<Rightarrow>
    TargetIdentifier list \<times> TargetIdentifier list \<Rightarrow> TargetIdentifier list \<times> TargetIdentifier list" where
  "split_loop ts [] acc = acc"
| "split_loop ts (have # ids) (matched, other) =
     (if have \<in> set ts then split_loop ts ids (matched @ [have], other)
      else split_loop ts ids (matched, other @ [have]))"

definition SplitTargets :: "InterceptTask \<Rightarrow> TargetIdentifier list \<Rightarrow>
    TargetIdentifier list \<times> TargetIdentifier list" where
  "SplitTargets t ids = split_loop (Targets t) ids ([], [])"

definition WantsProduct :: "InterceptTask \<Rightarrow> ProductType \<Rightarrow> bool" where
  "WantsProduct t p \<longleftrightarrow> p \<in> set (Products t)"

fun addresses_loop :: "DeliveryType \<Rightarrow> string list \<Rightarrow> DeliveryEndpoint list \<Rightarrow> string list" where
  "addresses_loop dt out [] = out"
| "addresses_loop dt out (d # ds) =
     (if deType d \<noteq> dt \<or> deAddress d = '''' \<or> deAddress d \<in> set out
      then addresses_loop dt out ds
      else addresses_loop dt (out @ [deAddress d]) ds)"

definition DeliveryAddresses :: "InterceptTask \<Rightarrow> DeliveryType \<Rightarrow> string list" where
  "DeliveryAddresses t dt = addresses_loop dt [] (Deliveries t)"

fun dids_loop :: "DeliveryType \<Rightarrow> string \<Rightarrow> string list \<Rightarrow> DeliveryEndpoint list \<Rightarrow> string list" where
  "dids_loop dt address out [] = out"
| "dids_loop dt address out (d # ds) =
     (if deType d \<noteq> dt \<or> deAddress d \<noteq> address \<or> deDID d = '''' \<or> deDID d \<in> set out
      then dids_loop dt address out ds
      else dids_loop dt address (out @ [deDID d]) ds)"

definition DeliveryDIDs :: "InterceptTask \<Rightarrow> DeliveryType \<Rightarrow> string \<Rightarrow> string list" where
  "DeliveryDIDs t dt address = dids_loop dt address [] (Deliveries t)"

definition DeliveryXID :: "InterceptTask \<Rightarrow> xid" where
  "DeliveryXID t = (if ProductID t \<noteq> '''' then ProductID t else XID t)"

text \<open>\<open>XMLElement\<close> of \<open>src/types/xml.go\<close>; the \<open>bool\<close> result is the option.\<close>

definition XMLElement :: "TargetIdentifierType \<Rightarrow> string option" where
  "XMLElement t =
     (case t of
        TargetSUPI \<Rightarrow> Some ''supiimsi''
      | TargetPEI \<Rightarrow> Some ''peiImei''
      | TargetGPSI \<Rightarrow> Some ''gpsiMsisdn''
      | TargetUEIPv4 \<Rightarrow> Some ''ipv4Address''
      | TargetUEIPv6 \<Rightarrow> Some ''ipv6Address''
      | TargetTCPPort \<Rightarrow> Some ''tcpPort''
      | TargetUDPPort \<Rightarrow> Some ''udpPort''
      | _ \<Rightarrow> None)"

subsection \<open>Behaviour of the loops\<close>

lemma any_equal_iff [simp]: "any_equal want ids \<longleftrightarrow> want \<in> set ids"
  by (induction ids) auto

lemma TargetsAny_iff: "TargetsAny t ids \<longleftrightarrow> set (Targets t) \<inter> set ids \<noteq> {}"
proof -
  have "targets_any_loop ts ids \<longleftrightarrow> set ts \<inter> set ids \<noteq> {}" for ts
    by (induction ts) auto
  then show ?thesis by (simp add: TargetsAny_def)
qed

lemma NamesAnyType_iff: "NamesAnyType t kinds \<longleftrightarrow> (\<exists>ti \<in> set (Targets t). tiType ti \<in> set kinds)"
proof -
  have "names_any_loop ts kinds \<longleftrightarrow> (\<exists>ti \<in> set ts. tiType ti \<in> set kinds)" for ts
    by (induction ts) auto
  then show ?thesis by (simp add: NamesAnyType_def)
qed

lemma split_loop_filter:
  "split_loop ts ids (m, r) =
     (m @ filter (\<lambda>i. i \<in> set ts) ids, r @ filter (\<lambda>i. i \<notin> set ts) ids)"
  by (induction ids arbitrary: m r) auto

lemma SplitTargets_filter:
  "SplitTargets t ids = (filter (\<lambda>i. i \<in> set (Targets t)) ids, filter (\<lambda>i. i \<notin> set (Targets t)) ids)"
  by (simp add: SplitTargets_def split_loop_filter)

text \<open>
  The reference for the two deduplicating loops: keep the first occurrence of each element, in
  order of appearance.
\<close>

definition firsts :: "'a list \<Rightarrow> 'a list" where
  "firsts xs = rev (remdups (rev xs))"

lemma set_firsts [simp]: "set (firsts xs) = set xs"
  and distinct_firsts [simp]: "distinct (firsts xs)"
  by (simp_all add: firsts_def)

lemma firsts_Nil [simp]: "firsts [] = []"
  by (simp add: firsts_def)

lemma remdups_append_filter:
  "remdups (xs @ ys) = remdups (filter (\<lambda>x. x \<notin> set ys) xs) @ remdups ys"
  by (induction xs) auto

lemma firsts_Cons: "firsts (x # xs) = x # firsts (filter (\<lambda>y. y \<noteq> x) xs)"
  by (simp add: firsts_def remdups_append_filter rev_filter)

lemma addresses_loop_firsts:
  "addresses_loop dt out ds = out @ firsts (filter (\<lambda>a. a \<notin> set out)
     (map deAddress (filter (\<lambda>d. deType d = dt \<and> deAddress d \<noteq> '''') ds)))"
proof (induction ds arbitrary: out)
  case (Cons d ds)
  then show ?case
    by (auto simp: firsts_Cons intro!: arg_cong [where f = firsts] filter_cong)
qed simp

lemma dids_loop_firsts:
  "dids_loop dt a out ds = out @ firsts (filter (\<lambda>x. x \<notin> set out)
     (map deDID (filter (\<lambda>d. deType d = dt \<and> deAddress d = a \<and> deDID d \<noteq> '''') ds)))"
proof (induction ds arbitrary: out)
  case (Cons d ds)
  then show ?case
    by (auto simp: firsts_Cons intro!: arg_cong [where f = firsts] filter_cong)
qed simp

lemma DeliveryAddresses_firsts:
  "DeliveryAddresses t dt =
     firsts (map deAddress (filter (\<lambda>d. deType d = dt \<and> deAddress d \<noteq> '''') (Deliveries t)))"
  by (simp add: DeliveryAddresses_def addresses_loop_firsts)

lemma DeliveryDIDs_firsts:
  "DeliveryDIDs t dt a =
     firsts (map deDID (filter (\<lambda>d. deType d = dt \<and> deAddress d = a \<and> deDID d \<noteq> '''') (Deliveries t)))"
  by (simp add: DeliveryDIDs_def dids_loop_firsts)

subsection \<open>Properties\<close>

text \<open>
  \<open>SplitTargets\<close> divides a subject's identities without losing or inventing one: what it
  reports as matched are the identities the task names, what it reports as other are the rest, both
  in the order held, and there is a match exactly when \<open>TargetsAny\<close> says so.
\<close>

theorem SplitTargets_partition:
  "mset (fst (SplitTargets t ids)) + mset (snd (SplitTargets t ids)) = mset ids \<and>
   set (fst (SplitTargets t ids)) = set ids \<inter> set (Targets t) \<and>
   set (snd (SplitTargets t ids)) = set ids - set (Targets t) \<and>
   subseq (fst (SplitTargets t ids)) ids \<and> subseq (snd (SplitTargets t ids)) ids \<and>
   (TargetsAny t ids \<longleftrightarrow> fst (SplitTargets t ids) \<noteq> [])"
  by (auto simp: SplitTargets_filter TargetsAny_iff filter_empty_conv)

text \<open>
  Delivery is deduplicated by address and reporting by destination identifier. The addresses
  of a task for an interface are the non-empty addresses of its endpoints there, once each, in the
  order the task named them; the identifiers reported for such an address are those the task
  provisioned onto it, once each. An identifier is reported only for an address that is delivered
  to.
\<close>

theorem delivery_views:
  "DeliveryAddresses t dt =
     firsts (map deAddress (filter (\<lambda>d. deType d = dt \<and> deAddress d \<noteq> '''') (Deliveries t))) \<and>
   distinct (DeliveryAddresses t dt) \<and> distinct (DeliveryDIDs t dt a) \<and>
   set (DeliveryDIDs t dt a) =
     {deDID d | d. d \<in> set (Deliveries t) \<and> deType d = dt \<and> deAddress d = a \<and> deDID d \<noteq> ''''} \<and>
   (a \<in> set (DeliveryAddresses t dt) \<longleftrightarrow>
     a \<noteq> '''' \<and> (\<exists>d. d \<in> set (Deliveries t) \<and> deType d = dt \<and> deAddress d = a))"
  by (auto simp: DeliveryAddresses_firsts DeliveryDIDs_firsts)

end
