(* ===== verification/X1Messages.thy ===== *)
theory X1Messages
  imports Netip Types
begin

text \<open>
  The X1 request messages of \<open>src/x1/messages.go\<close> and what \<open>src/x1/x1.go\<close> decides from a message
  alone: which values are malformed, which fields this element cannot honour, and how target
  identifiers and delivery types map onto the domain model. A pointer is an option; a slice that is
  only counted or iterated is a list. A decoded request is the starting point here; how the text of
  a request is decoded into one is in theory \<open>X1Decode\<close>.

  An error is the X1 code it carries, 0 when it carries none (a plain \<open>error\<close> of the code), and its
  reason.
\<close>

subsection \<open>Errors\<close>

text \<open>An error text: the format and arguments of the \<open>fmt.Errorf\<close> that builds it.\<close>

datatype reason = Errorf string "arg list"
and arg = S string | N nat | W reason

datatype x1_error = Err nat reason

abbreviation errorf0 :: "string \<Rightarrow> reason" where
  "errorf0 fmt \<equiv> Errorf fmt []"

definition errCodeGeneric :: nat where "errCodeGeneric = 1000"
definition errCodeSchemaError :: nat where "errCodeSchemaError = 1010"
definition errCodeADMFCertMismatch :: nat where "errCodeADMFCertMismatch = 1030"
definition errCodeUnexpectedADMF :: nat where "errCodeUnexpectedADMF = 1040"
definition errCodeUnexpectedNE :: nat where "errCodeUnexpectedNE = 1060"
definition errCodeUnsupportedRequest :: nat where "errCodeUnsupportedRequest = 1080"
definition errCodeNoSuchTask :: nat where "errCodeNoSuchTask = 2020"
definition errCodeDIDExists :: nat where "errCodeDIDExists = 2030"
definition errCodeNoSuchDID :: nat where "errCodeNoSuchDID = 2040"
definition errCodeActivateFailed :: nat where "errCodeActivateFailed = 3000"
definition errCodeModifyFailed :: nat where "errCodeModifyFailed = 3001"
definition errCodeBadServiceType :: nat where "errCodeBadServiceType = 3050"
definition errCodeDeactAllOff :: nat where "errCodeDeactAllOff = 5010"
definition errCodeCreateDestFailed :: nat where "errCodeCreateDestFailed = 6000"
definition errCodeBadAddressType :: nat where "errCodeBadAddressType = 6020"
definition errCodeDestinationsInUse :: nat where "errCodeDestinationsInUse = 8010"
definition errCodeRemoveAllOff :: nat where "errCodeRemoveAllOff = 8020"

lemmas x1_codes = errCodeGeneric_def errCodeSchemaError_def errCodeADMFCertMismatch_def errCodeUnexpectedADMF_def
  errCodeUnexpectedNE_def errCodeUnsupportedRequest_def errCodeNoSuchTask_def errCodeDIDExists_def errCodeNoSuchDID_def
  errCodeActivateFailed_def errCodeModifyFailed_def errCodeBadServiceType_def errCodeDeactAllOff_def
  errCodeCreateDestFailed_def errCodeBadAddressType_def errCodeDestinationsInUse_def errCodeRemoveAllOff_def

fun errorCode :: "x1_error option \<Rightarrow> nat" where
  "errorCode None = 0"
| "errorCode (Some (Err c r)) = c"

definition refuse :: "nat \<Rightarrow> reason \<Rightarrow> x1_error" where
  "refuse code r = Err code r"

definition taskFailureCode :: "bool \<Rightarrow> nat" where
  "taskFailureCode isModify = (if isModify then errCodeModifyFailed else errCodeActivateFailed)"

subsection \<open>Messages\<close>

record Port =
  TCPPort :: "16 word option"
  UDPPort :: "16 word option"

record IPAddress =
  IPv4 :: string
  IPv6 :: string

record IPAddressPort =
  ipAddress :: IPAddress
  ipPort :: Port

record MessageExtension =
  extOwner :: string
  IdentifierAssociation :: "string option"
  Content :: "string list"

record DestinationDetails =
  ddDID :: string
  ddFriendlyName :: string
  ddDeliveryType :: string
  IPAddressAndPort :: "IPAddressPort option"
  ddExtensions :: "MessageExtension list"

record FTEID =
  TEID :: "32 word"
  fteidIPv4 :: string
  fteidIPv6 :: string

record FSEID =
  SEID :: "64 word"
  fseidIPv4 :: string
  fseidIPv6 :: string

record UPFLIT3Identifier =
  upfFSEID :: "FSEID option"
  upfPDRID :: "32 word option"
  upfQERID :: "32 word option"
  NetworkInstance :: string
  GTPTunnelDirection :: string
  upfFTEID :: "FTEID option"
  upfPDR :: string

record TargetIdentifierExtension =
  tieOwner :: string
  UPFT3 :: "UPFLIT3Identifier list option"

text \<open>\<open>TargetIdentifier\<close>, with a selector per arm.\<close>

datatype X1TargetIdentifier =
  X1TargetIdentifier (tgIMSI: string) (tgSUPIIMSI: string) (tgSUPINAI: string) (tgPEIIMEI: string) (tgPEIIMEISV: string)
    (tgGPSIMSISDN: string) (tgE164Number: string) (tgGTPUTunnelID: string) (tgIPv4Address: string) (tgIPv6Address: string)
    (tgTCPPort: string) (tgUDPPort: string) (tgExtension: "TargetIdentifierExtension option")

record TaskDetails =
  tdXID :: string
  TargetIdentifiers :: "X1TargetIdentifier list"
  tdDeliveryType :: string
  ListOfDIDs :: "string list"
  DSIDs :: "string list"
  tdCorrelationID :: string
  tdProductID :: string
  ListOfServiceTypes :: "string list"
  TaskDetailsExtensions :: "MessageExtension list"
  ListOfTrafficPolicyReferences :: "string list"

record X1RequestMessage =
  rqType :: string
  AdmfIdentifier :: string
  NeIdentifier :: string
  rqVersion :: string
  rqTransactionID :: string
  rqTaskDetails :: "TaskDetails option"
  rqXID :: string
  rqDestinationDetails :: "DestinationDetails option"
  rqDID :: string

definition ExtensionOwner3GPP :: string where "ExtensionOwner3GPP = ''3GPP''"
definition GTPDirectionOutbound :: string where "GTPDirectionOutbound = ''Outbound''"
definition GTPDirectionInbound :: string where "GTPDirectionInbound = ''Inbound''"
definition deliveryX2Only :: string where "deliveryX2Only = ''X2Only''"
definition deliveryX3Only :: string where "deliveryX3Only = ''X3Only''"
definition deliveryX2andX3 :: string where "deliveryX2andX3 = ''X2andX3''"
definition supportedVersion :: string where "supportedVersion = ''v1.6.1''"

lemmas x1_literals = ExtensionOwner3GPP_def GTPDirectionOutbound_def GTPDirectionInbound_def
  deliveryX2Only_def deliveryX3Only_def deliveryX2andX3_def supportedVersion_def

subsection \<open>Addresses and ports\<close>

definition Port_Value :: "Port \<Rightarrow> 16 word" where
  "Port_Value p = (case TCPPort p of Some n \<Rightarrow> n | None \<Rightarrow> (case UDPPort p of Some n \<Rightarrow> n | None \<Rightarrow> 0))"

definition Port_Arms :: "Port \<Rightarrow> nat" where
  "Port_Arms p = length (filter (\<lambda>v. v \<noteq> None) [TCPPort p, UDPPort p])"

definition IPAddress_Arms :: "IPAddress \<Rightarrow> nat" where
  "IPAddress_Arms a = length (filter (\<lambda>v. v \<noteq> '''') [IPv4 a, IPv6 a])"

definition IPAddress_Valid :: "IPAddress \<Rightarrow> reason option" where
  "IPAddress_Valid a =
     (if IPAddress_Arms a = 0 then Some (errorf0 ''address populates no arm of a choice; exactly one is valid'')
      else if IPAddress_Arms a > 1 then Some (Errorf ''address populates %d arms of a choice; exactly one is valid'' [N (IPAddress_Arms a)])
      else if IPv4 a \<noteq> '''' then
        (case ParseAddr (IPv4 a) of
           None \<Rightarrow> Some (Errorf ''IPv4Address %q is not an IPv4 address'' [S (IPv4 a)])
         | Some ip \<Rightarrow> if \<not> Is4 ip then Some (Errorf ''IPv4Address %q is not an IPv4 address'' [S (IPv4 a)]) else None)
      else
        (case ParseAddr (IPv6 a) of
           None \<Rightarrow> Some (Errorf ''IPv6Address %q is not an IPv6 address'' [S (IPv6 a)])
         | Some ip \<Rightarrow> if Is4 ip then Some (Errorf ''IPv6Address %q is not an IPv6 address'' [S (IPv6 a)]) else None))"

definition Port_Valid :: "Port \<Rightarrow> reason option" where
  "Port_Valid p =
     (if Port_Arms p = 0 then Some (errorf0 ''port populates no arm of a choice; exactly one is valid'')
      else if Port_Arms p > 1 then Some (Errorf ''port populates %d arms of a choice; exactly one is valid'' [N (Port_Arms p)])
      else if Port_Value p = 0 then Some (errorf0 ''port is 0, which names no endpoint'')
      else None)"

subsection \<open>Identifiers and versions\<close>

text \<open>The pattern \<open>[a-f0-9]{8}-[a-f0-9]{4}-[a-f0-9]{4}-[a-f0-9]{4}-[a-f0-9]{12}\<close>.\<close>

fun groups_match :: "nat list \<Rightarrow> string \<Rightarrow> bool" where
  "groups_match [] s \<longleftrightarrow> False"
| "groups_match [n] s \<longleftrightarrow> length s = n \<and> list_all is_lhex s"
| "groups_match (n # ns) s \<longleftrightarrow>
     n < length s \<and> list_all is_lhex (take n s) \<and> s ! n = CHR ''-'' \<and> groups_match ns (drop (Suc n) s)"

definition uuidPattern :: "string \<Rightarrow> bool" where
  "uuidPattern s = groups_match [8, 4, 4, 4, 12] s"

definition validIdentifier :: "string \<Rightarrow> string \<Rightarrow> x1_error option" where
  "validIdentifier field v = (if \<not> uuidPattern v then Some (refuse errCodeSchemaError (Errorf ''%s is not a UUID as the schema requires'' [S field])) else None)"

text \<open>The pattern \<open>v1\.\d+\.\d+\<close>.\<close>

definition versionPattern :: "string \<Rightarrow> bool" where
  "versionPattern v \<longleftrightarrow> take 3 v = ''v1.'' \<and>
     (let r = drop 3 v; a = takeWhile is_digit r; b = dropWhile is_digit r
      in a \<noteq> [] \<and> b \<noteq> [] \<and> hd b = CHR ''.'' \<and> tl b \<noteq> [] \<and> list_all is_digit (tl b))"

definition echoVersion :: "string \<Rightarrow> string" where
  "echoVersion v = (if versionPattern v then v else supportedVersion)"

text \<open>\<open>newUUID\<close> draws a random UUID; the value drawn is an argument.\<close>

definition echoTransactionID :: "string \<Rightarrow> string \<Rightarrow> string" where
  "echoTransactionID fresh i = (if uuidPattern i then i else fresh)"

definition localType :: "string \<Rightarrow> string" where
  "localType t = rev (takeWhile (\<lambda>c. c \<noteq> CHR '':'') (rev t))"

subsection \<open>Delivery types\<close>

definition deliveryProducts :: "string \<Rightarrow> x1_error + ProductType list" where
  "deliveryProducts dt =
     (if dt = deliveryX2Only then Inr [ProductIRI]
      else if dt = deliveryX3Only then Inr [ProductCC]
      else if dt = deliveryX2andX3 then Inr [ProductIRI, ProductCC]
      else Inl (Err 0 (Errorf ''unknown deliveryType %q'' [S dt])))"

definition deliveryTypeOf :: "ProductType list \<Rightarrow> string" where
  "deliveryTypeOf p =
     (let iri = ProductIRI \<in> set p; cc = ProductCC \<in> set p
      in if iri \<and> cc then deliveryX2andX3 else if cc then deliveryX3Only else deliveryX2Only)"

subsection \<open>Target identifiers\<close>

text \<open>
  \<open>strings.ToLower\<close>: on ASCII text it maps the letters; on other text it consults the Unicode
  tables, which \<open>uni\<close> stands for.
\<close>

definition ascii_lower :: "char \<Rightarrow> char" where
  "ascii_lower c = (if 65 \<le> code_of c \<and> code_of c \<le> 90 then char_of (code_of c + 32) else c)"

definition ToLower :: "(string \<Rightarrow> string) \<Rightarrow> string \<Rightarrow> string" where
  "ToLower uni s = (if list_all (\<lambda>c. code_of c < 128) s then map ascii_lower s else uni s)"

definition mapUPFLIT3Identifier :: "(string \<Rightarrow> string) \<Rightarrow> UPFLIT3Identifier \<Rightarrow> x1_error + TargetIdentifier" where
  "mapUPFLIT3Identifier uni i =
     (case upfFSEID i of
        Some f \<Rightarrow>
          if SEID f = 0 then Inl (Err 0 (errorf0 ''FSEID criterion carries no SEID''))
          else Inr \<lparr>tiType = TargetFSEID, tiValue = FormatUint (unat (SEID f))\<rparr>
      | None \<Rightarrow>
     (case upfFTEID i of
        Some f \<Rightarrow>
          let v = FormatUint (unat (TEID f));
              v = (if fteidIPv4 f \<noteq> '''' then v @ ''@'' @ fteidIPv4 f
                   else if fteidIPv6 f \<noteq> '''' then v @ ''@'' @ fteidIPv6 f
                   else v)
          in Inr \<lparr>tiType = TargetFTEID, tiValue = v\<rparr>
      | None \<Rightarrow>
     (case upfPDRID i of
        Some n \<Rightarrow> Inr \<lparr>tiType = TargetPDRID, tiValue = FormatUint (unat n)\<rparr>
      | None \<Rightarrow>
     (case upfQERID i of
        Some n \<Rightarrow> Inr \<lparr>tiType = TargetQERID, tiValue = FormatUint (unat n)\<rparr>
      | None \<Rightarrow>
     (if NetworkInstance i \<noteq> '''' then Inr \<lparr>tiType = TargetNetworkInstance, tiValue = ToLower uni (NetworkInstance i)\<rparr>
      else if GTPTunnelDirection i \<noteq> '''' then
        (if GTPTunnelDirection i = GTPDirectionOutbound \<or> GTPTunnelDirection i = GTPDirectionInbound
         then Inr \<lparr>tiType = TargetGTPTunnelDirection, tiValue = GTPTunnelDirection i\<rparr>
         else Inl (Err 0 (Errorf ''GTPTunnelDirection %q is not one of the enumerated values'' [S (GTPTunnelDirection i)])))
      else if upfPDR i \<noteq> '''' then Inr \<lparr>tiType = TargetPDR, tiValue = ToLower uni (upfPDR i)\<rparr>
      else Inl (Err 0 (errorf0 ''unsupported detection criterion'')))))))"

fun map_criteria :: "(string \<Rightarrow> string) \<Rightarrow> nat \<Rightarrow> nat \<Rightarrow> UPFLIT3Identifier list \<Rightarrow> x1_error + TargetIdentifier list" where
  "map_criteria uni i n [] = Inr []"
| "map_criteria uni i n (x # xs) =
     (case mapUPFLIT3Identifier uni x of
        Inl (Err c r) \<Rightarrow> Inl (Err c (Errorf ''LI_T3 detection criterion %d of %d: %w'' [N (i + 1), N n, W r]))
      | Inr t \<Rightarrow> (case map_criteria uni (i + 1) n xs of Inl e \<Rightarrow> Inl e | Inr ts \<Rightarrow> Inr (t # ts)))"

definition mapExtensionTarget :: "(string \<Rightarrow> string) \<Rightarrow> TargetIdentifierExtension \<Rightarrow> x1_error + TargetIdentifier list" where
  "mapExtensionTarget uni ext =
     (if tieOwner ext \<noteq> ExtensionOwner3GPP
      then Inl (Err 0 (Errorf ''target identifier extension owned by %q is not supported'' [S (tieOwner ext)]))
      else case UPFT3 ext of
        None \<Rightarrow> Inl (Err 0 (errorf0 ''unsupported target identifier extension''))
      | Some ids \<Rightarrow>
          if length ids = 0 then Inl (Err 0 (errorf0 ''unsupported target identifier extension''))
          else map_criteria uni 0 (length ids) ids)"

definition one :: "TargetIdentifierType \<Rightarrow> string \<Rightarrow> TargetIdentifier list" where
  "one kind v = [\<lparr>tiType = kind, tiValue = v\<rparr>]"

definition mapTarget :: "(string \<Rightarrow> string) \<Rightarrow> X1TargetIdentifier \<Rightarrow> x1_error + TargetIdentifier list" where
  "mapTarget uni t =
     (if tgSUPIIMSI t \<noteq> '''' then Inr (one TargetSUPI (tgSUPIIMSI t))
      else if tgIMSI t \<noteq> '''' then Inr (one TargetSUPI (tgIMSI t))
      else if tgSUPINAI t \<noteq> '''' then Inr (one TargetSUPI (tgSUPINAI t))
      else if tgPEIIMEI t \<noteq> '''' then Inr (one TargetPEI (tgPEIIMEI t))
      else if tgPEIIMEISV t \<noteq> '''' then Inr (one TargetPEI (tgPEIIMEISV t))
      else if tgGPSIMSISDN t \<noteq> '''' then Inr (one TargetGPSI (tgGPSIMSISDN t))
      else if tgE164Number t \<noteq> '''' then Inr (one TargetGPSI (tgE164Number t))
      else if tgGTPUTunnelID t \<noteq> '''' then Inr (one TargetFTEID (tgGTPUTunnelID t))
      else if tgIPv4Address t \<noteq> '''' then Inr (one TargetUEIPv4 (tgIPv4Address t))
      else if tgIPv6Address t \<noteq> '''' then Inr (one TargetUEIPv6 (tgIPv6Address t))
      else if tgTCPPort t \<noteq> '''' then Inr (one TargetTCPPort (tgTCPPort t))
      else if tgUDPPort t \<noteq> '''' then Inr (one TargetUDPPort (tgUDPPort t))
      else case tgExtension t of
        Some ext \<Rightarrow> mapExtensionTarget uni ext
      | None \<Rightarrow> Inl (Err 0 (errorf0 ''unsupported target identifier'')))"

definition populatedArms :: "X1TargetIdentifier \<Rightarrow> nat" where
  "populatedArms t =
     length (filter (\<lambda>v. v \<noteq> '''')
       [tgIMSI t, tgSUPIIMSI t, tgSUPINAI t, tgPEIIMEI t, tgPEIIMEISV t, tgGPSIMSISDN t, tgE164Number t,
        tgGTPUTunnelID t, tgIPv4Address t, tgIPv6Address t, tgTCPPort t, tgUDPPort t])
     + (if tgExtension t \<noteq> None then 1 else 0)"

definition populatedLIT3Arms :: "UPFLIT3Identifier \<Rightarrow> nat" where
  "populatedLIT3Arms i =
     length (filter (\<lambda>b. b)
       [upfFSEID i \<noteq> None, upfPDRID i \<noteq> None, upfQERID i \<noteq> None, upfFTEID i \<noteq> None,
        NetworkInstance i \<noteq> '''', GTPTunnelDirection i \<noteq> '''', upfPDR i \<noteq> ''''])"

subsection \<open>Malformed values\<close>

fun malformed_address :: "(string \<times> string \<times> bool) list \<Rightarrow> x1_error option" where
  "malformed_address [] = None"
| "malformed_address ((name, v, want4) # arms) =
     (if v = '''' then malformed_address arms
      else case ParseAddr v of
        None \<Rightarrow> Some (refuse errCodeSchemaError (Errorf ''%s %q is not an %s address'' [S name, S v, S name]))
      | Some ip \<Rightarrow>
          if Is4 ip \<noteq> want4 then Some (refuse errCodeSchemaError (Errorf ''%s %q is not an %s address'' [S name, S v, S name]))
          else malformed_address arms)"

fun malformed_port :: "(string \<times> string) list \<Rightarrow> x1_error option" where
  "malformed_port [] = None"
| "malformed_port ((name, v) # ports) =
     (if v = '''' then malformed_port ports
      else case ParseUint v 16 of
        None \<Rightarrow> Some (refuse errCodeSchemaError
                  (Errorf ''%s %q is not a port number in the range the schema defines'' [S name, S v]))
      | Some n \<Rightarrow> malformed_port ports)"

definition malformedTargetValue :: "X1TargetIdentifier \<Rightarrow> x1_error option" where
  "malformedTargetValue t =
     (case malformed_address [(''ipv4Address'', tgIPv4Address t, True), (''ipv6Address'', tgIPv6Address t, False)] of
        Some e \<Rightarrow> Some e
      | None \<Rightarrow> malformed_port [(''tcpPort'', tgTCPPort t), (''udpPort'', tgUDPPort t)])"

fun malformed_dids :: "string list \<Rightarrow> x1_error option" where
  "malformed_dids [] = None"
| "malformed_dids (did # dids) =
     (case validIdentifier ''dId'' did of Some e \<Rightarrow> Some e | None \<Rightarrow> malformed_dids dids)"

fun malformed_criteria :: "nat \<Rightarrow> nat \<Rightarrow> UPFLIT3Identifier list \<Rightarrow> x1_error option" where
  "malformed_criteria i cnt [] = None"
| "malformed_criteria i cnt (x # xs) =
     (if populatedLIT3Arms x > 1
      then Some (refuse errCodeSchemaError
             (Errorf ''LI_T3 detection criterion %d of %d populates %d arms of a choice; exactly one is valid''
               [N (i + 1), N cnt, N (populatedLIT3Arms x)]))
      else malformed_criteria (i + 1) cnt xs)"

fun malformed_targets :: "X1TargetIdentifier list \<Rightarrow> x1_error option" where
  "malformed_targets [] = None"
| "malformed_targets (ti # tis) =
     (case malformedTargetValue ti of
        Some e \<Rightarrow> Some e
      | None \<Rightarrow>
          if populatedArms ti > 1
          then Some (refuse errCodeSchemaError
                 (Errorf ''targetIdentifier populates %d arms of a choice; exactly one is valid'' [N (populatedArms ti)]))
          else case Option.bind (tgExtension ti) UPFT3 of
            None \<Rightarrow> malformed_targets tis
          | Some ids \<Rightarrow>
              (case malformed_criteria 0 (length ids) ids of Some e \<Rightarrow> Some e | None \<Rightarrow> malformed_targets tis))"

definition malformedTaskIdentifiers :: "TaskDetails \<Rightarrow> x1_error option" where
  "malformedTaskIdentifiers td =
     (case (if tdXID td \<noteq> '''' then validIdentifier ''xId'' (tdXID td) else None) of
        Some e \<Rightarrow> Some e
      | None \<Rightarrow>
     (case (if tdProductID td \<noteq> '''' then validIdentifier ''productID'' (tdProductID td) else None) of
        Some e \<Rightarrow> Some e
      | None \<Rightarrow>
     (case malformed_dids (ListOfDIDs td) of
        Some e \<Rightarrow> Some e
      | None \<Rightarrow> malformed_targets (TargetIdentifiers td))))"

subsection \<open>Fields that cannot be honoured\<close>

text \<open>\<open>strings.Join\<close>.\<close>

fun Join :: "string list \<Rightarrow> string \<Rightarrow> string" where
  "Join [] sep = ''''"
| "Join [x] sep = x"
| "Join (x # y # ys) sep = x @ sep @ Join (y # ys) sep"

definition extensionContentNames :: "MessageExtension \<Rightarrow> string" where
  "extensionContentNames ext =
     (if IdentifierAssociation ext \<noteq> None then Join (''IdentifierAssociationExtensions'' # Content ext) '', ''
      else if length (Content ext) = 0 then ''(no content)''
      else Join (Content ext) '', '')"

fun unhonourableExtensions :: "MessageExtension list \<Rightarrow> string \<Rightarrow> x1_error option" where
  "unhonourableExtensions [] on = None"
| "unhonourableExtensions (ext # exts) on =
     (if extOwner ext \<noteq> ExtensionOwner3GPP
      then Some (Err 0 (Errorf ''%s extension owned by %q is not supported'' [S on, S (extOwner ext)]))
      else case IdentifierAssociation ext of
        None \<Rightarrow> Some (Err 0 (Errorf ''3GPP %s extension %s is not supported'' [S on, S (extensionContentNames ext)]))
      | Some ev \<Rightarrow>
          if length (Content ext) > 0
          then Some (Err 0 (Errorf ''3GPP %s extension %s is not supported'' [S on, S (extensionContentNames ext)]))
          else if ev = RecordScopeIdentifierAssociation \<or> ev = RecordScopeAll
          then unhonourableExtensions exts on
          else Some (Err 0 (Errorf ''IdentifierAssociationEventsGenerated %q is not one of the enumerated values'' [S ev])))"

definition unhonourableTaskFields :: "TaskDetails \<Rightarrow> bool \<Rightarrow> x1_error option" where
  "unhonourableTaskFields td honoursCorrelation =
     (if tdCorrelationID td \<noteq> '''' \<and> \<not> honoursCorrelation
      then Some (Err 0 (errorf0 (''a provisioned correlationID is not supported by this element: '' @
             ''its correlation is derived per session, so one value cannot serve a task covering many'')))
      else if length (ListOfServiceTypes td) > 0
      then Some (refuse errCodeBadServiceType (errorf0 ''service-type scoping is not supported''))
      else if length (ListOfTrafficPolicyReferences td) > 0
      then Some (Err 0 (errorf0 ''listOfTrafficPolicyReferences is not supported''))
      else if length (DSIDs td) > 0
      then Some (Err 0 (errorf0 ''destination sets (dSId) are not supported''))
      else unhonourableExtensions (TaskDetailsExtensions td) ''task'')"

fun record_scope_loop :: "MessageExtension list \<Rightarrow> string" where
  "record_scope_loop [] = RecordScopeStandard"
| "record_scope_loop (ext # exts) =
     (case IdentifierAssociation ext of Some ev \<Rightarrow> ev | None \<Rightarrow> record_scope_loop exts)"

definition recordScope :: "TaskDetails \<Rightarrow> string" where
  "recordScope td = record_scope_loop (TaskDetailsExtensions td)"

subsection \<open>Facts\<close>

lemma uuid_shape:
  assumes "uuidPattern x"
  shows "length x = 36" and "list_all is_lhex (filter (\<lambda>c. c \<noteq> CHR ''-'') x)"
    and "length (filter (\<lambda>c. c \<noteq> CHR ''-'') x) = 32"
    and "\<And>y. uuidPattern y \<Longrightarrow> filter (\<lambda>c. c \<noteq> CHR ''-'') x = filter (\<lambda>c. c \<noteq> CHR ''-'') y \<Longrightarrow> x = y"
proof -
  have split: "\<exists>a b c d e. x = a @ CHR ''-'' # b @ CHR ''-'' # c @ CHR ''-'' # d @ CHR ''-'' # e \<and>
      length a = 8 \<and> length b = 4 \<and> length c = 4 \<and> length d = 4 \<and> length e = 12 \<and> list_all is_lhex (a @ b @ c @ d @ e)"
    if "uuidPattern x" for x
  proof -
    have step: "n < length s \<Longrightarrow> s ! n = CHR ''-'' \<Longrightarrow> s = take n s @ CHR ''-'' # drop (Suc n) s" for n s
      by (metis id_take_nth_drop)
    let ?s1 = "drop 9 x" and ?s2 = "drop 14 x" and ?s3 = "drop 19 x" and ?s4 = "drop 24 x"
    from that have m: "8 < length x" "x ! 8 = CHR ''-''" "list_all is_lhex (take 8 x)" "groups_match [4, 4, 4, 12] ?s1"
      by (simp_all add: uuidPattern_def)
    from m(4) have m1: "4 < length ?s1" "?s1 ! 4 = CHR ''-''" "list_all is_lhex (take 4 ?s1)" "groups_match [4, 4, 12] ?s2"
      by simp_all
    from m1(4) have m2: "4 < length ?s2" "?s2 ! 4 = CHR ''-''" "list_all is_lhex (take 4 ?s2)" "groups_match [4, 12] ?s3"
      by simp_all
    from m2(4) have m3: "4 < length ?s3" "?s3 ! 4 = CHR ''-''" "list_all is_lhex (take 4 ?s3)" "groups_match [12] ?s4"
      by simp_all
    have "x = take 8 x @ CHR ''-'' # ?s1" using step [OF m(1,2)] by simp
    moreover have "?s1 = take 4 ?s1 @ CHR ''-'' # ?s2" using step [OF m1(1,2)] by simp
    moreover have "?s2 = take 4 ?s2 @ CHR ''-'' # ?s3" using step [OF m2(1,2)] by simp
    moreover have "?s3 = take 4 ?s3 @ CHR ''-'' # ?s4" using step [OF m3(1,2)] by simp
    ultimately have "x = take 8 x @ CHR ''-'' # take 4 ?s1 @ CHR ''-'' # take 4 ?s2 @ CHR ''-'' # take 4 ?s3 @ CHR ''-'' # ?s4"
      by metis
    moreover have "length (take 8 x) = 8" "length (take 4 ?s1) = 4" "length (take 4 ?s2) = 4" "length (take 4 ?s3) = 4"
        "length ?s4 = 12" "list_all is_lhex (take 8 x @ take 4 ?s1 @ take 4 ?s2 @ take 4 ?s3 @ ?s4)"
      using m m1 m2 m3 by simp_all
    ultimately show ?thesis by blast
  qed
  have keep: "filter (\<lambda>c. c \<noteq> CHR ''-'') a = a" if "list_all is_lhex a" for a
    using that lhex_not_dash by (auto simp: list_all_iff filter_id_conv)
  obtain a b c d e where x: "x = a @ CHR ''-'' # b @ CHR ''-'' # c @ CHR ''-'' # d @ CHR ''-'' # e"
      "length a = 8" "length b = 4" "length c = 4" "length d = 4" "length e = 12" "list_all is_lhex (a @ b @ c @ d @ e)"
    using split [OF assms] by blast
  then have fx: "filter (\<lambda>c. c \<noteq> CHR ''-'') x = a @ b @ c @ d @ e" using keep by simp
  with x show "length x = 36" "list_all is_lhex (filter (\<lambda>c. c \<noteq> CHR ''-'') x)"
      "length (filter (\<lambda>c. c \<noteq> CHR ''-'') x) = 32" by simp_all
  fix y assume "uuidPattern y" and eq: "filter (\<lambda>c. c \<noteq> CHR ''-'') x = filter (\<lambda>c. c \<noteq> CHR ''-'') y"
  then obtain a' b' c' d' e' where y: "y = a' @ CHR ''-'' # b' @ CHR ''-'' # c' @ CHR ''-'' # d' @ CHR ''-'' # e'"
      "length a' = 8" "length b' = 4" "length c' = 4" "length d' = 4" "length e' = 12" "list_all is_lhex (a' @ b' @ c' @ d' @ e')"
    using split by blast
  then have "filter (\<lambda>c. c \<noteq> CHR ''-'') y = a' @ b' @ c' @ d' @ e'" using keep by simp
  with fx eq have "a @ b @ c @ d @ e = a' @ b' @ c' @ d' @ e'" by simp
  with x(2-6) y(2-6) show "x = y" unfolding x(1) y(1) by simp
qed

lemma uuid_decodes:
  assumes "uuidPattern x"
  shows "DecodeString (filter (\<lambda>c. c \<noteq> CHR ''-'') x) = Some (XID_Bytes x)" and "length (XID_Bytes x) = 16"
proof -
  obtain bs where "DecodeString (filter (\<lambda>c. c \<noteq> CHR ''-'') x) = Some bs" "2 * length bs = 32"
    using DecodeString_lhex [OF uuid_shape(2) [OF assms]] uuid_shape(3) [OF assms] by auto
  then show "DecodeString (filter (\<lambda>c. c \<noteq> CHR ''-'') x) = Some (XID_Bytes x)" "length (XID_Bytes x) = 16"
    by (simp_all add: XID_Bytes_def)
qed

lemma uuid_Bytes_inject:
  assumes "uuidPattern x" and "uuidPattern y" and "XID_Bytes x = XID_Bytes y"
  shows "x = y"
proof (rule uuid_shape(4) [OF assms(1,2)])
  show "filter (\<lambda>c. c \<noteq> CHR ''-'') x = filter (\<lambda>c. c \<noteq> CHR ''-'') y"
    by (rule DecodeString_lhex_inject [OF uuid_shape(2) [OF assms(1)] uuid_shape(2) [OF assms(2)]])
       (use uuid_shape(3) uuid_decodes(1) assms in auto)
qed

text \<open>A chain of checks that stops at the first error passes when each of them passes.\<close>

lemma first_error_None [simp]: "(case x of None \<Rightarrow> y | Some e \<Rightarrow> Some e) = None \<longleftrightarrow> x = None \<and> y = None"
  by (cases x) simp_all

lemma validIdentifier_iff [simp]: "validIdentifier f x = None \<longleftrightarrow> uuidPattern x"
  by (simp add: validIdentifier_def)

lemma malformed_dids_iff: "malformed_dids dids = None \<longleftrightarrow> list_all uuidPattern dids"
  by (induction dids) simp_all

lemma malformed_criteria_iff: "malformed_criteria i n ids = None \<longleftrightarrow> list_all (\<lambda>x. populatedLIT3Arms x \<le> 1) ids"
  by (induction ids arbitrary: i) auto

lemma malformed_targets_iff:
  "malformed_targets tis = None \<longleftrightarrow>
     list_all (\<lambda>t. malformedTargetValue t = None \<and> populatedArms t \<le> 1 \<and>
       (\<forall>ext ids. tgExtension t = Some ext \<and> UPFT3 ext = Some ids \<longrightarrow> list_all (\<lambda>x. populatedLIT3Arms x \<le> 1) ids)) tis"
proof (induction tis)
  case (Cons t tis)
  show ?case
  proof (cases "Option.bind (tgExtension t) UPFT3")
    case None
    moreover from None have "UPFT3 ext \<noteq> Some ids" if "tgExtension t = Some ext" for ext ids using that by auto
    ultimately show ?thesis using Cons by auto
  next
    case (Some ids)
    then obtain ext where "tgExtension t = Some ext" "UPFT3 ext = Some ids" by (auto simp: Option.bind_eq_Some_conv)
    then show ?thesis using Cons by (auto simp: malformed_criteria_iff)
  qed
qed simp

lemma malformedTaskIdentifiers_iff:
  "malformedTaskIdentifiers td = None \<longleftrightarrow>
     (tdXID td = '''' \<or> uuidPattern (tdXID td)) \<and> (tdProductID td = '''' \<or> uuidPattern (tdProductID td)) \<and>
     list_all uuidPattern (ListOfDIDs td) \<and> malformed_targets (TargetIdentifiers td) = None"
  unfolding malformedTaskIdentifiers_def by (simp add: malformed_dids_iff)

text \<open>Every refusal of a malformed value carries the schema error code.\<close>

lemma malformed_is_schema_error:
  assumes "malformedTaskIdentifiers td = Some e"
  shows "errorCode (Some e) = errCodeSchemaError"
proof -
  have addr: "malformed_address xs = Some e \<Longrightarrow> errorCode (Some e) = errCodeSchemaError" for xs
    by (induction xs rule: malformed_address.induct) (auto simp: refuse_def split: if_splits option.splits)
  have port: "malformed_port xs = Some e \<Longrightarrow> errorCode (Some e) = errCodeSchemaError" for xs
    by (induction xs rule: malformed_port.induct) (auto simp: refuse_def split: if_splits option.splits)
  have "malformedTargetValue t = Some e \<Longrightarrow> errorCode (Some e) = errCodeSchemaError" for t
    using addr port by (auto simp: malformedTargetValue_def simp del: malformed_address.simps malformed_port.simps split: option.splits)
  moreover have "malformed_criteria i n xs = Some e \<Longrightarrow> errorCode (Some e) = errCodeSchemaError" for i n xs
    by (induction xs arbitrary: i) (auto simp: refuse_def split: if_splits)
  ultimately have "malformed_targets tis = Some e \<Longrightarrow> errorCode (Some e) = errCodeSchemaError" for tis
    by (induction tis) (auto simp: refuse_def split: if_splits option.splits)
  moreover have "malformed_dids xs = Some e \<Longrightarrow> errorCode (Some e) = errCodeSchemaError" for xs
    by (induction xs) (auto simp: validIdentifier_def refuse_def split: if_splits option.splits)
  moreover have "validIdentifier f x = Some e \<Longrightarrow> errorCode (Some e) = errCodeSchemaError" for f x
    by (auto simp: validIdentifier_def refuse_def split: if_splits)
  ultimately show ?thesis using assms unfolding malformedTaskIdentifiers_def
    by (auto split: if_splits option.splits)
qed

text \<open>The arms that are plain text, with the kind each names.\<close>

definition plain_arms :: "X1TargetIdentifier \<Rightarrow> (TargetIdentifierType \<times> string) list" where
  "plain_arms t =
     [(TargetSUPI, tgSUPIIMSI t), (TargetSUPI, tgIMSI t), (TargetSUPI, tgSUPINAI t), (TargetPEI, tgPEIIMEI t),
      (TargetPEI, tgPEIIMEISV t), (TargetGPSI, tgGPSIMSISDN t), (TargetGPSI, tgE164Number t),
      (TargetFTEID, tgGTPUTunnelID t), (TargetUEIPv4, tgIPv4Address t), (TargetUEIPv6, tgIPv6Address t),
      (TargetTCPPort, tgTCPPort t), (TargetUDPPort, tgUDPPort t)]"

lemma map_criteria_all:
  "map_criteria uni i n ids = Inr ts \<Longrightarrow> list_all2 (\<lambda>x t. mapUPFLIT3Identifier uni x = Inr t) ids ts"
  by (induction ids arbitrary: i ts) (auto split: sum.splits x1_error.splits)

lemma mapUPFLIT3_plain: "mapUPFLIT3Identifier uni i = Inl (Err c r) \<Longrightarrow> c = 0"
  by (auto simp: mapUPFLIT3Identifier_def Let_def split: option.splits if_splits)

lemma find_only: "length (filter P xs) \<le> 1 \<Longrightarrow> x \<in> set xs \<Longrightarrow> P x \<Longrightarrow> find P xs = Some x"
proof (induction xs)
  case (Cons y ys)
  then show ?case by (cases "P y") (auto simp: filter_empty_conv)
qed simp

lemma mapTarget_find:
  "mapTarget uni t =
     (case find (\<lambda>(k, v). v \<noteq> '''') (plain_arms t) of
        Some (k, v) \<Rightarrow> Inr (one k v)
      | None \<Rightarrow> (case tgExtension t of
                   Some ext \<Rightarrow> mapExtensionTarget uni ext
                 | None \<Rightarrow> Inl (Err 0 (errorf0 ''unsupported target identifier''))))"
  by (simp add: mapTarget_def plain_arms_def)

lemma populatedArms_plain:
  "populatedArms t = length (filter (\<lambda>(k, v). v \<noteq> '''') (plain_arms t)) + (if tgExtension t \<noteq> None then 1 else 0)"
proof -
  have "length (filter P [b, a, c, d, e, f, g, h, i, j, k, l]) = length (filter P [a, b, c, d, e, f, g, h, i, j, k, l])"
    for P and a b c d e f g h i j k l :: string by simp
  moreover have "length (filter (\<lambda>(k, v). v \<noteq> '''') xs) = length (filter (\<lambda>v. v \<noteq> '''') (map snd xs))"
    for xs :: "(TargetIdentifierType \<times> string) list" by (induction xs) auto
  ultimately show ?thesis unfolding populatedArms_def plain_arms_def by (simp only: list.map snd_conv)
qed

text \<open>With at most one arm populated, the order of the switch does not matter.\<close>

lemma mapTarget_plain:
  assumes "populatedArms t \<le> 1" and "(k, v) \<in> set (plain_arms t)" and "v \<noteq> ''''"
  shows "mapTarget uni t = Inr (one k v)"
proof -
  have "find (\<lambda>(k, v). v \<noteq> '''') (plain_arms t) = Some (k, v)"
    by (rule find_only) (use assms populatedArms_plain [of t] in auto)
  then show ?thesis by (simp add: mapTarget_find)
qed

lemma mapTarget_extension:
  assumes "populatedArms t \<le> 1" and "tgExtension t = Some ext"
  shows "mapTarget uni t = mapExtensionTarget uni ext"
proof -
  have "filter (\<lambda>(k, v). v \<noteq> '''') (plain_arms t) = []" using assms populatedArms_plain [of t] by simp
  then have "find (\<lambda>(k, v). v \<noteq> '''') (plain_arms t) = None" by (auto simp: find_None_iff filter_empty_conv)
  with assms(2) show ?thesis by (simp add: mapTarget_find)
qed

subsection \<open>Properties\<close>

text \<open>
  An identifier that passes the door labels its product: a value of the schema's UUID format
  decodes to sixteen header octets, never to the all-zero fallback for text that does not parse,
  and two different identifiers have different headers. The mediation function can therefore
  attribute every unit to the warrant it was delivered under.
\<close>

theorem valid_identifier_labels_product:
  "validIdentifier f x = None \<Longrightarrow> validIdentifier g y = None \<Longrightarrow>
   DecodeString (filter (\<lambda>c. c \<noteq> CHR ''-'') x) = Some (XID_Bytes x) \<and> length (XID_Bytes x) = 16 \<and>
   (XID_Bytes x = XID_Bytes y \<longleftrightarrow> x = y)"
  using uuid_decodes [of x] uuid_Bytes_inject [of x y] by auto

definition ex_uuid :: string where
  "ex_uuid = ''0a000000-0000-4000-8000-00000000000b''"

lemma ex_uuid_ok: "uuidPattern ex_uuid"
  by code_simp

theorem valid_identifier_labels_product_witness:
  "XID_Bytes ex_uuid \<noteq> XID_Bytes ''0a000000-0000-4000-8000-00000000000c''"
proof -
  have "uuidPattern ''0a000000-0000-4000-8000-00000000000c''" "ex_uuid \<noteq> ''0a000000-0000-4000-8000-00000000000c''" by code_simp+
  with valid_identifier_labels_product [of "''xId''" ex_uuid "''xId''" "''0a000000-0000-4000-8000-00000000000c''"] ex_uuid_ok
  show ?thesis by simp
qed

text \<open>
  A delivery type survives provisioning and interrogation: the products a task was accepted
  with are reported back as the delivery type it named, every product list is reported as one of
  the three values, and any other text is refused.
\<close>

theorem deliveryType_roundtrip:
  "(case deliveryProducts dt of
      Inr ps \<Rightarrow> deliveryTypeOf ps = dt \<and> ps \<noteq> [] \<and> distinct ps
    | Inl e \<Rightarrow> dt \<noteq> deliveryX2Only \<and> dt \<noteq> deliveryX3Only \<and> dt \<noteq> deliveryX2andX3) \<and>
   (\<exists>qs. deliveryProducts (deliveryTypeOf ps) = Inr qs \<and> (ps \<noteq> [] \<longrightarrow> set qs = set ps))"
proof -
  have u: "x = ProductIRI \<or> x = ProductCC" for x by (cases x) auto
  have s: "set ps = (if ProductIRI \<in> set ps then {ProductIRI} else {}) \<union> (if ProductCC \<in> set ps then {ProductCC} else {})"
  proof (rule set_eqI)
    fix x show "x \<in> set ps \<longleftrightarrow> x \<in> (if ProductIRI \<in> set ps then {ProductIRI} else {}) \<union> (if ProductCC \<in> set ps then {ProductCC} else {})"
      by (cases x) auto
  qed
  have "ps \<noteq> [] \<Longrightarrow> ProductIRI \<in> set ps \<or> ProductCC \<in> set ps" by (metis u hd_in_set)
  then have 2: "\<exists>qs. deliveryProducts (deliveryTypeOf ps) = Inr qs \<and> (ps \<noteq> [] \<longrightarrow> set qs = set ps)"
    using s by (cases "ProductIRI \<in> set ps"; cases "ProductCC \<in> set ps")
      (auto simp: deliveryProducts_def deliveryTypeOf_def Let_def x1_literals)
  have 1: "case deliveryProducts dt of
      Inr ps \<Rightarrow> deliveryTypeOf ps = dt \<and> ps \<noteq> [] \<and> distinct ps
    | Inl e \<Rightarrow> dt \<noteq> deliveryX2Only \<and> dt \<noteq> deliveryX3Only \<and> dt \<noteq> deliveryX2andX3"
    by (simp add: deliveryProducts_def deliveryTypeOf_def Let_def)
  from 1 2 show ?thesis ..
qed

text \<open>
  C32. Every criterion ordered is a criterion held. When a target identifier populates at most one
  arm (any other message is refused before it is mapped) and is accepted, the result is exactly
  that arm, whatever the order in which the code looks at the arms; for the 3GPP extension the owner
  is 3GPP, the list is not empty, and each member of it, in order, is one criterion of the result.
\<close>

theorem mapTarget_complete:
  "populatedArms t \<le> 1 \<Longrightarrow> mapTarget uni t = Inr ts \<Longrightarrow>
   ts \<noteq> [] \<and>
   (\<forall>k v. (k, v) \<in> set (plain_arms t) \<and> v \<noteq> '''' \<longrightarrow> ts = [\<lparr>tiType = k, tiValue = v\<rparr>]) \<and>
   (\<forall>ext. tgExtension t = Some ext \<longrightarrow>
      tieOwner ext = ExtensionOwner3GPP \<and>
      (\<exists>ids. UPFT3 ext = Some ids \<and> ids \<noteq> [] \<and> list_all2 (\<lambda>x c. mapUPFLIT3Identifier uni x = Inr c) ids ts))"
proof (intro conjI allI impI)
  assume p: "populatedArms t \<le> 1" and m: "mapTarget uni t = Inr ts"
  have ext: "tieOwner ext = ExtensionOwner3GPP \<and>
      (\<exists>ids. UPFT3 ext = Some ids \<and> ids \<noteq> [] \<and> list_all2 (\<lambda>x c. mapUPFLIT3Identifier uni x = Inr c) ids ts)"
    if e: "mapExtensionTarget uni ext = Inr ts" for ext
    using e by (auto simp: mapExtensionTarget_def dest: map_criteria_all split: if_splits option.splits)
  show "ts \<noteq> []"
  proof (cases "find (\<lambda>(k, v). v \<noteq> '''') (plain_arms t)")
    case (Some a)
    with m show ?thesis by (cases a) (auto simp: mapTarget_find one_def)
  next
    case None
    with m ext show ?thesis by (fastforce simp: mapTarget_find split: option.splits)
  qed
  fix k v assume "(k, v) \<in> set (plain_arms t) \<and> v \<noteq> ''''"
  with mapTarget_plain [OF p] m show "ts = [\<lparr>tiType = k, tiValue = v\<rparr>]" by (auto simp: one_def)
next
  fix ext assume p: "populatedArms t \<le> 1" and m: "mapTarget uni t = Inr ts" and e: "tgExtension t = Some ext"
  from mapTarget_extension [OF p e, of uni] m have x: "mapExtensionTarget uni ext = Inr ts" by simp
  then show "tieOwner ext = ExtensionOwner3GPP" by (auto simp: mapExtensionTarget_def split: if_splits)
  from x show "\<exists>ids. UPFT3 ext = Some ids \<and> ids \<noteq> [] \<and> list_all2 (\<lambda>x c. mapUPFLIT3Identifier uni x = Inr c) ids ts"
    by (auto simp: mapExtensionTarget_def dest: map_criteria_all split: if_splits option.splits)
qed

definition ex_tid :: "string \<Rightarrow> X1TargetIdentifier" where
  "ex_tid imsi = X1TargetIdentifier imsi '''' '''' '''' '''' '''' '''' '''' '''' '''' '''' '''' None"

theorem mapTarget_complete_witness:
  "mapTarget id (ex_tid ''001'') = Inr [\<lparr>tiType = TargetSUPI, tiValue = ''001''\<rparr>]"
proof -
  have m: "mapTarget id (ex_tid ''001'') = Inr (one TargetSUPI ''001'')" by (simp add: mapTarget_def ex_tid_def)
  have "populatedArms (ex_tid ''001'') \<le> 1" by (simp add: populatedArms_def ex_tid_def)
  from mapTarget_complete [OF this m] show ?thesis using m by (simp add: plain_arms_def ex_tid_def)
qed

end
