(* ===== verification/X1Auth.thy ===== *)
theory X1Auth
  imports Prelude
begin

text \<open>
  Peer authentication of \<open>src/x1/auth.go\<close>. Of a certificate the code reads the names of its Subject,
  each an object identifier with a value that may or may not be a string, and its URIs in text form.
  A nil entry of the URI list, which the code skips, is left out of the list.
\<close>

subsection \<open>Certificates\<close>

datatype name_value = StringValue string | OtherValue

record certificate =
  SubjectNames :: "(nat list \<times> name_value) list"
  URIs :: "string list"

definition oidUID :: "nat list" where "oidUID = [0, 9, 2342, 19200300, 100, 1, 1]"
definition roleADMF :: string where "roleADMF = ''ADMF''"
definition roleNE :: string where "roleNE = ''NE''"

definition certBindingURNPrefix :: string where
  "certBindingURNPrefix = ''urn:etsi:li:103221-1:cert-binding:''"

fun subject_binds :: "(nat list \<times> name_value) list \<Rightarrow> string \<Rightarrow> bool" where
  "subject_binds [] identifier = False"
| "subject_binds ((oid, v) # names) identifier =
     (if oid \<noteq> oidUID then subject_binds names identifier
      else if v = StringValue identifier then True
      else subject_binds names identifier)"

fun uri_binds :: "string list \<Rightarrow> string \<Rightarrow> bool" where
  "uri_binds [] want = False"
| "uri_binds (u # us) want = (if u = want then True else uri_binds us want)"

definition certBinds :: "certificate option \<Rightarrow> string \<Rightarrow> string \<Rightarrow> bool" where
  "certBinds cert role identifier =
     (case cert of
        None \<Rightarrow> False
      | Some c \<Rightarrow>
          if identifier = '''' then False
          else if subject_binds (SubjectNames c) identifier then True
          else uri_binds (URIs c) (certBindingURNPrefix @ role @ '':'' @ identifier))"

fun subject_uid :: "(nat list \<times> name_value) list \<Rightarrow> string" where
  "subject_uid [] = ''''"
| "subject_uid ((oid, v) # names) =
     (if oid \<noteq> oidUID then subject_uid names
      else case v of StringValue s \<Rightarrow> s | OtherValue \<Rightarrow> subject_uid names)"

definition certUID :: "certificate option \<Rightarrow> string" where
  "certUID cert = (case cert of None \<Rightarrow> '''' | Some c \<Rightarrow> subject_uid (SubjectNames c))"

text \<open>\<open>strings.CutPrefix\<close>.\<close>

definition CutPrefix :: "string \<Rightarrow> string \<Rightarrow> string option" where
  "CutPrefix s p = (if take (length p) s = p then Some (drop (length p) s) else None)"

fun uri_identifier :: "string list \<Rightarrow> string \<Rightarrow> string" where
  "uri_identifier [] p = ''''"
| "uri_identifier (u # us) p =
     (case CutPrefix u p of
        Some i \<Rightarrow> if i \<noteq> '''' then i else uri_identifier us p
      | None \<Rightarrow> uri_identifier us p)"

definition certIdentifier :: "certificate option \<Rightarrow> string \<Rightarrow> string" where
  "certIdentifier cert role =
     (let uid = certUID cert in
      if uid \<noteq> '''' then uid
      else case cert of
        None \<Rightarrow> ''''
      | Some c \<Rightarrow> uri_identifier (URIs c) (certBindingURNPrefix @ role @ '':''))"

subsection \<open>Facts\<close>

lemma subject_binds_iff: "subject_binds names i \<longleftrightarrow> (oidUID, StringValue i) \<in> set names"
  by (induction names i rule: subject_binds.induct) auto

lemma uri_binds_iff: "uri_binds us want \<longleftrightarrow> want \<in> set us"
  by (induction us) auto

lemma certBinds_iff:
  "certBinds cert role i \<longleftrightarrow> i \<noteq> '''' \<and> (\<exists>c. cert = Some c \<and>
     ((oidUID, StringValue i) \<in> set (SubjectNames c) \<or> certBindingURNPrefix @ role @ '':'' @ i \<in> set (URIs c)))"
  by (auto simp: certBinds_def subject_binds_iff uri_binds_iff split: option.splits)

lemma subject_uid_binds: "subject_uid names \<noteq> '''' \<Longrightarrow> (oidUID, StringValue (subject_uid names)) \<in> set names"
  by (induction names rule: subject_uid.induct) (auto split: name_value.splits)

lemma uri_identifier_binds: "uri_identifier us p \<noteq> '''' \<Longrightarrow> p @ uri_identifier us p \<in> set us"
proof (induction us)
  case (Cons u us)
  show ?case
  proof (cases "CutPrefix u p")
    case None
    with Cons show ?thesis by simp
  next
    case (Some i)
    then have "u = p @ i" unfolding CutPrefix_def by (metis append_take_drop_id option.distinct(1) option.inject)
    with Some Cons show ?thesis by (auto split: if_splits)
  qed
qed simp

subsection \<open>Properties\<close>

text \<open>
  The identifier an unparseable request is answered under is one the certificate really binds:
  whenever \<open>certIdentifier\<close> names a peer in a role, \<open>certBinds\<close> accepts the certificate for that
  identifier in that role, so the two functions cannot disagree about who a peer is; and it finds a
  name whenever the certificate binds one by Subject or for that role by URI, unless the first UID
  of its Subject is an empty string.
\<close>

theorem certIdentifier_is_bound:
  "(certIdentifier cert role \<noteq> '''' \<longrightarrow> certBinds cert role (certIdentifier cert role)) \<and>
   (certIdentifier cert role = '''' \<and> certBinds cert role i \<longrightarrow>
      (\<exists>c. cert = Some c \<and> (oidUID, StringValue '''') \<in> set (SubjectNames c) \<and> (oidUID, StringValue i) \<in> set (SubjectNames c)))"
proof (cases cert)
  case None
  then show ?thesis by (simp add: certIdentifier_def certUID_def certBinds_iff)
next
  case (Some c)
  let ?p = "certBindingURNPrefix @ role @ '':''"
  have no_uri: "uri_identifier us ?p = '''' \<Longrightarrow> i \<noteq> '''' \<Longrightarrow> ?p @ i \<notin> set us" for us
  proof (induction us)
    case (Cons u us)
    have "CutPrefix (?p @ i) ?p = Some i" by (simp add: CutPrefix_def)
    with Cons show ?case by (auto split: option.splits if_splits)
  qed simp
  have no_uid: "subject_uid names = '''' \<Longrightarrow> (oidUID, StringValue i) \<in> set names \<Longrightarrow> i \<noteq> '''' \<Longrightarrow>
      (oidUID, StringValue '''') \<in> set names" for names
    by (induction names rule: subject_uid.induct) (auto split: name_value.splits if_splits)
  show ?thesis
  proof (cases "subject_uid (SubjectNames c) = ''''")
    case True
    then have ident: "certIdentifier cert role = uri_identifier (URIs c) ?p" by (simp add: certIdentifier_def certUID_def Some)
    show ?thesis using uri_identifier_binds [of "URIs c" ?p] no_uri no_uid [OF True] unfolding ident
      by (auto simp: certBinds_iff Some)
  next
    case False
    then show ?thesis using subject_uid_binds [of "SubjectNames c"]
      by (simp add: certIdentifier_def certUID_def Some certBinds_iff)
  qed
qed

theorem certIdentifier_is_bound_witness:
  "certBinds (Some \<lparr>SubjectNames = [], URIs = [certBindingURNPrefix @ ''ADMF:a1'']\<rparr>) roleADMF ''a1''"
proof -
  let ?c = "Some \<lparr>SubjectNames = [], URIs = [certBindingURNPrefix @ ''ADMF:a1'']\<rparr>"
  have "certIdentifier ?c roleADMF = ''a1''"
    by (simp add: certIdentifier_def certUID_def CutPrefix_def certBindingURNPrefix_def roleADMF_def)
  with certIdentifier_is_bound [of ?c roleADMF] show ?thesis by simp
qed

end
