(* ===== verification/Store.thy ===== *)
theory Store
  imports Types
begin

text \<open>
  The active-task store of \<open>src/store/store.go\<close>: tasks by identifier and an inverted index from
  target identifier to the set of tasks that name it. Each public method runs under the store's
  lock, so it is one atomic function of the state. The set \<open>map[XID]struct{}\<close> is a list without
  repetition, whose order again stands for Go's open iteration order. \<open>cloneTask\<close> copies slices so
  that callers cannot share them; values here are never shared, so it is the identity and leaves
  no trace in the definitions. The interface other components rely on is the locale
  \<open>task_store\<close>: an abstract map from identifier to task, and answers that depend on that map only.
\<close>

subsection \<open>State and operations\<close>

record Store =
  byXID :: "(xid, InterceptTask) gomap"
  byTarget :: "(TargetIdentifier, xid list) gomap"

definition New :: Store where
  "New = \<lparr>byXID = [], byTarget = []\<rparr>"

text \<open>One round of the loop in \<open>unindex\<close>, and of the indexing loop in \<open>Activate\<close>.\<close>

definition unindex_one :: "xid \<Rightarrow> (TargetIdentifier, xid list) gomap \<Rightarrow> TargetIdentifier \<Rightarrow>
    (TargetIdentifier, xid list) gomap" where
  "unindex_one x bt tid =
     (case map_of bt tid of
        None \<Rightarrow> bt
      | Some xs \<Rightarrow> (let xs' = removeAll x xs in
          if xs' = [] then AList.delete tid bt else AList.update tid xs' bt))"

definition unindex :: "xid \<Rightarrow> Store \<Rightarrow> Store" where
  "unindex x s =
     (case map_of (byXID s) x of
        None \<Rightarrow> s
      | Some prev \<Rightarrow> s\<lparr>byTarget := foldl (unindex_one x) (byTarget s) (Targets prev)\<rparr>)"

definition index_one :: "xid \<Rightarrow> (TargetIdentifier, xid list) gomap \<Rightarrow> TargetIdentifier \<Rightarrow>
    (TargetIdentifier, xid list) gomap" where
  "index_one x bt tid =
     (let xs = (case map_of bt tid of None \<Rightarrow> [] | Some xs \<Rightarrow> xs)
      in AList.update tid (List.insert x xs) bt)"

definition Activate :: "InterceptTask \<Rightarrow> Store \<Rightarrow> Store \<times> bool" where
  "Activate task s =
     (if XID task = '''' then (s, False)
      else
        let s1 = unindex (XID task) s;
            task1 = task\<lparr>State := TaskActive\<rparr>;
            s2 = s1\<lparr>byXID := AList.update (XID task1) task1 (byXID s1)\<rparr>
        in (s2\<lparr>byTarget := foldl (index_one (XID task1)) (byTarget s2) (Targets task1)\<rparr>, True))"

definition Deactivate :: "xid \<Rightarrow> Store \<Rightarrow> Store \<times> bool" where
  "Deactivate x s =
     (case map_of (byXID s) x of
        None \<Rightarrow> (s, False)
      | Some _ \<Rightarrow> (let s1 = unindex x s in (s1\<lparr>byXID := AList.delete x (byXID s1)\<rparr>, True)))"

definition DeactivateAll :: "Store \<Rightarrow> Store" where
  "DeactivateAll s = s\<lparr>byXID := [], byTarget := []\<rparr>"

definition Get :: "xid \<Rightarrow> Store \<Rightarrow> InterceptTask option" where
  "Get x s = map_of (byXID s) x"

definition sortByXID :: "InterceptTask list \<Rightarrow> InterceptTask list" where
  "sortByXID tasks = sort_key XID tasks"

definition Snapshot :: "Store \<Rightarrow> InterceptTask list" where
  "Snapshot s = sortByXID (map snd (byXID s))"

text \<open>\<open>Match\<close> reads \<open>byXID[xid]\<close> without a check, which is Go's zero value when it is absent.\<close>

definition Match :: "TargetIdentifier \<Rightarrow> Store \<Rightarrow> InterceptTask list" where
  "Match tid s =
     (case map_of (byTarget s) tid of
        None \<Rightarrow> []
      | Some xs \<Rightarrow>
          sortByXID (map (\<lambda>x. case map_of (byXID s) x of None \<Rightarrow> zero_task | Some t \<Rightarrow> t) xs))"

definition Len :: "Store \<Rightarrow> nat" where
  "Len s = length (byXID s)"

subsection \<open>The inverted index\<close>

definition indexed :: "(TargetIdentifier, xid list) gomap \<Rightarrow> TargetIdentifier \<Rightarrow> xid set" where
  "indexed bt tid = (case map_of bt tid of None \<Rightarrow> {} | Some xs \<Rightarrow> set xs)"

definition wf_index :: "(TargetIdentifier, xid list) gomap \<Rightarrow> bool" where
  "wf_index bt \<longleftrightarrow> distinct (map fst bt) \<and>
     (\<forall>tid xs. map_of bt tid = Some xs \<longrightarrow> xs \<noteq> [] \<and> distinct xs)"

lemma wf_index_Nil [simp]: "wf_index []"
  by (simp add: wf_index_def)

lemma wf_unindex_one: "wf_index bt \<Longrightarrow> wf_index (unindex_one x bt tid)"
  by (auto simp: wf_index_def unindex_one_def Let_def go_maps distinct_removeAll split: option.splits if_splits)

lemma indexed_unindex_one:
  "indexed (unindex_one x bt tid) i = (if i = tid then indexed bt i - {x} else indexed bt i)"
proof (cases "map_of bt tid")
  case (Some xs)
  have "removeAll x xs = [] \<longleftrightarrow> set xs \<subseteq> {x}"
    by (metis Diff_eq_empty_iff set_empty set_removeAll)
  with Some show ?thesis
    by (auto simp: indexed_def unindex_one_def Let_def go_maps)
qed (auto simp: indexed_def unindex_one_def)

lemma insert_not_Nil [simp]: "List.insert x xs \<noteq> []"
  by (auto simp: List.insert_def)

lemma wf_index_one: "wf_index bt \<Longrightarrow> wf_index (index_one x bt tid)"
  by (auto simp: wf_index_def index_one_def Let_def go_maps split: option.splits if_splits)

lemma indexed_index_one:
  "indexed (index_one x bt tid) i = (if i = tid then insert x (indexed bt i) else indexed bt i)"
  by (auto simp: indexed_def index_one_def Let_def go_maps split: option.splits)

lemma wf_unindex_loop: "wf_index bt \<Longrightarrow> wf_index (foldl (unindex_one x) bt ids)"
  by (induction ids arbitrary: bt) (auto intro: wf_unindex_one)

lemma indexed_unindex_loop:
  "indexed (foldl (unindex_one x) bt ids) i = (if i \<in> set ids then indexed bt i - {x} else indexed bt i)"
  by (induction ids arbitrary: bt) (auto simp: indexed_unindex_one)

lemma wf_index_loop: "wf_index bt \<Longrightarrow> wf_index (foldl (index_one x) bt ids)"
  by (induction ids arbitrary: bt) (auto intro: wf_index_one)

lemma indexed_index_loop:
  "indexed (foldl (index_one x) bt ids) i = (if i \<in> set ids then insert x (indexed bt i) else indexed bt i)"
  by (induction ids arbitrary: bt) (auto simp: indexed_index_one)

subsection \<open>The representation invariant\<close>

definition store_abs :: "Store \<Rightarrow> xid \<rightharpoonup> InterceptTask" where
  "store_abs s = map_of (byXID s)"

definition naming :: "(xid \<rightharpoonup> InterceptTask) \<Rightarrow> TargetIdentifier \<Rightarrow> xid set" where
  "naming m tid = {x. \<exists>t. m x = Some t \<and> tid \<in> set (Targets t)}"

definition store_inv :: "Store \<Rightarrow> bool" where
  "store_inv s \<longleftrightarrow> distinct (map fst (byXID s)) \<and> wf_index (byTarget s) \<and>
     (\<forall>x t. store_abs s x = Some t \<longrightarrow> XID t = x \<and> x \<noteq> '''' \<and> State t = TaskActive) \<and>
     (\<forall>tid. indexed (byTarget s) tid = naming (store_abs s) tid)"

lemma store_invD:
  assumes "store_inv s"
  shows "distinct (map fst (byXID s))" and "wf_index (byTarget s)"
    and "store_abs s x = Some t \<Longrightarrow> XID t = x \<and> x \<noteq> '''' \<and> State t = TaskActive"
    and "indexed (byTarget s) tid = naming (store_abs s) tid"
  using assms by (auto simp: store_inv_def)

lemma store_abs_New [simp]: "store_abs New = Map.empty"
  by (simp add: store_abs_def New_def)

lemma store_inv_New: "store_inv New"
  by (simp add: store_inv_def New_def store_abs_def indexed_def naming_def)

lemma byXID_unindex [simp]: "byXID (unindex x s) = byXID s"
  by (simp add: unindex_def split: option.splits)

lemma indexed_unindex:
  assumes "store_inv s"
  shows "indexed (byTarget (unindex x s)) tid = naming ((store_abs s)(x := None)) tid"
proof (cases "store_abs s x")
  case None
  then have "(store_abs s)(x := None) = store_abs s" by auto
  with None store_invD(4) [OF assms] show ?thesis
    by (simp add: unindex_def store_abs_def)
next
  case (Some prev)
  then have "byTarget (unindex x s) = foldl (unindex_one x) (byTarget s) (Targets prev)"
    by (simp add: unindex_def store_abs_def)
  with Some store_invD(4) [OF assms] show ?thesis
    by (auto simp: indexed_unindex_loop naming_def)
qed

lemma wf_unindex: "store_inv s \<Longrightarrow> wf_index (byTarget (unindex x s))"
  by (auto simp: unindex_def dest: store_invD(2) intro: wf_unindex_loop split: option.splits)

lemma Activate_abs:
  "store_abs (fst (Activate t s)) =
     (if XID t = '''' then store_abs s else (store_abs s)(XID t \<mapsto> t\<lparr>State := TaskActive\<rparr>))"
  by (simp add: Activate_def Let_def store_abs_def go_maps)

lemma Activate_inv:
  assumes "store_inv s"
  shows "store_inv (fst (Activate t s))"
proof (cases "XID t = ''''")
  case True
  with assms show ?thesis by (simp add: Activate_def)
next
  case False
  let ?s = "fst (Activate t s)"
  have bt: "byTarget ?s = foldl (index_one (XID t)) (byTarget (unindex (XID t) s)) (Targets t)"
    and bx: "byXID ?s = AList.update (XID t) (t\<lparr>State := TaskActive\<rparr>) (byXID s)"
    using False by (simp_all add: Activate_def Let_def)
  have "indexed (byTarget ?s) tid = naming (store_abs ?s) tid" for tid
    using False by (auto simp: bt Activate_abs indexed_index_loop indexed_unindex [OF assms] naming_def)
  moreover have "wf_index (byTarget ?s)"
    unfolding bt by (intro wf_index_loop wf_unindex assms)
  moreover have "distinct (map fst (byXID ?s))"
    using store_invD(1) [OF assms] by (simp add: bx)
  moreover have "store_abs ?s x = Some t' \<Longrightarrow> XID t' = x \<and> x \<noteq> '''' \<and> State t' = TaskActive" for x t'
    using False store_invD(3) [OF assms] by (auto simp: Activate_abs split: if_splits)
  ultimately show ?thesis by (simp add: store_inv_def)
qed

lemma Deactivate_abs: "store_abs (fst (Deactivate x s)) = (store_abs s)(x := None)"
  by (auto simp: Deactivate_def Let_def store_abs_def go_maps split: option.splits)

lemma Deactivate_inv:
  assumes "store_inv s"
  shows "store_inv (fst (Deactivate x s))"
proof (cases "store_abs s x")
  case None
  with assms show ?thesis by (simp add: Deactivate_def store_abs_def)
next
  case (Some t)
  let ?s = "fst (Deactivate x s)"
  have s: "byTarget ?s = byTarget (unindex x s)" "byXID ?s = AList.delete x (byXID s)"
    using Some by (simp_all add: Deactivate_def Let_def store_abs_def)
  have "distinct (map fst (byXID ?s))"
    using store_invD(1) [OF assms] s by simp
  moreover have "wf_index (byTarget ?s)" using s wf_unindex [OF assms] by simp
  moreover have "store_abs ?s y = Some t' \<Longrightarrow> XID t' = y \<and> y \<noteq> '''' \<and> State t' = TaskActive" for y t'
    using store_invD(3) [OF assms] by (auto simp: Deactivate_abs split: if_splits)
  ultimately show ?thesis
    using s by (simp add: store_inv_def Deactivate_abs indexed_unindex [OF assms])
qed

lemma DeactivateAll_abs: "store_abs (DeactivateAll s) = Map.empty"
  by (simp add: store_abs_def DeactivateAll_def)

lemma DeactivateAll_inv: "store_inv (DeactivateAll s)"
  by (simp add: store_inv_def DeactivateAll_abs naming_def) (simp add: DeactivateAll_def indexed_def)

subsection \<open>What the queries return\<close>

lemma sortByXID_simps [simp]:
  "set (sortByXID ts) = set ts" "sorted (map XID (sortByXID ts))"
  "distinct (map XID (sortByXID ts)) = distinct (map XID ts)" "length (sortByXID ts) = length ts"
  by (simp_all add: sortByXID_def)

lemma map_XID_values:
  assumes "store_inv s"
  shows "map XID (map snd (byXID s)) = map fst (byXID s)"
proof -
  have "XID (snd e) = fst e" if "e \<in> set (byXID s)" for e
  proof -
    from that store_invD(1) [OF assms] have "store_abs s (fst e) = Some (snd e)"
      by (simp add: store_abs_def)
    then show ?thesis using store_invD(3) [OF assms] by blast
  qed
  then show ?thesis by simp
qed

lemma Snapshot_set: "store_inv s \<Longrightarrow> set (Snapshot s) = ran (store_abs s)"
  by (auto simp: Snapshot_def store_abs_def ran_distinct store_invD(1))

lemma Snapshot_distinct: "store_inv s \<Longrightarrow> distinct (map XID (Snapshot s))"
  by (simp only: Snapshot_def sortByXID_simps map_XID_values store_invD(1))

lemma Match_lookup:
  assumes "store_inv s" and "map_of (byTarget s) tid = Some xs"
  shows "set (map (\<lambda>x. case map_of (byXID s) x of None \<Rightarrow> zero_task | Some t \<Rightarrow> t) xs)
           = {t \<in> ran (store_abs s). tid \<in> set (Targets t)}"
    and "map XID (map (\<lambda>x. case map_of (byXID s) x of None \<Rightarrow> zero_task | Some t \<Rightarrow> t) xs) = xs"
proof -
  have held: "\<exists>t. map_of (byXID s) x = Some t \<and> XID t = x \<and> tid \<in> set (Targets t)" if "x \<in> set xs" for x
    using that assms store_invD(4) [OF assms(1), of tid] store_invD(3) [OF assms(1)]
    by (auto simp: indexed_def naming_def store_abs_def)
  have all: "x \<in> set xs" if "map_of (byXID s) x = Some t" "tid \<in> set (Targets t)" for x t
    using that assms store_invD(4) [OF assms(1), of tid] by (auto simp: indexed_def naming_def store_abs_def)
  show "set (map (\<lambda>x. case map_of (byXID s) x of None \<Rightarrow> zero_task | Some t \<Rightarrow> t) xs)
          = {t \<in> ran (store_abs s). tid \<in> set (Targets t)}"
    using held all by (force simp: store_abs_def ran_def image_iff)
  show "map XID (map (\<lambda>x. case map_of (byXID s) x of None \<Rightarrow> zero_task | Some t \<Rightarrow> t) xs) = xs"
    using held by (force intro: map_idI)
qed

lemma Match_set:
  assumes "store_inv s"
  shows "set (Match tid s) = {t \<in> ran (store_abs s). tid \<in> set (Targets t)}"
proof (cases "map_of (byTarget s) tid")
  case None
  then have "naming (store_abs s) tid = {}"
    using store_invD(4) [OF assms, of tid] by (simp add: indexed_def)
  with None show ?thesis by (auto simp: Match_def naming_def ran_def)
next
  case (Some xs)
  then show ?thesis using Match_lookup(1) [OF assms Some] by (simp add: Match_def)
qed

lemma Match_sorted: "sorted (map XID (Match tid s))"
  by (simp add: Match_def split: option.splits)

lemma Match_distinct:
  assumes "store_inv s"
  shows "distinct (map XID (Match tid s))"
proof (cases "map_of (byTarget s) tid")
  case (Some xs)
  moreover have "distinct xs" using Some store_invD(2) [OF assms] by (auto simp: wf_index_def)
  ultimately show ?thesis
    using Match_lookup(2) [OF assms Some] by (simp add: Match_def del: map_map)
qed (simp add: Match_def)

lemma Len_card: "store_inv s \<Longrightarrow> Len s = card (dom (store_abs s))"
  by (metis Len_def distinct_card dom_map_of_conv_image_fst length_map set_map store_abs_def store_invD(1))

subsection \<open>The interface\<close>

text \<open>
  What a client of the store may rely on: the operations act on an abstract map from identifier
  to task, and the two listing queries return the tasks of that map, each once, ordered by
  identifier.
\<close>

locale task_store =
  fixes empty :: 's
    and activate :: "InterceptTask \<Rightarrow> 's \<Rightarrow> 's \<times> bool"
    and deactivate :: "xid \<Rightarrow> 's \<Rightarrow> 's \<times> bool"
    and deactivate_all :: "'s \<Rightarrow> 's"
    and lookup :: "xid \<Rightarrow> 's \<Rightarrow> InterceptTask option"
    and tasks :: "'s \<Rightarrow> InterceptTask list"
    and matching :: "TargetIdentifier \<Rightarrow> 's \<Rightarrow> InterceptTask list"
    and invar :: "'s \<Rightarrow> bool"
    and view :: "'s \<Rightarrow> xid \<rightharpoonup> InterceptTask"
  assumes invar_empty: "invar empty" and view_empty: "view empty = Map.empty"
    and invar_activate: "invar s \<Longrightarrow> invar (fst (activate t s))"
    and view_activate: "view (fst (activate t s)) =
          (if XID t = '''' then view s else (view s)(XID t \<mapsto> t\<lparr>State := TaskActive\<rparr>))"
    and ok_activate: "snd (activate t s) \<longleftrightarrow> XID t \<noteq> ''''"
    and invar_deactivate: "invar s \<Longrightarrow> invar (fst (deactivate x s))"
    and view_deactivate: "view (fst (deactivate x s)) = (view s)(x := None)"
    and ok_deactivate: "snd (deactivate x s) \<longleftrightarrow> view s x \<noteq> None"
    and invar_deactivate_all: "invar (deactivate_all s)"
    and view_deactivate_all: "view (deactivate_all s) = Map.empty"
    and lookup_view: "lookup x s = view s x"
    and view_key: "invar s \<Longrightarrow> view s x = Some t \<Longrightarrow> XID t = x \<and> x \<noteq> '''' \<and> State t = TaskActive"
    and set_tasks: "invar s \<Longrightarrow> set (tasks s) = ran (view s)"
    and order_tasks: "invar s \<Longrightarrow> sorted (map XID (tasks s)) \<and> distinct (map XID (tasks s))"
    and set_matching: "invar s \<Longrightarrow> set (matching i s) = {t \<in> ran (view s). i \<in> set (Targets t)}"
    and order_matching: "invar s \<Longrightarrow> sorted (map XID (matching i s)) \<and> distinct (map XID (matching i s))"
begin

lemmas views = view_empty view_activate view_deactivate view_deactivate_all lookup_view
lemmas invars = invar_empty invar_activate invar_deactivate invar_deactivate_all

lemma in_tasks: "invar s \<Longrightarrow> t \<in> set (tasks s) \<longleftrightarrow> lookup (XID t) s = Some t"
  using view_key by (fastforce simp: set_tasks lookup_view ran_def)

lemma lookup_activate: "XID t \<noteq> '''' \<Longrightarrow> lookup (XID t) (fst (activate t s)) = Some (t\<lparr>State := TaskActive\<rparr>)"
  by (simp add: views)

lemma lookup_activate_other: "x \<noteq> XID t \<Longrightarrow> lookup x (fst (activate t s)) = lookup x s"
  by (simp add: views)

lemma tasks_deactivate_all: "tasks (deactivate_all s) = []"
  using set_tasks [OF invar_deactivate_all, of s] by (simp add: views)

lemma view_determines_tasks: "invar s \<Longrightarrow> invar s' \<Longrightarrow> view s = view s' \<Longrightarrow> tasks s = tasks s'"
  by (rule keyed_list_unique [where f = XID]) (simp_all add: set_tasks order_tasks)

lemma view_determines_matching:
  "invar s \<Longrightarrow> invar s' \<Longrightarrow> view s = view s' \<Longrightarrow> matching i s = matching i s'"
  by (rule keyed_list_unique [where f = XID]) (simp_all add: set_matching order_matching)

lemma superseded_criterion:
  assumes "invar s" and "XID t \<noteq> ''''" and "i \<notin> set (Targets t)"
  shows "XID t \<notin> XID ` set (matching i (fst (activate t s)))"
proof
  assume "XID t \<in> XID ` set (matching i (fst (activate t s)))"
  then obtain u where u: "u \<in> ran (view (fst (activate t s)))" "i \<in> set (Targets u)" "XID u = XID t"
    using set_matching [OF invar_activate [OF assms(1)]] by force
  then obtain x where x: "view (fst (activate t s)) x = Some u" by (auto simp: ran_def)
  then have "x = XID t" using view_key [OF invar_activate [OF assms(1)] x] u(3) by simp
  with x have "u = t\<lparr>State := TaskActive\<rparr>" using assms(2) by (simp add: views)
  with u(2) assms(3) show False by simp
qed

end

interpretation st: task_store New Activate Deactivate DeactivateAll Get Snapshot Match store_inv store_abs
proof
  fix s t x i
  show "snd (Activate t s) \<longleftrightarrow> XID t \<noteq> ''''" by (simp add: Activate_def Let_def)
  show "snd (Deactivate x s) \<longleftrightarrow> store_abs s x \<noteq> None"
    by (simp add: Deactivate_def Let_def store_abs_def split: option.splits)
  show "Get x s = store_abs s x" by (simp add: Get_def store_abs_def)
  show "store_inv s \<Longrightarrow> sorted (map XID (Snapshot s)) \<and> distinct (map XID (Snapshot s))"
    by (simp add: Snapshot_distinct) (simp add: Snapshot_def)
  show "store_inv s \<Longrightarrow> sorted (map XID (Match i s)) \<and> distinct (map XID (Match i s))"
    by (simp add: Match_sorted Match_distinct)
qed (simp_all add: store_inv_New Activate_inv Activate_abs Deactivate_inv Deactivate_abs
    DeactivateAll_inv DeactivateAll_abs store_invD(3) Snapshot_set Match_set)

subsection \<open>Histories of a store\<close>

datatype store_op = OpActivate InterceptTask | OpDeactivate xid | OpDeactivateAll

fun store_step :: "Store \<Rightarrow> store_op \<Rightarrow> Store" where
  "store_step s (OpActivate t) = fst (Activate t s)"
| "store_step s (OpDeactivate x) = fst (Deactivate x s)"
| "store_step s OpDeactivateAll = DeactivateAll s"

definition run_store :: "store_op list \<Rightarrow> Store" where
  "run_store ops = foldl store_step New ops"

text \<open>The specification the store implements: a map from identifier to the active task.\<close>

fun spec_step :: "(xid \<rightharpoonup> InterceptTask) \<Rightarrow> store_op \<Rightarrow> (xid \<rightharpoonup> InterceptTask)" where
  "spec_step m (OpActivate t) = (if XID t = '''' then m else m(XID t \<mapsto> t\<lparr>State := TaskActive\<rparr>))"
| "spec_step m (OpDeactivate x) = m(x := None)"
| "spec_step m OpDeactivateAll = Map.empty"

definition run_spec :: "store_op list \<Rightarrow> xid \<rightharpoonup> InterceptTask" where
  "run_spec ops = foldl spec_step Map.empty ops"

lemma store_step_refines:
  "store_inv s \<Longrightarrow> store_inv (store_step s p) \<and> store_abs (store_step s p) = spec_step (store_abs s) p"
  by (cases p) (simp_all add: st.invars st.views)

lemma run_store_refines: "store_inv (run_store ops) \<and> store_abs (run_store ops) = run_spec ops"
proof -
  have "store_inv s \<Longrightarrow> store_inv (foldl store_step s ops) \<and>
      store_abs (foldl store_step s ops) = foldl spec_step (store_abs s) ops" for s
    by (induction ops arbitrary: s) (simp_all add: store_step_refines)
  from this [of New] show ?thesis
    by (simp add: run_store_def run_spec_def st.invars st.views)
qed

lemmas run_store_inv = run_store_refines [THEN conjunct1]
lemmas run_store_view = run_store_refines [THEN conjunct2]

subsection \<open>Properties\<close>

text \<open>
  C3. After any history of activations, replacements, deactivations and purges, the store is a
  map from identifier to active task, and \<open>Match\<close> on a target identifier returns exactly the
  active tasks that name it, each once, ordered by identifier: the inverted index never disagrees
  with the tasks.
\<close>

theorem Match_exact:
  "store_abs (run_store ops) = run_spec ops \<and>
   set (Match i (run_store ops)) = {t \<in> ran (run_spec ops). i \<in> set (Targets t)} \<and>
   sorted (map XID (Match i (run_store ops))) \<and> distinct (map XID (Match i (run_store ops)))"
  using st.set_matching [OF run_store_inv] st.order_matching [OF run_store_inv]
  by (simp add: run_store_view)

text \<open>
  Replacing a task (a modification, or an activation over a held identifier) takes it out of
  the index under every criterion it no longer names: no interception keeps running on
  superseded criteria, whatever the store held before.
\<close>

theorem no_superseded_criteria:
  "XID t \<noteq> '''' \<Longrightarrow> i \<notin> set (Targets t) \<Longrightarrow>
   XID t \<notin> XID ` set (Match i (fst (Activate t (run_store ops))))"
  by (rule st.superseded_criterion [OF run_store_inv])

definition ex_target :: "string \<Rightarrow> TargetIdentifier" where
  "ex_target v = \<lparr>tiType = TargetSUPI, tiValue = v\<rparr>"

definition ex_task :: "xid \<Rightarrow> string \<Rightarrow> InterceptTask" where
  "ex_task x v = zero_task\<lparr>XID := x, Targets := [ex_target v], Products := [ProductIRI]\<rparr>"

lemmas ex_defs = ex_target_def ex_task_def zero_task_def

theorem no_superseded_criteria_witness:
  "Match (ex_target ''1'') (run_store [OpActivate (ex_task ''a'' ''1'')]) \<noteq> [] \<and>
   ''a'' \<notin> XID ` set (Match (ex_target ''1'')
       (fst (Activate (ex_task ''a'' ''2'') (run_store [OpActivate (ex_task ''a'' ''1'')]))))"
proof -
  have "Match (ex_target ''1'') (run_store [OpActivate (ex_task ''a'' ''1'')]) \<noteq> []"
    by (simp add: run_store_def New_def Activate_def unindex_def index_one_def Match_def sortByXID_def ex_defs)
  moreover have "XID (ex_task ''a'' ''2'') \<notin> XID ` set (Match (ex_target ''1'')
       (fst (Activate (ex_task ''a'' ''2'') (run_store [OpActivate (ex_task ''a'' ''1'')]))))"
    by (rule no_superseded_criteria) (simp_all add: ex_defs)
  ultimately show ?thesis by (simp add: ex_defs)
qed

text \<open>
  C25. The answers depend on what is held and on nothing else: two histories that leave the same
  tasks give the same \<open>Get\<close>, \<open>Len\<close>, \<open>Snapshot\<close> and \<open>Match\<close>, the lists element by element, although both
  are assembled from maps whose iteration order Go leaves open.
\<close>

theorem answers_independent_of_history:
  "run_spec ops = run_spec ops' \<Longrightarrow>
   Get x (run_store ops) = Get x (run_store ops') \<and> Len (run_store ops) = Len (run_store ops') \<and>
   Snapshot (run_store ops) = Snapshot (run_store ops') \<and> Match i (run_store ops) = Match i (run_store ops')"
  by (simp add: st.view_determines_tasks st.view_determines_matching st.lookup_view Len_card run_store_inv run_store_view)

theorem answers_independent_of_history_witness:
  "Snapshot (run_store [OpActivate (ex_task ''a'' ''1''), OpActivate (ex_task ''b'' ''1'')]) =
   Snapshot (run_store [OpActivate (ex_task ''b'' ''1''), OpActivate (ex_task ''a'' ''1'')]) \<and>
   byXID (run_store [OpActivate (ex_task ''a'' ''1''), OpActivate (ex_task ''b'' ''1'')]) \<noteq>
   byXID (run_store [OpActivate (ex_task ''b'' ''1''), OpActivate (ex_task ''a'' ''1'')])"
proof -
  have "run_spec [OpActivate (ex_task ''a'' ''1''), OpActivate (ex_task ''b'' ''1'')] =
        run_spec [OpActivate (ex_task ''b'' ''1''), OpActivate (ex_task ''a'' ''1'')]"
    by (auto simp: run_spec_def ex_defs)
  then have "Snapshot (run_store [OpActivate (ex_task ''a'' ''1''), OpActivate (ex_task ''b'' ''1'')]) =
        Snapshot (run_store [OpActivate (ex_task ''b'' ''1''), OpActivate (ex_task ''a'' ''1'')])"
    using answers_independent_of_history by blast
  then show ?thesis
    by (simp add: run_store_def New_def Activate_def unindex_def index_one_def ex_defs)
qed

end
