(* ===== verification/X1Server.thy ===== *)
theory X1Server
  imports X1Messages X1Auth Store
begin

text \<open>
  The X1 endpoint of a network element: the server of \<open>src/x1/x1.go\<close> with the parts of
  \<open>src/x1/response.go\<close> and \<open>src/x1/auth.go\<close> that read its state. The transition lock is held across
  every operation that decides from task state, so each is one atomic function of the server.

  Callbacks are events appended to \<open>events\<close> in the order they run; the answers the network function
  supplies (\<open>CanApply\<close>, fault probes, task faults, reachability) are fields of the server. \<open>clock\<close> is
  what \<open>now()\<close> reads, constant while a message is applied; \<open>lastSeen\<close> is \<open>None\<close> for Go's zero time,
  which is longer ago than any timeout. \<open>lowerText\<close> is the part of \<open>strings.ToLower\<close> that consults
  the Unicode tables.
\<close>

subsection \<open>State\<close>

record heldDestination =
  hdAddress :: string
  hdDeliveryType :: string
  hdFriendlyName :: string
  hdConfigured :: bool

datatype PurgeReason = PurgeWithdrawal | PurgeBulkDeactivate | PurgeKeepaliveLapse

datatype server_event =
    TaskChange "InterceptTask option" "InterceptTask option" | Purge InterceptTask PurgeReason | AuthFailure nat

datatype X1Error = X1Error (ErrorCode: nat) (ErrorDescription: reason)

text \<open>What is fixed when the server is built: \<open>NewServer\<close> and its options.\<close>

record ServerOptions =
  neID :: string
  admfID :: string
  canApply :: "InterceptTask \<Rightarrow> x1_error option"
  deactivateAllDisabled :: bool
  removeAllDestinationsEnabled :: bool
  requireDIDs :: bool
  honoursCorrelation :: bool
  lowerText :: "string \<Rightarrow> string"

record Server =
  options :: ServerOptions
  store :: Store
  lastSeen :: "int option"
  destinations :: "(string, heldDestination) gomap"
  configured :: "(string, heldDestination) gomap"
  clock :: int
  events :: "server_event list"

text \<open>What the network function answers when it is asked, at the moment it is asked.\<close>

record Observations =
  faultProbes :: "X1Error option list"
  taskFaults :: "(xid \<Rightarrow> X1Error list) option"
  destinationReachable :: "(string \<Rightarrow> bool) option"

definition emit :: "server_event \<Rightarrow> Server \<Rightarrow> Server" where
  "emit e s = s\<lparr>events := events s @ [e]\<rparr>"

subsection \<open>Destinations\<close>

definition endpoints :: "heldDestination \<Rightarrow> string \<Rightarrow> DeliveryEndpoint list" where
  "endpoints d did =
     (if hdDeliveryType d = deliveryX2Only then [\<lparr>deType = DeliveryX2, deAddress = hdAddress d, deDID = did\<rparr>]
      else if hdDeliveryType d = deliveryX3Only then [\<lparr>deType = DeliveryX3, deAddress = hdAddress d, deDID = did\<rparr>]
      else if hdDeliveryType d = deliveryX2andX3 then
        [\<lparr>deType = DeliveryX2, deAddress = hdAddress d, deDID = did\<rparr>,
         \<lparr>deType = DeliveryX3, deAddress = hdAddress d, deDID = did\<rparr>]
      else [])"

record ConfiguredDestination =
  cdDID :: string
  cdDeliveryType :: string
  cdAddress :: string

definition Configured_Valid :: "ConfiguredDestination \<Rightarrow> x1_error option" where
  "Configured_Valid d =
     (case validIdentifier ''did'' (cdDID d) of
        Some e \<Rightarrow> Some e
      | None \<Rightarrow>
     (case deliveryProducts (cdDeliveryType d) of
        Inl e \<Rightarrow> Some e
      | Inr _ \<Rightarrow>
     (case SplitHostPort (cdAddress d) of
        None \<Rightarrow> Some (Err 0 (errorf0 ''address is not host:port''))
      | Some (host, port) \<Rightarrow>
     (case ParseAddr host of
        None \<Rightarrow> Some (Err 0 (Errorf ''address host %q is not an IP address'' [S host]))
      | Some _ \<Rightarrow>
     (case ParseUint port 16 of
        None \<Rightarrow> Some (Err 0 (Errorf ''address port %q is not a port number'' [S port]))
      | Some n \<Rightarrow> if n = 0 then Some (Err 0 (Errorf ''address port %q is not a port number'' [S port])) else None)))))"

fun configured_loop :: "ConfiguredDestination list \<Rightarrow> (string, heldDestination) gomap \<Rightarrow> (string, heldDestination) gomap" where
  "configured_loop [] m = m"
| "configured_loop (d # ds) m =
     (if Configured_Valid d \<noteq> None then configured_loop ds m
      else configured_loop ds
        (AList.update (cdDID d)
          \<lparr>hdAddress = cdAddress d, hdDeliveryType = cdDeliveryType d, hdFriendlyName = '''', hdConfigured = True\<rparr> m))"

subsection \<open>Options\<close>

text \<open>
  An option is a function on the server under construction. The options that register a callback
  or a supplier of answers have no counterpart: what they would register is observed through
  \<open>events\<close> or comes in with \<open>Observations\<close>.
\<close>

type_synonym server_option = "Server \<Rightarrow> Server"

definition WithConfiguredDestinations :: "ConfiguredDestination list \<Rightarrow> server_option" where
  "WithConfiguredDestinations dests s = s\<lparr>configured := configured_loop dests (configured s)\<rparr>"

definition CanApply :: "(InterceptTask \<Rightarrow> x1_error option) \<Rightarrow> server_option" where
  "CanApply fn s = s\<lparr>options := (options s)\<lparr>canApply := fn\<rparr>\<rparr>"

definition WithoutDeactivateAllTasks :: server_option where
  "WithoutDeactivateAllTasks s = s\<lparr>options := (options s)\<lparr>deactivateAllDisabled := True\<rparr>\<rparr>"

definition WithRemoveAllDestinations :: server_option where
  "WithRemoveAllDestinations s = s\<lparr>options := (options s)\<lparr>removeAllDestinationsEnabled := True\<rparr>\<rparr>"

definition HonoursCorrelationID :: server_option where
  "HonoursCorrelationID s = s\<lparr>options := (options s)\<lparr>honoursCorrelation := True\<rparr>\<rparr>"

definition RequireResolvableDIDs :: server_option where
  "RequireResolvableDIDs s = s\<lparr>options := (options s)\<lparr>requireDIDs := True\<rparr>\<rparr>"

definition WithADMF :: "string \<Rightarrow> server_option" where
  "WithADMF a s = s\<lparr>options := (options s)\<lparr>admfID := a\<rparr>\<rparr>"

lemmas option_defs = WithConfiguredDestinations_def CanApply_def WithoutDeactivateAllTasks_def
  WithRemoveAllDestinations_def HonoursCorrelationID_def RequireResolvableDIDs_def WithADMF_def

definition BulkOptions :: "bool option \<Rightarrow> bool option \<Rightarrow> server_option list" where
  "BulkOptions deactivateAllTasks removeAllDests =
     (let opts = [];
          opts = (if deactivateAllTasks = Some False then opts @ [WithoutDeactivateAllTasks] else opts);
          opts = (if removeAllDests = Some True then opts @ [WithRemoveAllDestinations] else opts)
      in opts)"

text \<open>\<open>uni\<close> is \<open>lowerText\<close> and \<open>t\<close> what the clock reads when the server is built.\<close>

definition NewServer :: "Store \<Rightarrow> string \<Rightarrow> server_option list \<Rightarrow> (string \<Rightarrow> string) \<Rightarrow> int \<Rightarrow> Server" where
  "NewServer st ne opts uni t =
     foldl (\<lambda>srv opt. opt srv)
       \<lparr>options = \<lparr>neID = ne, admfID = '''', canApply = (\<lambda>t. None), deactivateAllDisabled = False,
          removeAllDestinationsEnabled = False, requireDIDs = False, honoursCorrelation = False, lowerText = uni\<rparr>,
        store = st, lastSeen = None, destinations = [], configured = [], clock = t, events = []\<rparr> opts"

definition destinationFrom :: "DestinationDetails \<Rightarrow> x1_error + heldDestination" where
  "destinationFrom d =
     (case IPAddressAndPort d of
        None \<Rightarrow> Inl (Err errCodeBadAddressType (errorf0 ''unsupported deliveryAddress''))
      | Some ap \<Rightarrow>
     (case IPAddress_Valid (ipAddress ap) of
        Some r \<Rightarrow> Inl (Err errCodeSchemaError r)
      | None \<Rightarrow>
     (case Port_Valid (ipPort ap) of
        Some r \<Rightarrow> Inl (Err errCodeSchemaError r)
      | None \<Rightarrow>
          let host = IPv4 (ipAddress ap);
              host = (if host = '''' then ''['' @ IPv6 (ipAddress ap) @ '']'' else host);
              port = Port_Value (ipPort ap)
          in Inr \<lparr>hdAddress = host @ '':'' @ FormatUint (unat port), hdDeliveryType = ddDeliveryType d,
                  hdFriendlyName = ddFriendlyName d, hdConfigured = False\<rparr>)))"

definition resolveLocked :: "string \<Rightarrow> Server \<Rightarrow> heldDestination option" where
  "resolveLocked did s =
     (case map_of (destinations s) did of Some d \<Rightarrow> Some d | None \<Rightarrow> map_of (configured s) did)"

fun resolve_loop :: "Server \<Rightarrow> string list \<Rightarrow> DeliveryEndpoint list \<Rightarrow> string list \<Rightarrow> DeliveryEndpoint list \<times> string list" where
  "resolve_loop s [] eps unresolved = (eps, unresolved)"
| "resolve_loop s (did # dids) eps unresolved =
     (case resolveLocked did s of
        None \<Rightarrow> resolve_loop s dids eps (unresolved @ [did])
      | Some dest \<Rightarrow> resolve_loop s dids (eps @ endpoints dest did) unresolved)"

definition resolveDIDs :: "Server \<Rightarrow> string list \<Rightarrow> DeliveryEndpoint list \<times> string list" where
  "resolveDIDs s dids = (if length dids = 0 then ([], []) else resolve_loop s dids [] [])"

fun did_referenced_loop :: "InterceptTask list \<Rightarrow> string \<Rightarrow> bool" where
  "did_referenced_loop [] did = False"
| "did_referenced_loop (t # ts) did = (if did \<in> set (DIDs t) then True else did_referenced_loop ts did)"

definition didReferenced :: "string \<Rightarrow> Server \<Rightarrow> bool" where
  "didReferenced did s = did_referenced_loop (Snapshot (store s)) did"

definition createDestination :: "DestinationDetails option \<Rightarrow> Server \<Rightarrow> Server \<times> x1_error option" where
  "createDestination dd s =
     (case dd of
        None \<Rightarrow> (s, Some (Err 0 (errorf0 ''missing destinationDetails'')))
      | Some d \<Rightarrow>
          if ddDID d = '''' then (s, Some (Err 0 (errorf0 ''missing dId'')))
          else case validIdentifier ''dId'' (ddDID d) of
            Some e \<Rightarrow> (s, Some e)
          | None \<Rightarrow>
         (case deliveryProducts (ddDeliveryType d) of
            Inl e \<Rightarrow> (s, Some e)
          | Inr _ \<Rightarrow>
         (case unhonourableExtensions (ddExtensions d) ''destination'' of
            Some e \<Rightarrow> (s, Some e)
          | None \<Rightarrow>
         (case destinationFrom d of
            Inl e \<Rightarrow> (s, Some e)
          | Inr dest \<Rightarrow>
              let referenced = didReferenced (ddDID d) s in
              if map_of (destinations s) (ddDID d) \<noteq> None
              then (s, Some (Err errCodeDIDExists (errorf0 ''destination already present'')))
              else if map_of (configured s) (ddDID d) \<noteq> None \<and> referenced
              then (s, Some (Err errCodeCreateDestFailed
                     (Errorf ''dId %s is declared in this element's configuration and referenced by an active task'' [S (ddDID d)])))
              else (s\<lparr>destinations := AList.update (ddDID d) dest (destinations s)\<rparr>, None)))))"

definition destinationsInUse :: "Server \<Rightarrow> nat" where
  "destinationsInUse s =
     (let referenced = concat (map DIDs (Snapshot (store s)))
      in length (filter (\<lambda>(did, d). did \<in> set referenced) (destinations s)))"

definition removeAllDestinations :: "Server \<Rightarrow> Server \<times> x1_error option" where
  "removeAllDestinations s =
     (let n = destinationsInUse s in
      if n > 0 then (s, Some (Err errCodeDestinationsInUse (Errorf ''%d destination(s) are referenced by tasks'' [N n])))
      else (s\<lparr>destinations := []\<rparr>, None))"

subsection \<open>Tasks\<close>

fun hasDelivery :: "DeliveryEndpoint list \<Rightarrow> DeliveryType \<Rightarrow> bool" where
  "hasDelivery [] t = False"
| "hasDelivery (e # es) t = (if deType e = t \<and> deAddress e \<noteq> '''' then True else hasDelivery es t)"

fun map_targets :: "(string \<Rightarrow> string) \<Rightarrow> X1TargetIdentifier list \<Rightarrow> TargetIdentifier list \<Rightarrow> x1_error + TargetIdentifier list" where
  "map_targets uni [] targets = Inr targets"
| "map_targets uni (ti # tis) targets =
     (case mapTarget uni ti of Inl e \<Rightarrow> Inl e | Inr mapped \<Rightarrow> map_targets uni tis (targets @ mapped))"

definition taskFromDetails :: "TaskDetails \<Rightarrow> Server \<Rightarrow> x1_error + InterceptTask" where
  "taskFromDetails td s =
     (if tdXID td = '''' then Inl (Err 0 (errorf0 ''missing xId''))
      else if length (TargetIdentifiers td) = 0 then Inl (Err 0 (errorf0 ''no target identifier''))
      else case map_targets (lowerText (options s)) (TargetIdentifiers td) [] of
        Inl e \<Rightarrow> Inl e
      | Inr targets \<Rightarrow>
     (case deliveryProducts (tdDeliveryType td) of
        Inl e \<Rightarrow> Inl e
      | Inr products \<Rightarrow>
     (case (if tdCorrelationID td \<noteq> '''' then ParseUint (tdCorrelationID td) 64 else Some 0) of
        None \<Rightarrow> Inl (Err 0 (errorf0 ''invalid correlationID''))
      | Some correlation \<Rightarrow>
          let (deliveries, unresolved) = resolveDIDs s (ListOfDIDs td) in
          if length unresolved > 0
          then Inl (Err errCodeNoSuchDID
                 (Errorf ''listOfDids names %d destination identifier(s) this element cannot resolve: %s''
                   [N (length unresolved), S (Join unresolved '', '')]))
          else if requireDIDs (options s) \<and> ProductCC \<in> set products \<and> \<not> hasDelivery deliveries DeliveryX3
          then Inl (Err 0 (errorf0 ''no known X3 destination''))
          else Inr \<lparr>XID = tdXID td, Targets = targets, DIDs = ListOfDIDs td, Products = products,
                    Deliveries = deliveries, State = TaskUnset, ProductID = tdProductID td,
                    CorrelationID = of_nat correlation, RecordScope = recordScope td\<rparr>)))"

definition activate :: "X1RequestMessage \<Rightarrow> Server \<Rightarrow> Server \<times> (x1_error + InterceptTask)" where
  "activate m s =
     (case rqTaskDetails m of
        None \<Rightarrow> (s, Inl (Err 0 (errorf0 ''missing taskDetails'')))
      | Some td \<Rightarrow>
     (case taskFromDetails td s of
        Inl e \<Rightarrow> (s, Inl e)
      | Inr task \<Rightarrow>
     (case canApply (options s) task of
        Some e \<Rightarrow> (s, Inl e)
      | None \<Rightarrow>
          let (st', ok) = Activate task (store s) in
          if \<not> ok then (s, Inl (Err 0 (errorf0 ''invalid task'')))
          else case Get (XID task) st' of
            None \<Rightarrow> (s\<lparr>store := st'\<rparr>, Inl (Err 0 (errorf0 ''task was removed before the activation completed'')))
          | Some stored \<Rightarrow> (s\<lparr>store := st'\<rparr>, Inr stored))))"

text \<open>
  \<open>sameTask\<close> is \<open>reflect.DeepEqual\<close> on two tasks read from the store, whose slices are nil exactly
  when they are empty: equality of values.
\<close>

definition sameTask :: "InterceptTask \<Rightarrow> InterceptTask \<Rightarrow> bool" where
  "sameTask a b \<longleftrightarrow> a = b"

definition notifyChanged :: "InterceptTask option \<Rightarrow> InterceptTask \<Rightarrow> Server \<Rightarrow> Server" where
  "notifyChanged prev task s =
     (if (case prev of Some p \<Rightarrow> sameTask p task | None \<Rightarrow> False) then s
      else emit (TaskChange prev (Some task)) s)"

definition notifyRemoved :: "InterceptTask \<Rightarrow> PurgeReason \<Rightarrow> Server \<Rightarrow> Server" where
  "notifyRemoved task reason s = emit (Purge task reason) (emit (TaskChange (Some task) None) s)"

definition applyTaskTransition :: "X1RequestMessage \<Rightarrow> bool \<Rightarrow> Server \<Rightarrow> Server \<times> x1_error option" where
  "applyTaskTransition m isModify s =
     (let prev = (case rqTaskDetails m of Some td \<Rightarrow> Get (tdXID td) (store s) | None \<Rightarrow> None);
          malformed = (case rqTaskDetails m of Some td \<Rightarrow> malformedTaskIdentifiers td | None \<Rightarrow> None);
          unhonourable = (case rqTaskDetails m of
             Some td \<Rightarrow> unhonourableTaskFields td (honoursCorrelation (options s)) | None \<Rightarrow> None)
      in if isModify \<and> rqTaskDetails m = None then (s, Some (Err 0 (errorf0 ''missing taskDetails'')))
         else case malformed of
           Some e \<Rightarrow> (s, Some e)
         | None \<Rightarrow>
        (case unhonourable of
           Some (Err code r) \<Rightarrow> (s, Some (Err (if code = 0 then taskFailureCode isModify else code) r))
         | None \<Rightarrow>
             if isModify \<and> prev = None then (s, Some (Err errCodeNoSuchTask (errorf0 ''no such task'')))
             else case activate m s of
               (s', Inl (Err code r)) \<Rightarrow> (s', Some (Err (if code = 0 then taskFailureCode isModify else code) r))
             | (s', Inr task) \<Rightarrow> (notifyChanged prev task s', None)))"

definition deactivate :: "string \<Rightarrow> Server \<Rightarrow> Server \<times> x1_error option" where
  "deactivate x s =
     (if x = '''' then (s, Some (Err 0 (errorf0 ''missing xId'')))
      else case validIdentifier ''xId'' x of
        Some e \<Rightarrow> (s, Some e)
      | None \<Rightarrow>
     (case Get x (store s) of
        None \<Rightarrow> (s, Some (Err errCodeNoSuchTask (errorf0 ''no such task'')))
      | Some task \<Rightarrow> (notifyRemoved task PurgeWithdrawal (s\<lparr>store := fst (Deactivate x (store s))\<rparr>), None)))"

definition purgeAllTaskingLocked :: "PurgeReason \<Rightarrow> Server \<Rightarrow> Server" where
  "purgeAllTaskingLocked reason s =
     (let tasks = Snapshot (store s);
          s = s\<lparr>store := DeactivateAll (store s)\<rparr>
      in foldl (\<lambda>s t. notifyRemoved t reason s) s tasks)"

definition purgeAllTasking :: "PurgeReason \<Rightarrow> Server \<Rightarrow> Server" where
  "purgeAllTasking reason s = purgeAllTaskingLocked reason s"

definition deactivateAll :: "Server \<Rightarrow> Server" where
  "deactivateAll s = purgeAllTasking PurgeBulkDeactivate s"

subsection \<open>The keepalive fail-safe\<close>

text \<open>\<open>time.Time.Sub\<close> saturates; the zero time is further back than it can express.\<close>

definition maxDuration :: int where
  "maxDuration = 9223372036854775807"

definition minDuration :: int where
  "minDuration = - 9223372036854775808"

definition Sub :: "int \<Rightarrow> int option \<Rightarrow> int" where
  "Sub t u = (case u of None \<Rightarrow> maxDuration | Some u \<Rightarrow> max minDuration (min maxDuration (t - u)))"

definition recordActivity :: "Server \<Rightarrow> Server" where
  "recordActivity s = s\<lparr>lastSeen := Some (clock s)\<rparr>"

definition lapsed :: "int \<Rightarrow> Server \<Rightarrow> bool" where
  "lapsed timeout s \<longleftrightarrow> Sub (clock s) (lastSeen s) > timeout"

text \<open>
  \<open>purgeIfLapsed\<close> reads whether the ADMF is silent, and later, under the transition lock, reads it
  again and acts: \<open>purge_if_still_lapsed\<close> is the second part. Other operations may run between the
  two; \<open>purgeIfLapsed\<close> is the whole when none does.
\<close>

definition purge_if_still_lapsed :: "int \<Rightarrow> Server \<Rightarrow> Server" where
  "purge_if_still_lapsed timeout s =
     (if \<not> lapsed timeout s then s else purgeAllTaskingLocked PurgeKeepaliveLapse s)"

definition purgeIfLapsed :: "int \<Rightarrow> Server \<Rightarrow> Server" where
  "purgeIfLapsed timeout s = (if \<not> lapsed timeout s then s else purge_if_still_lapsed timeout s)"

definition MinKeepaliveWindow :: int where
  "MinKeepaliveWindow = 1000000000"

text \<open>The start of \<open>WatchKeepalive\<close>: the interval of its ticker, or nothing when it does not start.\<close>

definition WatchKeepalive_start :: "int \<Rightarrow> Server \<Rightarrow> Server \<times> int option" where
  "WatchKeepalive_start timeout s =
     (if timeout < MinKeepaliveWindow then (s, None) else (recordActivity s, Some (timeout div 2)))"

subsection \<open>Interrogation\<close>

record ReportedDestination =
  rdDID :: string
  rdDeliveryType :: string
  rdAddress :: string
  rdFriendlyName :: string
  rdConfigured :: bool
  ShadowsConfigured :: bool
  Unreachable :: bool

definition reportedLocked :: "Server \<Rightarrow> string \<Rightarrow> heldDestination \<Rightarrow> ReportedDestination" where
  "reportedLocked s did d =
     (let alsoConfigured = map_of (configured s) did \<noteq> None
      in \<lparr>rdDID = did, rdDeliveryType = hdDeliveryType d, rdAddress = hdAddress d, rdFriendlyName = hdFriendlyName d,
          rdConfigured = hdConfigured d, ShadowsConfigured = (\<not> hdConfigured d \<and> alsoConfigured), Unreachable = False\<rparr>)"

definition heldDestinationsLocked :: "Server \<Rightarrow> ReportedDestination list" where
  "heldDestinationsLocked s =
     (let out = map (\<lambda>(did, dest). reportedLocked s did dest) (destinations s);
          out = out @ map (\<lambda>(did, dest). reportedLocked s did dest)
                  (filter (\<lambda>(did, dest). map_of (destinations s) did = None) (configured s))
      in sort_key rdDID out)"

definition annotateReachability :: "Observations \<Rightarrow> ReportedDestination list \<Rightarrow> ReportedDestination list" where
  "annotateReachability ob dests =
     (case destinationReachable ob of
        None \<Rightarrow> dests
      | Some unreachable \<Rightarrow> map (\<lambda>d. d\<lparr>Unreachable := unreachable (rdAddress d)\<rparr>) dests)"

definition heldDestinations :: "Observations \<Rightarrow> Server \<Rightarrow> ReportedDestination list" where
  "heldDestinations ob s = annotateReachability ob (heldDestinationsLocked s)"

definition destinationByDIDLocked :: "string \<Rightarrow> Server \<Rightarrow> ReportedDestination option" where
  "destinationByDIDLocked did s =
     (case resolveLocked did s of None \<Rightarrow> None | Some dest \<Rightarrow> Some (reportedLocked s did dest))"

definition destinationByDID :: "Observations \<Rightarrow> string \<Rightarrow> Server \<Rightarrow> ReportedDestination option" where
  "destinationByDID ob did s =
     (case destinationByDIDLocked did s of
        None \<Rightarrow> None
      | Some reported \<Rightarrow> Some (annotateReachability ob [reported] ! 0))"

fun probe_loop :: "X1Error option list \<Rightarrow> X1Error list \<Rightarrow> X1Error list" where
  "probe_loop [] faults = faults"
| "probe_loop (p # ps) faults = (case p of Some f \<Rightarrow> probe_loop ps (faults @ [f]) | None \<Rightarrow> probe_loop ps faults)"

definition unresolvedFaults :: "Observations \<Rightarrow> X1Error list" where
  "unresolvedFaults ob = probe_loop (faultProbes ob) []"

fun task_fault_loop :: "(xid \<Rightarrow> X1Error list) \<Rightarrow> InterceptTask list \<Rightarrow> (xid, X1Error list) gomap \<Rightarrow> (xid, X1Error list) gomap" where
  "task_fault_loop fn [] out = out"
| "task_fault_loop fn (t # ts) out =
     (if length (fn (XID t)) > 0 then task_fault_loop fn ts (AList.update (XID t) (fn (XID t)) out)
      else task_fault_loop fn ts out)"

definition faultsForTasks :: "Observations \<Rightarrow> InterceptTask list \<Rightarrow> (xid, X1Error list) gomap" where
  "faultsForTasks ob tasks =
     (case taskFaults ob of
        None \<Rightarrow> []
      | Some fn \<Rightarrow> if length tasks = 0 then [] else task_fault_loop fn tasks [])"

subsection \<open>Applying a message\<close>

record X1ResponseHeader =
  rsAdmfIdentifier :: string
  rsNeIdentifier :: string
  rsMessageTimestamp :: int
  rsVersion :: string
  rsTransactionID :: string

record X1ResponseMessage =
  rsType :: string
  rsHeader :: X1ResponseHeader
  rsOK :: string
  rsErrorInformation :: "X1Error option"
  rsTasks :: "InterceptTask list"
  rsRequestType :: string
  rsDestinations :: "ReportedDestination list"
  rsFaults :: "X1Error list"
  rsTaskFaults :: "(xid, X1Error list) gomap"

definition ackOK :: string where "ackOK = ''AcknowledgedAndCompleted''"
definition errorResponse :: string where "errorResponse = ''ErrorResponse''"

text \<open>\<open>strings.Replace(s, old, new, 1)\<close>.\<close>

fun ReplaceFirst :: "string \<Rightarrow> string \<Rightarrow> string \<Rightarrow> string" where
  "ReplaceFirst [] old new = (if old = [] then new else [])"
| "ReplaceFirst (c # s) old new =
     (if take (length old) (c # s) = old then new @ drop (length old) (c # s) else c # ReplaceFirst s old new)"

text \<open>The cases of the switch on the local type.\<close>

datatype request_kind =
    RqActivateTask | RqModifyTask | RqDeactivateTask | RqDeactivateAllTasks | RqRemoveAllDestinations
  | RqGetAllTaskDetails | RqGetAllDestinationDetails | RqListAllDetails | RqGetNEStatus | RqGetDestinationDetails
  | RqGetTaskDetails | RqGetAllDetails | RqGetAllGenericObjectDetails | RqGenericObject | RqCreateDestination
  | RqKeepalive | RqPing

definition request_kinds :: "(string \<times> request_kind) list" where
  "request_kinds =
     [(''ActivateTaskRequest'', RqActivateTask), (''ModifyTaskRequest'', RqModifyTask),
      (''DeactivateTaskRequest'', RqDeactivateTask), (''DeactivateAllTasksRequest'', RqDeactivateAllTasks),
      (''RemoveAllDestinationsRequest'', RqRemoveAllDestinations), (''GetAllTaskDetailsRequest'', RqGetAllTaskDetails),
      (''GetAllDestinationDetailsRequest'', RqGetAllDestinationDetails), (''ListAllDetailsRequest'', RqListAllDetails),
      (''GetNEStatusRequest'', RqGetNEStatus), (''GetDestinationDetailsRequest'', RqGetDestinationDetails),
      (''GetTaskDetailsRequest'', RqGetTaskDetails), (''GetAllDetailsRequest'', RqGetAllDetails),
      (''GetAllGenericObjectDetailsRequest'', RqGetAllGenericObjectDetails),
      (''CreateObjectRequest'', RqGenericObject), (''ModifyObjectRequest'', RqGenericObject),
      (''GetObjectRequest'', RqGenericObject), (''DeleteObjectRequest'', RqGenericObject),
      (''ListObjectsOfTypeRequest'', RqGenericObject), (''DeleteAllObjectsRequest'', RqGenericObject),
      (''CreateDestinationRequest'', RqCreateDestination), (''KeepaliveRequest'', RqKeepalive),
      (''PingRequest'', RqPing)]"

text \<open>The switch: the server after the operation, the error if there is one, and the answer so far.\<close>

definition apply_request ::
  "Observations \<Rightarrow> X1RequestMessage \<Rightarrow> X1ResponseMessage \<Rightarrow> Server \<Rightarrow> Server \<times> x1_error option \<times> X1ResponseMessage" where
  "apply_request ob m rm s =
     (let response = ReplaceFirst (localType (rqType m)) ''Request'' ''Response'' in
      case map_of request_kinds (localType (rqType m)) of
        Some RqActivateTask \<Rightarrow>
          (let (s', err) = applyTaskTransition m False s in (s', err, rm\<lparr>rsType := response\<rparr>))
      | Some RqModifyTask \<Rightarrow>
          (let (s', err) = applyTaskTransition m True s in (s', err, rm\<lparr>rsType := response\<rparr>))
      | Some RqDeactivateTask \<Rightarrow>
          (let (s', err) = deactivate (rqXID m) s in (s', err, rm\<lparr>rsType := ''DeactivateTaskResponse''\<rparr>))
      | Some RqDeactivateAllTasks \<Rightarrow>
          (if deactivateAllDisabled (options s)
           then (s, Some (Err errCodeDeactAllOff (errorf0 ''DeactivateAllTasks message is not enabled'')),
                 rm\<lparr>rsType := ''DeactivateAllTasksResponse''\<rparr>)
           else (deactivateAll s, None, rm\<lparr>rsType := ''DeactivateAllTasksResponse''\<rparr>))
      | Some RqRemoveAllDestinations \<Rightarrow>
          (if \<not> removeAllDestinationsEnabled (options s)
           then (s, Some (Err errCodeRemoveAllOff (errorf0 ''RemoveAllDestinations request is not enabled'')),
                 rm\<lparr>rsType := ''RemoveAllDestinationsResponse''\<rparr>)
           else let (s', err) = removeAllDestinations s in (s', err, rm\<lparr>rsType := ''RemoveAllDestinationsResponse''\<rparr>))
      | Some RqGetAllTaskDetails \<Rightarrow>
          (s, None, rm\<lparr>rsTasks := Snapshot (store s), rsType := ''GetAllTaskDetailsResponse''\<rparr>)
      | Some RqGetAllDestinationDetails \<Rightarrow>
          (s, None, rm\<lparr>rsDestinations := heldDestinations ob s, rsType := ''GetAllDestinationDetailsResponse''\<rparr>)
      | Some RqListAllDetails \<Rightarrow>
          (s, None, rm\<lparr>rsTasks := Snapshot (store s), rsDestinations := heldDestinations ob s,
                       rsType := ''ListAllDetailsResponse''\<rparr>)
      | Some RqGetNEStatus \<Rightarrow>
          (s, None, rm\<lparr>rsFaults := unresolvedFaults ob, rsType := ''GetNEStatusResponse''\<rparr>)
      | Some RqGetDestinationDetails \<Rightarrow>
          (if rqDID m = ''''
           then (s, Some (Err 0 (errorf0 ''missing dId'')), rm\<lparr>rsType := ''GetDestinationDetailsResponse''\<rparr>)
           else case destinationByDID ob (rqDID m) s of
             Some d \<Rightarrow> (s, None, rm\<lparr>rsDestinations := [d], rsType := ''GetDestinationDetailsResponse''\<rparr>)
           | None \<Rightarrow> (s, Some (Err errCodeNoSuchDID (errorf0 ''no such destination'')),
                     rm\<lparr>rsType := ''GetDestinationDetailsResponse''\<rparr>))
      | Some RqGetAllDetails \<Rightarrow>
          (s, None, rm\<lparr>rsTasks := Snapshot (store s), rsDestinations := heldDestinations ob s,
                       rsFaults := unresolvedFaults ob, rsType := response\<rparr>)
      | Some RqGetTaskDetails \<Rightarrow>
          (case Get (rqXID m) (store s) of
             Some t \<Rightarrow> (s, None, rm\<lparr>rsTasks := [t], rsType := response\<rparr>)
           | None \<Rightarrow>
               if rqXID m = '''' then (s, Some (Err 0 (errorf0 ''missing xId'')), rm\<lparr>rsType := response\<rparr>)
               else (s, Some (Err errCodeNoSuchTask (errorf0 ''no such task'')), rm\<lparr>rsType := response\<rparr>))
      | Some RqGetAllGenericObjectDetails \<Rightarrow> (s, None, rm\<lparr>rsType := ''GetAllGenericObjectDetailsResponse''\<rparr>)
      | Some RqGenericObject \<Rightarrow>
          (s, Some (Err errCodeUnsupportedRequest (errorf0 ''this NE does not support Generic Objects'')), rm)
      | Some RqCreateDestination \<Rightarrow>
          (let (s', err) = createDestination (rqDestinationDetails m) s
           in (s', err, rm\<lparr>rsType := ''CreateDestinationResponse''\<rparr>))
      | Some RqKeepalive \<Rightarrow> (s, None, rm\<lparr>rsType := ''KeepaliveResponse''\<rparr>)
      | Some RqPing \<Rightarrow> (s, None, rm\<lparr>rsType := ''PingResponse''\<rparr>)
      | None \<Rightarrow> (s, Some (Err errCodeUnsupportedRequest (Errorf ''unsupported request type %q'' [S (localType (rqType m))])), rm))"

definition response_header :: "string \<Rightarrow> X1RequestMessage \<Rightarrow> Server \<Rightarrow> X1ResponseHeader" where
  "response_header fresh m s =
     \<lparr>rsAdmfIdentifier = AdmfIdentifier m, rsNeIdentifier = neID (options s), rsMessageTimestamp = clock s,
      rsVersion = echoVersion (rqVersion m), rsTransactionID = echoTransactionID fresh (rqTransactionID m)\<rparr>"

definition empty_response :: "X1ResponseHeader \<Rightarrow> X1ResponseMessage" where
  "empty_response h =
     \<lparr>rsType = '''', rsHeader = h, rsOK = '''', rsErrorInformation = None, rsTasks = [], rsRequestType = '''',
      rsDestinations = [], rsFaults = [], rsTaskFaults = []\<rparr>"

definition apply_message :: "Observations \<Rightarrow> string \<Rightarrow> X1RequestMessage \<Rightarrow> Server \<Rightarrow> Server \<times> X1ResponseMessage" where
  "apply_message ob fresh m s =
     (let (s', err, rm) = apply_request ob m (empty_response (response_header fresh m s)) s;
          rm = rm\<lparr>rsTaskFaults := faultsForTasks ob (rsTasks rm)\<rparr>
      in case err of
           Some (Err code r) \<Rightarrow>
             (s', rm\<lparr>rsType := errorResponse, rsRequestType := localType (rqType m),
                     rsErrorInformation := Some (X1Error (if code = 0 then errCodeGeneric else code) r)\<rparr>)
         | None \<Rightarrow> (s', rm\<lparr>rsOK := ackOK\<rparr>))"

definition authenticate :: "X1RequestMessage \<Rightarrow> certificate option \<Rightarrow> Server \<Rightarrow> (nat \<times> string) option" where
  "authenticate m peer s =
     (case peer of
        None \<Rightarrow> Some (errCodeADMFCertMismatch, ''no client certificate presented'')
      | Some _ \<Rightarrow>
          if AdmfIdentifier m = '''' then Some (errCodeADMFCertMismatch, ''missing admfIdentifier'')
          else if admfID (options s) \<noteq> '''' \<and> AdmfIdentifier m \<noteq> admfID (options s)
          then Some (errCodeUnexpectedADMF, ''unexpected ADMF identifier'')
          else if NeIdentifier m \<noteq> neID (options s) then Some (errCodeUnexpectedNE, ''unexpected NE identifier'')
          else if \<not> certBinds peer roleADMF (AdmfIdentifier m)
          then Some (errCodeADMFCertMismatch, ''ADMF identifier does not match certificate details'')
          else None)"

definition refuse_unauthenticated :: "string \<Rightarrow> X1RequestMessage \<Rightarrow> nat \<times> string \<Rightarrow> Server \<Rightarrow> Server \<times> X1ResponseMessage" where
  "refuse_unauthenticated fresh m failure s =
     (let (code, desc) = failure in
      (emit (AuthFailure code) s,
       (empty_response (response_header fresh m s))\<lparr>rsType := errorResponse,
          rsErrorInformation := Some (X1Error code (errorf0 desc)), rsRequestType := localType (rqType m)\<rparr>))"

definition applyAuthenticated ::
  "Observations \<Rightarrow> string \<Rightarrow> X1RequestMessage \<Rightarrow> certificate option \<Rightarrow> Server \<Rightarrow> Server \<times> X1ResponseMessage \<times> bool" where
  "applyAuthenticated ob fresh m peer s =
     (case authenticate m peer s of
        Some failure \<Rightarrow> (let (s', rm) = refuse_unauthenticated fresh m failure s in (s', rm, False))
      | None \<Rightarrow> (let (s', rm) = apply_message ob fresh m (recordActivity s) in (s', rm, True)))"

text \<open>
  \<open>Process\<close> from the decoded messages on. Each message comes with what the network function
  answers and the identifier drawn while it is applied.
\<close>

fun process_loop ::
  "(X1RequestMessage \<times> Observations \<times> string) list \<Rightarrow> certificate option \<Rightarrow> Server \<Rightarrow> X1ResponseMessage list \<Rightarrow>
   Server \<times> X1ResponseMessage list" where
  "process_loop [] peer s out = (s, out)"
| "process_loop ((m, ob, fresh) # ms) peer s out =
     (let (s', rm, _) = applyAuthenticated ob fresh m peer s in process_loop ms peer s' (out @ [rm]))"

text \<open>
  A body that does not decode is \<open>None\<close>. The answer is then the top-level error, of which this is
  the choice of ADMF identifier.
\<close>

definition Process ::
  "(X1RequestMessage \<times> Observations \<times> string) list option \<Rightarrow> certificate option \<Rightarrow> Server \<Rightarrow>
   Server \<times> X1ResponseMessage list option" where
  "Process msgs peer s =
     (case msgs of
        None \<Rightarrow> (s, None)
      | Some ms \<Rightarrow> (let (s', out) = process_loop ms peer s [] in (s', Some out)))"

definition topLevelError :: "certificate option \<Rightarrow> Server \<Rightarrow> X1ResponseHeader" where
  "topLevelError peer s =
     (let admf = admfID (options s);
          admf = (if admf = '''' then certIdentifier peer roleADMF else admf)
      in \<lparr>rsAdmfIdentifier = admf, rsNeIdentifier = neID (options s), rsMessageTimestamp = clock s,
          rsVersion = supportedVersion, rsTransactionID = ''''\<rparr>)"

end
