(* ===== verification/X1Tasking.thy ===== *)
theory X1Tasking
  imports X1Server
begin

text \<open>
  What the X1 server guarantees. The requests of different connections and the watchdog run
  concurrently; the steps of \<open>x1_step\<close> are what the locks make atomic: a message is authenticated and
  recorded, and applied later; the watchdog decides that the ADMF is silent, and acts later. The locale
  \<open>server_invariant\<close> says what a property of the server has to survive, and proves that it then holds
  in every state the server can reach; it is interpreted for the tasking invariant and for the
  agreement between the store and what the point of interception was told.
\<close>

subsection \<open>Interleaving\<close>

record X1System =
  srv :: Server
  inflight :: "X1RequestMessage list"
  deciding :: bool

definition system_init :: "Server \<Rightarrow> X1System" where
  "system_init s = \<lparr>srv = s, inflight = [], deciding = False\<rparr>"

inductive x1_step :: "int \<Rightarrow> X1System \<Rightarrow> X1System \<Rightarrow> bool" for timeout where
  refused: "authenticate m peer (srv y) = Some f \<Longrightarrow>
    x1_step timeout y (y\<lparr>srv := fst (refuse_unauthenticated fresh m f (srv y))\<rparr>)"
| arrives: "authenticate m peer (srv y) = None \<Longrightarrow>
    x1_step timeout y (y\<lparr>srv := recordActivity (srv y), inflight := m # inflight y\<rparr>)"
| applies: "m \<in> set (inflight y) \<Longrightarrow>
    x1_step timeout y (y\<lparr>srv := fst (apply_message ob fresh m (srv y)), inflight := remove1 m (inflight y)\<rparr>)"
| passes: "0 \<le> d \<Longrightarrow> x1_step timeout y (y\<lparr>srv := (srv y)\<lparr>clock := clock (srv y) + d\<rparr>\<rparr>)"
| decides: "lapsed timeout (srv y) \<Longrightarrow> x1_step timeout y (y\<lparr>deciding := True\<rparr>)"
| acts: "deciding y \<Longrightarrow> x1_step timeout y (y\<lparr>srv := purge_if_still_lapsed timeout (srv y), deciding := False\<rparr>)"

inductive_cases x1_stepE: "x1_step timeout y z"

abbreviation x1_steps :: "int \<Rightarrow> X1System \<Rightarrow> X1System \<Rightarrow> bool" where
  "x1_steps timeout \<equiv> (x1_step timeout)\<^sup>*\<^sup>*"

text \<open>The options a server may be built with.\<close>

inductive is_option :: "server_option \<Rightarrow> bool" where
  "is_option (WithConfiguredDestinations ds)"
| "is_option (CanApply f)"
| "is_option WithoutDeactivateAllTasks"
| "is_option WithRemoveAllDestinations"
| "is_option HonoursCorrelationID"
| "is_option RequireResolvableDIDs"
| "is_option (WithADMF a)"

subsection \<open>What each operation leaves alone\<close>

lemma emit_simps [simp]:
  "options (emit e s) = options s" "store (emit e s) = store s" "lastSeen (emit e s) = lastSeen s"
  "destinations (emit e s) = destinations s" "configured (emit e s) = configured s" "clock (emit e s) = clock s"
  "events (emit e s) = events s @ [e]"
  by (simp_all add: emit_def)

lemma recordActivity_simps [simp]:
  "options (recordActivity s) = options s" "store (recordActivity s) = store s"
  "destinations (recordActivity s) = destinations s" "configured (recordActivity s) = configured s"
  "clock (recordActivity s) = clock s" "events (recordActivity s) = events s" "lastSeen (recordActivity s) = Some (clock s)"
  by (simp_all add: recordActivity_def)

definition removal_events :: "PurgeReason \<Rightarrow> InterceptTask list \<Rightarrow> server_event list" where
  "removal_events reason ts = concat (map (\<lambda>t. [TaskChange (Some t) None, Purge t reason]) ts)"

lemma purge_shape:
  "purgeAllTaskingLocked reason s =
     s\<lparr>store := DeactivateAll (store s), events := events s @ removal_events reason (Snapshot (store s))\<rparr>"
proof -
  have "foldl (\<lambda>s t. notifyRemoved t reason s) s ts = s\<lparr>events := events s @ removal_events reason ts\<rparr>" for s :: Server and ts
    by (induction ts arbitrary: s) (simp_all add: removal_events_def notifyRemoved_def emit_def)
  then show ?thesis by (simp add: purgeAllTaskingLocked_def Let_def)
qed

lemma deactivate_shape:
  "deactivate x s =
     (if x = '''' then (s, Some (Err 0 (errorf0 ''missing xId'')))
      else if \<not> uuidPattern x then (s, validIdentifier ''xId'' x)
      else case store_abs (store s) x of
        None \<Rightarrow> (s, Some (Err errCodeNoSuchTask (errorf0 ''no such task'')))
      | Some t \<Rightarrow> (s\<lparr>store := fst (Deactivate x (store s)), events := events s @ removal_events PurgeWithdrawal [t]\<rparr>, None))"
  by (auto simp: deactivate_def validIdentifier_def refuse_def st.lookup_view notifyRemoved_def emit_def removal_events_def split: option.splits)

lemma createDestination_shape:
  assumes "createDestination dd s = (s', err)"
  shows "(err \<noteq> None \<and> s' = s) \<or>
    (err = None \<and> (\<exists>d dest. dd = Some d \<and> uuidPattern (ddDID d) \<and> destinationFrom d = Inr dest \<and>
       deliveryProducts (ddDeliveryType d) \<in> range Inr \<and>
       map_of (destinations s) (ddDID d) = None \<and> \<not> (map_of (configured s) (ddDID d) \<noteq> None \<and> didReferenced (ddDID d) s) \<and>
       s' = s\<lparr>destinations := AList.update (ddDID d) dest (destinations s)\<rparr>))"
  using assms by (auto simp: createDestination_def Let_def validIdentifier_def split: option.splits if_splits sum.splits)

lemma removeAll_shape:
  "removeAllDestinations s = (s', err) \<Longrightarrow> (err \<noteq> None \<and> s' = s) \<or> (err = None \<and> destinationsInUse s = 0 \<and> s' = s\<lparr>destinations := []\<rparr>)"
  by (auto simp: removeAllDestinations_def Let_def split: if_splits)

lemma map_targets_nonempty:
  assumes "map_targets uni tis acc = Inr ts" and "tis \<noteq> [] \<or> acc \<noteq> []" and "list_all (\<lambda>t. populatedArms t \<le> 1) tis"
  shows "ts \<noteq> []"
  using assms
proof (induction tis arbitrary: acc)
  case (Cons ti tis)
  then obtain mapped where m: "mapTarget uni ti = Inr mapped" "map_targets uni tis (acc @ mapped) = Inr ts"
    by (auto split: sum.splits)
  have "mapped \<noteq> []"
  proof (cases "find (\<lambda>(k, v). v \<noteq> '''') (plain_arms ti)")
    case None
    with m(1) show ?thesis
      by (auto simp: mapTarget_find mapExtensionTarget_def dest!: map_criteria_all split: option.splits if_splits)
  next
    case (Some a)
    with m(1) show ?thesis by (cases a) (auto simp: mapTarget_find one_def)
  qed
  with Cons m(2) show ?case by auto
qed simp

lemma taskFromDetails_shape:
  assumes "taskFromDetails td s = Inr t"
  shows "XID t = tdXID td" "XID t \<noteq> ''''" "DIDs t = ListOfDIDs td" "ProductID t = tdProductID td"
    "resolveDIDs s (DIDs t) = (Deliveries t, [])" "deliveryProducts (tdDeliveryType td) = Inr (Products t)"
    "map_targets (lowerText (options s)) (TargetIdentifiers td) [] = Inr (Targets t)" "TargetIdentifiers td \<noteq> []"
    "requireDIDs (options s) \<and> ProductCC \<in> set (Products t) \<Longrightarrow> hasDelivery (Deliveries t) DeliveryX3"
  using assms by (auto simp: taskFromDetails_def Let_def split: if_splits sum.splits option.splits prod.splits)

lemma activate_shape:
  assumes "activate m s = (s', r)"
  shows "(\<exists>e. r = Inl e \<and> s' = s) \<or>
    (\<exists>td t. rqTaskDetails m = Some td \<and> taskFromDetails td s = Inr t \<and> canApply (options s) t = None \<and>
       r = Inr (t\<lparr>State := TaskActive\<rparr>) \<and> s' = s\<lparr>store := fst (Activate t (store s))\<rparr>)"
proof -
  have g: "Get (XID t) (fst (Activate t st)) = Some (t\<lparr>State := TaskActive\<rparr>)" if "taskFromDetails td s = Inr t" for td t st
    using taskFromDetails_shape(2) [OF that] by (rule st.lookup_activate)
  have ok: "snd (Activate t st)" if "taskFromDetails td s = Inr t" for td t st
    using taskFromDetails_shape(2) [OF that] st.ok_activate by blast
  show ?thesis
  proof (cases "rqTaskDetails m")
    case (Some td)
    then show ?thesis using assms g ok
      by (cases "taskFromDetails td s")
        (auto simp: activate_def Let_def case_prod_beta dest: sym [where t = "taskFromDetails _ _"] split: option.splits)
  qed (use assms in \<open>auto simp: activate_def\<close>)
qed

lemma applyTaskTransition_shape:
  assumes "applyTaskTransition m isModify s = (s', err)"
  shows "(err \<noteq> None \<and> s' = s) \<or>
    (err = None \<and> (\<exists>td t. rqTaskDetails m = Some td \<and> malformedTaskIdentifiers td = None \<and>
       unhonourableTaskFields td (honoursCorrelation (options s)) = None \<and> taskFromDetails td s = Inr t \<and>
       canApply (options s) t = None \<and> (isModify \<longrightarrow> store_abs (store s) (XID t) \<noteq> None) \<and>
       s' = notifyChanged (store_abs (store s) (XID t)) (t\<lparr>State := TaskActive\<rparr>) (s\<lparr>store := fst (Activate t (store s))\<rparr>)))"
proof -
  obtain sa r where a: "activate m s = (sa, r)" by (cases "activate m s")
  from activate_shape [OF a] show ?thesis
  proof (elim disjE exE conjE)
    fix e assume "r = Inl e" "sa = s"
    with assms a show ?thesis
      by (cases e) (auto simp: applyTaskTransition_def Let_def st.lookup_view
          dest: sym [where t = "unhonourableTaskFields _ _"] split: option.splits if_splits x1_error.splits)
  next
    fix td t assume "rqTaskDetails m = Some td" "taskFromDetails td s = Inr t" "canApply (options s) t = None"
      "r = Inr (t\<lparr>State := TaskActive\<rparr>)" "sa = s\<lparr>store := fst (Activate t (store s))\<rparr>"
    with assms a taskFromDetails_shape(1) show ?thesis
      by (auto simp: applyTaskTransition_def Let_def st.lookup_view
          dest: sym [where t = "unhonourableTaskFields _ _"] split: option.splits if_splits x1_error.splits)
  qed
qed

lemma notifyChanged_simps [simp]:
  "options (notifyChanged p t s) = options s" "store (notifyChanged p t s) = store s" "lastSeen (notifyChanged p t s) = lastSeen s"
  "destinations (notifyChanged p t s) = destinations s" "configured (notifyChanged p t s) = configured s"
  "clock (notifyChanged p t s) = clock s"
  "events (notifyChanged p t s) = (if p = Some t then events s else events s @ [TaskChange p (Some t)])"
  by (auto simp: notifyChanged_def sameTask_def emit_def split: option.splits)

text \<open>A request changes the server through exactly one of these operations, or not at all.\<close>

definition changed_by :: "X1RequestMessage \<Rightarrow> Server \<Rightarrow> Server \<Rightarrow> bool" where
  "changed_by m s s' \<longleftrightarrow>
     s' = s \<or> (\<exists>b. applyTaskTransition m b s = (s', None)) \<or> deactivate (rqXID m) s = (s', None) \<or>
     s' = purgeAllTaskingLocked PurgeBulkDeactivate s \<or> createDestination (rqDestinationDetails m) s = (s', None) \<or>
     removeAllDestinations s = (s', None)"

lemma apply_request_cases:
  assumes "apply_request ob m rm s = (s', err, rm')"
  shows "(err \<noteq> None \<longrightarrow> s' = s) \<and> changed_by m s s' \<and> rsErrorInformation rm' = rsErrorInformation rm \<and>
    rsOK rm' = rsOK rm \<and> rsHeader rm' = rsHeader rm"
proof -
  have t: "applyTaskTransition m b s = (s1, Some e) \<Longrightarrow> s1 = s" for b s1 e using applyTaskTransition_shape by fastforce
  have d: "deactivate x s = (s1, Some e) \<Longrightarrow> s1 = s" for x s1 e by (auto simp: deactivate_shape split: if_splits option.splits)
  have c: "createDestination dd s = (s1, Some e) \<Longrightarrow> s1 = s" for dd s1 e using createDestination_shape by fastforce
  have r: "removeAllDestinations s = (s1, Some e) \<Longrightarrow> s1 = s" for s1 e using removeAll_shape by fastforce
  show ?thesis
  proof (cases "map_of request_kinds (localType (rqType m))")
    case None
    with assms show ?thesis by (simp add: apply_request_def changed_by_def)
  next
    case (Some k)
    with assms show ?thesis
      by (cases k; cases err)
        (auto simp: apply_request_def Let_def changed_by_def deactivateAll_def purgeAllTasking_def dest: t d c r
           split: if_splits prod.splits option.splits)
  qed
qed

lemma apply_message_cases:
  assumes "apply_message ob fresh m s = (s', rm)"
  shows "(rsErrorInformation rm \<noteq> None \<longrightarrow> s' = s) \<and> changed_by m s s'"
proof -
  obtain s1 err rm1 where a: "apply_request ob m (empty_response (response_header fresh m s)) s = (s1, err, rm1)"
    by (metis prod_cases3)
  with apply_request_cases [OF a] assms show ?thesis
    by (auto simp: apply_message_def Let_def empty_response_def split: option.splits x1_error.splits)
qed

subsection \<open>The codes of refusals\<close>

text \<open>The codes of the registry that this interface answers with.\<close>

definition x1_registry :: "nat list" where
  "x1_registry =
     [errCodeGeneric, errCodeSchemaError, errCodeADMFCertMismatch, errCodeUnexpectedADMF, errCodeUnexpectedNE,
      errCodeUnsupportedRequest, errCodeNoSuchTask, errCodeDIDExists, errCodeNoSuchDID, errCodeActivateFailed,
      errCodeModifyFailed, errCodeBadServiceType, errCodeDeactAllOff, errCodeCreateDestFailed, errCodeBadAddressType,
      errCodeDestinationsInUse, errCodeRemoveAllOff]"

text \<open>A refusal is given a code of the registry, or none, which later becomes a generic one.\<close>

definition coded :: "x1_error \<Rightarrow> bool" where
  "coded e \<longleftrightarrow> errorCode (Some e) \<in> insert 0 (set x1_registry)"

lemma coded_Err [simp]: "coded (Err c r) \<longleftrightarrow> c \<in> insert 0 (set x1_registry)"
  by (simp add: coded_def)

lemma registry_codes [simp]:
  "errCodeGeneric \<in> set x1_registry" "errCodeSchemaError \<in> set x1_registry" "errCodeUnsupportedRequest \<in> set x1_registry"
  "errCodeNoSuchTask \<in> set x1_registry" "errCodeDIDExists \<in> set x1_registry" "errCodeNoSuchDID \<in> set x1_registry"
  "errCodeActivateFailed \<in> set x1_registry" "errCodeModifyFailed \<in> set x1_registry" "errCodeBadServiceType \<in> set x1_registry"
  "errCodeDeactAllOff \<in> set x1_registry" "errCodeCreateDestFailed \<in> set x1_registry" "errCodeBadAddressType \<in> set x1_registry"
  "errCodeDestinationsInUse \<in> set x1_registry" "errCodeRemoveAllOff \<in> set x1_registry"
  by (simp_all add: x1_registry_def)

lemma coded_target: "mapTarget uni ti = Inl e \<Longrightarrow> coded e"
proof -
  have c: "mapUPFLIT3Identifier uni i = Inl e \<Longrightarrow> errorCode (Some e) = 0" for i e
    by (auto simp: mapUPFLIT3Identifier_def Let_def split: option.splits if_splits)
  have "map_criteria uni i n xs = Inl e \<Longrightarrow> errorCode (Some e) = 0" for i n xs e
    by (induction xs arbitrary: i) (auto split: sum.splits x1_error.splits dest: c)
  then show "mapTarget uni ti = Inl e \<Longrightarrow> coded e"
    by (auto simp: mapTarget_def mapExtensionTarget_def coded_def split: if_splits option.splits)
qed

lemma coded_targets: "map_targets uni tis acc = Inl e \<Longrightarrow> coded e"
  by (induction tis arbitrary: acc) (auto split: sum.splits dest: coded_target)

lemma coded_parts:
  "deliveryProducts dt = Inl e \<Longrightarrow> coded e" "validIdentifier f x = Some e \<Longrightarrow> coded e"
  "malformedTaskIdentifiers td = Some e \<Longrightarrow> coded e" "unhonourableExtensions exts on = Some e \<Longrightarrow> coded e"
  "unhonourableTaskFields td h = Some e \<Longrightarrow> coded e" "destinationFrom d = Inl e \<Longrightarrow> coded e"
proof -
  have x: "unhonourableExtensions exts on = Some e \<Longrightarrow> coded e" for exts on e
    by (induction exts) (auto split: if_splits option.splits)
  then show "unhonourableExtensions exts on = Some e \<Longrightarrow> coded e" .
  show "unhonourableTaskFields td h = Some e \<Longrightarrow> coded e"
    by (auto simp: unhonourableTaskFields_def refuse_def split: if_splits dest: x)
  show "malformedTaskIdentifiers td = Some e \<Longrightarrow> coded e" by (simp add: coded_def malformed_is_schema_error)
qed (auto simp: deliveryProducts_def validIdentifier_def refuse_def destinationFrom_def Let_def split: if_splits option.splits)

lemma coded_task: "taskFromDetails td s = Inl e \<Longrightarrow> coded e"
  by (auto simp: taskFromDetails_def Let_def case_prod_beta split: if_splits sum.splits option.splits
      dest: coded_targets coded_parts(1))

lemma coded_transition:
  "applyTaskTransition m b s = (s', Some (Err c r)) \<Longrightarrow>
   c \<in> insert 0 (set x1_registry) \<or> (\<exists>t r. canApply (options s) t = Some (Err c r))"
proof -
  assume a: "applyTaskTransition m b s = (s', Some (Err c r))"
  have f: "taskFailureCode b \<in> set x1_registry" by (simp add: taskFailureCode_def)
  have act: "activate m s = (s1, Inl (Err c r)) \<Longrightarrow> c \<in> insert 0 (set x1_registry) \<or> (\<exists>t r. canApply (options s) t = Some (Err c r))"
    for s1 c r
    by (auto simp: activate_def Let_def case_prod_beta split: option.splits sum.splits if_splits dest!: coded_task)
  have u: "unhonourableTaskFields td h = Some (Err c r) \<Longrightarrow> c \<in> insert 0 (set x1_registry)" for td h c r
    using coded_parts(5) by fastforce
  have m: "malformedTaskIdentifiers td = Some (Err c r) \<Longrightarrow> c \<in> set x1_registry" for td c r
    using malformed_is_schema_error by fastforce
  show ?thesis using a f
    by (auto simp: applyTaskTransition_def Let_def split: option.splits if_splits prod.splits sum.splits x1_error.splits
        dest!: act u m)
qed

lemma coded_request:
  "apply_request ob m rm s = (s', Some (Err c r), rm') \<Longrightarrow>
   c \<in> insert 0 (set x1_registry) \<or> (\<exists>t r. canApply (options s) t = Some (Err c r))"
proof -
  assume a: "apply_request ob m rm s = (s', Some (Err c r), rm')"
  have d: "deactivate x s = (s1, Some (Err c r)) \<Longrightarrow> c \<in> insert 0 (set x1_registry)" for x s1 c r
    by (auto simp: deactivate_def split: if_splits option.splits dest!: coded_parts(2))
  have k: "createDestination dd s = (s1, Some (Err c r)) \<Longrightarrow> c \<in> insert 0 (set x1_registry)" for dd s1 c r
    by (auto simp: createDestination_def Let_def split: if_splits option.splits sum.splits
        dest!: coded_parts(1,2,4,6))
  have v: "removeAllDestinations s = (s1, Some (Err c r)) \<Longrightarrow> c \<in> insert 0 (set x1_registry)" for s1 c r
    by (auto simp: removeAllDestinations_def Let_def split: if_splits)
  show ?thesis
  proof (cases "map_of request_kinds (localType (rqType m))")
    case (Some kind)
    with a show ?thesis
      by (cases kind) (auto simp: apply_request_def Let_def split: if_splits prod.splits option.splits
          dest!: coded_transition d k v)
  qed (use a in \<open>auto simp: apply_request_def\<close>)
qed

subsection \<open>Properties of every reachable server\<close>

locale server_invariant =
  fixes I :: "Server \<Rightarrow> bool"
  assumes on_auth_failure: "I s \<Longrightarrow> I (emit (AuthFailure c) s)"
    and on_activity: "I s \<Longrightarrow> I (recordActivity s)"
    and on_clock: "I s \<Longrightarrow> I (s\<lparr>clock := n\<rparr>)"
    and on_transition: "I s \<Longrightarrow> applyTaskTransition m b s = (s', None) \<Longrightarrow> I s'"
    and on_deactivate: "I s \<Longrightarrow> deactivate x s = (s', None) \<Longrightarrow> I s'"
    and on_purge: "I s \<Longrightarrow> I (purgeAllTaskingLocked reason s)"
    and on_create: "I s \<Longrightarrow> createDestination dd s = (s', None) \<Longrightarrow> I s'"
    and on_remove_all: "I s \<Longrightarrow> removeAllDestinations s = (s', None) \<Longrightarrow> I s'"
begin

lemma on_apply: "I s \<Longrightarrow> I (fst (apply_message ob fresh m s))"
  using apply_message_cases [of ob fresh m s "fst (apply_message ob fresh m s)" "snd (apply_message ob fresh m s)"]
  by (auto simp: changed_by_def on_purge intro: on_transition on_deactivate on_create on_remove_all)

lemma on_refusal: "I s \<Longrightarrow> I (fst (refuse_unauthenticated fresh m f s))"
  by (simp add: refuse_unauthenticated_def on_auth_failure split: prod.splits)

lemma on_step: "x1_step timeout y z \<Longrightarrow> I (srv y) \<Longrightarrow> I (srv z)"
  by (induction rule: x1_step.induct)
    (simp_all add: on_refusal on_activity on_apply on_clock purge_if_still_lapsed_def on_purge)

lemma on_steps: "x1_steps timeout y z \<Longrightarrow> I (srv y) \<Longrightarrow> I (srv z)"
  by (induction rule: rtranclp_induct) (auto intro: on_step)

end

text \<open>What an operation never touches is such a property.\<close>

interpretation fixed: server_invariant "\<lambda>s. options s = oo \<and> configured s = cc" for oo cc
proof
  fix s s' :: Server and m b x dd
  assume I: "options s = oo \<and> configured s = cc"
  show "options s' = oo \<and> configured s' = cc" if "applyTaskTransition m b s = (s', None)"
    using applyTaskTransition_shape [OF that] I by auto
  show "options s' = oo \<and> configured s' = cc" if "deactivate x s = (s', None)"
    using that I by (auto simp: deactivate_shape split: if_splits option.splits)
  show "options s' = oo \<and> configured s' = cc" if "createDestination dd s = (s', None)"
    using createDestination_shape [OF that] I by auto
  show "options s' = oo \<and> configured s' = cc" if "removeAllDestinations s = (s', None)"
    using removeAll_shape [OF that] I by auto
qed (simp_all add: purge_shape)

subsection \<open>The tasking invariant\<close>

text \<open>A destination this element holds: well formed, and provisioned unless it is configured.\<close>

definition destinations_ok :: "bool \<Rightarrow> (string, heldDestination) gomap \<Rightarrow> bool" where
  "destinations_ok c m \<longleftrightarrow> distinct (map fst m) \<and>
     (\<forall>did d. map_of m did = Some d \<longrightarrow> uuidPattern did \<and> hdConfigured d = c \<and> deliveryProducts (hdDeliveryType d) \<in> range Inr)"

text \<open>
  A task this element holds: its identifiers are well formed, it has a target, and its delivery
  endpoints are what its destination identifiers resolve to now.
\<close>

definition task_ok :: "Server \<Rightarrow> InterceptTask \<Rightarrow> bool" where
  "task_ok s t \<longleftrightarrow> uuidPattern (XID t) \<and> (ProductID t = '''' \<or> uuidPattern (ProductID t)) \<and> Targets t \<noteq> [] \<and>
     list_all uuidPattern (DIDs t) \<and> Products t \<noteq> [] \<and> resolveDIDs s (DIDs t) = (Deliveries t, []) \<and>
     (requireDIDs (options s) \<and> ProductCC \<in> set (Products t) \<longrightarrow> hasDelivery (Deliveries t) DeliveryX3)"

definition tasking_ok :: "Server \<Rightarrow> bool" where
  "tasking_ok s \<longleftrightarrow> store_inv (store s) \<and> destinations_ok False (destinations s) \<and> destinations_ok True (configured s) \<and>
     (\<forall>x t. store_abs (store s) x = Some t \<longrightarrow> task_ok s t)"

lemma resolve_loop_acc:
  "resolve_loop s dids eps unresolved =
     (eps @ concat (map (\<lambda>did. case resolveLocked did s of Some d \<Rightarrow> endpoints d did | None \<Rightarrow> []) dids),
      unresolved @ filter (\<lambda>did. resolveLocked did s = None) dids)"
  by (induction dids arbitrary: eps unresolved) (auto split: option.splits)

lemma resolveDIDs_alt:
  "resolveDIDs s dids =
     (concat (map (\<lambda>did. case resolveLocked did s of Some d \<Rightarrow> endpoints d did | None \<Rightarrow> []) dids),
      filter (\<lambda>did. resolveLocked did s = None) dids)"
  by (simp add: resolveDIDs_def resolve_loop_acc)

lemma resolveDIDs_cong:
  "(\<And>did. did \<in> set dids \<Longrightarrow> resolveLocked did s' = resolveLocked did s) \<Longrightarrow> resolveDIDs s' dids = resolveDIDs s dids"
  unfolding resolveDIDs_alt by (auto intro!: arg_cong [where f = concat] cong: filter_cong map_cong)

lemma task_ok_cong:
  assumes "task_ok s t" and "options s' = options s"
    and "\<And>did. did \<in> set (DIDs t) \<Longrightarrow> resolveLocked did s' = resolveLocked did s"
  shows "task_ok s' t"
  using assms resolveDIDs_cong [of "DIDs t" s' s] by (simp add: task_ok_def)

lemma resolveLocked_eq: "destinations s' = destinations s \<Longrightarrow> configured s' = configured s \<Longrightarrow> resolveLocked did s' = resolveLocked did s"
  by (simp add: resolveLocked_def split: option.splits)

lemma resolved: "task_ok s t \<Longrightarrow> did \<in> set (DIDs t) \<Longrightarrow> resolveLocked did s \<noteq> None"
  unfolding task_ok_def resolveDIDs_alt by (auto simp: filter_empty_conv)

lemma did_referenced_loop_iff: "did_referenced_loop ts did \<longleftrightarrow> (\<exists>t \<in> set ts. did \<in> set (DIDs t))"
  by (induction ts) auto

lemma didReferenced_iff:
  "store_inv (store s) \<Longrightarrow> didReferenced did s \<longleftrightarrow> (\<exists>x t. store_abs (store s) x = Some t \<and> did \<in> set (DIDs t))"
  by (auto simp: didReferenced_def did_referenced_loop_iff st.set_tasks ran_def)

lemma destinationsInUse_zero:
  assumes "store_inv (store s)" and "destinationsInUse s = 0" and "store_abs (store s) x = Some t" and "did \<in> set (DIDs t)"
  shows "map_of (destinations s) did = None"
proof (rule ccontr)
  assume "map_of (destinations s) did \<noteq> None"
  then obtain d where "(did, d) \<in> set (destinations s)" by (auto dest: map_of_SomeD)
  moreover have "t \<in> set (Snapshot (store s))" using assms by (auto simp: st.set_tasks ran_def)
  ultimately show False using assms(2,4) by (auto simp: destinationsInUse_def Let_def filter_empty_conv)
qed

lemma malformed_targets_arms: "malformed_targets tis = None \<Longrightarrow> list_all (\<lambda>t. populatedArms t \<le> 1) tis"
  by (induction tis) (auto split: option.splits if_splits)

lemma accepted_task_ok:
  assumes "malformedTaskIdentifiers td = None" and "taskFromDetails td s = Inr t"
  shows "task_ok s (t\<lparr>State := TaskActive\<rparr>)"
proof -
  note t = taskFromDetails_shape [OF assms(2)]
  from assms(1) have m: "uuidPattern (tdXID td) \<or> tdXID td = ''''" "tdProductID td = '''' \<or> uuidPattern (tdProductID td)"
    "list_all uuidPattern (ListOfDIDs td)" "list_all (\<lambda>t. populatedArms t \<le> 1) (TargetIdentifiers td)"
    using malformed_targets_arms by (auto simp: malformedTaskIdentifiers_iff)
  have "Targets t \<noteq> []" using map_targets_nonempty [OF t(7)] t(8) m(4) by blast
  moreover have "Products t \<noteq> []" using t(6) by (auto simp: deliveryProducts_def split: if_splits)
  ultimately show ?thesis using t m by (auto simp: task_ok_def)
qed

lemma tasking_ok_frame:
  assumes "tasking_ok s" and "options s' = options s" and "configured s' = configured s" and "destinations s' = destinations s"
    and "store_inv (store s')" and "\<And>x t. store_abs (store s') x = Some t \<Longrightarrow> store_abs (store s) x = Some t \<or> task_ok s t"
  shows "tasking_ok s'"
proof -
  have "task_ok s' t" if "task_ok s t" for t
    by (rule task_ok_cong [OF that assms(2)]) (rule resolveLocked_eq [OF assms(4,3)])
  with assms show ?thesis unfolding tasking_ok_def by metis
qed

lemma destinations_ok_update:
  "destinations_ok c m \<Longrightarrow> uuidPattern did \<Longrightarrow> hdConfigured d = c \<Longrightarrow> deliveryProducts (hdDeliveryType d) \<in> range Inr \<Longrightarrow>
   destinations_ok c (AList.update did d m)"
  by (auto simp: destinations_ok_def go_maps split: if_splits)

lemma destinationFrom_shape:
  "destinationFrom d = Inr dest \<Longrightarrow> hdConfigured dest = False \<and> hdDeliveryType dest = ddDeliveryType d \<and> hdFriendlyName dest = ddFriendlyName d"
  by (auto simp: destinationFrom_def Let_def split: option.splits)

text \<open>A destination that is not yet there may be created: no task resolves through it.\<close>

lemma tasking_ok_create:
  assumes ok: "tasking_ok s" and c: "createDestination dd s = (s', None)"
  shows "tasking_ok s'"
proof -
  from createDestination_shape [OF c] obtain d dest where d: "uuidPattern (ddDID d)" "destinationFrom d = Inr dest"
    "deliveryProducts (ddDeliveryType d) \<in> range Inr" "map_of (destinations s) (ddDID d) = None"
    "\<not> (map_of (configured s) (ddDID d) \<noteq> None \<and> didReferenced (ddDID d) s)"
    and s': "s' = s\<lparr>destinations := AList.update (ddDID d) dest (destinations s)\<rparr>" by auto
  from ok have inv: "store_inv (store s)" by (simp add: tasking_ok_def)
  have "task_ok s' t" if t: "store_abs (store s) x = Some t" for x t
  proof (rule task_ok_cong)
    from ok t show old: "task_ok s t" by (auto simp: tasking_ok_def)
    show "options s' = options s" by (simp add: s')
    fix did assume did: "did \<in> set (DIDs t)"
    with resolved [OF old did] d(4,5) t inv have "did \<noteq> ddDID d"
      by (auto simp: didReferenced_iff resolveLocked_def)
    then show "resolveLocked did s' = resolveLocked did s" by (simp add: s' resolveLocked_def go_maps split: option.splits)
  qed
  moreover have "destinations_ok False (AList.update (ddDID d) dest (destinations s))"
    using ok d(1,3) destinationFrom_shape [OF d(2)] by (auto simp: tasking_ok_def intro: destinations_ok_update)
  ultimately show ?thesis using ok by (simp add: tasking_ok_def s')
qed

lemma tasking_ok_remove_all:
  assumes ok: "tasking_ok s" and r: "removeAllDestinations s = (s', None)"
  shows "tasking_ok s'"
proof -
  from removeAll_shape [OF r] have z: "destinationsInUse s = 0" and s': "s' = s\<lparr>destinations := []\<rparr>" by auto
  have "task_ok s' t" if t: "store_abs (store s) x = Some t" for x t
  proof (rule task_ok_cong)
    from ok t show "task_ok s t" by (auto simp: tasking_ok_def)
    show "options s' = options s" by (simp add: s')
    fix did assume "did \<in> set (DIDs t)"
    with ok z t have "map_of (destinations s) did = None" by (auto simp: tasking_ok_def dest: destinationsInUse_zero)
    then show "resolveLocked did s' = resolveLocked did s" by (simp add: s' resolveLocked_def)
  qed
  with ok show ?thesis by (simp add: tasking_ok_def s' destinations_ok_def)
qed

lemma tasking_ok_transition:
  assumes ok: "tasking_ok s" and c: "applyTaskTransition m b s = (s', None)"
  shows "tasking_ok s'"
proof -
  from applyTaskTransition_shape [OF c] obtain td t where t: "malformedTaskIdentifiers td = None" "taskFromDetails td s = Inr t"
    and s': "s' = notifyChanged (store_abs (store s) (XID t)) (t\<lparr>State := TaskActive\<rparr>) (s\<lparr>store := fst (Activate t (store s))\<rparr>)"
    by auto
  show ?thesis
  proof (rule tasking_ok_frame [OF ok])
    show "store_inv (store s')" using ok by (simp add: s' tasking_ok_def st.invars)
    show "store_abs (store s) x = Some u \<or> task_ok s u" if "store_abs (store s') x = Some u" for x u
      using that accepted_task_ok [OF t] taskFromDetails_shape(2) [OF t(2)] by (auto simp: s' st.views split: if_splits)
  qed (simp_all add: s')
qed

lemma tasking_ok_fewer:
  assumes "tasking_ok s" and "options s' = options s" and "configured s' = configured s" and "destinations s' = destinations s"
    and "store_inv (store s')" and "store_abs (store s') \<subseteq>\<^sub>m store_abs (store s)"
  shows "tasking_ok s'"
  by (rule tasking_ok_frame [OF assms(1-5)]) (use assms(6) in \<open>auto simp: map_le_def dom_def\<close>)

interpretation tk: server_invariant tasking_ok
proof
  fix s s' :: Server and c n m b x reason dd
  assume ok: "tasking_ok s"
  then have inv: "store_inv (store s)" by (simp add: tasking_ok_def)
  show "tasking_ok (emit (AuthFailure c) s)" "tasking_ok (recordActivity s)" "tasking_ok (s\<lparr>clock := n\<rparr>)"
    by (rule tasking_ok_fewer [OF ok]; simp add: inv)+
  show "tasking_ok (purgeAllTaskingLocked reason s)"
    by (rule tasking_ok_fewer [OF ok]) (simp_all add: purge_shape st.invars st.views)
  show "tasking_ok s'" if "deactivate x s = (s', None)"
    by (rule tasking_ok_fewer [OF ok])
      (use that inv in \<open>auto simp: deactivate_shape st.invars st.views map_le_def split: if_splits option.splits\<close>)
qed (rule tasking_ok_transition tasking_ok_create tasking_ok_remove_all; assumption)+

subsection \<open>What the point of interception was told\<close>

text \<open>
  The tasking a point of interception believes in, from the changes it was told; and that each
  change continues the last: its previous task is what was told before, it is a change, and a removal
  is followed by its reason.
\<close>

fun tell :: "(xid \<rightharpoonup> InterceptTask) \<Rightarrow> server_event \<Rightarrow> (xid \<rightharpoonup> InterceptTask)" where
  "tell m (TaskChange prev (Some t)) = m(XID t \<mapsto> t)"
| "tell m (TaskChange (Some p) None) = m(XID p := None)"
| "tell m e = m"

abbreviation told :: "(xid \<rightharpoonup> InterceptTask) \<Rightarrow> server_event list \<Rightarrow> (xid \<rightharpoonup> InterceptTask)" where
  "told m es \<equiv> foldl tell m es"

fun may_follow :: "(xid \<rightharpoonup> InterceptTask) \<Rightarrow> server_event \<Rightarrow> server_event list \<Rightarrow> bool" where
  "may_follow m (TaskChange prev (Some t)) es \<longleftrightarrow> m (XID t) = prev \<and> prev \<noteq> Some t"
| "may_follow m (TaskChange (Some p) None) es \<longleftrightarrow> m (XID p) = Some p \<and> (\<exists>r es'. es = Purge p r # es')"
| "may_follow m (TaskChange None None) es \<longleftrightarrow> False"
| "may_follow m e es \<longleftrightarrow> True"

fun continues :: "(xid \<rightharpoonup> InterceptTask) \<Rightarrow> server_event list \<Rightarrow> bool" where
  "continues m [] \<longleftrightarrow> True"
| "continues m (e # es) \<longleftrightarrow> may_follow m e es \<and> continues (tell m e) es"

definition told_ok :: "Server \<Rightarrow> bool" where
  "told_ok s \<longleftrightarrow> store_inv (store s) \<and> told Map.empty (events s) = store_abs (store s) \<and> continues Map.empty (events s)"

lemma may_follow_append: "may_follow m e es \<Longrightarrow> may_follow m e (es @ es')"
  by (induction m e es rule: may_follow.induct) auto

lemma continues_append: "continues m es \<Longrightarrow> continues (told m es) es' \<Longrightarrow> continues m (es @ es')"
  by (induction m es rule: continues.induct) (auto simp: may_follow_append)

lemma removal_told:
  assumes "\<And>t. t \<in> set ts \<Longrightarrow> m (XID t) = Some t" and "distinct (map XID ts)"
  shows "told m (removal_events r ts) = m |` (- XID ` set ts) \<and> continues m (removal_events r ts)"
  using assms
proof (induction ts arbitrary: m)
  case (Cons t ts)
  let ?m = "m(XID t := None)"
  have "?m (XID u) = Some u" if "u \<in> set ts" for u using Cons.prems that by (auto simp: rev_image_eqI)
  then have IH: "told ?m (removal_events r ts) = ?m |` (- XID ` set ts) \<and> continues ?m (removal_events r ts)"
    using Cons.prems(2) by (intro Cons.IH) auto
  have "?m |` (- XID ` set ts) = m |` (- XID ` set (t # ts))" by (auto simp: restrict_map_def)
  with IH Cons.prems show ?case by (simp add: removal_events_def)
qed (simp add: removal_events_def restrict_map_def)

lemma removal_told_ok:
  assumes "told_ok s" and "\<And>t. t \<in> set ts \<Longrightarrow> store_abs (store s) (XID t) = Some t" and "distinct (map XID ts)"
    and "store_inv st'" and "store_abs st' = store_abs (store s) |` (- XID ` set ts)"
  shows "told_ok (s\<lparr>store := st', events := events s @ removal_events r ts\<rparr>)"
  using assms removal_told [of ts "store_abs (store s)" r]
  by (auto simp: told_ok_def intro: continues_append)

interpretation ev: server_invariant told_ok
proof
  fix s s' :: Server and c n m b x reason dd
  assume ok: "told_ok s"
  then have inv: "store_inv (store s)" by (simp add: told_ok_def)
  show "told_ok (emit (AuthFailure c) s)" using ok by (auto simp: told_ok_def intro: continues_append)
  show "told_ok (recordActivity s)" "told_ok (s\<lparr>clock := n\<rparr>)" using ok by (auto simp: told_ok_def)
  show "told_ok s'" if "createDestination dd s = (s', None)"
    using createDestination_shape [OF that] ok by (auto simp: told_ok_def)
  show "told_ok s'" if "removeAllDestinations s = (s', None)"
    using removeAll_shape [OF that] ok by (auto simp: told_ok_def)
  show "told_ok (purgeAllTaskingLocked reason s)"
    unfolding purge_shape
  proof (rule removal_told_ok [OF ok])
    show "store_abs (store s) (XID t) = Some t" if "t \<in> set (Snapshot (store s))" for t
      using that st.in_tasks [OF inv] by (simp add: st.lookup_view)
    show "distinct (map XID (Snapshot (store s)))" using st.order_tasks [OF inv] by simp
    have "x \<in> XID ` set (Snapshot (store s))" if "store_abs (store s) x = Some t" for x t
      using that st.view_key [OF inv that] st.set_tasks [OF inv] by (force simp: ran_def)
    then have "store_abs (store s) x = None" if "x \<notin> XID ` set (Snapshot (store s))" for x using that by fastforce
    then show "store_abs (DeactivateAll (store s)) = store_abs (store s) |` (- XID ` set (Snapshot (store s)))"
      by (auto simp: st.views restrict_map_def fun_eq_iff)
  qed (simp add: st.invars)
  show "told_ok s'" if d: "deactivate x s = (s', None)"
  proof -
    from d obtain t where t: "store_abs (store s) x = Some t"
      and s': "s' = s\<lparr>store := fst (Deactivate x (store s)), events := events s @ removal_events PurgeWithdrawal [t]\<rparr>"
      by (auto simp: deactivate_shape split: if_splits option.splits)
    have x: "XID t = x" using st.view_key [OF inv t] by simp
    show ?thesis unfolding s'
      by (rule removal_told_ok [OF ok]) (auto simp: t x inv st.invars st.views restrict_map_def fun_eq_iff)
  qed
  show "told_ok s'" if a: "applyTaskTransition m b s = (s', None)"
    using applyTaskTransition_shape [OF a] ok taskFromDetails_shape(2)
    by (auto simp: told_ok_def st.invars st.views intro!: continues_append)
qed

subsection \<open>Reachable servers\<close>

definition server_reachable :: "string \<Rightarrow> server_option list \<Rightarrow> int \<Rightarrow> X1System \<Rightarrow> bool" where
  "server_reachable ne opts timeout y \<longleftrightarrow> (\<forall>f \<in> set opts. is_option f) \<and>
     (\<exists>uni t. x1_steps timeout (system_init (NewServer New ne opts uni t)) y)"

definition starts_ok :: "Server \<Rightarrow> bool" where
  "starts_ok s \<longleftrightarrow> store s = New \<and> destinations s = [] \<and> events s = [] \<and> destinations_ok True (configured s)"

lemma Configured_Valid_ok:
  "Configured_Valid d = None \<Longrightarrow> uuidPattern (cdDID d) \<and> deliveryProducts (cdDeliveryType d) \<in> range Inr"
  by (auto simp: Configured_Valid_def validIdentifier_def split: if_splits sum.splits)

lemma configured_loop_ok: "destinations_ok True m \<Longrightarrow> destinations_ok True (configured_loop ds m)"
proof (induction ds m rule: configured_loop.induct)
  case (2 d ds m)
  show ?case
  proof (cases "Configured_Valid d")
    case None
    with "2.prems" Configured_Valid_ok [OF None]
    have "destinations_ok True (AList.update (cdDID d)
        \<lparr>hdAddress = cdAddress d, hdDeliveryType = cdDeliveryType d, hdFriendlyName = '''', hdConfigured = True\<rparr> m)"
      by (intro destinations_ok_update) simp_all
    with 2 None show ?thesis by simp
  qed (use 2 in simp)
qed simp

lemma option_starts: "is_option f \<Longrightarrow> starts_ok s \<Longrightarrow> starts_ok (f s)"
  by (induction rule: is_option.induct) (auto simp: starts_ok_def option_defs configured_loop_ok)

lemma options_start: "\<forall>f \<in> set opts. is_option f \<Longrightarrow> starts_ok s \<Longrightarrow> starts_ok (foldl (\<lambda>srv opt. opt srv) s opts)"
  by (induction opts arbitrary: s) (auto intro: option_starts)

lemma NewServer_starts: "\<forall>f \<in> set opts. is_option f \<Longrightarrow> starts_ok (NewServer New ne opts uni t)"
  unfolding NewServer_def by (rule options_start) (simp_all add: starts_ok_def destinations_ok_def)

lemma starts_tasking_ok: "starts_ok s \<Longrightarrow> tasking_ok s"
  by (simp add: starts_ok_def tasking_ok_def st.invars destinations_ok_def)

lemma starts_told_ok: "starts_ok s \<Longrightarrow> told_ok s"
  by (simp add: starts_ok_def told_ok_def st.invars)

lemma reachable_ok:
  assumes "server_reachable ne opts timeout y"
  shows "tasking_ok (srv y)" and "told_ok (srv y)"
  using assms tk.on_steps [OF _ starts_tasking_ok] ev.on_steps [OF _ starts_told_ok] NewServer_starts
  unfolding server_reachable_def by (fastforce simp: system_init_def)+

lemma system_eta: "\<lparr>srv = srv y, inflight = inflight y, deciding = deciding y\<rparr> = y"
  by simp

lemma applyAuthenticated_steps:
  "x1_steps timeout y (y\<lparr>srv := fst (applyAuthenticated ob fresh m peer (srv y))\<rparr>)"
proof (cases "authenticate m peer (srv y)")
  case None
  let ?y = "y\<lparr>srv := recordActivity (srv y), inflight := m # inflight y\<rparr>"
  have "x1_step timeout y ?y" using None by (rule x1_step.arrives)
  moreover have "x1_step timeout ?y (?y\<lparr>srv := fst (apply_message ob fresh m (srv ?y)), inflight := remove1 m (inflight ?y)\<rparr>)"
    by (rule x1_step.applies) simp
  ultimately show ?thesis using None by (simp add: applyAuthenticated_def case_prod_beta)
next
  case (Some f)
  then show ?thesis using x1_step.refused [OF Some, of timeout fresh]
    by (simp add: applyAuthenticated_def case_prod_beta)
qed

text \<open>A request processed on its own is one of the interleavings.\<close>

lemma process_loop_steps: "x1_steps timeout y (y\<lparr>srv := fst (process_loop ms peer (srv y) out)\<rparr>)"
proof (induction ms arbitrary: y out)
  case (Cons a ms)
  obtain m ob fresh where a: "a = (m, ob, fresh)" by (cases a)
  obtain s' rm ok where s: "applyAuthenticated ob fresh m peer (srv y) = (s', rm, ok)" by (cases "applyAuthenticated ob fresh m peer (srv y)")
  have "x1_steps timeout y (y\<lparr>srv := s'\<rparr>)" using applyAuthenticated_steps [of timeout y ob fresh m peer] s by simp
  also have "x1_steps timeout (y\<lparr>srv := s'\<rparr>) (y\<lparr>srv := fst (process_loop ms peer s' (out @ [rm]))\<rparr>)"
    using Cons.IH [of "y\<lparr>srv := s'\<rparr>" "out @ [rm]"] by simp
  finally show ?case by (simp add: a s)
qed simp

lemma server_reachable_Process:
  "server_reachable ne opts timeout y \<Longrightarrow> server_reachable ne opts timeout (y\<lparr>srv := fst (Process (Some ms) peer (srv y))\<rparr>)"
  using process_loop_steps [of timeout y ms peer "[]"]
  by (fastforce simp: server_reachable_def Process_def case_prod_beta intro: rtranclp_trans)

lemma server_reachable_init: "\<forall>f \<in> set opts. is_option f \<Longrightarrow> server_reachable ne opts timeout (system_init (NewServer New ne opts uni t))"
  by (auto simp: server_reachable_def)

subsection \<open>Time\<close>

lemma keeps_time:
  assumes "changed_by m s s'"
  shows "clock s' = clock s \<and> lastSeen s' = lastSeen s"
proof -
  have "applyTaskTransition m b s = (s', None) \<Longrightarrow> ?thesis" for b using applyTaskTransition_shape [of m b s s' None] by auto
  moreover have "createDestination dd s = (s', None) \<Longrightarrow> ?thesis" for dd using createDestination_shape [of dd s s' None] by auto
  moreover have "removeAllDestinations s = (s', None) \<Longrightarrow> ?thesis" using removeAll_shape [of s s' None] by auto
  moreover have "deactivate x s = (s', None) \<Longrightarrow> ?thesis" for x by (auto simp: deactivate_shape split: if_splits option.splits)
  moreover have "s' = purgeAllTaskingLocked r s \<Longrightarrow> ?thesis" for r by (simp add: purge_shape)
  ultimately show ?thesis using assms unfolding changed_by_def by blast
qed

lemma apply_keeps_time: "clock (fst (apply_message ob fresh m s)) = clock s \<and> lastSeen (fst (apply_message ob fresh m s)) = lastSeen s"
proof (cases "apply_message ob fresh m s")
  case (Pair s' rm)
  then show ?thesis using apply_message_cases [OF Pair] keeps_time [of m s s'] by simp
qed

text \<open>Once a message was recorded at time \<open>n\<close>, the server never believes it was earlier.\<close>

definition seen_since :: "int \<Rightarrow> X1System \<Rightarrow> bool" where
  "seen_since n y \<longleftrightarrow> (\<exists>l. lastSeen (srv y) = Some l \<and> n \<le> l) \<and> n \<le> clock (srv y)"

lemma seen_since_step: "x1_step timeout y z \<Longrightarrow> seen_since n y \<Longrightarrow> seen_since n z"
  by (induction rule: x1_step.induct)
    (auto simp: seen_since_def refuse_unauthenticated_def apply_keeps_time purge_if_still_lapsed_def purge_shape split: prod.splits)

lemma seen_since_steps: "x1_steps timeout y z \<Longrightarrow> seen_since n y \<Longrightarrow> seen_since n z"
  by (induction rule: rtranclp_induct) (auto intro: seen_since_step)

lemma not_lapsed_since:
  "seen_since n y \<Longrightarrow> clock (srv y) - n \<le> timeout \<Longrightarrow> 0 \<le> timeout \<Longrightarrow> \<not> lapsed timeout (srv y)"
  by (auto simp: seen_since_def lapsed_def Sub_def minDuration_def)

subsection \<open>Destinations that can be dialled\<close>

lemma IPAddress_Valid_cases:
  assumes "IPAddress_Valid a = None"
  shows "(IPv4 a \<noteq> '''' \<and> (\<exists>x. ParseAddr (IPv4 a) = Some x \<and> Is4 x)) \<or> (IPv4 a = '''' \<and> (\<exists>x. ParseAddr (IPv6 a) = Some x \<and> \<not> Is4 x))"
  using assms by (auto simp: IPAddress_Valid_def split: if_splits option.splits)

lemma destinationFrom_splits:
  assumes d: "destinationFrom d = Inr dest" and ap: "IPAddressAndPort d = Some ap"
    and host: "host = (if IPv4 (ipAddress ap) = '''' then IPv6 (ipAddress ap) else IPv4 (ipAddress ap))"
  shows "if list_all host_char host
    then SplitHostPort (hdAddress dest) = Some (host, FormatUint (unat (Port_Value (ipPort ap)))) \<and> ParseAddr host \<noteq> None \<and>
      Port_Value (ipPort ap) \<noteq> 0
    else SplitHostPort (hdAddress dest) = None \<and> CHR ''%'' \<in> set host"
proof -
  let ?p = "FormatUint (unat (Port_Value (ipPort ap)))" and ?a = "ipAddress ap"
  from d ap have v: "IPAddress_Valid ?a = None" and p: "Port_Value (ipPort ap) \<noteq> 0"
    and addr: "hdAddress dest = (if IPv4 ?a = '''' then ''['' @ IPv6 ?a @ '']'' else IPv4 ?a) @ '':'' @ ?p"
    by (auto simp: destinationFrom_def Port_Valid_def Let_def split: option.splits if_splits)
  from IPAddress_Valid_cases [OF v] show ?thesis
  proof (elim disjE conjE exE)
    fix x assume "IPv4 ?a \<noteq> ''''" and x: "ParseAddr (IPv4 ?a) = Some x" "Is4 x"
    moreover have "list_all host_char (IPv4 ?a)" "CHR '':'' \<notin> set (IPv4 ?a)"
      using ParseAddr_4 [OF x] dotted_chars by (auto simp: list_all_iff)
    ultimately show ?thesis using p SplitHostPort_plain FormatUint_chars by (simp add: addr host)
  next
    fix x assume e: "IPv4 ?a = ''''" and x: "ParseAddr (IPv6 ?a) = Some x" "\<not> Is4 x"
    have h: "host = IPv6 ?a" by (simp add: host e)
    show ?thesis
    proof (cases "list_all host_char host")
      case True
      then show ?thesis using SplitHostPort_bracket [OF True, of ?p] FormatUint_chars e x p h by (simp add: addr)
    next
      case False
      then have "\<not> list_all addr_char (IPv6 ?a)" using h addr_char_host by (auto simp: list_all_iff)
      then have "CHR ''%'' \<in> set (IPv6 ?a)" using ParseAddr_6 [OF x] parseIPv6_zone_free parseIPv6_chars by blast
      then show ?thesis using SplitHostPort_brackets [of "IPv6 ?a" ?p] FormatUint_chars e h False by (simp add: addr)
    qed
  qed
qed

subsection \<open>Properties\<close>

text \<open>
  C1. Whatever requests and watchdog ticks interleave, every task the element holds is well formed
  and its endpoints are exactly what the destination identifiers it names resolve to now: all of
  them resolve, the warrant's product goes where the element answers that it goes, and an element
  that requires it has an X3 endpoint for every content task.
\<close>

theorem tasking_always_resolves:
  "server_reachable ne opts timeout y \<Longrightarrow> Get x (store (srv y)) = Some t \<Longrightarrow>
   XID t = x \<and> uuidPattern x \<and> State t = TaskActive \<and> Targets t \<noteq> [] \<and> Products t \<noteq> [] \<and>
   resolveDIDs (srv y) (DIDs t) = (Deliveries t, []) \<and>
   (requireDIDs (options (srv y)) \<and> ProductCC \<in> set (Products t) \<longrightarrow> hasDelivery (Deliveries t) DeliveryX3)"
  using reachable_ok(1) [of ne opts timeout y] st.view_key [of "store (srv y)" x t]
  by (auto simp: tasking_ok_def task_ok_def st.lookup_view)

text \<open>
  C2. What the point of interception was told is what the element holds: replaying the lifecycle
  events from the empty tasking gives the tasks of the store in every reachable state, each event
  carries the task told before under that identifier, no event is sent for an exact replay, and every
  removal names its reason next.
\<close>

theorem told_is_held:
  "server_reachable ne opts timeout y \<Longrightarrow>
   told Map.empty (events (srv y)) = (\<lambda>x. Get x (store (srv y))) \<and> continues Map.empty (events (srv y))"
  using reachable_ok(2) [of ne opts timeout y] by (auto simp: told_ok_def st.lookup_view fun_eq_iff)

text \<open>
  C7. A message authenticates exactly when the peer presented a certificate that binds the
  identifier the message asserts, that identifier is the configured ADMF's where one is configured,
  and the message is addressed to this element. Any other message is refused, changes nothing, does
  not count as a sign of life, and leaves one security event with the code of the answer: 1030 where
  there is no certificate or no identifier; otherwise 1040 where the identifier is not the configured
  ADMF's; otherwise 1060 where another element is addressed; otherwise 1030, since the certificate does
  not bind the identifier.
\<close>

theorem unauthenticated_changes_nothing:
  "applyAuthenticated ob fresh m peer s = (s', rm, ok) \<Longrightarrow>
   (ok \<longleftrightarrow> (\<exists>c. peer = Some c \<and> AdmfIdentifier m \<noteq> '''' \<and>
      ((oidUID, StringValue (AdmfIdentifier m)) \<in> set (SubjectNames c) \<or>
       certBindingURNPrefix @ roleADMF @ '':'' @ AdmfIdentifier m \<in> set (URIs c))) \<and>
      (admfID (options s) = '''' \<or> AdmfIdentifier m = admfID (options s)) \<and> NeIdentifier m = neID (options s)) \<and>
   (\<not> ok \<longrightarrow> (\<exists>code d. s' = s\<lparr>events := events s @ [AuthFailure code]\<rparr> \<and>
      rsType rm = errorResponse \<and> rsErrorInformation rm = Some (X1Error code d) \<and>
      code = (if peer = None \<or> AdmfIdentifier m = '''' then 1030
              else if admfID (options s) \<noteq> '''' \<and> AdmfIdentifier m \<noteq> admfID (options s) then 1040
              else if NeIdentifier m \<noteq> neID (options s) then 1060 else 1030)))"
proof -
  assume a: "applyAuthenticated ob fresh m peer s = (s', rm, ok)"
  have ok: "ok \<longleftrightarrow> authenticate m peer s = None"
    using a by (auto simp: applyAuthenticated_def case_prod_beta split: option.splits)
  have iff: "authenticate m peer s = None \<longleftrightarrow> (\<exists>c. peer = Some c \<and> AdmfIdentifier m \<noteq> '''' \<and>
      ((oidUID, StringValue (AdmfIdentifier m)) \<in> set (SubjectNames c) \<or>
       certBindingURNPrefix @ roleADMF @ '':'' @ AdmfIdentifier m \<in> set (URIs c))) \<and>
      (admfID (options s) = '''' \<or> AdmfIdentifier m = admfID (options s)) \<and> NeIdentifier m = neID (options s)"
    by (auto simp: authenticate_def certBinds_iff split: option.splits)
  let ?code = "if peer = None \<or> AdmfIdentifier m = '''' then 1030
    else if admfID (options s) \<noteq> '''' \<and> AdmfIdentifier m \<noteq> admfID (options s) then 1040
    else if NeIdentifier m \<noteq> neID (options s) then 1060 else 1030"
  have "authenticate m peer s = Some f \<Longrightarrow> fst f = ?code" for f
    by (auto simp: authenticate_def x1_codes split: option.splits if_splits)
  then have no: "\<not> ok \<Longrightarrow> \<exists>code d. s' = s\<lparr>events := events s @ [AuthFailure code]\<rparr> \<and>
      rsType rm = errorResponse \<and> rsErrorInformation rm = Some (X1Error code d) \<and> code = ?code"
    using a ok by (fastforce simp: applyAuthenticated_def refuse_unauthenticated_def emit_def)
  from ok iff no show ?thesis by blast
qed

text \<open>A server that was sent one activation, for the examples.\<close>

definition ex_details :: TaskDetails where
  "ex_details = \<lparr>tdXID = ex_uuid, TargetIdentifiers = [ex_tid ''001''], tdDeliveryType = deliveryX2Only, ListOfDIDs = [],
     DSIDs = [], tdCorrelationID = '''', tdProductID = '''', ListOfServiceTypes = [], TaskDetailsExtensions = [],
     ListOfTrafficPolicyReferences = []\<rparr>"

definition ex_request :: "string \<Rightarrow> X1RequestMessage" where
  "ex_request type = \<lparr>rqType = type, AdmfIdentifier = ''a1'', NeIdentifier = ''ne1'', rqVersion = ''v1.6.1'',
     rqTransactionID = ex_uuid, rqTaskDetails = Some ex_details, rqXID = ex_uuid, rqDestinationDetails = None, rqDID = ''''\<rparr>"

definition ex_peer :: "certificate option" where
  "ex_peer = Some \<lparr>SubjectNames = [(oidUID, StringValue ''a1'')], URIs = []\<rparr>"

definition ex_observations :: Observations where
  "ex_observations = \<lparr>faultProbes = [], taskFaults = None, destinationReachable = None\<rparr>"

definition ex_server :: Server where
  "ex_server = NewServer New ''ne1'' [] id 0"

definition ex_tasked :: Server where
  "ex_tasked = fst (Process (Some [(ex_request ''ActivateTaskRequest'', ex_observations, ex_uuid)]) ex_peer ex_server)"

definition ex_held :: InterceptTask where
  "ex_held = \<lparr>XID = ex_uuid, Targets = [\<lparr>tiType = TargetSUPI, tiValue = ''001''\<rparr>], DIDs = [], Products = [ProductIRI],
     Deliveries = [], State = TaskActive, ProductID = '''', CorrelationID = 0, RecordScope = ''''\<rparr>"

lemma ex_reachable: "server_reachable ''ne1'' [] timeout ((system_init ex_server)\<lparr>srv := ex_tasked\<rparr>)"
  using server_reachable_Process [OF server_reachable_init [of "[]" "''ne1''" timeout id 0],
      of "[(ex_request ''ActivateTaskRequest'', ex_observations, ex_uuid)]" ex_peer]
  by (simp add: ex_tasked_def ex_server_def system_init_def)

lemma ex_server_simps [simp]:
  "store ex_server = New" "events ex_server = []" "lowerText (options ex_server) = id" "requireDIDs (options ex_server) = False"
  "neID (options ex_server) = ''ne1''" "admfID (options ex_server) = ''''" "canApply (options ex_server) t = None" "clock ex_server = 0"
  by (simp_all add: ex_server_def NewServer_def)

lemma ex_details_ok: "malformedTaskIdentifiers ex_details = None" "unhonourableTaskFields ex_details b = None"
  by (simp_all add: malformedTaskIdentifiers_def validIdentifier_def ex_uuid_ok ex_details_def malformedTargetValue_def ex_tid_def
      populatedArms_def unhonourableTaskFields_def)

lemma ex_uuid_not_empty [simp]: "ex_uuid \<noteq> ''''"
  by (simp add: ex_uuid_def)

lemma ex_task_from: "taskFromDetails ex_details (recordActivity ex_server) = Inr (ex_held\<lparr>State := TaskUnset\<rparr>)"
  by (simp add: taskFromDetails_def ex_details_def ex_held_def ex_tid_def mapTarget_def one_def deliveryProducts_def x1_literals
      resolveDIDs_def recordScope_def RecordScopeStandard_def)

lemma authenticate_cong: "options s' = options s \<Longrightarrow> authenticate m peer s' = authenticate m peer s"
  by (simp add: authenticate_def split: option.splits)

lemma ex_authenticates: "authenticate (ex_request type) ex_peer ex_server = None"
  by (simp add: authenticate_def ex_peer_def ex_request_def certBinds_def)

lemma ex_tasked_state:
  "store ex_tasked = fst (Activate (ex_held\<lparr>State := TaskUnset\<rparr>) New)" "events ex_tasked = [TaskChange None (Some ex_held)]"
  "destinations ex_tasked = destinations ex_server" "configured ex_tasked = configured ex_server"
proof -
  let ?m = "ex_request ''ActivateTaskRequest''" and ?s = "recordActivity ex_server"
  have k: "map_of request_kinds (localType (rqType ?m)) = Some RqActivateTask" by code_simp
  have d: "rqTaskDetails ?m = Some ex_details" by (simp add: ex_request_def)
  have "XID (ex_held\<lparr>State := TaskUnset\<rparr>) \<noteq> ''''" by (simp add: ex_held_def)
  note g = st.lookup_activate [OF this]
  have a: "applyTaskTransition ?m False ?s =
      (emit (TaskChange None (Some ex_held)) (?s\<lparr>store := fst (Activate (ex_held\<lparr>State := TaskUnset\<rparr>) New)\<rparr>), None)"
    by (simp add: applyTaskTransition_def d ex_details_ok activate_def ex_task_from case_prod_beta g st.ok_activate notifyChanged_def
        Let_def st.views)
      (simp add: ex_held_def)
  show "store ex_tasked = fst (Activate (ex_held\<lparr>State := TaskUnset\<rparr>) New)" "events ex_tasked = [TaskChange None (Some ex_held)]"
    "destinations ex_tasked = destinations ex_server" "configured ex_tasked = configured ex_server"
    by (simp_all add: ex_tasked_def Process_def applyAuthenticated_def ex_authenticates apply_message_def apply_request_def k a Let_def)
qed

lemma ex_tasked_get: "Get ex_uuid (store ex_tasked) = Some ex_held"
  by (simp add: ex_tasked_state st.views) (simp add: ex_held_def)

theorem tasking_always_resolves_witness:
  "Get ex_uuid (store ex_tasked) = Some ex_held \<and> resolveDIDs ex_tasked (DIDs ex_held) = (Deliveries ex_held, [])"
  using tasking_always_resolves [OF ex_reachable [of 1]] ex_tasked_get by simp

theorem told_is_held_witness:
  "told Map.empty [TaskChange None (Some ex_held)] = (\<lambda>x. Get x (store ex_tasked)) \<and>
   continues Map.empty [TaskChange None (Some ex_held)]"
  using told_is_held [OF ex_reachable [of 1]] ex_tasked_state by simp

theorem unauthenticated_changes_nothing_witness:
  "fst (applyAuthenticated ex_observations ex_uuid (ex_request ''DeactivateAllTasksRequest'') None ex_tasked) =
     ex_tasked\<lparr>events := events ex_tasked @ [AuthFailure 1030]\<rparr>"
proof -
  obtain s' rm ok where "applyAuthenticated ex_observations ex_uuid (ex_request ''DeactivateAllTasksRequest'') None ex_tasked = (s', rm, ok)"
    by (metis prod_cases3)
  from unauthenticated_changes_nothing [OF this] this show ?thesis by auto
qed

text \<open>
  C9. A request answered with an error changed nothing: not the tasks, not the destinations, and
  the point of interception was told nothing. The answer is an acknowledgement or an error, never
  both, and an error names the request it refuses. Its code is never 0, and it is one of the registry's
  codes that the element uses, unless it is the code the point of interception's own check of the
  task (\<open>CanApply\<close>) refused with.
\<close>

theorem error_changes_nothing:
  "apply_message ob fresh m s = (s', rm) \<Longrightarrow>
   (case rsErrorInformation rm of
      Some e \<Rightarrow> s' = s \<and> rsType rm = errorResponse \<and> rsOK rm = '''' \<and> rsRequestType rm = localType (rqType m) \<and>
        ErrorCode e \<noteq> 0 \<and> (ErrorCode e \<in> set x1_registry \<or> (\<exists>t r. canApply (options s) t = Some (Err (ErrorCode e) r)))
    | None \<Rightarrow> rsOK rm = ackOK)"
proof -
  assume a: "apply_message ob fresh m s = (s', rm)"
  obtain s1 err rm1 where r: "apply_request ob m (empty_response (response_header fresh m s)) s = (s1, err, rm1)"
    by (metis prod_cases3)
  have "rsErrorInformation rm1 = None" "rsOK rm1 = ''''" using apply_request_cases [OF r] by (simp_all add: empty_response_def)
  moreover have "0 \<notin> set x1_registry" by (simp add: x1_registry_def x1_codes)
  moreover have "err = Some (Err c d) \<Longrightarrow> c \<noteq> 0 \<Longrightarrow>
      c \<in> set x1_registry \<or> (\<exists>t r. canApply (options s) t = Some (Err c r))" for c d
    using coded_request [of ob m _ s s1 c d rm1] r by auto
  moreover have "0 < errCodeGeneric" by (simp add: errCodeGeneric_def)
  ultimately show ?thesis using a r apply_message_cases [OF a] registry_codes(1)
    by (auto simp: apply_message_def Let_def split: option.splits x1_error.splits if_splits)
qed

theorem error_changes_nothing_witness:
  "fst (apply_message ex_observations ex_uuid (ex_request ''FooRequest'') ex_tasked) = ex_tasked \<and>
   rsType (snd (apply_message ex_observations ex_uuid (ex_request ''FooRequest'') ex_tasked)) = errorResponse"
proof -
  obtain s' rm where a: "apply_message ex_observations ex_uuid (ex_request ''FooRequest'') ex_tasked = (s', rm)"
    by (metis prod.exhaust)
  have k: "map_of request_kinds (localType (rqType (ex_request ''FooRequest''))) = None" by code_simp
  have "rsErrorInformation rm \<noteq> None" using a by (auto simp: apply_message_def apply_request_def k Let_def)
  then show ?thesis using error_changes_nothing [OF a] a by auto
qed



text \<open>
  C8. The fail-safe. A tick leaves the server alone while a message is recent enough; once the
  ADMF has been silent for longer than the timeout it removes every task: nothing is held and
  nothing matches afterwards, and the point of interception is told of each removal and its reason,
  once for each task held, ordered by identifier.
\<close>

theorem failsafe_purges_everything:
  "store_inv (store s) \<Longrightarrow>
   (let s' = purgeIfLapsed timeout s in
    if Sub (clock s) (lastSeen s) \<le> timeout then s' = s
    else Snapshot (store s') = [] \<and> (\<forall>x. Get x (store s') = None) \<and> (\<forall>i. Match i (store s') = []) \<and>
      events s' = events s @ removal_events PurgeKeepaliveLapse (Snapshot (store s)) \<and>
      set (Snapshot (store s)) = {t. \<exists>x. Get x (store s) = Some t} \<and> distinct (map XID (Snapshot (store s))) \<and>
      destinations s' = destinations s \<and> configured s' = configured s)"
  using st.set_tasks [of "store s"] st.order_tasks [of "store s"] st.set_matching [OF st.invar_deactivate_all, of _ "store s"]
  by (auto simp: Let_def purgeIfLapsed_def purge_if_still_lapsed_def lapsed_def purge_shape st.views st.tasks_deactivate_all ran_def)

theorem failsafe_purges_everything_witness:
  "Snapshot (store (purgeIfLapsed 10 (ex_tasked\<lparr>clock := 100, lastSeen := Some 0\<rparr>))) = []"
proof -
  have "store_inv (store ex_tasked)" by (simp add: ex_tasked_state st.invars)
  with failsafe_purges_everything [of "ex_tasked\<lparr>clock := 100, lastSeen := Some 0\<rparr>" 10]
  show ?thesis by (simp add: Let_def Sub_def maxDuration_def minDuration_def)
qed

text \<open>
  Withdrawing a warrant. A deactivation succeeds exactly when the identifier is well formed and
  held; then that task and no other is removed, and the point of interception is told which one and
  that it was withdrawn. Otherwise the answer says which: no identifier, a malformed one (1010), or
  one this element does not hold (2020).
\<close>

theorem deactivate_exact:
  "deactivate x s = (s', err) \<Longrightarrow>
   (case err of
      None \<Rightarrow> uuidPattern x \<and> (\<exists>t. Get x (store s) = Some t \<and>
        (\<forall>z. Get z (store s') = (if z = x then None else Get z (store s))) \<and>
        events s' = events s @ [TaskChange (Some t) None, Purge t PurgeWithdrawal])
    | Some e \<Rightarrow> s' = s \<and>
        (x = '''' \<and> errorCode err = 0 \<or> x \<noteq> '''' \<and> \<not> uuidPattern x \<and> errorCode err = errCodeSchemaError \<or>
         uuidPattern x \<and> Get x (store s) = None \<and> errorCode err = errCodeNoSuchTask))"
  by (auto simp: deactivate_shape st.views removal_events_def validIdentifier_def refuse_def split: if_splits option.splits)

theorem deactivate_exact_witness:
  "Get ex_uuid (store (fst (deactivate ex_uuid ex_tasked))) = None \<and> Get ex_uuid (store ex_tasked) = Some ex_held"
proof -
  obtain s' err where d: "deactivate ex_uuid ex_tasked = (s', err)" by (metis prod.exhaust)
  from deactivate_exact [OF d] show ?thesis
    using d ex_tasked_get ex_uuid_ok by (auto split: option.splits)
qed


definition ex_destination :: "string \<Rightarrow> DestinationDetails" where
  "ex_destination ip6 = \<lparr>ddDID = ex_uuid, ddFriendlyName = '''', ddDeliveryType = deliveryX3Only,
     IPAddressAndPort = Some \<lparr>ipAddress = \<lparr>IPv4 = '''', IPv6 = ip6\<rparr>, ipPort = \<lparr>TCPPort = Some 8, UDPPort = None\<rparr>\<rparr>,
     ddExtensions = []\<rparr>"

lemma ex_create:
  assumes "ParseAddr ip6 = Some a" and "\<not> Is4 a" and "ip6 \<noteq> ''''"
  shows "createDestination (Some (ex_destination ip6)) ex_server =
    (ex_server\<lparr>destinations := [(ex_uuid, \<lparr>hdAddress = (''['' @ ip6 @ '']'') @ '':'' @ FormatUint 8, hdDeliveryType = deliveryX3Only,
       hdFriendlyName = '''', hdConfigured = False\<rparr>)]\<rparr>, None)"
  using assms
  by (simp add: createDestination_def ex_destination_def validIdentifier_def ex_uuid_ok deliveryProducts_def x1_literals
      destinationFrom_def IPAddress_Valid_def IPAddress_Arms_def Port_Valid_def Port_Arms_def Port_Value_def Let_def
      ex_server_def NewServer_def)

lemma ex_port: "FormatUint 8 = ''8''"
  by code_simp

lemma ex_loopback: "ParseAddr ''::1'' = Some (Addr6 (replicate 15 0 @ [1]) '''')"
  by code_simp


text \<open>The same destination, addressed by \<open>a\<close>.\<close>

definition addressed :: "DestinationDetails \<Rightarrow> Port \<Rightarrow> string \<Rightarrow> DestinationDetails" where
  "addressed d pt a = d\<lparr>IPAddressAndPort := Some \<lparr>ipAddress = \<lparr>IPv4 = '''', IPv6 = a\<rparr>, ipPort = pt\<rparr>\<rparr>"

lemma create_addressed:
  assumes "createDestination (Some (addressed d pt a)) s = (s', None)" and "ParseAddr b = Some x" and "\<not> Is4 x" and "b \<noteq> ''''"
  shows "\<exists>s'. createDestination (Some (addressed d pt b)) s = (s', None)"
  using assms
  by (auto simp: createDestination_def addressed_def destinationFrom_def IPAddress_Valid_def IPAddress_Arms_def Let_def
      split: option.splits sum.splits if_splits)

text \<open>
  C35. An address is accepted with a zone of any text. Whatever element and destination: when the
  destination is accepted under an IPv6 address, it is accepted just so under the address with a
  zone that holds a square bracket, and what it then resolves to is a \<open>host:port\<close> that cannot be taken
  apart again, neither to dial it nor to report it.
\<close>

theorem zoned_destination_cannot_be_split:
  assumes "createDestination (Some (addressed d pt a)) s = (s0, None)" and "CHR ''%'' \<notin> set a"
    and "CHR ''['' \<in> set z \<or> CHR '']'' \<in> set z"
  shows "\<exists>s' dest. createDestination (Some (addressed d pt (a @ ''%'' @ z))) s = (s', None) \<and>
    resolveLocked (ddDID d) s' = Some dest \<and> SplitHostPort (hdAddress dest) = None"
proof -
  obtain x where x: "ParseAddr a = Some x" "\<not> Is4 x"
    using createDestination_shape [OF assms(1)]
    by (auto simp: addressed_def destinationFrom_def IPAddress_Valid_def split: if_splits option.splits)
  have z: "z \<noteq> ''''" using assms(3) by auto
  obtain b where "ParseAddr (a @ ''%'' @ z) = Some (Addr6 b z)" using ParseAddr_zone [OF x assms(2) z] by blast
  from create_addressed [OF assms(1) this] obtain s' where c: "createDestination (Some (addressed d pt (a @ ''%'' @ z))) s = (s', None)"
    by auto
  from createDestination_shape [OF c] obtain dest where d: "destinationFrom (addressed d pt (a @ ''%'' @ z)) = Inr dest"
    "s' = s\<lparr>destinations := AList.update (ddDID (addressed d pt (a @ ''%'' @ z))) dest (destinations s)\<rparr>" by auto
  have "\<not> list_all host_char (a @ ''%'' @ z)" using assms(3) by (auto simp: list_all_iff host_char_def)
  then have "SplitHostPort (hdAddress dest) = None"
    using destinationFrom_splits [OF d(1) _ refl] by (simp add: addressed_def)
  moreover have "resolveLocked (ddDID d) s' = Some dest" by (simp add: d(2) resolveLocked_def go_maps addressed_def)
  ultimately show ?thesis using c by blast
qed

theorem zoned_destination_cannot_be_split_witness:
  "\<exists>s' dest. createDestination (Some (ex_destination ''::1%]'')) ex_server = (s', None) \<and> resolveLocked ex_uuid s' = Some dest \<and>
     SplitHostPort (hdAddress dest) = None"
proof -
  let ?pt = "\<lparr>TCPPort = Some 8, UDPPort = None\<rparr>"
  have e: "ex_destination a = addressed (ex_destination ''::1'') ?pt a" for a by (simp add: ex_destination_def addressed_def)
  obtain s0 where "createDestination (Some (addressed (ex_destination ''::1'') ?pt ''::1'')) ex_server = (s0, None)"
    using ex_create [OF ex_loopback] e [of "''::1''"] by simp
  from zoned_destination_cannot_be_split [OF this, of "'']''"]
  show ?thesis unfolding e [of "''::1%]''"] by (simp add: ex_destination_def)
qed

text \<open>The list of destinations, before it is annotated, is one entry for each identifier that resolves.\<close>

lemma rdDID_reported [simp]: "rdDID (reportedLocked s did d) = did"
  by (simp add: reportedLocked_def Let_def)

lemma heldDestinationsLocked_keys:
  assumes "destinations_ok False (destinations s)" and "destinations_ok True (configured s)"
  shows "sorted (map rdDID (heldDestinationsLocked s))" and "distinct (map rdDID (heldDestinationsLocked s))"
    and "set (heldDestinationsLocked s) = {r. \<exists>did d. resolveLocked did s = Some d \<and> r = reportedLocked s did d}"
proof -
  let ?c = "filter (\<lambda>(did, d). map_of (destinations s) did = None) (configured s)"
  let ?l = "map (\<lambda>(did, d). reportedLocked s did d) (destinations s) @ map (\<lambda>(did, d). reportedLocked s did d) ?c"
  have l: "heldDestinationsLocked s = sort_key rdDID ?l" by (simp add: heldDestinationsLocked_def Let_def)
  show "sorted (map rdDID (heldDestinationsLocked s))" by (simp add: l)
  have keys: "map rdDID ?l = map fst (destinations s) @ map fst ?c" by (auto simp: case_prod_beta)
  have d: "distinct (map fst (destinations s))" "distinct (map fst (configured s))"
    using assms by (auto simp: destinations_ok_def)
  have "distinct (map fst ?c)" using d(2) by (simp add: distinct_map_filter)
  moreover have "set (map fst (destinations s)) \<inter> set (map fst ?c) = {}" by (force simp: map_of_eq_None_iff)
  ultimately have "distinct (map rdDID ?l)" using d(1) unfolding keys by (simp del: map_append set_map)
  then show "distinct (map rdDID (heldDestinationsLocked s))"
    unfolding l distinct_sort_key .
  have "set ?l = {r. \<exists>did d. (did, d) \<in> set (destinations s) \<and> r = reportedLocked s did d} \<union>
      {r. \<exists>did d. (did, d) \<in> set (configured s) \<and> map_of (destinations s) did = None \<and> r = reportedLocked s did d}"
    by auto
  moreover have "resolveLocked did s = Some e \<longleftrightarrow>
      (did, e) \<in> set (destinations s) \<or> (did, e) \<in> set (configured s) \<and> map_of (destinations s) did = None" for did e
    by (auto simp: set_gomap [OF d(1)] set_gomap [OF d(2)] resolveLocked_def split: option.splits)
  ultimately show "set (heldDestinationsLocked s) = {r. \<exists>did d. resolveLocked did s = Some d \<and> r = reportedLocked s did d}"
    unfolding l set_sort by blast
qed

lemma find_keyed: "distinct (map f xs) \<Longrightarrow> x \<in> set xs \<Longrightarrow> find (\<lambda>y. f y = f x) xs = Some x"
  by (induction xs) (auto simp: image_iff)

text \<open>
  C34. The two ways to ask about destinations agree. The listing is ordered by identifier with one
  entry for each identifier, its entry for an identifier is the answer to the query for that
  identifier alone, reachability included, and an identifier is listed exactly when a task naming it
  would resolve.
\<close>

theorem destination_answers_agree:
  "server_reachable ne opts timeout y \<Longrightarrow>
   (let ds = heldDestinations ob (srv y) in
    sorted (map rdDID ds) \<and> distinct (map rdDID ds) \<and>
    (\<forall>did. find (\<lambda>d. rdDID d = did) ds = destinationByDID ob did (srv y) \<and>
      (did \<in> rdDID ` set ds \<longleftrightarrow> resolveLocked did (srv y) \<noteq> None)))"
proof -
  assume "server_reachable ne opts timeout y"
  then have k: "destinations_ok False (destinations (srv y))" "destinations_ok True (configured (srv y))"
    using reachable_ok(1) by (auto simp: tasking_ok_def)
  define a where "a = (\<lambda>d :: ReportedDestination. case destinationReachable ob of None \<Rightarrow> d | Some f \<Rightarrow> d\<lparr>Unreachable := f (rdAddress d)\<rparr>)"
  have rd: "rdDID (a d) = rdDID d" for d by (simp add: a_def split: option.splits)
  have ds: "heldDestinations ob (srv y) = map a (heldDestinationsLocked (srv y))"
    by (auto simp: heldDestinations_def annotateReachability_def a_def split: option.splits)
  let ?ds = "heldDestinationsLocked (srv y)"
  have one: "destinationByDID ob did (srv y) = map_option a (destinationByDIDLocked did (srv y))" for did
    by (auto simp: destinationByDID_def annotateReachability_def a_def split: option.splits)
  have find: "find (\<lambda>d. rdDID d = did) ?ds = destinationByDIDLocked did (srv y)" for did
  proof (cases "resolveLocked did (srv y)")
    case None
    then show ?thesis using heldDestinationsLocked_keys(3) [OF k] by (auto simp: destinationByDIDLocked_def find_None_iff)
  next
    case (Some d)
    then have "reportedLocked (srv y) did d \<in> set ?ds" using heldDestinationsLocked_keys(3) [OF k] by auto
    from find_keyed [OF heldDestinationsLocked_keys(2) [OF k] this] Some show ?thesis by (simp add: destinationByDIDLocked_def)
  qed
  have fm: "find (\<lambda>d. rdDID d = did) (map a xs) = map_option a (find (\<lambda>d. rdDID d = did) xs)" for did xs
    by (induction xs) (auto simp: rd)
  have m: "map rdDID (map a xs) = map rdDID xs" for xs by (simp add: rd)
  have "did \<in> rdDID ` set ?ds \<longleftrightarrow> resolveLocked did (srv y) \<noteq> None" for did
    using heldDestinationsLocked_keys(3) [OF k] by force
  then show ?thesis using heldDestinationsLocked_keys(1,2) [OF k] find one fm
    by (simp add: ds m Let_def image_image rd del: map_map)
qed

theorem destination_answers_agree_witness:
  "\<exists>y :: X1System. resolveLocked ex_uuid (srv y) \<noteq> None \<and>
     find (\<lambda>d. rdDID d = ex_uuid) (heldDestinations ex_observations (srv y)) = destinationByDID ex_observations ex_uuid (srv y)"
proof -
  let ?ds = "[\<lparr>cdDID = ex_uuid, cdDeliveryType = deliveryX2Only, cdAddress = ''[::1]:8''\<rparr>]"
  let ?y = "system_init (NewServer New ''ne1'' [WithConfiguredDestinations ?ds] id 0)"
  have "SplitHostPort ''[::1]:8'' = Some (''::1'', ''8'')" by code_simp
  moreover have "ParseUint ''8'' 16 = Some 8" using ParseUint_FormatUint [of 8 16] by (simp add: ex_port)
  ultimately have "Configured_Valid (hd ?ds) = None"
    by (simp add: Configured_Valid_def validIdentifier_def ex_uuid_ok deliveryProducts_def ex_loopback)
  then have "resolveLocked ex_uuid (srv ?y) \<noteq> None"
    by (simp add: system_init_def NewServer_def WithConfiguredDestinations_def resolveLocked_def)
  moreover have r: "server_reachable ''ne1'' [WithConfiguredDestinations ?ds] 1 ?y"
    by (rule server_reachable_init) (simp add: is_option.intros)
  have "find (\<lambda>d. rdDID d = ex_uuid) (heldDestinations ex_observations (srv ?y)) = destinationByDID ex_observations ex_uuid (srv ?y)"
    using destination_answers_agree [OF r, of ex_observations] unfolding Let_def by blast
  ultimately show ?thesis by blast
qed

lemma applyAuthenticated_header: "rsHeader (fst (snd (applyAuthenticated ob fresh m peer s))) = response_header fresh m s"
proof (cases "authenticate m peer s")
  case None
  obtain s1 err rm1 where r: "apply_request ob m (empty_response (response_header fresh m (recordActivity s))) (recordActivity s) = (s1, err, rm1)"
    by (metis prod_cases3)
  have "rsHeader rm1 = response_header fresh m s"
    using apply_request_cases [OF r] by (simp add: empty_response_def response_header_def)
  with None r show ?thesis
    by (auto simp: applyAuthenticated_def apply_message_def Let_def split: option.splits x1_error.splits)
qed (simp add: applyAuthenticated_def refuse_unauthenticated_def case_prod_beta empty_response_def)

text \<open>
  An answer is valid whatever the request was: its version has the form the schema prescribes,
  and its transaction identifier is a UUID; a conformant request has both echoed.
\<close>

theorem answer_headers_valid:
  "uuidPattern fresh \<Longrightarrow>
   (let (s', rm, ok) = applyAuthenticated ob fresh m peer s in
    versionPattern (rsVersion (rsHeader rm)) \<and> uuidPattern (rsTransactionID (rsHeader rm)) \<and>
    rsNeIdentifier (rsHeader rm) = neID (options s) \<and> rsAdmfIdentifier (rsHeader rm) = AdmfIdentifier m \<and>
    (versionPattern (rqVersion m) \<longrightarrow> rsVersion (rsHeader rm) = rqVersion m) \<and>
    (uuidPattern (rqTransactionID m) \<longrightarrow> rsTransactionID (rsHeader rm) = rqTransactionID m))"
proof -
  assume f: "uuidPattern fresh"
  have v: "versionPattern supportedVersion" by code_simp
  note applyAuthenticated_header
  then show ?thesis using f v
    by (auto simp: case_prod_beta response_header_def echoVersion_def echoTransactionID_def)
qed

theorem answer_headers_valid_witness:
  "versionPattern (rsVersion (rsHeader (fst (snd (applyAuthenticated ex_observations ex_uuid
      ((ex_request ''PingRequest'')\<lparr>rqVersion := ''<evil>''\<rparr>) None ex_server)))))"
  using answer_headers_valid [OF ex_uuid_ok, of ex_observations "(ex_request ''PingRequest'')\<lparr>rqVersion := ''<evil>''\<rparr>" None ex_server]
  by (simp add: case_prod_beta)

text \<open>
  The watchdog either does not start, and then changes nothing, or ticks at an interval of at
  least half a second: the ticker is never given an interval it refuses. It starts exactly for
  windows of at least the minimum, with a fresh sign of life, so that the first tick purges nothing.
\<close>

theorem watchdog_interval:
  "case WatchKeepalive_start timeout s of
     (s', None) \<Rightarrow> timeout < MinKeepaliveWindow \<and> s' = s
   | (s', Some interval) \<Rightarrow> timeout \<ge> MinKeepaliveWindow \<and> interval \<ge> 500000000 \<and> 2 * interval \<le> timeout \<and>
       purgeIfLapsed timeout (s'\<lparr>clock := clock s' + interval\<rparr>) = s'\<lparr>clock := clock s' + interval\<rparr>"
  by (auto simp: WatchKeepalive_start_def MinKeepaliveWindow_def purgeIfLapsed_def lapsed_def Sub_def minDuration_def recordActivity_def)

end
