(* ===== verification/Pdu.thy ===== *)
theory Pdu
  imports Prelude
begin

text \<open>
  The X2/X3 wire format of \<open>src/x2x3/x2x3.go\<close>. The integer types keep their width: PDU type,
  payload format and direction are 16-bit words, and the two length fields are the 32-bit
  truncations the code writes. The array fields \<open>XID\<close> and \<open>CorrelationID\<close> are byte lists whose
  lengths 16 and 8 are part of the well-formedness predicate \<open>wf_pdu\<close>. \<open>Marshal\<close> is translated as
  the code has it, as writes into a buffer sized beforehand; \<open>wire\<close> is the declarative layout it
  is proved to produce.
\<close>

subsection \<open>Constants and data\<close>

definition MajorVersion :: byte where "MajorVersion = 0"
definition MinorVersion :: byte where "MinorVersion = 5"
definition MandatoryHeaderLength :: nat where "MandatoryHeaderLength = 40"

definition PDUTypeX2 :: "16 word" where "PDUTypeX2 = 1"
definition PDUTypeX3 :: "16 word" where "PDUTypeX3 = 2"
definition PDUTypeKeepalive :: "16 word" where "PDUTypeKeepalive = 3"
definition PDUTypeKeepaliveAck :: "16 word" where "PDUTypeKeepaliveAck = 4"

lemmas pdu_types = PDUTypeX2_def PDUTypeX3_def PDUTypeKeepalive_def PDUTypeKeepaliveAck_def
lemmas pdu_constants = MajorVersion_def MinorVersion_def MandatoryHeaderLength_def

text \<open>The table \<open>payloadFormatRules\<close>: whether a format is permitted on X2 and on X3.\<close>

definition payloadFormatRules :: "(16 word, bool \<times> bool) gomap" where
  "payloadFormatRules =
     [(0, False, False), (1, True, True), (2, True, True), (3, True, True), (4, True, True),
      (5, True, True), (6, True, True), (7, False, True), (8, False, True), (9, True, False),
      (10, True, False), (11, True, False), (12, False, True), (13, False, True),
      (14, True, False), (15, True, True), (16, False, True), (17, True, True)]"

definition allowedOn :: "16 word \<Rightarrow> 16 word \<Rightarrow> bool" where
  "allowedOn f t =
     (case map_of payloadFormatRules f of
        None \<Rightarrow> False
      | Some r \<Rightarrow> if t = PDUTypeX2 then fst r else if t = PDUTypeX3 then snd r else True)"

record TLV =
  tlvType :: "16 word"
  tlvValue :: "byte list"

record PDU =
  pduType :: "16 word"
  PayloadFormat :: "16 word"
  Direction :: "16 word"
  pduXID :: "byte list"
  pduCorrelationID :: "byte list"
  Attributes :: "TLV list"
  Payload :: "byte list"

datatype pdu_error =
    ErrNilPDU | ErrIncomplete
  | FormatNotAllowed "16 word" "16 word"
  | TLVTooLong "16 word" nat
  | HeaderTooShort "32 word"
  | UnsupportedMajor byte
  | TruncatedTLVHeader
  | TruncatedTLVValue

definition wf_pdu :: "PDU \<Rightarrow> bool" where
  "wf_pdu p \<longleftrightarrow> length (pduXID p) = 16 \<and> length (pduCorrelationID p) = 8"

subsection \<open>Encoding\<close>

definition validate :: "PDU \<Rightarrow> pdu_error option" where
  "validate p =
     (if (pduType p = PDUTypeX2 \<or> pduType p = PDUTypeX3) \<and> \<not> allowedOn (PayloadFormat p) (pduType p)
      then Some (FormatNotAllowed (PayloadFormat p) (pduType p)) else None)"

text \<open>The sizing loop, which refuses a value longer than the length field can say.\<close>

fun attrs_len :: "TLV list \<Rightarrow> nat \<Rightarrow> pdu_error + nat" where
  "attrs_len [] n = Inr n"
| "attrs_len (t # ts) n =
     (if length (tlvValue t) > 0xFFFF then Inl (TLVTooLong (tlvType t) (length (tlvValue t)))
      else attrs_len ts (n + 4 + length (tlvValue t)))"

text \<open>The writing loop, from offset \<open>off\<close>.\<close>

fun put_attrs :: "TLV list \<Rightarrow> nat \<Rightarrow> byte list \<Rightarrow> byte list" where
  "put_attrs [] off out = out"
| "put_attrs (t # ts) off out =
     (let out1 = put off (PutUint16 (tlvType t)) out;
          out2 = put (off + 2) (PutUint16 (of_nat (length (tlvValue t)))) out1;
          (out3, n) = go_copy (off + 4) (tlvValue t) out2
      in put_attrs ts (off + 4 + n) out3)"

definition Marshal :: "PDU option \<Rightarrow> pdu_error + byte list" where
  "Marshal pp =
     (case pp of
        None \<Rightarrow> Inl ErrNilPDU
      | Some p \<Rightarrow>
          (case validate p of
             Some e \<Rightarrow> Inl e
           | None \<Rightarrow>
               (case attrs_len (Attributes p) 0 of
                  Inl e \<Rightarrow> Inl e
                | Inr attrsLen \<Rightarrow>
                    let headerLen = MandatoryHeaderLength + attrsLen;
                        out = replicate headerLen 0;
                        out = put 0 [MajorVersion] out;
                        out = put 1 [MinorVersion] out;
                        out = put 2 (PutUint16 (pduType p)) out;
                        out = put 4 (PutUint32 (of_nat headerLen)) out;
                        out = put 8 (PutUint32 (of_nat (length (Payload p)))) out;
                        out = put 12 (PutUint16 (PayloadFormat p)) out;
                        out = put 14 (PutUint16 (Direction p)) out;
                        out = put 16 (pduXID p) out;
                        out = put 32 (pduCorrelationID p) out;
                        out = put_attrs (Attributes p) MandatoryHeaderLength out
                    in Inr (out @ Payload p))))"

subsection \<open>Decoding\<close>

text \<open>\<open>parseTLVs\<close>; the loop consumes at least the four header bytes each round.\<close>

function parseTLVs :: "byte list \<Rightarrow> pdu_error + TLV list" where
  "parseTLVs b =
     (if b = [] then Inr []
      else if length b < 4 then Inl TruncatedTLVHeader
      else
        let typ = Uint16 (take 2 b);
            n = unat (Uint16 (take 2 (drop 2 b)))
        in if length b < 4 + n then Inl TruncatedTLVValue
           else (case parseTLVs (drop (4 + n) b) of
                   Inl e \<Rightarrow> Inl e
                 | Inr ts \<Rightarrow> Inr (\<lparr>tlvType = typ, tlvValue = take n (drop 4 b)\<rparr> # ts)))"
  by pat_completeness auto
termination
  by (relation "measure length") auto

declare parseTLVs.simps [simp del]

definition Unmarshal :: "byte list \<Rightarrow> pdu_error + (PDU \<times> nat)" where
  "Unmarshal b =
     (if length b < 12 then Inl ErrIncomplete
      else
        let headerLen = Uint32 (take 4 (drop 4 b));
            payloadLen = Uint32 (take 4 (drop 8 b));
            h = unat headerLen;
            total = h + unat payloadLen
        in if h < MandatoryHeaderLength then Inl (HeaderTooShort headerLen)
           else if total > length b then Inl ErrIncomplete
           else if b ! 0 \<noteq> MajorVersion then Inl (UnsupportedMajor (b ! 0))
           else (case parseTLVs (take (h - MandatoryHeaderLength) (drop MandatoryHeaderLength b)) of
                   Inl e \<Rightarrow> Inl e
                 | Inr attrs \<Rightarrow>
                     let p = \<lparr>pduType = Uint16 (take 2 (drop 2 b)),
                              PayloadFormat = Uint16 (take 2 (drop 12 b)),
                              Direction = Uint16 (take 2 (drop 14 b)),
                              pduXID = take 16 (drop 16 b),
                              pduCorrelationID = take 8 (drop 32 b),
                              Attributes = attrs,
                              Payload = take (total - h) (drop h b)\<rparr>
                     in (case validate p of Some e \<Rightarrow> Inl e | None \<Rightarrow> Inr (p, total))))"

subsection \<open>The layout\<close>

definition tlv_wire :: "TLV \<Rightarrow> byte list" where
  "tlv_wire t = PutUint16 (tlvType t) @ PutUint16 (of_nat (length (tlvValue t))) @ tlvValue t"

definition tlvs_wire :: "TLV list \<Rightarrow> byte list" where
  "tlvs_wire ts = concat (map tlv_wire ts)"

definition wire :: "PDU \<Rightarrow> byte list" where
  "wire p = [MajorVersion, MinorVersion] @ PutUint16 (pduType p)
     @ PutUint32 (of_nat (40 + length (tlvs_wire (Attributes p))))
     @ PutUint32 (of_nat (length (Payload p)))
     @ PutUint16 (PayloadFormat p) @ PutUint16 (Direction p)
     @ pduXID p @ pduCorrelationID p @ tlvs_wire (Attributes p) @ Payload p"

definition small_tlv :: "TLV \<Rightarrow> bool" where
  "small_tlv t \<longleftrightarrow> length (tlvValue t) \<le> 0xFFFF"

lemma length_tlv_wire [simp]: "length (tlv_wire t) = 4 + length (tlvValue t)"
  by (simp add: tlv_wire_def)

lemma tlvs_wire_Nil [simp]: "tlvs_wire [] = []"
  and tlvs_wire_Cons [simp]: "tlvs_wire (t # ts) = tlv_wire t @ tlvs_wire ts"
  by (simp_all add: tlvs_wire_def)

lemma attrs_len_eq:
  "attrs_len ts n =
     (case find (\<lambda>t. \<not> small_tlv t) ts of
        None \<Rightarrow> Inr (n + length (tlvs_wire ts))
      | Some t \<Rightarrow> Inl (TLVTooLong (tlvType t) (length (tlvValue t))))"
  by (induction ts arbitrary: n) (auto simp: small_tlv_def split: option.splits)

lemma put_tlv:
  assumes "off = length pre"
  shows "put_attrs (t # ts) off (pre @ replicate (4 + length (tlvValue t) + k) 0) =
         put_attrs ts (off + 4 + length (tlvValue t)) ((pre @ tlv_wire t) @ replicate k 0)"
proof -
  let ?h = "PutUint16 (tlvType t)" and ?l = "PutUint16 (of_nat (length (tlvValue t)))"
  have "put off ?h (pre @ replicate (4 + length (tlvValue t) + k) 0)
      = (pre @ ?h) @ replicate (2 + length (tlvValue t) + k) 0"
    using put_zeros [of off pre ?h "4 + length (tlvValue t) + k"] assms by simp
  moreover have "put (off + 2) ?l ((pre @ ?h) @ replicate (2 + length (tlvValue t) + k) 0)
      = (pre @ ?h @ ?l) @ replicate (length (tlvValue t) + k) 0"
    using put_zeros [of "off + 2" "pre @ ?h" ?l "2 + length (tlvValue t) + k"] assms by simp
  moreover have "go_copy (off + 4) (tlvValue t) ((pre @ ?h @ ?l) @ replicate (length (tlvValue t) + k) 0)
      = ((pre @ tlv_wire t) @ replicate k 0, length (tlvValue t))"
    using put_zeros [of "off + 4" "pre @ ?h @ ?l" "tlvValue t" "length (tlvValue t) + k"] assms
    by (simp add: go_copy_def tlv_wire_def Let_def)
  ultimately show ?thesis by simp
qed

lemma put_attrs_wire:
  "put_attrs ts (length pre) (pre @ replicate (length (tlvs_wire ts)) 0) = pre @ tlvs_wire ts"
proof (induction ts arbitrary: pre)
  case (Cons t ts)
  then show ?case
    using put_tlv [of "length pre" pre t ts "length (tlvs_wire ts)"] Cons.IH [of "pre @ tlv_wire t"]
    by (simp add: algebra_simps)
qed simp

lemma Marshal_wire:
  assumes "wf_pdu p" and "validate p = None" and "list_all small_tlv (Attributes p)"
  shows "Marshal (Some p) = Inr (wire p)"
proof -
  let ?n = "length (tlvs_wire (Attributes p))"
  let ?fields = "[[MajorVersion], [MinorVersion], PutUint16 (pduType p), PutUint32 (of_nat (40 + ?n)),
     PutUint32 (of_nat (length (Payload p))), PutUint16 (PayloadFormat p), PutUint16 (Direction p),
     pduXID p, pduCorrelationID p]"
  have find: "find (\<lambda>t. \<not> small_tlv t) (Attributes p) = None"
    using assms(3) by (simp add: find_None_iff list_all_iff)
  have step: "put (length pre) bs (pre @ replicate m 0) = (pre @ bs) @ replicate (m - length bs) 0"
    if "length bs \<le> m" for pre bs m
    using put_zeros [of "length pre" pre bs m] that by simp
  note wf = assms(1) [unfolded wf_pdu_def]
  show ?thesis
    using assms(2) find wf step [of "[MajorVersion]" "40 + ?n" "[]"]
      step [of "[MinorVersion]" "39 + ?n" "concat (take 1 ?fields)"]
      step [of "PutUint16 (pduType p)" "38 + ?n" "concat (take 2 ?fields)"]
      step [of "PutUint32 (of_nat (40 + ?n))" "36 + ?n" "concat (take 3 ?fields)"]
      step [of "PutUint32 (of_nat (length (Payload p)))" "32 + ?n" "concat (take 4 ?fields)"]
      step [of "PutUint16 (PayloadFormat p)" "28 + ?n" "concat (take 5 ?fields)"]
      step [of "PutUint16 (Direction p)" "26 + ?n" "concat (take 6 ?fields)"]
      step [of "pduXID p" "24 + ?n" "concat (take 7 ?fields)"]
      step [of "pduCorrelationID p" "8 + ?n" "concat (take 8 ?fields)"]
      put_attrs_wire [of "Attributes p" "concat ?fields"]
    by (simp add: Marshal_def attrs_len_eq Let_def MandatoryHeaderLength_def wire_def numeral_eq_Suc)
qed

subsection \<open>Reading the layout back\<close>

lemma unat_u16_length: "n \<le> 0xFFFF \<Longrightarrow> unat (of_nat n :: 16 word) = n"
  by (simp add: unat_of_nat)

lemma unat_u32_length: "n < 2 ^ 32 \<Longrightarrow> unat (of_nat n :: 32 word) = n"
  by (simp add: unat_of_nat)

lemma parseTLVs_Nil [simp]: "parseTLVs [] = Inr []"
  by (simp add: parseTLVs.simps [of "[]"])

lemma parseTLVs_Cons:
  assumes "small_tlv t"
  shows "parseTLVs (tlv_wire t @ r) = (case parseTLVs r of Inl e \<Rightarrow> Inl e | Inr ts \<Rightarrow> Inr (t # ts))"
proof -
  have n: "unat (of_nat (length (tlvValue t)) :: 16 word) = length (tlvValue t)"
    using assms by (simp add: small_tlv_def unat_u16_length)
  have "tlv_wire t @ r \<noteq> []" by (simp add: tlv_wire_def PutUint16_def numeral_2_eq_2)
  moreover have "Uint16 (take 2 (tlv_wire t @ r)) = tlvType t"
    "Uint16 (take 2 (drop 2 (tlv_wire t @ r))) = of_nat (length (tlvValue t))"
    "drop 4 (tlv_wire t @ r) = tlvValue t @ r"
    "drop (4 + length (tlvValue t)) (tlv_wire t @ r) = r"
    by (simp_all add: tlv_wire_def)
  ultimately show ?thesis
    by (subst parseTLVs.simps) (simp add: n Let_def split: sum.splits)
qed

lemma parseTLVs_wire: "list_all small_tlv ts \<Longrightarrow> parseTLVs (tlvs_wire ts) = Inr ts"
  by (induction ts) (simp_all add: parseTLVs_Cons)

lemma parseTLVs_sound: "parseTLVs b = Inr ts \<Longrightarrow> tlvs_wire ts = b \<and> list_all small_tlv ts"
proof (induction b arbitrary: ts rule: parseTLVs.induct)
  case (1 b)
  show ?case
  proof (cases "b = []")
    case True
    with "1.prems" show ?thesis by simp
  next
    case False
    let ?n = "unat (Uint16 (take 2 (drop 2 b)))"
    from False "1.prems" have len: "4 \<le> length b" "4 + ?n \<le> length b"
      by (auto simp: parseTLVs.simps [of b] Let_def split: if_splits)
    with False "1.prems" obtain us where us: "parseTLVs (drop (4 + ?n) b) = Inr us"
        and ts: "ts = \<lparr>tlvType = Uint16 (take 2 b), tlvValue = take ?n (drop 4 b)\<rparr> # us"
      by (auto simp: parseTLVs.simps [of b] Let_def split: if_splits sum.splits)
    have "tlvs_wire us = drop (4 + ?n) b \<and> list_all small_tlv us"
      by (rule "1.IH") (use False len us in auto)
    moreover have "?n < 65536" using unsigned_less [of "Uint16 (take 2 (drop 2 b))"] by simp
    moreover have "tlv_wire (hd ts) = take (4 + ?n) b"
    proof -
      have "tlv_wire (hd ts) = take 2 b @ take 2 (drop 2 b) @ take ?n (drop 4 b)"
        using ts len u16.enc_dec [of "take 2 b"] u16.enc_dec [of "take 2 (drop 2 b)"]
        by (simp add: tlv_wire_def)
      also have "\<dots> = take (4 + ?n) b"
        by (simp add: take_add [symmetric] flip: append_assoc take_add)
      finally show ?thesis .
    qed
    moreover have "small_tlv (hd ts)" using ts calculation by (simp add: small_tlv_def)
    ultimately show ?thesis using ts len by auto
  qed
qed

definition sized_pdu :: "PDU \<Rightarrow> bool" where
  "sized_pdu p \<longleftrightarrow> wf_pdu p \<and> validate p = None \<and> list_all small_tlv (Attributes p) \<and>
     40 + length (tlvs_wire (Attributes p)) < 2 ^ 32 \<and> length (Payload p) < 2 ^ 32"

lemma length_wire: "wf_pdu p \<Longrightarrow> length (wire p) = 40 + length (tlvs_wire (Attributes p)) + length (Payload p)"
  by (simp add: wire_def wf_pdu_def)

lemma wire_fields:
  assumes "wf_pdu p"
  shows "(wire p @ r) ! 0 = MajorVersion" "take 2 (drop 2 (wire p @ r)) = PutUint16 (pduType p)"
    "take 4 (drop 4 (wire p @ r)) = PutUint32 (of_nat (40 + length (tlvs_wire (Attributes p))))"
    "take 4 (drop 8 (wire p @ r)) = PutUint32 (of_nat (length (Payload p)))"
    "take 2 (drop 12 (wire p @ r)) = PutUint16 (PayloadFormat p)"
    "take 2 (drop 14 (wire p @ r)) = PutUint16 (Direction p)"
    "take 16 (drop 16 (wire p @ r)) = pduXID p" "take 8 (drop 32 (wire p @ r)) = pduCorrelationID p"
    "drop 40 (wire p @ r) = tlvs_wire (Attributes p) @ Payload p @ r"
  using assms by (simp_all add: wire_def wf_pdu_def)

lemma Unmarshal_wire:
  assumes "sized_pdu p"
  shows "Unmarshal (wire p @ rest) = Inr (p, length (wire p))"
proof -
  let ?h = "40 + length (tlvs_wire (Attributes p))"
  note a = assms [unfolded sized_pdu_def]
  have wf: "wf_pdu p" using a by simp
  have u: "unat (of_nat ?h :: 32 word) = ?h" "unat (of_nat (length (Payload p)) :: 32 word) = length (Payload p)"
    using a by (simp_all only: unat_u32_length)
  have eta: "\<lparr>pduType = pduType p, PayloadFormat = PayloadFormat p, Direction = Direction p,
      pduXID = pduXID p, pduCorrelationID = pduCorrelationID p, Attributes = Attributes p,
      Payload = Payload p\<rparr> = p"
    by simp
  have "drop ?h (wire p @ rest) = Payload p @ rest"
    using wire_fields(9) [OF wf, of rest] by (metis add.commute append_eq_conv_conj drop_drop)
  then show ?thesis
    using a wire_fields [OF wf, of rest] length_wire [OF wf]
    by (simp add: Unmarshal_def Let_def u eta MandatoryHeaderLength_def parseTLVs_wire del: of_nat_add)
qed

subsection \<open>What a decoded unit is\<close>

definition declared_len :: "byte list \<Rightarrow> nat" where
  "declared_len b = unat (Uint32 (take 4 (drop 4 b))) + unat (Uint32 (take 4 (drop 8 b)))"

lemma Unmarshal_cases:
  assumes "Unmarshal b = Inr (p, n)"
  shows "12 \<le> length b" and "n = declared_len b" and "n \<le> length b"
    and "40 \<le> unat (Uint32 (take 4 (drop 4 b)))" and "b ! 0 = MajorVersion" and "validate p = None"
    and "parseTLVs (take (unat (Uint32 (take 4 (drop 4 b))) - 40) (drop 40 b)) = Inr (Attributes p)"
    and "p = \<lparr>pduType = Uint16 (take 2 (drop 2 b)), PayloadFormat = Uint16 (take 2 (drop 12 b)),
              Direction = Uint16 (take 2 (drop 14 b)), pduXID = take 16 (drop 16 b),
              pduCorrelationID = take 8 (drop 32 b), Attributes = Attributes p,
              Payload = take (n - unat (Uint32 (take 4 (drop 4 b)))) (drop (unat (Uint32 (take 4 (drop 4 b)))) b)\<rparr>"
  using assms
  by (auto simp: Unmarshal_def Let_def declared_len_def MandatoryHeaderLength_def
      split: if_splits sum.splits option.splits)

lemma Unmarshal_bounds: "Unmarshal b = Inr (p, n) \<Longrightarrow> 40 \<le> n \<and> n \<le> length b"
  using Unmarshal_cases(2,3,4) [of b p n] by (auto simp: declared_len_def)

lemma take_pieces: "take m b @ take n (drop m b) = take (m + n) b"
  by (simp add: take_add)

lemma nth_take_drop_2: "2 \<le> length b \<Longrightarrow> [b ! 0, b ! 1] = take 2 b"
  by (cases b; cases "tl b") (auto simp: numeral_2_eq_2)

lemma Unmarshal_sound:
  assumes "Unmarshal b = Inr (p, n)"
  shows "sized_pdu p" and "wire p = take n (b[1 := MinorVersion])"
proof -
  let ?h = "unat (Uint32 (take 4 (drop 4 b)))" and ?l = "unat (Uint32 (take 4 (drop 8 b)))"
  note c = Unmarshal_cases [OF assms]
  have h: "40 \<le> ?h" "n = ?h + ?l" "?h + ?l \<le> length b" using c(2,3,4) by (auto simp: declared_len_def)
  have tl: "tlvs_wire (Attributes p) = take (?h - 40) (drop 40 b)" "list_all small_tlv (Attributes p)"
    using parseTLVs_sound [OF c(7)] by auto
  have len: "length (tlvs_wire (Attributes p)) = ?h - 40" using h tl(1) by simp
  have f: "pduType p = Uint16 (take 2 (drop 2 b))" "PayloadFormat p = Uint16 (take 2 (drop 12 b))"
    "Direction p = Uint16 (take 2 (drop 14 b))" "pduXID p = take 16 (drop 16 b)"
    "pduCorrelationID p = take 8 (drop 32 b)" "Payload p = take ?l (drop ?h b)"
    using arg_cong [OF c(8), of pduType] arg_cong [OF c(8), of PayloadFormat] arg_cong [OF c(8), of Direction]
      arg_cong [OF c(8), of pduXID] arg_cong [OF c(8), of pduCorrelationID] arg_cong [OF c(8), of Payload] h(2)
    by simp_all
  have "?h < 2 ^ 32" "?l < 2 ^ 32"
    using unsigned_less [of "Uint32 (take 4 (drop 4 b))"] unsigned_less [of "Uint32 (take 4 (drop 8 b))"]
    by simp_all
  then show "sized_pdu p" using c(6) f h tl(2) len by (simp add: sized_pdu_def wf_pdu_def)
  have "wire p = [MajorVersion, MinorVersion] @ take 2 (drop 2 b) @ take 4 (drop 4 b) @ take 4 (drop 8 b)
      @ take 2 (drop 12 b) @ take 2 (drop 14 b) @ take 16 (drop 16 b) @ take 8 (drop 32 b)
      @ take (?h - 40) (drop 40 b) @ take ?l (drop ?h b)"
    using f len h tl(1) by (simp add: wire_def u16.enc_dec u32.enc_dec)
  moreover have "take (2 + (2 + (4 + (4 + (2 + (2 + (16 + (8 + (?h - 40 + ?l))))))))) (b[1 := MinorVersion])
      = take 2 (b[1 := MinorVersion]) @ take 2 (drop 2 b) @ take 4 (drop 4 b) @ take 4 (drop 8 b)
      @ take 2 (drop 12 b) @ take 2 (drop 14 b) @ take 16 (drop 16 b) @ take 8 (drop 32 b)
      @ take (?h - 40) (drop 40 b) @ take ?l (drop ?h b)"
    unfolding take_add using h(1) by (simp add: drop_update_cancel add.commute)
  moreover have "take 2 (b[1 := MinorVersion]) = [MajorVersion, MinorVersion]"
    using c(1,5) nth_take_drop_2 [of "b[1 := MinorVersion]"] by simp
  moreover have "2 + (2 + (4 + (4 + (2 + (2 + (16 + (8 + (?h - 40 + ?l)))))))) = n" using h by simp
  ultimately show "wire p = take n (b[1 := MinorVersion])" by simp
qed

text \<open>More bytes never change an answer that is not "incomplete".\<close>

lemma Unmarshal_append:
  assumes "Unmarshal b \<noteq> Inl ErrIncomplete"
  shows "Unmarshal (b @ x) = Unmarshal b"
proof -
  let ?h = "unat (Uint32 (take 4 (drop 4 b)))" and ?l = "unat (Uint32 (take 4 (drop 8 b)))"
  have len: "12 \<le> length b" using assms by (auto simp: Unmarshal_def split: if_splits)
  then have same: "take 4 (drop 4 (b @ x)) = take 4 (drop 4 b)" "take 4 (drop 8 (b @ x)) = take 4 (drop 8 b)"
    by simp_all
  show ?thesis
  proof (cases "?h < 40")
    case True
    with len same show ?thesis by (simp add: Unmarshal_def Let_def MandatoryHeaderLength_def)
  next
    case False
    then have sum: "?h + ?l \<le> length b"
      using assms len by (auto simp: Unmarshal_def Let_def MandatoryHeaderLength_def split: if_splits)
    from False sum have "(b @ x) ! 0 = b ! 0" "drop 40 (b @ x) = drop 40 b @ x"
        "drop ?h (b @ x) = drop ?h b @ x"
      using len by (auto simp: nth_append)
    with len same False sum show ?thesis
      by (simp add: Unmarshal_def Let_def MandatoryHeaderLength_def cong: sum.case_cong)
  qed
qed

subsection \<open>Streams of units\<close>

text \<open>
  What a receiver makes of a byte stream: decode from the front until nothing whole is left. The
  result is the units, the error that stopped the decoding, and the bytes not consumed. It is the
  decoding loop of \<open>readLoop\<close> in \<open>src/x2x3/keepalive.go\<close> with the handling of each unit left out.
\<close>

function drain :: "byte list \<Rightarrow> PDU list \<times> pdu_error \<times> byte list" where
  "drain b =
     (case Unmarshal b of
        Inl e \<Rightarrow> ([], e, b)
      | Inr (p, used) \<Rightarrow> (case drain (drop used b) of (ps, e, r) \<Rightarrow> (p # ps, e, r)))"
  by pat_completeness auto
termination
  by (relation "measure length") (auto dest!: Unmarshal_bounds)

declare drain.simps [simp del]

text \<open>
  The contract of a self-delimiting format: a good unit is read back from the front of any
  stream, and the receiver's loop is the iteration of that reading.
\<close>

locale framing =
  fixes enc :: "'p \<Rightarrow> byte list" and dec :: "byte list \<Rightarrow> 'e + ('p \<times> nat)" and good :: "'p \<Rightarrow> bool"
    and receive :: "byte list \<Rightarrow> 'p list \<times> 'e \<times> byte list"
  assumes dec_enc: "good p \<Longrightarrow> dec (enc p @ rest) = Inr (p, length (enc p))"
    and receive_eq: "receive b =
          (case dec b of
             Inl e \<Rightarrow> ([], e, b)
           | Inr (p, used) \<Rightarrow> (case receive (drop used b) of (ps, e, r) \<Rightarrow> (p # ps, e, r)))"
begin

lemma receive_unit:
  "good p \<Longrightarrow> receive (enc p @ b) = (case receive b of (ps, e, r) \<Rightarrow> (p # ps, e, r))"
  by (subst receive_eq) (simp add: dec_enc)

lemma receive_units:
  "list_all good ps \<Longrightarrow> receive (concat (map enc ps) @ b) = (case receive b of (qs, e, r) \<Rightarrow> (ps @ qs, e, r))"
  by (induction ps) (auto simp: receive_unit split: prod.splits)

lemma receive_exactly: "list_all good ps \<Longrightarrow> dec [] = Inl e \<Longrightarrow> receive (concat (map enc ps)) = (ps, e, [])"
  using receive_units [of ps "[]"] receive_eq [of "[]"] by simp

end

interpretation x2x3: framing wire Unmarshal sized_pdu drain
  by unfold_locales (simp_all add: Unmarshal_wire drain.simps)

lemma Unmarshal_Nil [simp]: "Unmarshal [] = Inl ErrIncomplete"
  by (simp add: Unmarshal_def)

text \<open>What \<open>Marshal\<close> accepts is the layout of a unit that the length fields can describe.\<close>

lemma Marshal_sized:
  assumes "Marshal (Some p) = Inr b" and "wf_pdu p" and "length b < 2 ^ 32"
  shows "b = wire p" and "sized_pdu p"
proof -
  have v: "validate p = None" "find (\<lambda>t. \<not> small_tlv t) (Attributes p) = None"
    using assms(1) by (auto simp: Marshal_def attrs_len_eq split: option.splits)
  then have t: "list_all small_tlv (Attributes p)" by (simp add: find_None_iff list_all_iff)
  then show b: "b = wire p" using Marshal_wire [OF assms(2) v(1)] assms(1) by simp
  show "sized_pdu p" using assms(2,3) v(1) t unfolding b length_wire [OF assms(2)] by (simp add: sized_pdu_def)
qed

subsection \<open>Properties\<close>

text \<open>
  C22. Encoding and decoding are inverse. What \<open>Marshal\<close> writes for a unit whose header and payload
  fit the 32-bit length fields is decoded to the same unit, whatever follows it in the stream, and
  exactly its own bytes are consumed.
\<close>

theorem Marshal_Unmarshal:
  "wf_pdu p \<Longrightarrow> Marshal (Some p) = Inr b \<Longrightarrow> 40 + length (tlvs_wire (Attributes p)) < 2 ^ 32 \<Longrightarrow>
   length (Payload p) < 2 ^ 32 \<Longrightarrow> Unmarshal (b @ rest) = Inr (p, length b)"
proof -
  assume a: "wf_pdu p" "Marshal (Some p) = Inr b" "40 + length (tlvs_wire (Attributes p)) < 2 ^ 32"
    "length (Payload p) < 2 ^ 32"
  from a(2) have v: "validate p = None" "find (\<lambda>t. \<not> small_tlv t) (Attributes p) = None"
    by (auto simp: Marshal_def attrs_len_eq split: option.splits)
  then have "list_all small_tlv (Attributes p)" by (simp add: find_None_iff list_all_iff)
  with a v show ?thesis
    using Marshal_wire [of p] Unmarshal_wire [of p rest] by (simp add: sized_pdu_def)
qed

definition ex_pdu :: PDU where
  "ex_pdu = \<lparr>pduType = PDUTypeX2, PayloadFormat = 2, Direction = 5, pduXID = replicate 16 7,
     pduCorrelationID = replicate 8 1, Attributes = [\<lparr>tlvType = 6, tlvValue = [65, 66]\<rparr>], Payload = [1, 2, 3]\<rparr>"

theorem Marshal_Unmarshal_witness:
  "Unmarshal (wire ex_pdu @ [9, 9]) = Inr (ex_pdu, 49)"
proof -
  have wf: "wf_pdu ex_pdu" by (simp add: ex_pdu_def wf_pdu_def)
  have "validate ex_pdu = None"
    by (simp add: ex_pdu_def validate_def allowedOn_def payloadFormatRules_def pdu_types)
  then have "Marshal (Some ex_pdu) = Inr (wire ex_pdu)"
    by (rule Marshal_wire [OF wf]) (simp add: ex_pdu_def small_tlv_def)
  from Marshal_Unmarshal [OF wf this] length_wire [OF wf] show ?thesis by (simp add: ex_pdu_def)
qed

text \<open>
  C23. Decoding is sound and makes progress. A unit that \<open>Unmarshal\<close> returns is well formed and
  allowed on its interface, between 40 bytes and the whole buffer are consumed, and encoding the
  unit again gives the very bytes consumed, except that the minor version becomes this
  implementation's own.
\<close>

theorem Unmarshal_canonical:
  "Unmarshal b = Inr (p, n) \<Longrightarrow>
   40 \<le> n \<and> n \<le> length b \<and> wf_pdu p \<and> validate p = None \<and>
   Marshal (Some p) = Inr (take n (b[1 := MinorVersion]))"
  using Unmarshal_bounds [of b p n] Unmarshal_sound [of b p n] Marshal_wire [of p]
  by (simp add: sized_pdu_def)

theorem Unmarshal_canonical_witness:
  "Marshal (Some ex_pdu) = Inr (take 49 ((wire ex_pdu @ [9, 9])[1 := MinorVersion]))"
proof -
  have "sized_pdu ex_pdu"
    by (simp add: sized_pdu_def ex_pdu_def wf_pdu_def small_tlv_def validate_def allowedOn_def
        payloadFormatRules_def pdu_types)
  from Unmarshal_wire [OF this] have "Unmarshal (wire ex_pdu @ [9, 9]) = Inr (ex_pdu, 49)"
    by (simp add: length_wire ex_pdu_def wf_pdu_def)
  from Unmarshal_canonical [OF this] show ?thesis by simp
qed

text \<open>
  "Incomplete" is the only answer that later bytes can change: once \<open>Unmarshal\<close> has decoded a
  unit or refused the stream, the same answer comes back however much more has arrived, so a stream
  reader may decide on what it has.
\<close>

theorem Unmarshal_stable:
  "Unmarshal b \<noteq> Inl ErrIncomplete \<Longrightarrow> Unmarshal (b @ later) = Unmarshal b"
  by (rule Unmarshal_append)

theorem Unmarshal_stable_witness:
  "Unmarshal (replicate 12 0 @ [1, 2]) = Inl (HeaderTooShort 0)"
proof -
  have short: "Unmarshal (replicate 12 0) = Inl (HeaderTooShort 0)"
    by (simp add: Unmarshal_def Uint32_def unbe_def pdu_constants numeral_eq_Suc)
  then have "Unmarshal (replicate 12 0) \<noteq> Inl ErrIncomplete" by simp
  from Unmarshal_stable [OF this, of "[1, 2]"] short show ?thesis by simp
qed

text \<open>
  C24. Units need no framing of their own: when \<open>Marshal\<close> accepts each unit and none is as long as
  \<open>2\<^sup>3\<^sup>2\<close> octets, the concatenation of what it returns, as a batch puts it on one write, is received by
  repeated \<open>Unmarshal\<close> as exactly those units in that order, with nothing left over.
\<close>

theorem batch_received_as_units:
  assumes "list_all2 (\<lambda>p b. Marshal (Some p) = Inr b \<and> wf_pdu p \<and> length b < 2 ^ 32) ps bs"
  shows "drain (concat bs) = (ps, ErrIncomplete, [])"
proof -
  have "bs = map wire ps \<and> list_all sized_pdu ps"
    using assms by (induction rule: list_all2_induct) (auto simp: Marshal_sized)
  then show ?thesis using x2x3.receive_exactly [of ps ErrIncomplete] by simp
qed

theorem batch_received_as_units_witness:
  "drain (wire ex_pdu @ wire ex_pdu) = ([ex_pdu, ex_pdu], ErrIncomplete, [])"
proof -
  have wf: "wf_pdu ex_pdu" by (simp add: ex_pdu_def wf_pdu_def)
  have "validate ex_pdu = None"
    by (simp add: ex_pdu_def validate_def allowedOn_def payloadFormatRules_def pdu_types)
  then have "Marshal (Some ex_pdu) = Inr (wire ex_pdu)"
    by (rule Marshal_wire [OF wf]) (simp add: ex_pdu_def small_tlv_def)
  moreover have "length (wire ex_pdu) < 2 ^ 32" using length_wire [OF wf] by (simp add: ex_pdu_def)
  ultimately show ?thesis
    using batch_received_as_units [of "[ex_pdu, ex_pdu]" "[wire ex_pdu, wire ex_pdu]"] wf by simp
qed

end
