(* ===== verification/Sequencer.thy ===== *)
theory Sequencer
  imports Pdu
begin

text \<open>
  The numbering of product units (\<open>src/x2x3/sequencer.go\<close>) and the conditional attributes built
  from it (\<open>src/x2x3/attributes.go\<close>). The sequential model is a map from context to the next
  number, a 32-bit word that wraps. \<open>Next\<close> is not one critical section in the code: it looks the
  counter up under a read lock, and increments it after releasing that lock, or creates it under
  the write lock after checking again. The second half models that at the grain of those sections,
  for any number of goroutines, and shows that every interleaving numbers a context as the
  sequential model does.
\<close>

subsection \<open>The sequential model\<close>

record seqContext =
  sxid :: "byte list"
  scorr :: "byte list"

type_synonym Sequencer = "(seqContext, 32 word) gomap"

definition NewSequencer :: Sequencer where
  "NewSequencer = []"

definition Next :: "byte list \<Rightarrow> byte list \<Rightarrow> Sequencer \<Rightarrow> Sequencer \<times> 32 word" where
  "Next x corr s =
     (let key = \<lparr>sxid = x, scorr = corr\<rparr> in
      case map_of s key of
        Some c \<Rightarrow> (AList.update key (c + 1) s, c + 1 - 1)
      | None \<Rightarrow> (AList.update key 1 s, 0))"

definition Forget :: "byte list \<Rightarrow> Sequencer \<Rightarrow> Sequencer" where
  "Forget x s = filter (\<lambda>(key, _). sxid key \<noteq> x) s"

definition ForgetContext :: "byte list \<Rightarrow> byte list \<Rightarrow> Sequencer \<Rightarrow> Sequencer" where
  "ForgetContext x corr s = AList.delete \<lparr>sxid = x, scorr = corr\<rparr> s"

definition Sequencer_Len :: "Sequencer \<Rightarrow> nat" where
  "Sequencer_Len s = length s"

subsection \<open>Attributes\<close>

definition AttrNFID :: "16 word" where "AttrNFID = 6"
definition AttrIPID :: "16 word" where "AttrIPID = 7"
definition AttrSequenceNumber :: "16 word" where "AttrSequenceNumber = 8"
definition AttrTimestamp :: "16 word" where "AttrTimestamp = 9"
definition AttrMatchedTargetIdentifier :: "16 word" where "AttrMatchedTargetIdentifier = 17"
definition AttrOtherTargetIdentifier :: "16 word" where "AttrOtherTargetIdentifier = 18"

lemmas attr_types = AttrNFID_def AttrIPID_def AttrSequenceNumber_def AttrTimestamp_def
  AttrMatchedTargetIdentifier_def AttrOtherTargetIdentifier_def

definition NFID :: "string \<Rightarrow> TLV" where
  "NFID i = \<lparr>tlvType = AttrNFID, tlvValue = bytes_of i\<rparr>"

definition IPID :: "string \<Rightarrow> TLV" where
  "IPID i = \<lparr>tlvType = AttrIPID, tlvValue = bytes_of i\<rparr>"

definition SequenceNumber :: "32 word \<Rightarrow> TLV" where
  "SequenceNumber n = \<lparr>tlvType = AttrSequenceNumber, tlvValue = PutUint32 n\<rparr>"

text \<open>A \<open>time.Time\<close> as its \<open>Unix()\<close> seconds and its \<open>Nanosecond()\<close>; both are truncated to 32 bits.\<close>

record instant =
  unix :: int
  nanosecond :: int

definition Timestamp :: "instant \<Rightarrow> TLV" where
  "Timestamp t = \<lparr>tlvType = AttrTimestamp,
     tlvValue = PutUint32 (word_of_int (unix t)) @ PutUint32 (word_of_int (nanosecond t))\<rparr>"

definition MatchedTargetIdentifier :: "string \<Rightarrow> TLV" where
  "MatchedTargetIdentifier frag = \<lparr>tlvType = AttrMatchedTargetIdentifier, tlvValue = bytes_of frag\<rparr>"

definition OtherTargetIdentifier :: "string \<Rightarrow> TLV" where
  "OtherTargetIdentifier frag = \<lparr>tlvType = AttrOtherTargetIdentifier, tlvValue = bytes_of frag\<rparr>"

record Identity =
  nfid :: TLV
  ipid :: TLV
  seq :: Sequencer

definition NewIdentity :: "string \<Rightarrow> string \<Rightarrow> Identity" where
  "NewIdentity nfID pointID = \<lparr>nfid = NFID nfID, ipid = IPID pointID, seq = NewSequencer\<rparr>"

definition Identity_Attributes :: "byte list \<Rightarrow> byte list \<Rightarrow> instant \<Rightarrow> string list \<Rightarrow> string list \<Rightarrow>
    Identity \<Rightarrow> Identity \<times> TLV list" where
  "Identity_Attributes x corr at matched other i =
     (let (s, n) = Next x corr (seq i) in
      (i\<lparr>seq := s\<rparr>,
       [nfid i, ipid i, SequenceNumber n, Timestamp at]
         @ map MatchedTargetIdentifier matched @ map OtherTargetIdentifier other))"

definition Identity_Forget :: "byte list \<Rightarrow> Identity \<Rightarrow> Identity" where
  "Identity_Forget x i = i\<lparr>seq := Forget x (seq i)\<rparr>"

definition Identity_ForgetContext :: "byte list \<Rightarrow> byte list \<Rightarrow> Identity \<Rightarrow> Identity" where
  "Identity_ForgetContext x corr i = i\<lparr>seq := ForgetContext x corr (seq i)\<rparr>"

definition Contexts :: "Identity \<Rightarrow> nat" where
  "Contexts i = Sequencer_Len (seq i)"

subsection \<open>Lookups after each operation\<close>

definition next_number :: "Sequencer \<Rightarrow> seqContext \<Rightarrow> 32 word" where
  "next_number s key = (case map_of s key of None \<Rightarrow> 0 | Some c \<Rightarrow> c)"

lemma Next_eq:
  "snd (Next x corr s) = next_number s \<lparr>sxid = x, scorr = corr\<rparr>"
  "map_of (fst (Next x corr s)) =
     (map_of s)(\<lparr>sxid = x, scorr = corr\<rparr> \<mapsto> next_number s \<lparr>sxid = x, scorr = corr\<rparr> + 1)"
  by (auto simp: Next_def next_number_def Let_def go_maps split: option.splits)

lemma Next_distinct: "distinct (map fst s) \<Longrightarrow> distinct (map fst (fst (Next x corr s)))"
  by (simp add: Next_def Let_def split: option.splits)

lemma map_of_Forget: "map_of (Forget x s) key = (if sxid key = x then None else map_of s key)"
  by (induction s) (auto simp: Forget_def)

lemma map_of_ForgetContext:
  "map_of (ForgetContext x corr s) = (map_of s)(\<lparr>sxid = x, scorr = corr\<rparr> := None)"
  by (simp add: ForgetContext_def go_maps)

text \<open>The numbers handed out by a sequence of requests, with the sequencer they leave.\<close>

fun run_next :: "seqContext list \<Rightarrow> Sequencer \<Rightarrow> Sequencer \<times> (seqContext \<times> 32 word) list" where
  "run_next [] s = (s, [])"
| "run_next (k # ks) s =
     (let (s1, n) = Next (sxid k) (scorr k) s; (s2, out) = run_next ks s1 in (s2, (k, n) # out))"

definition numbers_of :: "seqContext \<Rightarrow> (seqContext \<times> 32 word) list \<Rightarrow> 32 word list" where
  "numbers_of k out = map snd (filter (\<lambda>e. fst e = k) out)"

lemma numbers_of_simps [simp]:
  "numbers_of k [] = []"
  "numbers_of k (e # out) = (if fst e = k then snd e # numbers_of k out else numbers_of k out)"
  "numbers_of k (out @ out') = numbers_of k out @ numbers_of k out'"
  by (simp_all add: numbers_of_def)

lemma run_next_numbers:
  "numbers_of k (snd (run_next ks s)) =
     map (\<lambda>j. next_number s k + of_nat j) [0..<count_list ks k]"
proof (induction ks arbitrary: s)
  case (Cons c ks)
  have c: "\<lparr>sxid = sxid c, scorr = scorr c\<rparr> = c" by simp
  have nn: "next_number (fst (Next (sxid c) (scorr c) s)) k =
      (if k = c then next_number s c + 1 else next_number s k)"
    by (simp add: next_number_def [of "fst _"] Next_eq(2) c) (simp add: next_number_def)
  have "snd (run_next (c # ks) s) = (c, next_number s c) # snd (run_next ks (fst (Next (sxid c) (scorr c) s)))"
    by (simp add: Let_def case_prod_unfold Next_eq(1) c)
  moreover have "map (\<lambda>j. x + of_nat j) [Suc 0..<Suc n] = map (\<lambda>j. x + 1 + of_nat j) [0..<n]"
    for x :: "32 word" and n
    by (simp add: map_Suc_upt [symmetric] comp_def algebra_simps del: upt_Suc map_Suc_upt)
  ultimately show ?case
    using Cons.IH [of "fst (Next (sxid c) (scorr c) s)"] nn
    by (cases "c = k") (simp_all add: upt_conv_Cons del: upt_Suc run_next.simps)
qed simp

text \<open>A list that counts from zero, the shape of a context's numbers.\<close>

definition counting :: "32 word list \<Rightarrow> bool" where
  "counting ns \<longleftrightarrow> ns = map of_nat [0..<length ns]"

lemma counting_Nil [simp]: "counting []"
  by (simp add: counting_def)

lemma counting_snoc: "counting ns \<Longrightarrow> counting (ns @ [of_nat (length ns)])"
  by (simp add: counting_def)

subsection \<open>Concurrent numbering\<close>

text \<open>
  A goroutine in \<open>Next\<close> is between its sections in one of two ways: it found the counter and holds
  a pointer to it, or it missed and is about to take the write lock. Counters are cells of a heap,
  because a found pointer stays usable after the lock is released. \<open>handed\<close> records the results in
  the order of the atomic increments.
\<close>

datatype next_pc = Idle | Found seqContext nat | Missed seqContext

record seq_sys =
  counters :: "seqContext \<rightharpoonup> nat"
  cells :: "32 word list"
  pcs :: "nat \<Rightarrow> next_pc"
  handed :: "(seqContext \<times> 32 word) list"

definition seq_init :: seq_sys where
  "seq_init = \<lparr>counters = Map.empty, cells = [], pcs = (\<lambda>_. Idle), handed = []\<rparr>"

inductive next_step :: "seq_sys \<Rightarrow> seq_sys \<Rightarrow> bool" where
  read_hit: "pcs s g = Idle \<Longrightarrow> counters s k = Some a \<Longrightarrow> next_step s (s\<lparr>pcs := (pcs s)(g := Found k a)\<rparr>)"
| read_miss: "pcs s g = Idle \<Longrightarrow> counters s k = None \<Longrightarrow> next_step s (s\<lparr>pcs := (pcs s)(g := Missed k)\<rparr>)"
| add_found: "pcs s g = Found k a \<Longrightarrow>
    next_step s (s\<lparr>cells := (cells s)[a := cells s ! a + 1], pcs := (pcs s)(g := Idle),
                   handed := handed s @ [(k, (cells s ! a + 1) - 1)]\<rparr>)"
| locked_hit: "pcs s g = Missed k \<Longrightarrow> counters s k = Some a \<Longrightarrow>
    next_step s (s\<lparr>cells := (cells s)[a := cells s ! a + 1], pcs := (pcs s)(g := Idle),
                   handed := handed s @ [(k, (cells s ! a + 1) - 1)]\<rparr>)"
| locked_create: "pcs s g = Missed k \<Longrightarrow> counters s k = None \<Longrightarrow>
    next_step s (s\<lparr>counters := (counters s)(k \<mapsto> length (cells s)), cells := cells s @ [1],
                   pcs := (pcs s)(g := Idle), handed := handed s @ [(k, 0)]\<rparr>)"

inductive next_reach :: "seq_sys \<Rightarrow> bool" where
  start: "next_reach seq_init"
| step: "next_reach s \<Longrightarrow> next_step s t \<Longrightarrow> next_reach t"

text \<open>
  Every counter cell holds the number of values handed out for its context, distinct contexts have
  distinct cells, and a held pointer is the one the map has.
\<close>

definition ctx_ok :: "seq_sys \<Rightarrow> seqContext \<Rightarrow> bool" where
  "ctx_ok s k \<longleftrightarrow> counting (numbers_of k (handed s)) \<and>
     (case counters s k of
        None \<Rightarrow> numbers_of k (handed s) = []
      | Some a \<Rightarrow> a < length (cells s) \<and> cells s ! a = of_nat (length (numbers_of k (handed s))))"

definition next_inv :: "seq_sys \<Rightarrow> bool" where
  "next_inv s \<longleftrightarrow> (\<forall>k. ctx_ok s k) \<and>
     (\<forall>k k' a. counters s k = Some a \<longrightarrow> counters s k' = Some a \<longrightarrow> k = k') \<and>
     (\<forall>g k a. pcs s g = Found k a \<longrightarrow> counters s k = Some a)"

lemma next_invD:
  assumes "next_inv s"
  shows "ctx_ok s k" and "counters s k = Some a \<Longrightarrow> counters s k' = Some a \<Longrightarrow> k = k'"
    and "pcs s g = Found k a \<Longrightarrow> counters s k = Some a"
  using assms unfolding next_inv_def by blast+

lemma next_inv_init: "next_inv seq_init"
  by (simp add: next_inv_def seq_init_def ctx_ok_def)

lemma next_inv_pcs:
  "next_inv s \<Longrightarrow> (\<And>g k a. p g = Found k a \<Longrightarrow> counters s k = Some a) \<Longrightarrow> next_inv (s\<lparr>pcs := p\<rparr>)"
  by (simp add: next_inv_def ctx_ok_def cong: option.case_cong)

lemma next_inv_add:
  assumes inv: "next_inv s" and k: "counters s k = Some a"
  shows "next_inv (s\<lparr>cells := (cells s)[a := cells s ! a + 1], pcs := (pcs s)(g := Idle),
                     handed := handed s @ [(k, (cells s ! a + 1) - 1)]\<rparr>)" (is "next_inv ?t")
proof -
  have cell: "a < length (cells s)" "cells s ! a = of_nat (length (numbers_of k (handed s)))"
    and cnt: "counting (numbers_of k (handed s))"
    using next_invD(1) [OF inv, of k] k by (simp_all add: ctx_ok_def)
  have "ctx_ok ?t k'" for k'
  proof (cases "k' = k")
    case True
    with cell cnt k show ?thesis by (simp add: ctx_ok_def counting_snoc)
  next
    case False
    then have "counters s k' = Some a' \<Longrightarrow> a' \<noteq> a" for a'
      using next_invD(2) [OF inv, of k'] k by blast
    with False next_invD(1) [OF inv, of k'] show ?thesis
      by (auto simp: ctx_ok_def split: option.splits)
  qed
  moreover have "pcs ?t g' = Found k' a' \<Longrightarrow> counters ?t k' = Some a'" for g' k' a'
    using next_invD(3) [OF inv] by (auto split: if_splits)
  ultimately show ?thesis using next_invD(2) [OF inv] by (simp add: next_inv_def)
qed

lemma next_inv_create:
  assumes inv: "next_inv s" and k: "counters s k = None"
  shows "next_inv (s\<lparr>counters := (counters s)(k \<mapsto> length (cells s)), cells := cells s @ [1],
                     pcs := (pcs s)(g := Idle), handed := handed s @ [(k, 0)]\<rparr>)" (is "next_inv ?t")
proof -
  have none: "numbers_of k (handed s) = []" using next_invD(1) [OF inv, of k] k by (simp add: ctx_ok_def)
  have used: "counters s k' = Some a' \<Longrightarrow> a' < length (cells s)" for k' a'
    using next_invD(1) [OF inv, of k'] by (simp add: ctx_ok_def)
  have "ctx_ok ?t k'" for k'
  proof (cases "k' = k")
    case True
    with none counting_snoc [of "[]"] show ?thesis by (simp add: ctx_ok_def)
  next
    case False
    with next_invD(1) [OF inv, of k'] show ?thesis
      by (auto simp: ctx_ok_def nth_append split: option.splits)
  qed
  moreover have "counters ?t k1 = Some a \<Longrightarrow> counters ?t k2 = Some a \<Longrightarrow> k1 = k2" for k1 k2 a
    using next_invD(2) [OF inv, of k1 a k2] used [of k1 a] used [of k2 a] by (simp split: if_splits)
  moreover have "pcs ?t g' = Found k' a' \<Longrightarrow> counters ?t k' = Some a'" for g' k' a'
    using next_invD(3) [OF inv] k by (auto split: if_splits)
  ultimately show ?thesis unfolding next_inv_def by blast
qed

lemma next_step_inv: "next_step s t \<Longrightarrow> next_inv s \<Longrightarrow> next_inv t"
proof (induction rule: next_step.induct)
  case (read_hit s g k a)
  then show ?case by (intro next_inv_pcs) (auto dest: next_invD(3) split: if_splits)
next
  case (read_miss s g k)
  then show ?case by (intro next_inv_pcs) (auto dest: next_invD(3) split: if_splits)
next
  case (add_found s g k a)
  then show ?case by (intro next_inv_add next_invD(3))
next
  case (locked_hit s g k a)
  then show ?case by (intro next_inv_add)
next
  case (locked_create s g k)
  then show ?case by (intro next_inv_create)
qed

lemma next_reach_inv: "next_reach s \<Longrightarrow> next_inv s"
  by (induction rule: next_reach.induct) (auto intro: next_inv_init next_step_inv)

subsection \<open>Properties\<close>

text \<open>
  Numbering is gap-free per context: whatever requests are interleaved, the numbers one
  context receives start at its next number (zero for a new context) and go up by one for each unit
  of that context, wrapping at \<open>2\<^sup>3\<^sup>2\<close>; requests of other contexts never move them.
\<close>

theorem numbering_per_context:
  "numbers_of k (snd (run_next ks s)) = map (\<lambda>j. next_number s k + of_nat j) [0..<count_list ks k] \<and>
   numbers_of k (snd (run_next ks NewSequencer)) = map of_nat [0..<count_list ks k]"
  using run_next_numbers [of k ks s] run_next_numbers [of k ks NewSequencer]
  by (simp add: next_number_def NewSequencer_def)

text \<open>
  Releasing numbering state. \<open>ForgetContext\<close> restarts exactly one context and leaves every
  other context of the same warrant where it was; \<open>Forget\<close> restarts every context of the
  identifier and no context of another.
\<close>

theorem forgetting_is_scoped:
  "next_number (ForgetContext x corr s) k =
     (if k = \<lparr>sxid = x, scorr = corr\<rparr> then 0 else next_number s k) \<and>
   next_number (Forget x s) k = (if sxid k = x then 0 else next_number s k) \<and>
   Sequencer_Len (Forget x s) = Sequencer_Len s - length (filter (\<lambda>e. sxid (fst e) = x) s)"
proof -
  have "length s = length (filter (\<lambda>e. sxid (fst e) = x) s) + length (filter (\<lambda>e. sxid (fst e) \<noteq> x) s)"
    by (simp add: sum_length_filter_compl)
  then show ?thesis
    by (simp add: next_number_def map_of_ForgetContext map_of_Forget)
       (simp add: Sequencer_Len_def Forget_def case_prod_unfold)
qed

text \<open>
  C26. Concurrent numbering: in every interleaving of goroutines inside \<open>Next\<close>, with the lookup
  under the read lock and the increment after it, and the creation under the write lock with its
  second check, the numbers handed out for a context are 0, 1, 2 and so on in the order of the
  increments, wrapping at \<open>2\<^sup>3\<^sup>2\<close>: none is skipped, any \<open>2\<^sup>3\<^sup>2\<close> of them in a row are different, and they
  are those the sequential model gives for the same requests.
\<close>

theorem concurrent_numbering:
  assumes "next_reach s" and ns_def: "ns = numbers_of k (handed s)"
  shows "(\<forall>i < length ns. unat (ns ! i) = i mod 2 ^ 32) \<and>
    (\<forall>i j. i < j \<longrightarrow> j < length ns \<longrightarrow> j - i < 2 ^ 32 \<longrightarrow> ns ! i \<noteq> ns ! j) \<and>
    ns = numbers_of k (snd (run_next (map fst (handed s)) NewSequencer))"
proof (intro conjI allI impI)
  have c: "ns = map of_nat [0..<length ns]"
    using next_invD(1) [OF next_reach_inv [OF assms(1)], of k] by (simp add: ctx_ok_def counting_def ns_def)
  show n: "unat (ns ! i) = i mod 2 ^ 32" if "i < length ns" for i
    using that by (subst c) (simp add: unat_of_nat)
  show "ns ! i \<noteq> ns ! j" if "i < j" "j < length ns" "j - i < 2 ^ 32" for i j
  proof
    assume "ns ! i = ns ! j"
    then have "i mod 2 ^ 32 = j mod 2 ^ 32" using n [of i] n [of j] that(1,2) by simp
    then have "2 ^ 32 dvd j - i" using that(1) by (metis less_imp_le_nat mod_eq_dvd_iff_nat)
    with that(1,3) show False using dvd_imp_le [of "2 ^ 32" "j - i"] by simp
  qed
  have "count_list (map fst out) k = length (numbers_of k out)" for out by (induction out) auto
  then show "ns = numbers_of k (snd (run_next (map fst (handed s)) NewSequencer))"
    using c by (simp add: run_next_numbers next_number_def NewSequencer_def ns_def)
qed

text \<open>Two goroutines miss the same context; the second finds the counter the first created.\<close>

definition ex_ctx :: seqContext where
  "ex_ctx = \<lparr>sxid = replicate 16 0, scorr = replicate 8 0\<rparr>"

lemma racing_creation:
  "\<exists>s. next_reach s \<and> handed s = [(ex_ctx, 0), (ex_ctx, 1)]"
proof -
  define s1 where "s1 = seq_init\<lparr>pcs := (pcs seq_init)(0 := Missed ex_ctx)\<rparr>"
  define s2 where "s2 = s1\<lparr>pcs := (pcs s1)(1 := Missed ex_ctx)\<rparr>"
  define s3 where "s3 = s2\<lparr>counters := (counters s2)(ex_ctx \<mapsto> length (cells s2)), cells := cells s2 @ [1],
                     pcs := (pcs s2)(0 := Idle), handed := handed s2 @ [(ex_ctx, 0)]\<rparr>"
  define s4 where "s4 = s3\<lparr>cells := (cells s3)[0 := cells s3 ! 0 + 1], pcs := (pcs s3)(1 := Idle),
                     handed := handed s3 @ [(ex_ctx, (cells s3 ! 0 + 1) - 1)]\<rparr>"
  have "next_step seq_init s1"
    unfolding s1_def by (rule next_step.read_miss) (simp_all add: seq_init_def)
  moreover have "next_step s1 s2"
    unfolding s2_def by (rule next_step.read_miss) (simp_all add: s1_def seq_init_def)
  moreover have "next_step s2 s3"
    unfolding s3_def by (rule next_step.locked_create) (simp_all add: s2_def s1_def seq_init_def)
  moreover have "next_step s3 s4"
    unfolding s4_def by (rule next_step.locked_hit) (simp_all add: s3_def s2_def s1_def seq_init_def)
  ultimately have "next_reach s4" by (meson next_reach.intros)
  moreover have "handed s4 = [(ex_ctx, 0), (ex_ctx, 1)]"
    by (simp add: s4_def s3_def s2_def s1_def seq_init_def)
  ultimately show ?thesis by blast
qed

theorem concurrent_numbering_witness:
  "\<exists>s. next_reach s \<and> handed s = [(ex_ctx, 0), (ex_ctx, 1)] \<and>
     numbers_of ex_ctx (snd (run_next (map fst (handed s)) NewSequencer)) = [0, 1]"
proof -
  obtain s where s: "next_reach s" "handed s = [(ex_ctx, 0), (ex_ctx, 1)]"
    using racing_creation by blast
  from concurrent_numbering [OF s(1) refl, of ex_ctx, THEN conjunct2, THEN conjunct2] s(2)
  have "numbers_of ex_ctx (snd (run_next (map fst (handed s)) NewSequencer)) = [0, 1]" by simp
  with s show ?thesis by blast
qed

end
