(* ===== verification/Keepalive.thy ===== *)
theory Keepalive
  imports Sequencer
begin

text \<open>
  The first half of \<open>src/x2x3/keepalive.go\<close>: the Keepalive units, the per-connection counter that
  numbers them and decides which acknowledgements count, and the configuration of the timers. A
  \<open>time.Duration\<close> is an integer number of nanoseconds. The half that acts on a connection is in
  theory \<open>Delivery\<close>.
\<close>

subsection \<open>Keepalive units\<close>

definition keepalivePDU :: "16 word \<Rightarrow> 32 word \<Rightarrow> PDU" where
  "keepalivePDU t sequence =
     \<lparr>pduType = t, PayloadFormat = 0, Direction = 0, pduXID = replicate 16 0,
      pduCorrelationID = replicate 8 0, Attributes = [SequenceNumber sequence], Payload = []\<rparr>"

definition Keepalive :: "32 word \<Rightarrow> PDU" where
  "Keepalive sequence = keepalivePDU PDUTypeKeepalive sequence"

definition KeepaliveAck :: "32 word \<Rightarrow> PDU" where
  "KeepaliveAck sequence = keepalivePDU PDUTypeKeepaliveAck sequence"

fun sequence_loop :: "TLV list \<Rightarrow> 32 word option" where
  "sequence_loop [] = None"
| "sequence_loop (a # attrs) =
     (if tlvType a = AttrSequenceNumber \<and> length (tlvValue a) = 4 then Some (Uint32 (tlvValue a))
      else sequence_loop attrs)"

definition KeepaliveSequence :: "PDU \<Rightarrow> 32 word option" where
  "KeepaliveSequence p = sequence_loop (Attributes p)"

subsection \<open>The counter of one connection\<close>

record keepaliveCounter =
  kcNext :: "32 word"
  highest :: "32 word"
  answered :: bool

definition zero_counter :: keepaliveCounter where
  "zero_counter = \<lparr>kcNext = 0, highest = 0, answered = False\<rparr>"

definition kc_take :: "keepaliveCounter \<Rightarrow> keepaliveCounter \<times> 32 word" where
  "kc_take c = (c\<lparr>kcNext := kcNext c + 1\<rparr>, (kcNext c + 1) - 1)"

definition issued :: "keepaliveCounter \<Rightarrow> 32 word" where
  "issued c = kcNext c"

definition accept :: "32 word \<Rightarrow> keepaliveCounter \<Rightarrow> keepaliveCounter \<times> bool" where
  "accept sq c =
     (if sq \<ge> issued c then (c, False)
      else if answered c \<and> sq \<le> highest c then (c, False)
      else (c\<lparr>answered := True, highest := sq\<rparr>, True))"

subsection \<open>Configuration\<close>

definition Second :: int where "Second = 1000000000"
definition MinKeepaliveTime :: int where "MinKeepaliveTime = Second"
definition DefaultTimeP1 :: int where "DefaultTimeP1 = 60 * Second"
definition DefaultTimeP2 :: int where "DefaultTimeP2 = 180 * Second"
definition maxInboundPDU :: nat where "maxInboundPDU = 4096"

lemmas timer_constants = Second_def MinKeepaliveTime_def DefaultTimeP1_def DefaultTimeP2_def

record KeepaliveConfig =
  Disabled :: bool
  TimeP1 :: int
  TimeP2 :: int

definition withDefaults :: "KeepaliveConfig \<Rightarrow> KeepaliveConfig" where
  "withDefaults k =
     (let k1 = (if TimeP1 k \<le> 0 then k\<lparr>TimeP1 := DefaultTimeP1\<rparr> else k)
      in if TimeP2 k1 \<le> 0 then k1\<lparr>TimeP2 := DefaultTimeP2\<rparr> else k1)"

datatype timer_error = NegativeTimer | TimerBelowSecond | P2NotAboveP1

definition Validate :: "KeepaliveConfig \<Rightarrow> timer_error option" where
  "Validate k =
     (if TimeP1 k < 0 \<or> TimeP2 k < 0 then Some NegativeTimer
      else if (TimeP1 k > 0 \<and> TimeP1 k < MinKeepaliveTime) \<or> (TimeP2 k > 0 \<and> TimeP2 k < MinKeepaliveTime)
      then Some TimerBelowSecond
      else let e = withDefaults k in
        if TimeP2 e \<le> TimeP1 e then Some P2NotAboveP1 else None)"

subsection \<open>Facts\<close>

lemma sized_keepalive: "t \<noteq> PDUTypeX2 \<Longrightarrow> t \<noteq> PDUTypeX3 \<Longrightarrow> sized_pdu (keepalivePDU t n)"
  by (simp add: sized_pdu_def keepalivePDU_def wf_pdu_def validate_def small_tlv_def SequenceNumber_def)

lemma sized_Keepalive [simp]: "sized_pdu (Keepalive n)" and sized_KeepaliveAck [simp]: "sized_pdu (KeepaliveAck n)"
  by (simp_all add: Keepalive_def KeepaliveAck_def sized_keepalive pdu_types)

lemma sized_Marshal: "sized_pdu p \<Longrightarrow> Marshal (Some p) = Inr (wire p)"
  by (simp add: sized_pdu_def Marshal_wire)

lemma KeepaliveSequence_pdu [simp]: "KeepaliveSequence (keepalivePDU t n) = Some n"
  by (simp add: KeepaliveSequence_def keepalivePDU_def SequenceNumber_def)

lemma length_keepalive: "length (wire (keepalivePDU t n)) = 48"
  by (simp add: length_wire keepalivePDU_def wf_pdu_def SequenceNumber_def)

text \<open>A connection's history: Keepalives numbered and acknowledgements judged.\<close>

datatype counter_op = TakeNumber | Acknowledge "32 word"

fun counter_run :: "counter_op list \<Rightarrow> keepaliveCounter \<Rightarrow> keepaliveCounter \<times> 32 word list \<times> 32 word list" where
  "counter_run [] c = (c, [], [])"
| "counter_run (TakeNumber # ops) c =
     (let (c1, n) = kc_take c; (c2, sent, acked) = counter_run ops c1 in (c2, n # sent, acked))"
| "counter_run (Acknowledge sq # ops) c =
     (let (c1, ok) = accept sq c; (c2, sent, acked) = counter_run ops c1
      in (c2, sent, if ok then sq # acked else acked))"

lemma accept_cases:
  "accept sq c = (if sq < kcNext c \<and> (answered c \<longrightarrow> highest c < sq)
                  then (c\<lparr>answered := True, highest := sq\<rparr>, True) else (c, False))"
  by (auto simp: accept_def issued_def not_le not_less)

lemma counter_run_acked_above:
  "answered c \<Longrightarrow> list_all (\<lambda>n. highest c < n) (snd (snd (counter_run ops c)))"
proof (induction ops c rule: counter_run.induct)
  case (3 sq ops c)
  let ?c = "fst (accept sq c)"
  have up: "answered ?c" "highest c \<le> highest ?c" using "3.prems" by (auto simp: accept_cases)
  have "list_all (\<lambda>n. highest ?c < n) (snd (snd (counter_run ops ?c)))"
    by (rule "3.IH") (auto simp: up prod_eq_iff)
  then have "list_all (\<lambda>n. highest c < n) (snd (snd (counter_run ops ?c)))"
    using up(2) by (auto simp: list_all_iff)
  with "3.prems" show ?case by (auto simp: accept_cases Let_def case_prod_unfold)
qed (auto simp: kc_take_def Let_def case_prod_unfold)

lemma counter_run_acked_sorted: "sorted_wrt (<) (snd (snd (counter_run ops c)))"
proof (induction ops c rule: counter_run.induct)
  case (3 sq ops c)
  let ?c = "fst (accept sq c)"
  have "sorted_wrt (<) (snd (snd (counter_run ops ?c)))" by (rule "3.IH") (auto simp: prod_eq_iff)
  moreover have "snd (accept sq c) \<Longrightarrow> list_all (\<lambda>n. sq < n) (snd (snd (counter_run ops ?c)))"
    using counter_run_acked_above [of ?c ops] by (auto simp: accept_cases split: if_splits)
  ultimately show ?case by (auto simp: Let_def case_prod_unfold list_all_iff)
qed (auto simp: kc_take_def Let_def case_prod_unfold)

lemma word32_below: "sq < (of_nat n :: 32 word) \<Longrightarrow> sq \<in> of_nat ` {..<n}"
proof -
  assume "sq < (of_nat n :: 32 word)"
  then have "unat sq < n mod 2 ^ 32" by (simp add: word_less_nat_alt unat_of_nat)
  also have "\<dots> \<le> n" by (rule mod_less_eq_dividend)
  finally have "unat sq \<in> {..<n}" by simp
  moreover have "sq = of_nat (unat sq)" by simp
  ultimately show ?thesis by (rule image_eqI [rotated])
qed

lemma counter_run_acked_sent:
  "kcNext c = of_nat n \<Longrightarrow>
   set (snd (snd (counter_run ops c))) \<subseteq> of_nat ` {..<n} \<union> set (fst (snd (counter_run ops c)))"
proof (induction ops c arbitrary: n rule: counter_run.induct)
  case (2 ops c)
  have "set (snd (snd (counter_run ops (fst (kc_take c))))) \<subseteq>
      of_nat ` {..<Suc n} \<union> set (fst (snd (counter_run ops (fst (kc_take c)))))"
    by (rule "2.IH") (use "2.prems" in \<open>auto simp: kc_take_def algebra_simps\<close>)
  with "2.prems" show ?case by (auto simp: kc_take_def Let_def case_prod_unfold lessThan_Suc)
next
  case (3 sq ops c)
  let ?c = "fst (accept sq c)"
  have "set (snd (snd (counter_run ops ?c))) \<subseteq> of_nat ` {..<n} \<union> set (fst (snd (counter_run ops ?c)))"
    by (rule "3.IH") (use "3.prems" in \<open>auto simp: prod_eq_iff accept_cases\<close>)
  moreover have "snd (accept sq c) \<Longrightarrow> sq \<in> of_nat ` {..<n}"
    using "3.prems" word32_below [of sq n] by (auto simp: accept_cases split: if_splits)
  ultimately show ?case by (auto simp: Let_def case_prod_unfold)
qed simp

subsection \<open>Properties\<close>

text \<open>
  C27. What may postpone the TIME_P2 deadline: over any history of a connection, the
  acknowledgements that are accepted carry strictly increasing numbers, each one a number this
  connection had sent before. A replayed acknowledgement, one older than one already accepted and
  one for a number never sent are all refused.
\<close>

theorem accepted_acks_are_fresh_answers:
  "sorted_wrt (<) (snd (snd (counter_run ops zero_counter))) \<and>
   set (snd (snd (counter_run ops zero_counter))) \<subseteq> set (fst (snd (counter_run ops zero_counter)))"
  using counter_run_acked_sorted [of ops zero_counter] counter_run_acked_sent [of zero_counter 0 ops]
  by (simp add: zero_counter_def)

text \<open>
  A configuration that passes \<open>Validate\<close> runs the mechanism: with the defaults filled in both
  timers are at least a second and the time allowed for an acknowledgement exceeds the interval
  between Keepalives. Everything refused is negative, below a second, or would let the deadline
  pass before the Keepalive that would refresh it; the zero configuration is accepted.
\<close>

theorem Validate_characterised:
  "Validate k = None \<longleftrightarrow>
     (TimeP1 k = 0 \<or> MinKeepaliveTime \<le> TimeP1 k) \<and> (TimeP2 k = 0 \<or> MinKeepaliveTime \<le> TimeP2 k) \<and>
     MinKeepaliveTime \<le> TimeP1 (withDefaults k) \<and> TimeP1 (withDefaults k) < TimeP2 (withDefaults k)"
  by (cases k) (auto simp: Validate_def withDefaults_def Let_def timer_constants)

text \<open>
  A Keepalive and its acknowledgement are 48 bytes, say nothing about any warrant (every
  header field other than type and lengths is zero) and carry their sequence number through the
  wire: the peer decodes the number that was sent.
\<close>

theorem keepalive_on_the_wire:
  "t \<in> {PDUTypeKeepalive, PDUTypeKeepaliveAck} \<Longrightarrow>
   Marshal (Some (keepalivePDU t n)) = Inr (wire (keepalivePDU t n)) \<and>
   length (wire (keepalivePDU t n)) = 48 \<and>
   Unmarshal (wire (keepalivePDU t n) @ rest) = Inr (keepalivePDU t n, 48) \<and>
   KeepaliveSequence (keepalivePDU t n) = Some n \<and>
   take 28 (drop 12 (wire (keepalivePDU t n))) = replicate 28 0"
proof -
  assume t: "t \<in> {PDUTypeKeepalive, PDUTypeKeepaliveAck}"
  then have s: "sized_pdu (keepalivePDU t n)" by (auto simp: sized_keepalive pdu_types)
  have z: "PutUint16 0 = replicate 2 0" by (simp add: PutUint16_def numeral_2_eq_2)
  have "take 28 (drop 12 (wire (keepalivePDU t n))) = replicate 28 0"
    by (simp add: wire_def keepalivePDU_def z replicate_add [symmetric])
  with s show ?thesis
    using x2x3.dec_enc [OF s, of rest] length_keepalive [of t n] sized_Marshal [OF s] by simp
qed

theorem keepalive_on_the_wire_witness:
  "Unmarshal (wire (Keepalive 7) @ [1]) = Inr (Keepalive 7, 48) \<and> KeepaliveSequence (Keepalive 7) = Some 7"
  using keepalive_on_the_wire [of PDUTypeKeepalive 7 "[1]"] by (simp add: Keepalive_def)

end
