(* ===== verification/Delivery.thy ===== *)
theory Delivery
  imports Keepalive
begin

text \<open>
  The delivery client: \<open>src/x2x3/client.go\<close> and the half of \<open>src/x2x3/keepalive.go\<close> that acts on
  a connection.

  A \<open>*connState\<close> is an index into \<open>conns\<close>, the connections the client has dialled in order, so
  that the pointer comparisons \<open>c.live == st\<close> are comparisons of indices. A connection carries, in
  addition to the fields the code has, the position of its two goroutines (the local variables of
  \<open>keepaliveLoop\<close> and \<open>readLoop\<close>) and \<open>csStream\<close>, the bytes the transport has accepted on it.

  The network is an argument: whether a dial succeeds, and what a write reports. A write that
  fails says how many bytes it took, as the \<open>io.Writer\<close> contract has it, and those bytes are on the
  stream. Everything the code does under the client's mutex is one step, together with the store of
  \<open>unreachable\<close> that follows it. Time is the client's clock \<open>now\<close>.
\<close>

subsection \<open>State\<close>

datatype reader_pc = Reading | Decoding | ReaderExited

record connState =
  csSeq :: keepaliveCounter
  csAcks :: bool
  csStopped :: bool
  csMismatches :: "64 word"
  csTimer :: bool
  csDeadline :: int
  csReader :: reader_pc
  csBuf :: "byte list"
  csStream :: "byte list"

datatype send_error =
    SendAfterClose | DialFailed | WriteFailed | ErrUnitDropped | MarshalFailed pdu_error

datatype conn_fault =
    KeepaliveWriteFailed | DeclaredTooLarge nat | UndecodablePDU pdu_error | UnexpectedPDUType "16 word"
  | NoAcknowledgement

record Client =
  keepalive :: KeepaliveConfig
  conns :: "connState list"
  live :: "nat option"
  closed :: bool
  unreachable :: bool
  faults :: "conn_fault list"
  now :: int

definition NewClient :: "KeepaliveConfig \<Rightarrow> Client" where
  "NewClient k = \<lparr>keepalive = withDefaults k, conns = [], live = None, closed = False,
     unreachable = False, faults = [], now = 0\<rparr>"

text \<open>A connection as \<open>dialLocked\<close> allocates it, before the mechanism is started.\<close>

definition dialled :: connState where
  "dialled = \<lparr>csSeq = zero_counter, csAcks = False, csStopped = False, csMismatches = 0,
     csTimer = False, csDeadline = 0, csReader = ReaderExited, csBuf = [], csStream = []\<rparr>"

definition on_conn :: "nat \<Rightarrow> (connState \<Rightarrow> connState) \<Rightarrow> Client \<Rightarrow> Client" where
  "on_conn i f c = c\<lparr>conns := (conns c)[i := f (conns c ! i)]\<rparr>"

text \<open>What the transport answers to one \<open>Write\<close>.\<close>

datatype write_result = Wrote | WriteErr nat

fun taken :: "write_result \<Rightarrow> byte list \<Rightarrow> nat" where
  "taken Wrote b = length b"
| "taken (WriteErr n) b = min n (length b)"

fun write_failed :: "write_result \<Rightarrow> bool" where
  "write_failed Wrote = False"
| "write_failed (WriteErr n) = True"

text \<open>What the network does during one delivery: at most two dials and two writes.\<close>

record Net =
  dial1 :: bool
  write1 :: write_result
  dial2 :: bool
  write2 :: write_result

subsection \<open>Connections\<close>

definition startKeepaliveLocked :: "nat \<Rightarrow> Client \<Rightarrow> Client" where
  "startKeepaliveLocked i c =
     (if Disabled (keepalive c) then c
      else on_conn i (\<lambda>st. st\<lparr>csTimer := True, csReader := Reading,
                              csDeadline := now c + TimeP2 (keepalive c)\<rparr>) c)"

definition dialLocked :: "bool \<Rightarrow> Client \<Rightarrow> Client \<times> send_error option" where
  "dialLocked ok c =
     (if \<not> ok then (c, Some DialFailed)
      else let i = length (conns c);
               c1 = c\<lparr>conns := conns c @ [dialled], live := Some i\<rparr>
           in (startKeepaliveLocked i c1, None))"

text \<open>\<open>writeLocked\<close>: the caller has established that a connection is held.\<close>

definition writeLocked :: "write_result \<Rightarrow> byte list \<Rightarrow> Client \<Rightarrow> Client \<times> nat \<times> bool" where
  "writeLocked w b c =
     (case live c of
        None \<Rightarrow> (c, 0, True)
      | Some i \<Rightarrow> (on_conn i (\<lambda>st. st\<lparr>csStream := csStream st @ take (taken w b) b\<rparr>) c,
                   taken w b, write_failed w))"

definition dropLocked :: "Client \<Rightarrow> Client" where
  "dropLocked c =
     (case live c of
        None \<Rightarrow> c
      | Some i \<Rightarrow> (on_conn i (\<lambda>st. st\<lparr>csStopped := True\<rparr>) c)\<lparr>live := None\<rparr>)"

definition Close :: "Client \<Rightarrow> Client" where
  "Close c =
     (let c1 = c\<lparr>closed := True\<rparr> in
      case live c1 of
        None \<Rightarrow> c1
      | Some i \<Rightarrow> (on_conn i (\<lambda>st. st\<lparr>csStopped := True\<rparr>) c1)\<lparr>live := None\<rparr>)"

subsection \<open>Delivering product\<close>

fun resume_loop :: "byte list \<Rightarrow> nat \<Rightarrow> nat \<Rightarrow> nat list \<Rightarrow> byte list \<times> bool" where
  "resume_loop b written start [] = ([], False)"
| "resume_loop b written start (e # ends) =
     (if e = written then (drop written b, False)
      else if e > written then (drop start b, True)
      else resume_loop b written e ends)"

definition resumeAt :: "byte list \<Rightarrow> nat list \<Rightarrow> nat \<Rightarrow> byte list \<times> bool" where
  "resumeAt b boundaries written =
     (if written \<le> 0 then (b, False)
      else if written \<ge> length b then ([], False)
      else if length boundaries = 0 then (b, True)
      else resume_loop b written 0 boundaries)"

text \<open>The one reconnect of \<open>deliver\<close>: a fresh connection, and what was not taken whole sent on it.\<close>

definition deliver_retry :: "Net \<Rightarrow> byte list \<Rightarrow> bool \<Rightarrow> bool \<Rightarrow> Client \<Rightarrow> Client \<times> send_error option" where
  "deliver_retry net rest resuming landed c =
     (case dialLocked (dial2 net) (dropLocked c) of
        (c1, Some e) \<Rightarrow> (c1, Some e)
      | (c1, None) \<Rightarrow>
          if length rest > 0 then
            (case writeLocked (write2 net) rest c1 of
               (c2, n, err) \<Rightarrow>
                 if err then (dropLocked c2, Some (if resuming \<and> landed then ErrUnitDropped else WriteFailed))
                 else (c2, None))
          else (c1, None))"

definition deliver :: "Net \<Rightarrow> byte list \<Rightarrow> nat list \<Rightarrow> Client \<Rightarrow> Client \<times> send_error option" where
  "deliver net b boundaries c =
     (if closed c then (c, Some SendAfterClose)
      else case (if live c = None then dialLocked (dial1 net) c else (c, None)) of
        (c1, Some e) \<Rightarrow> (c1, Some e)
      | (c1, None) \<Rightarrow>
          (case writeLocked (write1 net) b c1 of
             (c2, n, err) \<Rightarrow>
               if \<not> err then (c2, None)
               else let (rest, resuming) = resumeAt b boundaries n
                    in deliver_retry net rest resuming (length rest < length b) c2))"

definition sendBytes :: "Net \<Rightarrow> byte list \<Rightarrow> nat list \<Rightarrow> Client \<Rightarrow> Client \<times> send_error option" where
  "sendBytes net b boundaries c =
     (let (c1, err) = deliver net b boundaries c
      in (c1\<lparr>unreachable := (err \<noteq> None \<and> err \<noteq> Some ErrUnitDropped)\<rparr>, err))"

definition Unreachable :: "Client \<Rightarrow> bool" where
  "Unreachable c = unreachable c"

definition Send :: "Net \<Rightarrow> PDU option \<Rightarrow> Client \<Rightarrow> Client \<times> send_error option" where
  "Send net pdu c =
     (if pdu = None then (c, Some (MarshalFailed ErrNilPDU))
      else case Marshal pdu of
        Inl e \<Rightarrow> (c, Some (MarshalFailed e))
      | Inr b \<Rightarrow> sendBytes net b [] c)"

text \<open>The marshalling loop of \<open>SendBatch\<close>: the buffer, where each unit ends, the first error.\<close>

fun batch_loop :: "PDU option list \<Rightarrow> byte list \<Rightarrow> nat list \<Rightarrow> send_error option
    \<Rightarrow> byte list \<times> nat list \<times> send_error option" where
  "batch_loop [] buf ends marshalErr = (buf, ends, marshalErr)"
| "batch_loop (pdu # pdus) buf ends marshalErr =
     (if pdu = None
      then batch_loop pdus buf ends (if marshalErr = None then Some (MarshalFailed ErrNilPDU) else marshalErr)
      else case Marshal pdu of
        Inl e \<Rightarrow> batch_loop pdus buf ends (if marshalErr = None then Some (MarshalFailed e) else marshalErr)
      | Inr b \<Rightarrow> batch_loop pdus (buf @ b) (ends @ [length (buf @ b)]) marshalErr)"

definition SendBatch :: "Net \<Rightarrow> PDU option list \<Rightarrow> Client \<Rightarrow> Client \<times> send_error option" where
  "SendBatch net pdus c =
     (if length pdus = 0 then (c, None)
      else let (buf, ends, marshalErr) = batch_loop pdus [] [] None
        in if length buf = 0 then (c, marshalErr)
           else let (c1, err) = sendBytes net buf ends c
             in if err \<noteq> None then (c1, err) else (c1, marshalErr))"

subsection \<open>The keepalive timer\<close>

definition fault :: "conn_fault \<Rightarrow> Client \<Rightarrow> Client" where
  "fault e c = c\<lparr>faults := faults c @ [e]\<rparr>"

datatype write_on_error = ErrStaleConn | WriteOnFailed

definition writeOn :: "nat \<Rightarrow> write_result \<Rightarrow> byte list \<Rightarrow> Client \<Rightarrow> Client \<times> write_on_error option" where
  "writeOn i w b c =
     (if live c \<noteq> Some i then (c, Some ErrStaleConn)
      else case writeLocked w b c of
        (c1, n, err) \<Rightarrow> if err then (dropLocked c1, Some WriteOnFailed) else (c1, None))"

definition sendKeepalive :: "nat \<Rightarrow> write_result \<Rightarrow> Client \<Rightarrow> Client \<times> bool" where
  "sendKeepalive i w c =
     (let (sq1, n) = kc_take (csSeq (conns c ! i));
          c1 = on_conn i (\<lambda>st. st\<lparr>csSeq := sq1\<rparr>) c
      in case Marshal (Some (Keepalive n)) of
           Inl e \<Rightarrow> (c1, False)
         | Inr b \<Rightarrow>
             (case writeOn i w b c1 of
                (c2, None) \<Rightarrow> (c2, True)
              | (c2, Some ErrStaleConn) \<Rightarrow> (c2, False)
              | (c2, Some WriteOnFailed) \<Rightarrow>
                  (fault KeepaliveWriteFailed (c2\<lparr>unreachable := True\<rparr>), False)))"

definition expire :: "nat \<Rightarrow> bool \<Rightarrow> Client \<Rightarrow> Client" where
  "expire i dial c =
     (let c1 = c\<lparr>unreachable := True\<rparr>;
          c2 = (if live c1 = Some i then fst (dialLocked dial (dropLocked c1)) else c1)
      in fault NoAcknowledgement c2)"

text \<open>
  One round of the \<open>select\<close> of \<open>keepaliveLoop\<close>, by the channel that was ready. A case whose
  channel is not ready leaves the client as it is.
\<close>

datatype timer_event = StopClosed | SendTick write_result | AckArrived | ExpiryFired bool

fun keepaliveLoop :: "nat \<Rightarrow> timer_event \<Rightarrow> Client \<Rightarrow> Client" where
  "keepaliveLoop i StopClosed c =
     (if csTimer (conns c ! i) \<and> csStopped (conns c ! i) then on_conn i (\<lambda>st. st\<lparr>csTimer := False\<rparr>) c else c)"
| "keepaliveLoop i (SendTick w) c =
     (if csTimer (conns c ! i)
      then let (c1, ok) = sendKeepalive i w c in if ok then c1 else on_conn i (\<lambda>st. st\<lparr>csTimer := False\<rparr>) c1
      else c)"
| "keepaliveLoop i AckArrived c =
     (if csTimer (conns c ! i) \<and> csAcks (conns c ! i)
      then on_conn i (\<lambda>st. st\<lparr>csAcks := False, csDeadline := now c + TimeP2 (keepalive c)\<rparr>) c else c)"
| "keepaliveLoop i (ExpiryFired dial) c =
     (if csTimer (conns c ! i) \<and> csDeadline (conns c ! i) \<le> now c
      then on_conn i (\<lambda>st. st\<lparr>csTimer := False\<rparr>) (expire i dial c) else c)"

subsection \<open>The reader\<close>

definition protocolError :: "nat \<Rightarrow> conn_fault \<Rightarrow> Client \<Rightarrow> Client" where
  "protocolError i e c =
     (let c1 = c\<lparr>unreachable := True\<rparr>;
          c2 = (if live c1 = Some i then dropLocked c1 else c1)
      in fault e c2)"

definition answerKeepalive :: "nat \<Rightarrow> write_result \<Rightarrow> PDU \<Rightarrow> Client \<Rightarrow> Client \<times> bool" where
  "answerKeepalive i w p c =
     (case KeepaliveSequence p of
        None \<Rightarrow> (on_conn i (\<lambda>st. st\<lparr>csMismatches := csMismatches st + 1\<rparr>) c, True)
      | Some sq \<Rightarrow>
          (case Marshal (Some (KeepaliveAck sq)) of
             Inl e \<Rightarrow> (c, False)
           | Inr b \<Rightarrow> let (c1, err) = writeOn i w b c in (c1, err = None)))"

definition handleInbound :: "nat \<Rightarrow> write_result \<Rightarrow> PDU \<Rightarrow> Client \<Rightarrow> Client \<times> bool" where
  "handleInbound i w p c =
     (if pduType p = PDUTypeKeepaliveAck then
        (let (sq1, ok) = (case KeepaliveSequence p of
                            None \<Rightarrow> (csSeq (conns c ! i), False)
                          | Some sq \<Rightarrow> accept sq (csSeq (conns c ! i)))
         in if \<not> ok then (on_conn i (\<lambda>st. st\<lparr>csMismatches := csMismatches st + 1\<rparr>) c, True)
            else let c1 = on_conn i (\<lambda>st. st\<lparr>csSeq := sq1\<rparr>) c;
                     c2 = (if live c1 = Some i then c1\<lparr>unreachable := False\<rparr> else c1)
                 in (on_conn i (\<lambda>st. st\<lparr>csAcks := True\<rparr>) c2, True))
      else if pduType p = PDUTypeKeepalive then answerKeepalive i w p c
      else (protocolError i (UnexpectedPDUType (pduType p)) c, False))"

definition exit_reader :: "nat \<Rightarrow> Client \<Rightarrow> Client" where
  "exit_reader i c = on_conn i (\<lambda>st. st\<lparr>csReader := ReaderExited\<rparr>) c"

text \<open>
  \<open>readLoop\<close> up to its inner loop: one \<open>Read\<close> into the 512-byte array (\<open>None\<close> is its error),
  and the refusal of a unit declared too large.
\<close>

definition readLoop :: "nat \<Rightarrow> byte list option \<Rightarrow> Client \<Rightarrow> Client" where
  "readLoop i r c =
     (if csReader (conns c ! i) \<noteq> Reading then c
      else case r of
        None \<Rightarrow> exit_reader i c
      | Some tmp \<Rightarrow>
          let buf = csBuf (conns c ! i) @ take 512 tmp;
              c1 = on_conn i (\<lambda>st. st\<lparr>csBuf := buf, csReader := Decoding\<rparr>) c;
              declared = unat (Uint32 (take 4 (drop 4 buf))) + unat (Uint32 (take 4 (drop 8 buf)))
          in if length buf \<ge> 12 \<and> declared > maxInboundPDU
             then exit_reader i (protocolError i (DeclaredTooLarge declared) c1)
             else c1)"

text \<open>One round of the inner loop of \<open>readLoop\<close>.\<close>

definition readLoop_inner :: "nat \<Rightarrow> write_result \<Rightarrow> Client \<Rightarrow> Client" where
  "readLoop_inner i w c =
     (if csReader (conns c ! i) \<noteq> Decoding then c
      else case Unmarshal (csBuf (conns c ! i)) of
        Inl e \<Rightarrow>
          if e = ErrIncomplete then on_conn i (\<lambda>st. st\<lparr>csReader := Reading\<rparr>) c
          else exit_reader i (protocolError i (UndecodablePDU e) c)
      | Inr (p, used) \<Rightarrow>
          let c1 = on_conn i (\<lambda>st. st\<lparr>csBuf := drop used (csBuf st)\<rparr>) c;
              (c2, go) = handleInbound i w p c1
          in if go then c2 else exit_reader i c2)"

subsection \<open>Whole units in a prefix\<close>

text \<open>How many of the units whose lengths are given lie wholly in the first \<open>n\<close> bytes.\<close>

fun whole :: "nat \<Rightarrow> 'a list list \<Rightarrow> nat" where
  "whole n [] = 0"
| "whole n (u # us) = (if length u \<le> n then Suc (whole (n - length u) us) else 0)"

text \<open>Where each unit ends, counted from \<open>s\<close>.\<close>

fun ends_from :: "nat \<Rightarrow> 'a list list \<Rightarrow> nat list" where
  "ends_from s [] = []"
| "ends_from s (u # us) = (s + length u) # ends_from (s + length u) us"

lemma whole_le: "whole n us \<le> length us"
  by (induction n us rule: whole.induct) auto

lemma whole_all: "length (concat us) \<le> n \<Longrightarrow> whole n us = length us"
  by (induction n us rule: whole.induct) auto

lemma whole_Nil0: "list_all (\<lambda>u. u \<noteq> []) us \<Longrightarrow> whole 0 us = 0"
  by (cases us) auto

text \<open>A prefix of a run of units is its whole units and a strict prefix of the next one.\<close>

lemma take_concat_whole:
  "\<exists>k. take n (concat us) = concat (take (whole n us) us) @ (if whole n us < length us then take k (us ! whole n us) else [])
       \<and> (whole n us < length us \<longrightarrow> k < length (us ! whole n us))"
proof (induction n us rule: whole.induct)
  case (2 n u us)
  show ?case
  proof (cases "length u \<le> n")
    case True
    then show ?thesis using "2.IH" by (auto simp: take_all)
  next
    case False
    then show ?thesis by (intro exI [of _ n]) auto
  qed
qed simp

lemma resume_loop_whole:
  "list_all (\<lambda>u. u \<noteq> []) us \<Longrightarrow> 0 < n \<Longrightarrow> n < length (concat us) \<Longrightarrow>
   fst (resume_loop (pre @ concat us) (length pre + n) (length pre) (ends_from (length pre) us))
     = concat (drop (whole n us) us)"
proof (induction us arbitrary: n pre)
  case (Cons u us)
  consider "n = length u" | "n < length u" | "length u < n" by linarith
  then show ?case
  proof cases
    case 1
    with Cons.prems show ?thesis by (simp add: whole_Nil0)
  next
    case 2
    then show ?thesis by simp
  next
    case 3
    have "fst (resume_loop ((pre @ u) @ concat us) (length (pre @ u) + (n - length u)) (length (pre @ u))
            (ends_from (length (pre @ u)) us)) = concat (drop (whole (n - length u) us) us)"
      by (rule Cons.IH) (use Cons.prems 3 in auto)
    with 3 show ?thesis by simp
  qed
qed simp

text \<open>A retry goes on with the first unit that was not taken whole, whatever was written.\<close>

lemma resumeAt_whole:
  assumes "list_all (\<lambda>u. u \<noteq> []) us" and "bnd = ends_from 0 us \<or> bnd = [] \<and> length us = 1"
  shows "fst (resumeAt (concat us) bnd n) = concat (drop (whole n us) us)"
proof -
  consider "n = 0" | "n \<ge> length (concat us)" | "0 < n" "n < length (concat us)" by linarith
  then show ?thesis
  proof cases
    case 1
    with assms show ?thesis by (simp add: resumeAt_def whole_Nil0)
  next
    case 2
    then show ?thesis by (auto simp: resumeAt_def whole_all)
  next
    case 3
    from assms(2) show ?thesis
    proof
      assume "bnd = ends_from 0 us"
      moreover from this 3 have "bnd \<noteq> []" by (cases us) auto
      ultimately show ?thesis
        using 3 resume_loop_whole [OF assms(1) 3, of "[]"] by (simp add: resumeAt_def)
    next
      assume "bnd = [] \<and> length us = 1"
      then obtain u where "us = [u]" "bnd = []" by (auto simp: length_Suc_conv)
      with 3 show ?thesis by (simp add: resumeAt_def)
    qed
  qed
qed

text \<open>A strict prefix of a unit decodes as incomplete, so a stream cut anywhere reads as whole units.\<close>

lemma Unmarshal_cut:
  assumes "sized_pdu p" and "k < length (wire p)"
  shows "Unmarshal (take k (wire p)) = Inl ErrIncomplete"
proof (rule ccontr)
  assume "\<not> ?thesis"
  then have "Unmarshal (take k (wire p) @ drop k (wire p)) = Unmarshal (take k (wire p))"
    by (rule Unmarshal_append)
  then have "Unmarshal (take k (wire p)) = Inr (p, length (wire p))"
    using Unmarshal_wire [OF assms(1), of "[]"] by simp
  from Unmarshal_bounds [OF this] assms(2) show False by simp
qed

lemma drain_cut:
  assumes "list_all sized_pdu ps" and "sized_pdu p" and "k < length (wire p)"
  shows "drain (concat (map wire ps) @ take k (wire p)) = (ps, ErrIncomplete, take k (wire p))"
  using x2x3.receive_units [OF assms(1), of "take k (wire p)"] Unmarshal_cut [OF assms(2,3)]
  by (simp add: drain.simps)

lemma wire_nonempty: "sized_pdu p \<Longrightarrow> wire p \<noteq> []"
  using length_wire [of p] by (auto simp: sized_pdu_def)

subsection \<open>What a mediation function has received\<close>

definition units :: "connState \<Rightarrow> PDU list" where
  "units st = fst (drain (csStream st))"

text \<open>The units received, connection after connection.\<close>

definition received :: "Client \<Rightarrow> PDU list" where
  "received c = concat (map units (conns c))"

definition at_boundary :: "connState \<Rightarrow> bool" where
  "at_boundary st \<longleftrightarrow> (\<exists>ps. list_all sized_pdu ps \<and> csStream st = concat (map wire ps))"

definition readable :: "connState \<Rightarrow> bool" where
  "readable st \<longleftrightarrow> (\<exists>ps p k. list_all sized_pdu ps \<and> sized_pdu p \<and> k < length (wire p) \<and>
     csStream st = concat (map wire ps) @ take k (wire p))"

definition streams_ok :: "Client \<Rightarrow> bool" where
  "streams_ok c \<longleftrightarrow> list_all readable (conns c) \<and> (\<forall>i. live c = Some i \<longrightarrow> Suc i = length (conns c))"

definition client_inv :: "Client \<Rightarrow> bool" where
  "client_inv c \<longleftrightarrow> streams_ok c \<and> (\<forall>i. live c = Some i \<longrightarrow> at_boundary (conns c ! i) \<and> \<not> closed c)"

lemma boundary_units: "list_all sized_pdu ps \<Longrightarrow> csStream st = concat (map wire ps) \<Longrightarrow> units st = ps"
  by (simp add: units_def x2x3.receive_exactly)

lemma boundary_readable: "at_boundary st \<Longrightarrow> readable st"
proof -
  assume "at_boundary st"
  then obtain ps where ps: "list_all sized_pdu ps" "csStream st = concat (map wire ps)" by (auto simp: at_boundary_def)
  have "0 < length (wire (Keepalive 0))" using wire_nonempty [OF sized_Keepalive] by simp
  with ps show ?thesis unfolding readable_def
    by (intro exI [of _ ps] exI [of _ "Keepalive 0"] exI [of _ 0]) auto
qed

lemma nonempty_wires: "list_all sized_pdu ps \<Longrightarrow> list_all (\<lambda>u. u \<noteq> []) (map wire ps)"
  by (auto simp: list_all_iff wire_nonempty)

lemma stream_after_write:
  assumes b: "at_boundary st" and ps: "list_all sized_pdu ps"
    and st': "csStream st' = csStream st @ take n (concat (map wire ps))"
  shows "readable st'" and "units st' = units st @ take (whole n (map wire ps)) ps"
    and "length (concat (map wire ps)) \<le> n \<Longrightarrow> at_boundary st'"
proof -
  from b obtain us where us: "list_all sized_pdu us" "csStream st = concat (map wire us)" by (auto simp: at_boundary_def)
  let ?w = "whole n (map wire ps)"
  have all: "list_all sized_pdu (us @ take ?w ps)" using us(1) ps by (auto simp: list_all_iff dest: in_set_takeD)
  show "readable st'" "units st' = units st @ take ?w ps"
  proof -
    obtain k where k: "take n (concat (map wire ps)) = concat (take ?w (map wire ps)) @
         (if ?w < length ps then take k (map wire ps ! ?w) else [])"
       "?w < length ps \<longrightarrow> k < length (map wire ps ! ?w)"
      using take_concat_whole [of n "map wire ps"] by (auto simp del: nth_map)
    have "\<exists>p k. sized_pdu p \<and> k < length (wire p) \<and> csStream st' = concat (map wire (us @ take ?w ps)) @ take k (wire p)"
    proof (cases "?w < length ps")
      case True
      with k us(2) st' have "csStream st' = concat (map wire (us @ take ?w ps)) @ take k (wire (ps ! ?w))"
        by (simp add: take_map)
      moreover from True k(2) have "k < length (wire (ps ! ?w))" by simp
      moreover from True ps have "sized_pdu (ps ! ?w)" by (simp add: list_all_length)
      ultimately show ?thesis by blast
    next
      case False
      with k us(2) st' have "csStream st' = concat (map wire (us @ take ?w ps)) @ take 0 (wire (Keepalive 0))"
        by (simp add: take_map)
      moreover have "0 < length (wire (Keepalive 0))" using wire_nonempty [OF sized_Keepalive] by simp
      ultimately show ?thesis using sized_Keepalive by blast
    qed
    then obtain p k where p: "sized_pdu p" "k < length (wire p)"
        "csStream st' = concat (map wire (us @ take ?w ps)) @ take k (wire p)" by blast
    with all show "readable st'" unfolding readable_def by blast
    show "units st' = units st @ take ?w ps"
      using drain_cut [OF all p(1,2)] p(3) boundary_units [OF us] by (simp add: units_def)
  qed
  show "at_boundary st'" if "length (concat (map wire ps)) \<le> n"
    using that us ps st' unfolding at_boundary_def by (intro exI [of _ "us @ ps"]) simp
qed

text \<open>The stream predicates look at nothing but the stream.\<close>

lemma units_cong: "csStream st = csStream st' \<Longrightarrow> units st = units st'"
  and readable_cong: "csStream st = csStream st' \<Longrightarrow> readable st = readable st'"
  and at_boundary_cong: "csStream st = csStream st' \<Longrightarrow> at_boundary st = at_boundary st'"
  by (simp_all add: units_def readable_def at_boundary_def)

lemma on_conn_fields [simp]:
  "live (on_conn i f c) = live c" "closed (on_conn i f c) = closed c"
  "unreachable (on_conn i f c) = unreachable c" "keepalive (on_conn i f c) = keepalive c"
  "faults (on_conn i f c) = faults c" "now (on_conn i f c) = now c"
  "length (conns (on_conn i f c)) = length (conns c)"
  "conns (on_conn i f c) = (conns c)[i := f (conns c ! i)]"
  by (simp_all add: on_conn_def)

lemma map_update_same: "g (f (xs ! i)) = g (xs ! i) \<Longrightarrow> map g (xs[i := f (xs ! i)]) = map g xs"
  by (metis list_update_id map_update)

lemma nth_update_same: "g (f (xs ! i)) = g (xs ! i) \<Longrightarrow> g (xs[i := f (xs ! i)] ! n) = g (xs ! n)"
  by (cases "i < length xs"; cases "n = i") (auto simp: list_update_beyond)

lemma on_conn_quiet:
  assumes "\<And>st. csStream (f st) = csStream st"
  shows "received (on_conn i f c) = received c" and "client_inv (on_conn i f c) = client_inv c"
    and "streams_ok (on_conn i f c) = streams_ok c"
proof -
  note cong = units_cong [OF assms] readable_cong [OF assms] at_boundary_cong [OF assms]
  show "received (on_conn i f c) = received c"
    unfolding received_def using map_update_same [of units f "conns c" i] cong(1) by simp
  have "list_all readable ((conns c)[i := f (conns c ! i)]) = list_all readable (conns c)"
    using nth_update_same [of readable f "conns c" i] cong(2) by (simp add: list_all_length)
  then show s: "streams_ok (on_conn i f c) = streams_ok c" by (simp add: streams_ok_def)
  have "at_boundary ((conns c)[i := f (conns c ! i)] ! j) = at_boundary (conns c ! j)" for j
    by (rule nth_update_same) (rule cong(3))
  then show "client_inv (on_conn i f c) = client_inv c" by (simp add: client_inv_def s)
qed

lemma quiet_fields [simp]:
  "received (c\<lparr>unreachable := u\<rparr>) = received c" "client_inv (c\<lparr>unreachable := u\<rparr>) = client_inv c"
  "received (c\<lparr>faults := fs\<rparr>) = received c" "client_inv (c\<lparr>faults := fs\<rparr>) = client_inv c"
  "received (c\<lparr>now := t\<rparr>) = received c" "client_inv (c\<lparr>now := t\<rparr>) = client_inv c"
  by (simp_all add: received_def client_inv_def streams_ok_def)

lemma dropLocked_facts:
  "received (dropLocked c) = received c" "streams_ok c \<Longrightarrow> client_inv (dropLocked c)"
  "live (dropLocked c) = None" "closed (dropLocked c) = closed c"
proof -
  have q: "csStream (st\<lparr>csStopped := True\<rparr>) = csStream st" for st by simp
  have r: "received (c\<lparr>live := l\<rparr>) = received c" for c l by (simp add: received_def)
  show "received (dropLocked c) = received c"
    using on_conn_quiet(1) [OF q] by (auto simp: dropLocked_def r split: option.splits)
  show "streams_ok c \<Longrightarrow> client_inv (dropLocked c)"
    using on_conn_quiet(3) [OF q, of _ c]
    by (auto simp: dropLocked_def client_inv_def streams_ok_def split: option.splits)
qed (auto simp: dropLocked_def split: option.splits)

lemma dialLocked_facts:
  assumes "dialLocked ok c = (c', e)" and "client_inv c" and "\<not> closed c"
  shows "client_inv c'" and "received c' = received c" and "\<not> closed c'"
    and "e = (if ok then None else Some DialFailed)" and "ok \<Longrightarrow> live c' = Some (length (conns c))"
    and "\<not> ok \<Longrightarrow> c' = c" and "unreachable c' = unreachable c"
proof -
  let ?c = "c\<lparr>conns := conns c @ [dialled], live := Some (length (conns c))\<rparr>"
  have q: "csStream (st\<lparr>csTimer := True, csReader := Reading, csDeadline := d\<rparr>) = csStream st" for st d by simp
  have empty: "units dialled = []" "at_boundary dialled"
    using boundary_units [of "[]" dialled] by (auto simp: dialled_def at_boundary_def intro!: exI [of _ "[]"])
  have "client_inv ?c" using assms(2,3) empty boundary_readable by (auto simp: client_inv_def streams_ok_def)
  moreover have "received ?c = received c" by (simp add: received_def empty)
  ultimately show "client_inv c'" "received c' = received c"
    using assms on_conn_quiet [OF q, of _ _ ?c]
    by (auto simp: dialLocked_def startKeepaliveLocked_def Let_def split: if_splits)
qed (use assms in \<open>auto simp: dialLocked_def startKeepaliveLocked_def Let_def split: if_splits\<close>)

lemma writeLocked_facts:
  assumes w: "writeLocked w (concat (map wire ps)) c = (c', n, err)"
    and inv: "client_inv c" and l: "live c = Some i" and ps: "list_all sized_pdu ps"
  shows "streams_ok c'" and "received c' = received c @ take (whole n (map wire ps)) ps"
    and "live c' = live c" and "closed c' = closed c" and "unreachable c' = unreachable c" and "err = write_failed w"
    and "\<not> err \<Longrightarrow> client_inv c' \<and> whole n (map wire ps) = length ps"
proof -
  let ?b = "concat (map wire ps)"
  let ?st = "(conns c ! i)\<lparr>csStream := csStream (conns c ! i) @ take n ?b\<rparr>"
  from inv l have last: "Suc i = length (conns c)" "at_boundary (conns c ! i)" and ok: "streams_ok c" "\<not> closed c"
    by (auto simp: client_inv_def streams_ok_def)
  have c': "conns c' = (conns c)[i := ?st]" "live c' = live c" "closed c' = closed c" "n = taken w ?b" "err = write_failed w"
    using w l by (auto simp: writeLocked_def)
  note st = stream_after_write [OF last(2) ps, of ?st n, simplified]
  show "streams_ok c'"
    using ok(1) c' st(1) last(1) by (auto simp: streams_ok_def list_all_length nth_list_update)
  obtain cs where cs: "conns c = cs @ [conns c ! i]" "length cs = i"
    using last(1) by (metis append_butlast_last_id diff_Suc_1 last_conv_nth length_0_conv length_butlast nat.simps(3))
  then have "(conns c)[i := ?st] = cs @ [?st]" by (metis list_update_length)
  then show "received c' = received c @ take (whole n (map wire ps)) ps"
    unfolding received_def using c'(1) st(2) by (subst cs(1)) (simp add: received_def)
  show "client_inv c' \<and> whole n (map wire ps) = length ps" if "\<not> err"
  proof -
    from that c' have "n = length ?b" by (cases w) auto
    then have "at_boundary ?st" "whole n (map wire ps) = length ps" using st(3) whole_all [of "map wire ps" n] by auto
    then show ?thesis using \<open>streams_ok c'\<close> c' ok l last(1) by (auto simp: client_inv_def)
  qed
qed (use w l in \<open>auto simp: writeLocked_def\<close>)

text \<open>The retry: a prefix of what was left is received, all of it when it reports success.\<close>

lemma deliver_retry_facts:
  assumes d: "deliver_retry net (concat (map wire qs)) resuming landed c = (c', e)"
    and ok: "streams_ok c" "\<not> closed c" and qs: "list_all sized_pdu qs"
  shows "client_inv c' \<and> \<not> closed c' \<and> e \<noteq> Some SendAfterClose \<and>
    (\<exists>k \<le> length qs. received c' = received c @ take k qs \<and> (e = None \<longrightarrow> k = length qs)) \<and>
    (e = Some ErrUnitDropped \<longrightarrow> landed)"
proof -
  obtain c1 e1 where c1: "dialLocked (dial2 net) (dropLocked c) = (c1, e1)" by fastforce
  note d1 = dialLocked_facts [OF c1 dropLocked_facts(2) [OF ok(1)]] dropLocked_facts(1,4) [of c]
  show ?thesis
  proof (cases "dial2 net \<and> qs \<noteq> []")
    case False
    with d d1 c1 ok(2) qs show ?thesis
      by (cases "dial2 net") (auto simp: deliver_retry_def split: if_splits)
  next
    case True
    then have ne: "length (concat (map wire qs)) > 0" using qs by (cases qs) (auto simp: wire_nonempty)
    from True d1 ok(2) have l1: "live c1 = Some (length (conns (dropLocked c)))" by simp
    obtain c2 n err where c2: "writeLocked (write2 net) (concat (map wire qs)) c1 = (c2, n, err)" by (metis prod_cases3)
    have i1: "client_inv c1" "received c1 = received c" "\<not> closed c1" using d1 ok(2) by auto
    note w = writeLocked_facts [OF c2 i1(1) l1 qs]
    have k: "whole n (map wire qs) \<le> length qs" using whole_le [of n "map wire qs"] by simp
    have e1: "e1 = None" using d1 ok True by simp
    show ?thesis
    proof (cases err)
      case False
      with d c1 e1 ne c2 have "c' = c2" "e = None" by (auto simp: deliver_retry_def)
      with w i1 False show ?thesis by auto
    next
      case err: True
      with d c1 e1 ne c2 have c': "c' = dropLocked c2" "e = Some (if resuming \<and> landed then ErrUnitDropped else WriteFailed)"
        by (auto simp: deliver_retry_def)
      with dropLocked_facts [of c2] w i1 k show ?thesis by (auto split: if_splits)
    qed
  qed
qed

text \<open>One delivery: a prefix of the units is received, all of them when it reports success.\<close>

definition prefix_delivered :: "PDU list \<Rightarrow> Client \<Rightarrow> Client \<Rightarrow> send_error option \<Rightarrow> bool" where
  "prefix_delivered ps c c' e \<longleftrightarrow> client_inv c' \<and> closed c' = closed c \<and>
    (\<exists>k \<le> length ps. received c' = received c @ take k ps \<and> (e = None \<longrightarrow> k = length ps) \<and>
       (e = Some ErrUnitDropped \<longrightarrow> 0 < k) \<and> (e = Some SendAfterClose \<longleftrightarrow> closed c) \<and> (closed c \<longrightarrow> k = 0))"

lemma prefix_deliveredI:
  "client_inv c' \<Longrightarrow> closed c' = closed c \<Longrightarrow> received c' = received c @ take k ps \<Longrightarrow> k \<le> length ps \<Longrightarrow>
   (e = None \<Longrightarrow> k = length ps) \<Longrightarrow> (e = Some ErrUnitDropped \<Longrightarrow> 0 < k) \<Longrightarrow>
   (e = Some SendAfterClose \<longleftrightarrow> closed c) \<Longrightarrow> (closed c \<Longrightarrow> k = 0) \<Longrightarrow> prefix_delivered ps c c' e"
  unfolding prefix_delivered_def by blast

lemma deliver_facts:
  assumes d: "deliver net (concat (map wire ps)) bnd c = (c', e)"
    and bnd: "bnd = ends_from 0 (map wire ps) \<or> bnd = [] \<and> length ps = 1"
    and inv: "client_inv c" and ps: "list_all sized_pdu ps"
  shows "prefix_delivered ps c c' e"
proof (cases "closed c")
  case True
  with d inv show ?thesis by (intro prefix_deliveredI [of _ _ 0]) (auto simp: deliver_def)
next
  case open': False
  obtain c1 e1 where c1: "(if live c = None then dialLocked (dial1 net) c else (c, None)) = (c1, e1)" by fastforce
  note d1 = dialLocked_facts [of "dial1 net" c c1 e1]
  have i1: "client_inv c1" "received c1 = received c" "\<not> closed c1" "e1 = None \<Longrightarrow> live c1 \<noteq> None"
      "e1 = None \<or> e1 = Some DialFailed"
    using c1 d1 inv open' by (auto split: if_splits)
  show ?thesis
  proof (cases "e1 = None")
    case False
    with d c1 i1 open' show ?thesis by (intro prefix_deliveredI [of _ _ 0]) (auto simp: deliver_def)
  next
    case True
    with i1 obtain i where l1: "live c1 = Some i" by auto
    obtain c2 n err where c2: "writeLocked (write1 net) (concat (map wire ps)) c1 = (c2, n, err)" by (metis prod_cases3)
    note w1 = writeLocked_facts [OF c2 i1(1) l1 ps]
    let ?j = "whole n (map wire ps)"
    obtain rest res where rest: "resumeAt (concat (map wire ps)) bnd n = (rest, res)" by fastforce
    have rest': "rest = concat (map wire (drop ?j ps))"
      using resumeAt_whole [OF nonempty_wires [OF ps], of bnd n] bnd rest by (simp add: drop_map)
    have j: "?j \<le> length ps" using whole_le [of n "map wire ps"] by simp
    show ?thesis
    proof (cases err)
      case False
      with d c1 c2 True open' have "c' = c2" "e = None" by (auto simp: deliver_def)
      with w1 i1 False open' show ?thesis by (intro prefix_deliveredI [of _ _ "length ps"]) auto
    next
      case err: True
      have "deliver_retry net (concat (map wire (drop ?j ps))) res (length rest < length (concat (map wire ps))) c2 = (c', e)"
        using d c1 c2 True open' err rest rest' by (simp add: deliver_def)
      from deliver_retry_facts [OF this] w1 i1 ps obtain m where m: "client_inv c'" "\<not> closed c'" "e \<noteq> Some SendAfterClose"
          "m \<le> length (drop ?j ps)" "received c' = received c2 @ take m (drop ?j ps)" "e = None \<Longrightarrow> m = length (drop ?j ps)"
          "e = Some ErrUnitDropped \<Longrightarrow> length rest < length (concat (map wire ps))"
        by (auto simp: list_all_iff dest: in_set_dropD)
      moreover have "0 < ?j" if "length rest < length (concat (map wire ps))" using that rest' by (cases ?j) auto
      ultimately show ?thesis using w1(2) i1(2) open' j
        by (intro prefix_deliveredI [of _ _ "?j + m"]) (auto simp: take_add)
    qed
  qed
qed

subsection \<open>Sending\<close>

text \<open>A unit whose two lengths fit their fields, which every unit that fits in memory does.\<close>

definition fits :: "PDU \<Rightarrow> bool" where
  "fits p \<longleftrightarrow> wf_pdu p \<and> 40 + length (tlvs_wire (Attributes p)) < 2 ^ 32 \<and> length (Payload p) < 2 ^ 32"

definition all_fit :: "PDU option list \<Rightarrow> bool" where
  "all_fit pdus \<longleftrightarrow> (\<forall>p. Some p \<in> set pdus \<longrightarrow> fits p)"

text \<open>The units of a batch that can be marshalled.\<close>

definition marshalled :: "PDU option list \<Rightarrow> PDU list" where
  "marshalled pdus = map the (filter (\<lambda>x. \<not> isl (Marshal x)) pdus)"

lemma Marshal_None [simp]: "Marshal None = Inl ErrNilPDU"
  by (simp add: Marshal_def)

lemma marshalled_simps [simp]:
  "marshalled [] = []"
  "marshalled (x # pdus) = (if isl (Marshal x) then marshalled pdus else the x # marshalled pdus)"
  by (simp_all add: marshalled_def)

lemma Marshal_fits: "fits p \<Longrightarrow> Marshal (Some p) = Inr b \<Longrightarrow> sized_pdu p \<and> b = wire p"
proof -
  assume a: "fits p" "Marshal (Some p) = Inr b"
  then have v: "validate p = None" "find (\<lambda>t. \<not> small_tlv t) (Attributes p) = None"
    by (auto simp: Marshal_def attrs_len_eq split: option.splits)
  then have "list_all small_tlv (Attributes p)" by (simp add: find_None_iff list_all_iff)
  with a v show ?thesis using Marshal_wire [of p] by (simp add: sized_pdu_def fits_def)
qed

lemma ends_from_snoc: "ends_from s (us @ [u]) = ends_from s us @ [s + length (concat us) + length u]"
  by (induction us arbitrary: s) auto

lemma all_fit_Cons: "all_fit (x # xs) \<longleftrightarrow> (\<forall>p. x = Some p \<longrightarrow> fits p) \<and> all_fit xs"
  by (auto simp: all_fit_def)

lemma sized_marshalled: "all_fit pdus \<Longrightarrow> list_all sized_pdu (marshalled pdus)"
proof (induction pdus)
  case (Cons x pdus)
  then show ?case
    by (cases x; cases "Marshal x") (auto simp: all_fit_Cons dest: Marshal_fits)
qed simp

text \<open>The error a caller sees, with one that only says some unit could not be built set apart.\<close>

fun transport_error :: "send_error option \<Rightarrow> send_error option" where
  "transport_error (Some (MarshalFailed x)) = None"
| "transport_error e = e"

lemma batch_loop_facts:
  "all_fit pdus \<Longrightarrow>
   \<exists>e. batch_loop pdus (concat (map wire us)) (ends_from 0 (map wire us)) e0 =
         (concat (map wire (us @ marshalled pdus)), ends_from 0 (map wire (us @ marshalled pdus)), e) \<and>
       (e = None \<longleftrightarrow> e0 = None \<and> length (marshalled pdus) = length pdus) \<and>
       (transport_error e0 = None \<longrightarrow> transport_error e = None)"
proof (induction pdus arbitrary: us e0)
  case (Cons x pdus)
  have le: "length (marshalled pdus) \<le> length pdus" by (simp add: marshalled_def)
  show ?case
  proof (cases "Marshal x")
    case (Inl e1)
    from Cons.prems have "all_fit pdus" by (simp add: all_fit_Cons)
    from Cons.IH [OF this, of us "if e0 = None then Some (MarshalFailed e1) else e0"] Inl le show ?thesis
      by (cases x) (auto split: if_splits)
  next
    case (Inr b)
    then obtain p where x: "x = Some p" by (cases x) auto
    with Inr Cons.prems Marshal_fits have p: "b = wire p" "all_fit pdus" by (auto simp: all_fit_Cons)
    from Cons.IH [OF p(2), of "us @ [p]" e0] Inr x p(1) show ?thesis
      by (simp add: ends_from_snoc)
  qed
qed auto

lemma sendBytes_facts:
  assumes "sendBytes net (concat (map wire ps)) bnd c = (c', e)"
    and "bnd = ends_from 0 (map wire ps) \<or> bnd = [] \<and> length ps = 1" and "client_inv c" and "list_all sized_pdu ps"
  shows "prefix_delivered ps c c' e" and "unreachable c' \<longleftrightarrow> e \<noteq> None \<and> e \<noteq> Some ErrUnitDropped"
proof -
  obtain c1 where c1: "deliver net (concat (map wire ps)) bnd c = (c1, e)"
      "c' = c1\<lparr>unreachable := e \<noteq> None \<and> e \<noteq> Some ErrUnitDropped\<rparr>"
    using assms(1) by (auto simp: sendBytes_def Let_def split: prod.splits)
  from deliver_facts [OF c1(1) assms(2-4)] c1(2) show "prefix_delivered ps c c' e" by (simp add: prefix_delivered_def)
  from c1(2) show "unreachable c' \<longleftrightarrow> e \<noteq> None \<and> e \<noteq> Some ErrUnitDropped" by simp
qed

lemma deliver_no_marshal_error: "snd (deliver net b bnd c) \<noteq> Some (MarshalFailed x)"
  by (auto simp: deliver_def deliver_retry_def dialLocked_def Let_def split: prod.splits option.splits)

lemma SendBatch_facts:
  assumes s: "SendBatch net pdus c = (c', e)" and inv: "client_inv c" and fit: "all_fit pdus"
  shows "prefix_delivered (marshalled pdus) c c' (transport_error e) \<or> (marshalled pdus = [] \<and> c' = c)"
    and "e = None \<Longrightarrow> length (marshalled pdus) = length pdus"
proof -
  let ?ps = "marshalled pdus"
  obtain me where b: "batch_loop pdus [] [] None = (concat (map wire ?ps), ends_from 0 (map wire ?ps), me)"
      "me = None \<longleftrightarrow> length ?ps = length pdus" "transport_error me = None"
    using batch_loop_facts [OF fit, of "[]" None] by auto
  obtain c1 err where c1: "sendBytes net (concat (map wire ?ps)) (ends_from 0 (map wire ?ps)) c = (c1, err)" by fastforce
  have nm: "err \<noteq> Some (MarshalFailed x)" for x
    using c1 deliver_no_marshal_error [of net "concat (map wire ?ps)" "ends_from 0 (map wire ?ps)" c x]
    by (auto simp: sendBytes_def Let_def split: prod.splits)
  note f = sendBytes_facts(1) [OF c1 _ inv sized_marshalled [OF fit]]
  have empty: "concat (map wire ?ps) = [] \<longleftrightarrow> ?ps = []"
    using sized_marshalled [OF fit] by (cases ?ps) (auto simp: wire_nonempty)
  show "e = None \<Longrightarrow> length ?ps = length pdus"
    using s b c1 by (auto simp: SendBatch_def split: if_splits)
  show "prefix_delivered ?ps c c' (transport_error e) \<or> (?ps = [] \<and> c' = c)"
  proof (cases "?ps = []")
    case True
    with s b show ?thesis by (auto simp: SendBatch_def split: if_splits)
  next
    case False
    then have "pdus \<noteq> []" by auto
    with False empty s b(1) c1 have "c' = c1" "e = (if err \<noteq> None then err else me)"
      by (auto simp: SendBatch_def split: if_splits)
    with f b(3) nm show ?thesis by (cases err; cases "the err") auto
  qed
qed

lemma Send_facts:
  assumes s: "Send net pdu c = (c', e)" and inv: "client_inv c" and fit: "all_fit [pdu]"
  shows "prefix_delivered (marshalled [pdu]) c c' e \<or> (marshalled [pdu] = [] \<and> c' = c \<and> transport_error e = None \<and> e \<noteq> None)"
proof (cases "Marshal pdu")
  case (Inl x)
  with s show ?thesis by (auto simp: Send_def split: if_splits)
next
  case (Inr b)
  then obtain p where p: "pdu = Some p" by (cases pdu) auto
  with Inr fit Marshal_fits have w: "sized_pdu p" "b = concat (map wire [p])" by (auto simp: all_fit_Cons)
  from s p Inr w(2) have "sendBytes net (concat (map wire [p])) [] c = (c', e)" by (simp add: Send_def)
  from sendBytes_facts(1) [OF this _ inv] w p Inr show ?thesis by simp
qed

subsection \<open>The keepalive mechanism keeps the streams whole\<close>

definition products :: "PDU list \<Rightarrow> PDU list" where
  "products ps = filter (\<lambda>p. pduType p = PDUTypeX2 \<or> pduType p = PDUTypeX3) ps"

text \<open>What every step of the mechanism keeps: the streams, and the product on them.\<close>

definition keeps_product :: "Client \<Rightarrow> Client \<Rightarrow> bool" where
  "keeps_product c c' \<longleftrightarrow> (client_inv c \<longrightarrow> client_inv c' \<and> products (received c') = products (received c))"

lemma keeps_product_refl [simp]: "keeps_product c c"
  by (simp add: keeps_product_def)

lemma keeps_product_trans [trans]: "keeps_product c d \<Longrightarrow> keeps_product d e \<Longrightarrow> keeps_product c e"
  by (simp add: keeps_product_def)

lemma keeps_on_conn: "(\<And>st. csStream (f st) = csStream st) \<Longrightarrow> keeps_product c d \<Longrightarrow> keeps_product c (on_conn i f d)"
  by (simp add: keeps_product_def on_conn_quiet)

lemma keeps_fields:
  "keeps_product c (c\<lparr>unreachable := u\<rparr>)" "keeps_product c (fault e c)" "keeps_product c (c\<lparr>now := t\<rparr>)"
  by (simp_all add: keeps_product_def fault_def)

lemma keeps_drop: "keeps_product c (dropLocked c)"
  using dropLocked_facts [of c] by (simp add: keeps_product_def client_inv_def)

lemma keeps_Close: "keeps_product c (Close c)"
proof -
  have "Close c = (dropLocked c)\<lparr>closed := True\<rparr>"
    by (auto simp: Close_def dropLocked_def on_conn_def Let_def split: option.splits)
  moreover have "received (d\<lparr>closed := True\<rparr>) = received d" for d by (simp add: received_def)
  moreover have "client_inv d \<Longrightarrow> live d = None \<Longrightarrow> client_inv (d\<lparr>closed := True\<rparr>)" for d
    by (simp add: client_inv_def streams_ok_def)
  ultimately show ?thesis using keeps_drop [of c] dropLocked_facts(3) [of c] by (simp add: keeps_product_def)
qed

lemma keeps_writeOn:
  assumes "sized_pdu p" and "products [p] = []"
  shows "keeps_product c (fst (writeOn i w (wire p) c))"
proof (cases "live c = Some i \<and> client_inv c")
  case True
  obtain c1 n err where c1: "writeLocked w (concat (map wire [p])) c = (c1, n, err)" by (metis prod_cases3)
  note f = writeLocked_facts [OF c1, of i]
  have r: "received c1 = received c @ take (whole n (map wire [p])) [p]" using f(2) True assms by simp
  have "products (received c1) = products (received c)"
    using r assms(2) by (cases "whole n (map wire [p])") (auto simp: products_def)
  with f True assms(1) c1 dropLocked_facts [of c1] show ?thesis
    by (auto simp: writeOn_def keeps_product_def split: if_splits)
qed (auto simp: writeOn_def keeps_product_def)

lemma products_keepalive [simp]: "products [Keepalive n] = []" "products [KeepaliveAck n] = []"
  by (simp_all add: products_def Keepalive_def KeepaliveAck_def keepalivePDU_def pdu_types)

lemma keeps_sendKeepalive: "keeps_product c (fst (sendKeepalive i w c))"
proof -
  let ?n = "snd (kc_take (csSeq (conns c ! i)))" and ?sq = "fst (kc_take (csSeq (conns c ! i)))"
  let ?c = "on_conn i (\<lambda>st. st\<lparr>csSeq := ?sq\<rparr>) c"
  have "keeps_product c ?c" by (rule keeps_on_conn) auto
  also have "keeps_product ?c (fst (writeOn i w (wire (Keepalive ?n)) ?c))" by (rule keeps_writeOn) auto
  finally have "keeps_product c (fst (writeOn i w (wire (Keepalive ?n)) ?c))" .
  then show ?thesis
    by (auto simp: sendKeepalive_def case_prod_unfold sized_Marshal Let_def keeps_product_def fault_def
        split: option.splits write_on_error.splits)
qed

lemma keeps_expire: "keeps_product c (expire i dial c)"
proof -
  let ?c = "c\<lparr>unreachable := True\<rparr>"
  have "keeps_product ?c (if live ?c = Some i then fst (dialLocked dial (dropLocked ?c)) else ?c)"
  proof (cases "live c = Some i \<and> client_inv c")
    case True
    then have "client_inv (dropLocked ?c)" "\<not> closed (dropLocked ?c)"
      using dropLocked_facts [of ?c] by (auto simp: client_inv_def streams_ok_def)
    with dialLocked_facts(1,2) [of dial "dropLocked ?c"] True dropLocked_facts(1) [of ?c] show ?thesis
      by (cases "dialLocked dial (dropLocked ?c)") (auto simp: keeps_product_def)
  qed (auto simp: keeps_product_def)
  with keeps_fields(1) [of c True] have "keeps_product c (if live ?c = Some i then fst (dialLocked dial (dropLocked ?c)) else ?c)"
    by (rule keeps_product_trans)
  then show ?thesis unfolding expire_def Let_def by (rule keeps_product_trans) (rule keeps_fields)
qed

lemma keeps_keepaliveLoop: "keeps_product c (keepaliveLoop i ev c)"
proof (cases ev)
  case (SendTick w)
  have "keeps_product c (on_conn i (\<lambda>st. st\<lparr>csTimer := False\<rparr>) (fst (sendKeepalive i w c)))"
    by (rule keeps_on_conn [OF _ keeps_sendKeepalive]) simp
  with SendTick keeps_sendKeepalive [of c i w] show ?thesis by (simp add: case_prod_unfold Let_def)
next
  case (ExpiryFired dial)
  have "keeps_product c (on_conn i (\<lambda>st. st\<lparr>csTimer := False\<rparr>) (expire i dial c))"
    by (rule keeps_on_conn [OF _ keeps_expire]) simp
  with ExpiryFired show ?thesis by simp
qed (auto intro!: keeps_on_conn)

lemma keeps_protocolError: "keeps_product c (protocolError i e c)"
proof -
  let ?c = "c\<lparr>unreachable := True\<rparr>"
  have "keeps_product c (if live ?c = Some i then dropLocked ?c else ?c)"
    using keeps_product_trans [OF keeps_fields(1) keeps_drop, of c True] keeps_fields(1) [of c True] by simp
  then show ?thesis unfolding protocolError_def Let_def by (rule keeps_product_trans) (rule keeps_fields)
qed

lemma keeps_exit_reader: "keeps_product c d \<Longrightarrow> keeps_product c (exit_reader i d)"
  unfolding exit_reader_def by (rule keeps_on_conn) auto

lemma keeps_handleInbound: "keeps_product c (fst (handleInbound i w p c))"
proof -
  have answer: "keeps_product c (fst (answerKeepalive i w p c))"
    using keeps_writeOn [OF sized_KeepaliveAck products_keepalive(2)]
    by (auto simp: answerKeepalive_def sized_Marshal case_prod_unfold Let_def intro!: keeps_on_conn split: option.splits)
  have ack: "keeps_product c (on_conn i (\<lambda>st. st\<lparr>csAcks := True\<rparr>)
      (if b then (on_conn i (\<lambda>st. st\<lparr>csSeq := sq\<rparr>) c)\<lparr>unreachable := False\<rparr> else on_conn i (\<lambda>st. st\<lparr>csSeq := sq\<rparr>) c))" for b sq
    by (rule keeps_on_conn)
       (auto intro: keeps_product_trans [OF keeps_on_conn keeps_fields(1)] keeps_on_conn)
  have miss: "keeps_product c (on_conn i (\<lambda>st. st\<lparr>csMismatches := csMismatches st + 1\<rparr>) c)"
    by (rule keeps_on_conn) auto
  show ?thesis
    using answer ack miss keeps_protocolError [of c i "UnexpectedPDUType (pduType p)"]
    by (auto simp: handleInbound_def case_prod_unfold Let_def split: if_splits)
qed

lemma keeps_readLoop: "keeps_product c (readLoop i r c)"
proof -
  have app: "keeps_product c (on_conn i (\<lambda>st. st\<lparr>csBuf := b, csReader := Decoding\<rparr>) c)" for b
    by (rule keeps_on_conn) auto
  show ?thesis
    using app keeps_exit_reader [OF keeps_product_trans [OF app keeps_protocolError]] keeps_exit_reader [of c c i]
    by (auto simp: readLoop_def Let_def split: option.splits)
qed

lemma keeps_readLoop_inner: "keeps_product c (readLoop_inner i w c)"
proof -
  have app: "keeps_product c (on_conn i (\<lambda>st. st\<lparr>csBuf := drop n (csBuf st)\<rparr>) c)" for n
    by (rule keeps_on_conn) auto
  have again: "keeps_product c (on_conn i (\<lambda>st. st\<lparr>csReader := Reading\<rparr>) c)" by (rule keeps_on_conn) auto
  note h = keeps_product_trans [OF app keeps_handleInbound]
  show ?thesis
    using h keeps_exit_reader [OF h] again keeps_exit_reader [OF keeps_protocolError]
    by (auto simp: readLoop_inner_def Let_def case_prod_unfold split: sum.splits)
qed

subsection \<open>Histories\<close>

text \<open>
  Everything that happens to a client, in the order its mutex serialises it: sends, batches, rounds
  of a connection's timer and reader, the clock, and \<open>Close\<close>. A round names a connection that has
  been dialled.
\<close>

datatype client_op =
    DoSend Net "PDU option" | DoBatch Net "PDU option list" | TimerRound nat timer_event
  | ReaderRound nat "byte list option" | DecodeRound nat write_result | DoClose | TimePasses nat

fun client_step :: "client_op \<Rightarrow> Client \<Rightarrow> Client" where
  "client_step (DoSend net pdu) c = fst (Send net pdu c)"
| "client_step (DoBatch net pdus) c = fst (SendBatch net pdus c)"
| "client_step (TimerRound i ev) c = (if i < length (conns c) then keepaliveLoop i ev c else c)"
| "client_step (ReaderRound i r) c = (if i < length (conns c) then readLoop i r c else c)"
| "client_step (DecodeRound i w) c = (if i < length (conns c) then readLoop_inner i w c else c)"
| "client_step DoClose c = Close c"
| "client_step (TimePasses d) c = c\<lparr>now := now c + int d\<rparr>"

definition client_run :: "client_op list \<Rightarrow> Client \<Rightarrow> Client" where
  "client_run ops c = fold client_step ops c"

text \<open>The units a history gave the client to deliver, and that their lengths fit.\<close>

fun op_offers :: "client_op \<Rightarrow> PDU option list" where
  "op_offers (DoSend net pdu) = [pdu]"
| "op_offers (DoBatch net pdus) = pdus"
| "op_offers _ = []"

definition offers_fit :: "client_op list \<Rightarrow> bool" where
  "offers_fit ops \<longleftrightarrow> list_all (\<lambda>x. case x of None \<Rightarrow> True | Some p \<Rightarrow> fits p) (concat (map op_offers ops))"

definition offered :: "client_op list \<Rightarrow> PDU list" where
  "offered ops = products (marshalled (concat (map op_offers ops)))"

lemma all_fit_alt: "all_fit pdus \<longleftrightarrow> list_all (\<lambda>x. case x of None \<Rightarrow> True | Some p \<Rightarrow> fits p) pdus"
  by (auto simp: all_fit_def list_all_iff split: option.splits)

lemma products_append [simp]: "products (xs @ ys) = products xs @ products ys"
  by (simp add: products_def)

lemma marshalled_append: "marshalled (xs @ ys) = marshalled xs @ marshalled ys"
  by (simp add: marshalled_def)

text \<open>A step appends to the product received a subsequence of what it was given.\<close>

lemma client_step_facts:
  assumes "client_inv c" and "all_fit (op_offers op)"
  shows "client_inv (client_step op c) \<and>
    (\<exists>new. subseq new (products (marshalled (op_offers op))) \<and> products (received (client_step op c)) = products (received c) @ new)"
proof -
  have deliv: "client_inv c' \<and> (\<exists>new. subseq new (products ps) \<and> products (received c') = products (received c) @ new)"
    if "prefix_delivered ps c c' e \<or> ps = [] \<and> c' = c" for ps c' e
  proof -
    from that assms(1) obtain k where k: "client_inv c'" "received c' = received c @ take k ps"
      by (auto simp: prefix_delivered_def)
    have "subseq (products (take k ps)) (products ps)"
      unfolding products_def by (rule subseq_filter) (metis append_take_drop_id subseq_rev_drop_many subseq_order.refl list_emb_append2 prefix_imp_subseq take_is_prefix)
    with k show ?thesis by auto
  qed
  have keep: "client_inv c' \<and> (\<exists>new. subseq new ys \<and> products (received c') = products (received c) @ new)"
    if "keeps_product c c'" for c' ys
    using that assms(1) by (auto simp: keeps_product_def)
  show ?thesis
  proof (cases op)
    case (DoSend net pdu)
    obtain c' e where s: "Send net pdu c = (c', e)" by fastforce
    from Send_facts [OF this assms(1)] assms(2) DoSend deliv [of "marshalled [pdu]" c' e] s show ?thesis by auto
  next
    case (DoBatch net pdus)
    obtain c' e where s: "SendBatch net pdus c = (c', e)" by fastforce
    from SendBatch_facts(1) [OF this assms(1)] assms(2) DoBatch deliv [of "marshalled pdus" c' "transport_error e"] s
    show ?thesis by auto
  qed (use keep keeps_keepaliveLoop keeps_readLoop keeps_readLoop_inner keeps_Close keeps_fields in \<open>simp_all del: marshalled_simps\<close>)
qed

lemma client_run_facts:
  "client_inv c \<Longrightarrow> all_fit (concat (map op_offers ops)) \<Longrightarrow>
   client_inv (client_run ops c) \<and>
   (\<exists>new. subseq new (offered ops) \<and> products (received (client_run ops c)) = products (received c) @ new)"
proof (induction ops arbitrary: c)
  case (Cons op ops)
  from Cons.prems(2) have fit: "all_fit (op_offers op)" "all_fit (concat (map op_offers ops))" by (auto simp: all_fit_def)
  from client_step_facts [OF Cons.prems(1) fit(1)] obtain new1 where
    1: "client_inv (client_step op c)" "subseq new1 (products (marshalled (op_offers op)))"
       "products (received (client_step op c)) = products (received c) @ new1" by blast
  from Cons.IH [OF 1(1) fit(2)] obtain new2 where
    2: "client_inv (client_run ops (client_step op c))" "subseq new2 (offered ops)"
       "products (received (client_run ops (client_step op c))) = products (received c) @ new1 @ new2" using 1(3) by auto
  have "subseq (new1 @ new2) (offered (op # ops))"
    using list_emb_append_mono [OF 1(2) 2(2)] by (simp add: offered_def marshalled_append)
  with 2 show ?case by (auto simp: client_run_def)
qed (simp add: client_run_def offered_def)

lemma client_inv_New [simp]: "client_inv (NewClient k)" and received_New [simp]: "received (NewClient k) = []"
  by (simp_all add: NewClient_def client_inv_def streams_ok_def received_def)

lemma reachable_inv: "offers_fit ops \<Longrightarrow> client_inv (client_run ops (NewClient k))"
  using client_run_facts [of "NewClient k" ops] by (simp add: offers_fit_def all_fit_alt)

subsection \<open>What the reader holds\<close>

text \<open>
  A property of single connections that nothing but the reader can break: it holds of a fresh
  connection, with the mechanism started or not, and no other field is part of it. Every operation
  that is not the reader's keeps it on all connections.
\<close>

locale connection_property =
  fixes Q :: "connState \<Rightarrow> bool"
  assumes fresh: "Q dialled" "Q (dialled\<lparr>csTimer := True, csReader := Reading, csDeadline := d\<rparr>)"
    and other_fields: "Q st \<Longrightarrow> Q (st\<lparr>csStream := b\<rparr>)" "Q st \<Longrightarrow> Q (st\<lparr>csStopped := s\<rparr>)"
      "Q st \<Longrightarrow> Q (st\<lparr>csSeq := k\<rparr>)" "Q st \<Longrightarrow> Q (st\<lparr>csAcks := a\<rparr>)" "Q st \<Longrightarrow> Q (st\<lparr>csMismatches := m\<rparr>)"
      "Q st \<Longrightarrow> Q (st\<lparr>csTimer := t\<rparr>)" "Q st \<Longrightarrow> Q (st\<lparr>csDeadline := d\<rparr>)"
begin

lemma on_conn_all: "list_all Q (conns c) \<Longrightarrow> (\<And>st. Q st \<Longrightarrow> Q (f st)) \<Longrightarrow> list_all Q (conns (on_conn i f c))"
  by (cases "i < length (conns c)") (auto simp: list_all_length nth_list_update list_update_beyond)

lemma dialLocked_all: "list_all Q (conns c) \<Longrightarrow> list_all Q (conns (fst (dialLocked ok c)))"
  using fresh by (auto simp: dialLocked_def startKeepaliveLocked_def Let_def list_update_append)

lemma dropLocked_all: "list_all Q (conns c) \<Longrightarrow> list_all Q (conns (dropLocked c))"
  using on_conn_all [OF _ other_fields(2), of c] by (auto simp: dropLocked_def split: option.splits)

lemma writeLocked_all: "list_all Q (conns c) \<Longrightarrow> list_all Q (conns (fst (writeLocked w b c)))"
  using on_conn_all [OF _ other_fields(1), of c] by (auto simp: writeLocked_def split: option.splits)

lemma Close_all: "list_all Q (conns c) \<Longrightarrow> list_all Q (conns (Close c))"
  using on_conn_all [OF _ other_fields(2), of "c\<lparr>closed := True\<rparr>"] by (auto simp: Close_def Let_def split: option.splits)

lemmas socket_all = dialLocked_all dropLocked_all writeLocked_all

lemma deliver_retry_all: "list_all Q (conns c) \<Longrightarrow> list_all Q (conns (fst (deliver_retry net rest r l c)))"
proof -
  assume "list_all Q (conns c)"
  then have "list_all Q (conns (fst (dialLocked (dial2 net) (dropLocked c))))" by (intro socket_all)
  then show ?thesis
    by (auto simp: deliver_retry_def case_prod_unfold intro!: dropLocked_all writeLocked_all split: option.splits)
qed

lemma deliver_all: "list_all Q (conns c) \<Longrightarrow> list_all Q (conns (fst (deliver net b bnd c)))"
proof -
  assume a: "list_all Q (conns c)"
  let ?d = "if live c = None then dialLocked (dial1 net) c else (c, None)"
  have "list_all Q (conns (fst ?d))" using a dialLocked_all by simp
  moreover from this have "list_all Q (conns (fst (writeLocked (write1 net) b (fst ?d))))" by (rule writeLocked_all)
  ultimately show ?thesis using a deliver_retry_all unfolding deliver_def
    by (cases ?d; cases "snd ?d") (simp_all add: case_prod_unfold Let_def)
qed

lemma sendBytes_all: "list_all Q (conns c) \<Longrightarrow> list_all Q (conns (fst (sendBytes net b bnd c)))"
  using deliver_all [of c net b bnd] by (simp add: sendBytes_def case_prod_unfold Let_def)

lemma Send_all: "list_all Q (conns c) \<Longrightarrow> list_all Q (conns (fst (Send net pdu c)))"
  using sendBytes_all by (auto simp: Send_def split: sum.splits)

lemma SendBatch_all: "list_all Q (conns c) \<Longrightarrow> list_all Q (conns (fst (SendBatch net pdus c)))"
  using sendBytes_all by (auto simp: SendBatch_def case_prod_unfold Let_def)

lemma writeOn_all: "list_all Q (conns c) \<Longrightarrow> list_all Q (conns (fst (writeOn i w b c)))"
  using writeLocked_all [of c w b] by (auto simp: writeOn_def case_prod_unfold intro!: dropLocked_all)

lemma sendKeepalive_all: "list_all Q (conns c) \<Longrightarrow> list_all Q (conns (fst (sendKeepalive i w c)))"
proof -
  assume a: "list_all Q (conns c)"
  let ?n = "snd (kc_take (csSeq (conns c ! i)))" and ?sq = "fst (kc_take (csSeq (conns c ! i)))"
  have "list_all Q (conns (fst (writeOn i w (wire (Keepalive ?n)) (on_conn i (\<lambda>st. st\<lparr>csSeq := ?sq\<rparr>) c))))"
    by (intro writeOn_all on_conn_all a other_fields)
  then show ?thesis
    by (auto simp: sendKeepalive_def case_prod_unfold sized_Marshal Let_def fault_def
        split: option.splits write_on_error.splits)
qed

lemma expire_all: "list_all Q (conns c) \<Longrightarrow> list_all Q (conns (expire i dial c))"
  using dialLocked_all [OF dropLocked_all, of "c\<lparr>unreachable := True\<rparr>" dial] by (auto simp: expire_def fault_def Let_def)

lemma keepaliveLoop_all: "list_all Q (conns c) \<Longrightarrow> list_all Q (conns (keepaliveLoop i ev c))"
proof (cases ev)
  case AckArrived
  assume a: "list_all Q (conns c)"
  have "list_all Q (conns (on_conn i (\<lambda>st. st\<lparr>csAcks := False, csDeadline := d\<rparr>) c))" for d
    by (intro on_conn_all a other_fields)
  with a AckArrived show ?thesis by simp
next
  case (SendTick w)
  assume "list_all Q (conns c)"
  note s = sendKeepalive_all [OF this]
  show ?thesis using s on_conn_all [OF s other_fields(6)] \<open>list_all Q (conns c)\<close> SendTick
    by (auto simp: case_prod_unfold Let_def simp del: on_conn_fields(8))
next
  case (ExpiryFired d)
  assume "list_all Q (conns c)"
  with on_conn_all [OF expire_all other_fields(6), of c] ExpiryFired show ?thesis
    by (auto simp del: on_conn_fields(8))
qed (use on_conn_all [OF _ other_fields(6), of c] in \<open>auto simp del: on_conn_fields(8)\<close>)

lemma protocolError_all: "list_all Q (conns c) \<Longrightarrow> list_all Q (conns (protocolError i e c))"
  using dropLocked_all [of "c\<lparr>unreachable := True\<rparr>"] by (auto simp: protocolError_def fault_def Let_def)

lemma handleInbound_all: "list_all Q (conns c) \<Longrightarrow> list_all Q (conns (fst (handleInbound i w p c)))"
proof -
  assume a: "list_all Q (conns c)"
  have miss: "list_all Q (conns (on_conn i (\<lambda>st. st\<lparr>csMismatches := csMismatches st + 1\<rparr>) c))"
    by (intro on_conn_all a other_fields)
  have ack: "list_all Q (conns (on_conn i (\<lambda>st. st\<lparr>csAcks := True\<rparr>)
      (if b then (on_conn i (\<lambda>st. st\<lparr>csSeq := sq\<rparr>) c)\<lparr>unreachable := False\<rparr> else on_conn i (\<lambda>st. st\<lparr>csSeq := sq\<rparr>) c)))" for b sq
  proof -
    have "list_all Q (conns (on_conn i (\<lambda>st. st\<lparr>csSeq := sq\<rparr>) c))" by (intro on_conn_all a other_fields)
    then show ?thesis by (intro on_conn_all other_fields) (auto simp del: on_conn_fields(8))
  qed
  have answer: "list_all Q (conns (fst (answerKeepalive i w p c)))"
    using miss writeOn_all [OF a]
    by (auto simp: answerKeepalive_def sized_Marshal case_prod_unfold Let_def simp del: on_conn_fields(8) split: option.splits)
  show ?thesis
    using miss ack answer protocolError_all [OF a]
    by (auto simp: handleInbound_def case_prod_unfold Let_def simp del: on_conn_fields(8))
qed

end

lemma parseTLVs_complete: "parseTLVs b \<noteq> Inl ErrIncomplete"
proof (induction b rule: parseTLVs.induct)
  case (1 b)
  then show ?case by (subst parseTLVs.simps) (auto simp: Let_def split: sum.splits)
qed

lemma Unmarshal_incomplete: "Unmarshal b = Inl ErrIncomplete \<Longrightarrow> length b < 12 \<or> length b < declared_len b"
  using parseTLVs_complete
  by (auto simp: Unmarshal_def declared_len_def Let_def validate_def split: if_splits sum.splits)

lemma Unmarshal_incomplete_prefix: "Unmarshal (a @ b) = Inl ErrIncomplete \<Longrightarrow> Unmarshal a = Inl ErrIncomplete"
  using Unmarshal_append [of a b] by fastforce

lemma declared_len_take: "12 \<le> m \<Longrightarrow> declared_len (take m b) = declared_len b"
  by (simp add: declared_len_def drop_take min_def)

text \<open>A unit takes every byte that was not enough for it before.\<close>

lemma decoded_beyond_incomplete:
  "Unmarshal b = Inr (p, used) \<Longrightarrow> Unmarshal (take m b) = Inl ErrIncomplete \<Longrightarrow> m < used \<or> m < 12"
  using Unmarshal_incomplete [of "take m b"] Unmarshal_cases(1-3) [of b p used] declared_len_take [of m b]
  by (cases "m \<le> length b") auto

definition readChunk :: nat where "readChunk = 512"

definition reader_ok :: "connState \<Rightarrow> bool" where
  "reader_ok st \<longleftrightarrow>
     (let buf = csBuf st in
      case csReader st of
        Reading \<Rightarrow> Unmarshal buf = Inl ErrIncomplete \<and> length buf < maxInboundPDU
      | Decoding \<Rightarrow> length buf \<le> readChunk \<or>
          length buf < maxInboundPDU + readChunk \<and> (length buf < 12 \<or> declared_len buf \<le> maxInboundPDU) \<and>
          Unmarshal (take (length buf - readChunk) buf) = Inl ErrIncomplete
      | ReaderExited \<Rightarrow> length buf < maxInboundPDU + readChunk)"

lemmas reader_consts = readChunk_def maxInboundPDU_def

interpretation rd: connection_property reader_ok
  by unfold_locales (simp_all add: reader_ok_def dialled_def reader_consts Let_def)

lemma reader_ok_bound: "reader_ok st \<Longrightarrow> length (csBuf st) < maxInboundPDU + readChunk"
  by (auto simp: reader_ok_def reader_consts Let_def split: reader_pc.splits)

lemma exit_reader_ok: "reader_ok st \<Longrightarrow> reader_ok (st\<lparr>csReader := ReaderExited\<rparr>)"
  using reader_ok_bound [of st] by (simp add: reader_ok_def)

lemma exit_reader_all: "list_all reader_ok (conns c) \<Longrightarrow> list_all reader_ok (conns (exit_reader i c))"
  unfolding exit_reader_def by (rule rd.on_conn_all) (simp_all add: exit_reader_ok)

text \<open>Only the connection named is touched, so its new state is all there is to check.\<close>

lemma on_conn_reader:
  "list_all reader_ok (conns c) \<Longrightarrow> reader_ok (f (conns c ! i)) \<Longrightarrow> list_all reader_ok (conns (on_conn i f c))"
  by (cases "i < length (conns c)") (auto simp: list_all_length nth_list_update list_update_beyond)

lemma readLoop_reader:
  assumes all: "list_all reader_ok (conns c)" and i: "i < length (conns c)"
  shows "list_all reader_ok (conns (readLoop i r c))"
proof (cases "csReader (conns c ! i) = Reading")
  case True
  let ?st = "conns c ! i"
  from all i True have st: "Unmarshal (csBuf ?st) = Inl ErrIncomplete" "length (csBuf ?st) < maxInboundPDU"
    by (auto simp: list_all_length reader_ok_def Let_def)
  show ?thesis
  proof (cases r)
    case None
    with all True show ?thesis by (simp add: readLoop_def exit_reader_all del: on_conn_fields(8))
  next
    case (Some tmp)
    let ?buf = "csBuf ?st @ take 512 tmp"
    let ?c1 = "on_conn i (\<lambda>st. st\<lparr>csBuf := ?buf, csReader := Decoding\<rparr>) c"
    let ?declared = "unat (Uint32 (take 4 (drop 4 ?buf))) + unat (Uint32 (take 4 (drop 8 ?buf)))"
    have len: "length ?buf < maxInboundPDU + readChunk" using st(2) by (simp add: readChunk_def)
    have "Unmarshal (take (length ?buf - readChunk) ?buf) = Inl ErrIncomplete"
      using st(1) Unmarshal_incomplete_prefix [of "take (length ?buf - readChunk) (csBuf ?st)" "drop (length ?buf - readChunk) (csBuf ?st)"]
      by (simp add: readChunk_def)
    with len have ok: "length ?buf < 12 \<or> ?declared \<le> maxInboundPDU \<Longrightarrow> list_all reader_ok (conns ?c1)"
      by (intro on_conn_reader all) (auto simp: reader_ok_def Let_def declared_len_def)
    let ?c2 = "on_conn i (\<lambda>st. st\<lparr>csBuf := ?buf, csReader := ReaderExited\<rparr>) c"
    have "exit_reader i (protocolError i e ?c1) = exit_reader i (protocolError i e ?c2)" for e
      by (auto simp: exit_reader_def protocolError_def dropLocked_def fault_def on_conn_def Let_def i split: option.splits)
    moreover have "list_all reader_ok (conns ?c2)" using len by (intro on_conn_reader all) (simp add: reader_ok_def)
    ultimately have "list_all reader_ok (conns (exit_reader i (protocolError i e ?c1)))" for e
      by (simp add: exit_reader_all rd.protocolError_all del: on_conn_fields(8))
    with ok True Some show ?thesis
      by (auto simp: readLoop_def Let_def not_less not_le
          simp del: on_conn_fields(8) take_append drop_append length_append length_take)
  qed
qed (use all in \<open>simp add: readLoop_def\<close>)

lemma readLoop_inner_reader:
  assumes all: "list_all reader_ok (conns c)" and i: "i < length (conns c)"
  shows "list_all reader_ok (conns (readLoop_inner i w c))"
proof (cases "csReader (conns c ! i) = Decoding")
  case True
  let ?st = "conns c ! i" and ?buf = "csBuf (conns c ! i)"
  from all i have st: "reader_ok ?st" by (simp add: list_all_length)
  show ?thesis
  proof (cases "Unmarshal ?buf")
    case (Inl e)
    have "e = ErrIncomplete \<Longrightarrow> list_all reader_ok (conns (on_conn i (\<lambda>st. st\<lparr>csReader := Reading\<rparr>) c))"
      using st True Inl Unmarshal_incomplete [of ?buf]
      by (intro on_conn_reader all) (auto simp: reader_ok_def Let_def reader_consts)
    with all Inl True show ?thesis
      by (simp add: readLoop_inner_def exit_reader_all rd.protocolError_all del: on_conn_fields(8))
  next
    case (Inr pu)
    obtain p used where u: "Unmarshal ?buf = Inr (p, used)" using Inr by (cases pu) auto
    have "length (drop used ?buf) \<le> readChunk"
      using st True Unmarshal_bounds [OF u] decoded_beyond_incomplete [OF u, of "length ?buf - readChunk"]
      by (auto simp: reader_ok_def Let_def reader_consts)
    then have "list_all reader_ok (conns (on_conn i (\<lambda>st. st\<lparr>csBuf := drop used (csBuf st)\<rparr>) c))"
      using True by (intro on_conn_reader all) (simp add: reader_ok_def Let_def)
    from rd.handleInbound_all [OF this] u True show ?thesis
      by (simp add: readLoop_inner_def case_prod_unfold Let_def exit_reader_all del: on_conn_fields(8))
  qed
qed (use all in \<open>simp add: readLoop_inner_def\<close>)

lemma client_step_reader: "list_all reader_ok (conns c) \<Longrightarrow> list_all reader_ok (conns (client_step op c))"
  by (cases op)
     (simp_all add: rd.Send_all rd.SendBatch_all rd.keepaliveLoop_all rd.Close_all readLoop_reader readLoop_inner_reader)

lemma client_run_reader: "list_all reader_ok (conns c) \<Longrightarrow> list_all reader_ok (conns (client_run ops c))"
  unfolding client_run_def by (induction ops arbitrary: c) (simp_all add: client_step_reader)

subsection \<open>Connections that have been replaced\<close>

text \<open>What the goroutines of a connection leave alone once it is no longer the one held.\<close>

definition only_reports :: "Client \<Rightarrow> Client \<Rightarrow> bool" where
  "only_reports c c' \<longleftrightarrow> live c' = live c \<and> closed c' = closed c \<and> map csStream (conns c') = map csStream (conns c) \<and>
     (unreachable c \<longrightarrow> unreachable c') \<and> (\<exists>fs. faults c' = faults c @ fs)"

lemma only_reports_refl [simp]: "only_reports c c"
  by (simp add: only_reports_def)

lemma only_reports_trans: "only_reports c d \<Longrightarrow> only_reports d e \<Longrightarrow> only_reports c e"
  by (auto simp: only_reports_def)

lemma only_reports_on_conn: "(\<And>st. csStream (f st) = csStream st) \<Longrightarrow> only_reports c (on_conn i f c)"
  by (simp add: only_reports_def map_update_same del: map_update)

lemma only_reports_on_conn2:
  "only_reports c d \<Longrightarrow> (\<And>st. csStream (f st) = csStream st) \<Longrightarrow> only_reports c (on_conn i f d)"
  using only_reports_on_conn only_reports_trans by blast

lemma stale_sendKeepalive: "live c \<noteq> Some i \<Longrightarrow> only_reports c (fst (sendKeepalive i w c))"
  using only_reports_on_conn [of "\<lambda>st. st\<lparr>csSeq := fst (kc_take (csSeq (conns c ! i)))\<rparr>" c i]
  by (simp add: sendKeepalive_def case_prod_unfold sized_Marshal Let_def writeOn_def)

lemma stale_protocolError: "live c \<noteq> Some i \<Longrightarrow> only_reports c (protocolError i e c)"
  by (simp add: protocolError_def fault_def only_reports_def)

lemma stale_expire: "live c \<noteq> Some i \<Longrightarrow> only_reports c (expire i dial c)"
  by (simp add: expire_def fault_def only_reports_def)

lemma stale_keepaliveLoop: "live c \<noteq> Some i \<Longrightarrow> only_reports c (keepaliveLoop i ev c)"
  by (cases ev)
     (auto simp: case_prod_unfold Let_def stale_sendKeepalive stale_expire
       intro!: only_reports_on_conn only_reports_on_conn2 simp del: on_conn_fields(8))

lemma stale_handleInbound: "live c \<noteq> Some i \<Longrightarrow> only_reports c (fst (handleInbound i w p c))"
  by (auto simp: handleInbound_def answerKeepalive_def writeOn_def sized_Marshal case_prod_unfold Let_def stale_protocolError
      intro!: only_reports_on_conn only_reports_on_conn2 simp del: on_conn_fields(8) split: option.splits)

lemma stale_exit: "only_reports c d \<Longrightarrow> only_reports c (exit_reader i d)"
  unfolding exit_reader_def by (rule only_reports_on_conn2) auto

lemma stale_readLoop: "live c \<noteq> Some i \<Longrightarrow> only_reports c (readLoop i r c)"
  by (auto simp: readLoop_def Let_def intro!: only_reports_on_conn stale_exit
      only_reports_trans [OF only_reports_on_conn stale_protocolError] simp del: on_conn_fields(8) split: option.splits)

lemma stale_readLoop_inner: "live c \<noteq> Some i \<Longrightarrow> only_reports c (readLoop_inner i w c)"
  by (auto simp: readLoop_inner_def Let_def case_prod_unfold intro!: only_reports_on_conn stale_exit stale_protocolError
      only_reports_trans [OF only_reports_on_conn stale_handleInbound] simp del: on_conn_fields(8) split: sum.splits)

subsection \<open>Properties\<close>

definition ex_net :: Net where
  "ex_net = \<lparr>dial1 = True, write1 = WriteErr 50, dial2 = True, write2 = Wrote\<rparr>"

definition ex_config :: KeepaliveConfig where
  "ex_config = \<lparr>Disabled = False, TimeP1 = 0, TimeP2 = 0\<rparr>"

definition ex_ops :: "client_op list" where
  "ex_ops = [DoBatch ex_net [Some ex_pdu, None, Some ex_pdu], TimerRound 1 (SendTick Wrote), DoSend ex_net (Some ex_pdu)]"

lemma fits_ex_pdu: "fits ex_pdu"
  by (simp add: fits_def ex_pdu_def wf_pdu_def tlvs_wire_def tlv_wire_def)

lemma ex_ops_fit: "offers_fit ex_ops"
  by (simp add: offers_fit_def ex_ops_def fits_ex_pdu)

text \<open>
  C4. Product is never duplicated, reordered or invented. Over any history of a client (sends and
  batches, keepalive traffic in both directions, writes that fail at any byte, dials that fail,
  deadlines that expire) the product units a mediation function has received, connection after
  connection, are a subsequence of the product units the client was given, in the order it was
  given them, each occurrence delivered at most once.
\<close>

theorem product_at_most_once_in_order:
  "offers_fit ops \<Longrightarrow> subseq (products (received (client_run ops (NewClient k)))) (offered ops)"
  using client_run_facts [of "NewClient k" ops] by (auto simp: offers_fit_def all_fit_alt products_def)

theorem product_at_most_once_in_order_witness:
  "offers_fit ex_ops \<and> subseq (products (received (client_run ex_ops (NewClient ex_config)))) (offered ex_ops)"
  using product_at_most_once_in_order [OF ex_ops_fit] ex_ops_fit by simp

text \<open>
  What a batch delivers. From any state a client can reach, \<open>SendBatch\<close> appends to what the
  mediation function has received a prefix of the units that could be marshalled, whatever the
  transport took of either write; if it returns no error, every unit of the batch could be
  marshalled and was received; if the only error is that some unit could not be built, all the
  others were received; and a closed client delivers nothing.
\<close>

theorem SendBatch_delivers_prefix:
  "offers_fit ops \<Longrightarrow> all_fit pdus \<Longrightarrow> SendBatch net pdus (client_run ops (NewClient k)) = (c', e) \<Longrightarrow>
   \<exists>n \<le> length (marshalled pdus).
     received c' = received (client_run ops (NewClient k)) @ take n (marshalled pdus) \<and>
     (transport_error e = None \<longrightarrow> n = length (marshalled pdus)) \<and>
     (e = None \<longrightarrow> marshalled pdus = map the pdus) \<and>
     (closed (client_run ops (NewClient k)) \<longrightarrow> n = 0)"
proof -
  let ?c = "client_run ops (NewClient k)"
  assume a: "offers_fit ops" "all_fit pdus" "SendBatch net pdus ?c = (c', e)"
  have "e = None \<Longrightarrow> marshalled pdus = map the pdus"
    using SendBatch_facts(2) [OF a(3) reachable_inv [OF a(1)] a(2)]
    by (simp add: marshalled_def) (metis filter_id_conv length_filter_less less_irrefl)
  with SendBatch_facts(1) [OF a(3) reachable_inv [OF a(1)] a(2)] show ?thesis
    by (auto simp: prefix_delivered_def)
qed

theorem SendBatch_delivers_prefix_witness:
  "\<exists>n \<le> length (marshalled [Some ex_pdu]).
     received (fst (SendBatch ex_net [Some ex_pdu] (client_run ex_ops (NewClient ex_config)))) =
     received (client_run ex_ops (NewClient ex_config)) @ take n (marshalled [Some ex_pdu])"
  using SendBatch_delivers_prefix [OF ex_ops_fit, of "[Some ex_pdu]" ex_net ex_config
      "fst (SendBatch ex_net [Some ex_pdu] (client_run ex_ops (NewClient ex_config)))"
      "snd (SendBatch ex_net [Some ex_pdu] (client_run ex_ops (NewClient ex_config)))"]
  by (auto simp: all_fit_def fits_ex_pdu simp del: marshalled_simps)

text \<open>
  Where a retry resumes: after a write of \<open>n\<close> bytes of concatenated units, with the offsets
  at which each ends, what goes out again is exactly the units that were not taken whole: none of
  those before, and the one the write stopped inside from its own start.
\<close>

theorem resumeAt_units:
  "list_all (\<lambda>u. u \<noteq> []) us \<Longrightarrow> fst (resumeAt (concat us) (ends_from 0 us) n) = concat (drop (whole n us) us)"
  by (rule resumeAt_whole) auto

theorem resumeAt_units_witness:
  "fst (resumeAt (concat [[1, 2], [3, 4, 5], [6]]) [2, 5, 6] 4) = [3, 4, 5, 6]"
  using resumeAt_units [of "[[1, 2], [3, 4, 5], [6]] :: byte list list" 4] by (simp add: eval_nat_numeral)

text \<open>
  C30. A receiver can always follow the stream: on every connection of any reachable client the
  bytes accepted decode as whole units with at most a truncated one at the end, never as a unit in
  error; and the connection that is held stands at a unit boundary, so the next unit written on it
  is read as a unit.
\<close>

theorem streams_always_decode:
  "offers_fit ops \<Longrightarrow> st \<in> set (conns (client_run ops (NewClient k))) \<Longrightarrow>
   fst (snd (drain (csStream st))) = ErrIncomplete \<and>
   (\<forall>i. live (client_run ops (NewClient k)) = Some i \<longrightarrow>
      i < length (conns (client_run ops (NewClient k))) \<and>
      snd (snd (drain (csStream (conns (client_run ops (NewClient k)) ! i)))) = [])"
proof -
  let ?c = "client_run ops (NewClient k)"
  assume a: "offers_fit ops" "st \<in> set (conns ?c)"
  note inv = reachable_inv [OF a(1), of k]
  then have "readable st" using a(2) by (auto simp: client_inv_def streams_ok_def list_all_iff)
  then have 1: "fst (snd (drain (csStream st))) = ErrIncomplete" by (auto simp: readable_def drain_cut)
  have "at_boundary s \<Longrightarrow> snd (snd (drain (csStream s))) = []" for s by (auto simp: at_boundary_def x2x3.receive_exactly)
  with 1 inv show ?thesis by (auto simp: client_inv_def streams_ok_def)
qed

theorem streams_always_decode_witness:
  "list_all (\<lambda>st. fst (snd (drain (csStream st))) = ErrIncomplete) (conns (client_run ex_ops (NewClient ex_config)))"
  using streams_always_decode [OF ex_ops_fit, of _ ex_config] by (simp add: list_all_iff)

text \<open>
  C31. A peer cannot exhaust the process: whatever a connection reads, in whatever pieces, the
  reader holds less than the 4096-byte limit plus one 512-byte read, and less than the limit
  whenever it waits for more.
\<close>

theorem reader_buffer_bounded:
  "st \<in> set (conns (client_run ops (NewClient k))) \<Longrightarrow>
   length (csBuf st) < maxInboundPDU + 512 \<and> (csReader st = Reading \<longrightarrow> length (csBuf st) < maxInboundPDU)"
proof -
  assume "st \<in> set (conns (client_run ops (NewClient k)))"
  moreover have "list_all reader_ok (conns (client_run ops (NewClient k)))"
    by (rule client_run_reader) (simp add: NewClient_def)
  ultimately have "reader_ok st" by (simp add: list_all_iff)
  then show ?thesis using reader_ok_bound [of st] by (auto simp: reader_ok_def Let_def readChunk_def)
qed

theorem reader_buffer_bounded_witness:
  "list_all (\<lambda>st. length (csBuf st) < 4608) (conns (client_run ex_ops (NewClient ex_config)))"
  using reader_buffer_bounded [of _ ex_ops ex_config] by (simp add: list_all_iff maxInboundPDU_def)

text \<open>
  A replaced connection cannot act for its successor: when connection \<open>i\<close> is not the one held,
  a round of its timer or of its reader writes nothing to any connection, leaves the held
  connection in place, dials nothing, and never clears a conclusion that the destination is
  unreachable. What it can still do is report a fault.
\<close>

theorem stale_connection_only_reports:
  "live c \<noteq> Some i \<Longrightarrow> op \<in> {TimerRound i ev, ReaderRound i r, DecodeRound i w} \<Longrightarrow>
   live (client_step op c) = live c \<and> closed (client_step op c) = closed c \<and>
   map csStream (conns (client_step op c)) = map csStream (conns c) \<and>
   (unreachable c \<longrightarrow> unreachable (client_step op c))"
proof -
  assume a: "live c \<noteq> Some i" "op \<in> {TimerRound i ev, ReaderRound i r, DecodeRound i w}"
  then have "only_reports c (client_step op c)"
    by (auto simp: stale_keepaliveLoop stale_readLoop stale_readLoop_inner)
  then show ?thesis by (simp add: only_reports_def)
qed

theorem stale_connection_only_reports_witness:
  "live (client_step (TimerRound 0 (SendTick Wrote)) ((NewClient ex_config)\<lparr>conns := [dialled, dialled], live := Some 1\<rparr>)) = Some 1"
  using stale_connection_only_reports [of "(NewClient ex_config)\<lparr>conns := [dialled, dialled], live := Some 1\<rparr>" 0
      "TimerRound 0 (SendTick Wrote)" "SendTick Wrote" None Wrote] by simp

lemma ex_wire:
  "Marshal (Some ex_pdu) = Inr (wire ex_pdu)" "length (wire ex_pdu) = 49" "sized_pdu ex_pdu" "wire ex_pdu \<noteq> []"
proof -
  have "validate ex_pdu = None" by code_simp
  then show s: "sized_pdu ex_pdu"
    by (simp add: sized_pdu_def ex_pdu_def wf_pdu_def small_tlv_def tlvs_wire_def tlv_wire_def)
  then show "Marshal (Some ex_pdu) = Inr (wire ex_pdu)" by (rule sized_Marshal)
  show "length (wire ex_pdu) = 49"
    by (simp add: ex_pdu_def length_wire wf_pdu_def tlvs_wire_def tlv_wire_def)
  then show "wire ex_pdu \<noteq> []" by auto
qed

lemma ex_units: "drain (wire ex_pdu) = ([ex_pdu], ErrIncomplete, [])"
  "k < 49 \<Longrightarrow> drain (wire ex_pdu @ take k (wire ex_pdu)) = ([ex_pdu], ErrIncomplete, take k (wire ex_pdu))"
  "drain [] = ([], ErrIncomplete, [])"
  using x2x3.receive_exactly [of "[ex_pdu]"] drain_cut [of "[ex_pdu]" ex_pdu k] x2x3.receive_exactly [of "[]"] ex_wire
  by simp_all

lemmas delivery_defs = SendBatch_def Send_def sendBytes_def deliver_def deliver_retry_def dialLocked_def startKeepaliveLocked_def
  writeLocked_def dropLocked_def resumeAt_def on_conn_def NewClient_def dialled_def Let_def

text \<open>
  Several units may be lost behind one \<open>ErrUnitDropped\<close>: three units, a write that stops one
  byte into the second, a reconnect, and a resend that takes nothing. The call reports that one
  product unit was dropped and leaves the destination reachable, while two of the three units were
  not received and no connection is held.
\<close>

theorem unit_dropped_loses_several:
  "(case SendBatch \<lparr>dial1 = True, write1 = WriteErr 50, dial2 = True, write2 = WriteErr 0\<rparr>
           [Some ex_pdu, Some ex_pdu, Some ex_pdu] (NewClient ex_config) of
      (c, e) \<Rightarrow> e = Some ErrUnitDropped \<and> received c = [ex_pdu] \<and> \<not> Unreachable c \<and> live c = None)"
  by (simp add: delivery_defs ex_wire ex_units received_def units_def Unreachable_def ex_config_def)

text \<open>A connection with the mechanism running, and the client holding one, for the run below.\<close>

definition ex_conn :: "bool \<Rightarrow> int \<Rightarrow> byte list \<Rightarrow> connState" where
  "ex_conn stopped d b = \<lparr>csSeq = zero_counter, csAcks = False, csStopped = stopped, csMismatches = 0,
     csTimer = True, csDeadline = d, csReader = Reading, csBuf = [], csStream = b\<rparr>"

definition ex_client :: "connState list \<Rightarrow> nat \<Rightarrow> int \<Rightarrow> Client" where
  "ex_client cs l t = \<lparr>keepalive = \<lparr>Disabled = False, TimeP1 = 60 * Second, TimeP2 = 180 * Second\<rparr>, conns = cs,
     live = Some l, closed = False, unreachable = False, faults = [], now = t\<rparr>"

lemma ex_run1:
  "client_step (DoSend \<lparr>dial1 = True, write1 = Wrote, dial2 = True, write2 = Wrote\<rparr> (Some ex_pdu)) (NewClient ex_config)
     = ex_client [ex_conn False (180 * Second) (wire ex_pdu)] 0 0"
  by (simp add: delivery_defs ex_wire ex_config_def ex_client_def ex_conn_def withDefaults_def timer_constants)

lemma ex_run2:
  "client_step (DoSend \<lparr>dial1 = True, write1 = WriteErr 0, dial2 = True, write2 = Wrote\<rparr> (Some ex_pdu))
     (ex_client [ex_conn False d b] 0 t)
     = ex_client [ex_conn True d b, ex_conn False (t + 180 * Second) (wire ex_pdu)] (Suc 0) t"
  by (simp add: delivery_defs ex_wire ex_client_def ex_conn_def)

lemma ex_run3:
  "d \<le> t \<Longrightarrow> client_step (TimerRound 0 (ExpiryFired True)) (ex_client [ex_conn s d b, x] (Suc 0) t)
     = (ex_client [(ex_conn s d b)\<lparr>csTimer := False\<rparr>, x] (Suc 0) t)\<lparr>unreachable := True, faults := [NoAcknowledgement]\<rparr>"
  by (simp add: expire_def fault_def ex_client_def ex_conn_def on_conn_def Let_def)

text \<open>
  A deadline that fires for a connection already replaced marks the destination unreachable: a
  first unit is sent, its connection stays silent for TIME_P2, a second unit finds the connection
  gone and is delivered over a new one, and then the old connection's timer, which had not yet
  noticed that it was stopped, handles its expiry. Both units were received and the new connection
  is held, yet the destination is now called unreachable and a fault is reported.
\<close>

theorem stale_expiry_marks_unreachable:
  "(let ok = \<lparr>dial1 = True, write1 = Wrote, dial2 = True, write2 = Wrote\<rparr>;
        redial = \<lparr>dial1 = True, write1 = WriteErr 0, dial2 = True, write2 = Wrote\<rparr>;
        c1 = client_run [DoSend ok (Some ex_pdu), TimePasses 180000000000, DoSend redial (Some ex_pdu)] (NewClient ex_config);
        c2 = client_step (TimerRound 0 (ExpiryFired True)) c1
    in received c1 = [ex_pdu, ex_pdu] \<and> live c1 = Some 1 \<and> \<not> Unreachable c1 \<and>
       live c2 = Some 1 \<and> received c2 = received c1 \<and> Unreachable c2 \<and> faults c2 = [NoAcknowledgement])"
proof -
  have t: "client_step (TimePasses n) (ex_client cs l t) = ex_client cs l (t + int n)" for n cs l t by (simp add: ex_client_def)
  let ?c1 = "ex_client [ex_conn True (180 * Second) (wire ex_pdu), ex_conn False (360 * Second) (wire ex_pdu)] (Suc 0) (180 * Second)"
  have "client_run [DoSend \<lparr>dial1 = True, write1 = Wrote, dial2 = True, write2 = Wrote\<rparr> (Some ex_pdu), TimePasses 180000000000,
      DoSend \<lparr>dial1 = True, write1 = WriteErr 0, dial2 = True, write2 = Wrote\<rparr> (Some ex_pdu)] (NewClient ex_config) = ?c1"
    using ex_run1 ex_run2 t [of 180000000000] by (simp add: client_run_def timer_constants del: client_step.simps)
  then show ?thesis
    by (simp add: Let_def ex_run3 del: client_step.simps)
       (simp add: received_def units_def ex_units Unreachable_def ex_client_def ex_conn_def)
qed

end
