(* ===== verification/Async.thy ===== *)
theory Async
  imports Delivery
begin

text \<open>
  Delivery off the caller's goroutine: \<open>src/x2x3/async.go\<close>. An \<open>AsyncSender\<close> is a bounded queue, one
  worker that drains it in batches, and a \<open>Close\<close> that stops the queue, waits for the worker and
  closes the sender behind it. The worker's loop is cut at every point where it touches the queue,
  so that a history interleaves offers and closing with it as the scheduler may; \<open>Close\<close> is cut at
  its wait. The callbacks \<open>onDrop\<close> and \<open>onError\<close> are the log fields \<open>dropped\<close> and \<open>errors\<close>.

  The sender behind the queue is a type variable with its \<open>Send\<close> and, when it is a \<open>batchSender\<close>, its
  \<open>SendBatch\<close> as arguments; each takes what the network does during the call. \<open>accepted\<close> and
  \<open>handed\<close> record what the queue took and which batches were handed over.
\<close>

subsection \<open>State\<close>

definition defaultQueueDepth :: nat where "defaultQueueDepth = 1024"
definition maxDeliveryBatch :: nat where "maxDeliveryBatch = 32"

datatype worker_pc = AtRange | AtSelect "PDU list" | AtLen "PDU list" | AtSend "PDU list" | WorkerDone

datatype close_pc = NotClosed | AwaitingWorker | InnerClosed

record ('s, 'e) AsyncSender =
  inner :: 's
  depth :: nat
  queue :: "PDU list"
  aclosed :: bool
  worker :: worker_pc
  closing :: close_pc
  dropped :: nat
  errors :: "'e list"
  accepted :: "PDU list"
  handed :: "PDU list list"

definition NewAsyncSender :: "'s \<Rightarrow> int \<Rightarrow> ('s, 'e) AsyncSender" where
  "NewAsyncSender s d =
     \<lparr>inner = s, depth = (if d \<le> 0 then defaultQueueDepth else nat d), queue = [], aclosed = False,
      worker = AtRange, closing = NotClosed, dropped = 0, errors = [], accepted = [], handed = []\<rparr>"

subsection \<open>Offering\<close>

definition enqueue :: "PDU \<Rightarrow> ('s, 'e) AsyncSender \<Rightarrow> ('s, 'e) AsyncSender \<times> bool" where
  "enqueue pdu a =
     (if aclosed a then (a, False)
      else if length (queue a) < depth a
      then (a\<lparr>queue := queue a @ [pdu], accepted := accepted a @ [pdu]\<rparr>, True)
      else (a, False))"

definition AsyncSender_Send :: "PDU option \<Rightarrow> ('s, 'e) AsyncSender \<Rightarrow> ('s, 'e) AsyncSender \<times> pdu_error option" where
  "AsyncSender_Send pdu a =
     (case pdu of
        None \<Rightarrow> (a, Some ErrNilPDU)
      | Some p \<Rightarrow>
          let (a1, ok) = enqueue p a
          in if ok then (a1, None) else (a1\<lparr>dropped := dropped a1 + 1\<rparr>, None))"

definition AsyncSender_Unreachable :: "('s \<Rightarrow> bool) option \<Rightarrow> ('s, 'e) AsyncSender \<Rightarrow> bool" where
  "AsyncSender_Unreachable reachability a = (case reachability of Some f \<Rightarrow> f (inner a) | None \<Rightarrow> False)"

subsection \<open>The worker\<close>

fun send_each :: "('n \<Rightarrow> PDU option \<Rightarrow> 's \<Rightarrow> 's \<times> 'e option) \<Rightarrow> (nat \<Rightarrow> 'n) \<Rightarrow> PDU list \<Rightarrow> 's \<Rightarrow> 's \<times> 'e option" where
  "send_each isend net [] s = (s, None)"
| "send_each isend net (pdu # batch) s =
     (case isend (net 0) (Some pdu) s of
        (s1, Some e) \<Rightarrow> (s1, Some e)
      | (s1, None) \<Rightarrow> send_each isend (\<lambda>k. net (Suc k)) batch s1)"

definition async_send :: "('n \<Rightarrow> PDU option \<Rightarrow> 's \<Rightarrow> 's \<times> 'e option) \<Rightarrow> ('n \<Rightarrow> PDU option list \<Rightarrow> 's \<Rightarrow> 's \<times> 'e option) option
    \<Rightarrow> (nat \<Rightarrow> 'n) \<Rightarrow> PDU list \<Rightarrow> 's \<Rightarrow> 's \<times> 'e option" where
  "async_send isend batchSend net batch s =
     (if length batch = 1 then isend (net 0) (Some (batch ! 0)) s
      else case batchSend of
        Some bs \<Rightarrow> bs (net 0) (map Some batch) s
      | None \<Rightarrow> send_each isend net batch s)"

text \<open>
  One step of \<open>run\<close>. A receive from an empty queue blocks while the channel is open and ends the
  loop, or the batch, once it is closed.
\<close>

definition run_step :: "(PDU list \<Rightarrow> 's \<Rightarrow> 's \<times> 'e option) \<Rightarrow> ('s, 'e) AsyncSender \<Rightarrow> ('s, 'e) AsyncSender" where
  "run_step deliv a =
     (case worker a of
        AtRange \<Rightarrow>
          (case queue a of
             pdu # rest \<Rightarrow> a\<lparr>queue := rest, worker := AtSelect [pdu]\<rparr>
           | [] \<Rightarrow> if aclosed a then a\<lparr>worker := WorkerDone\<rparr> else a)
      | AtSelect batch \<Rightarrow>
          if length batch < maxDeliveryBatch then
            (case queue a of
               nxt # rest \<Rightarrow> a\<lparr>queue := rest, worker := AtLen (batch @ [nxt])\<rparr>
             | [] \<Rightarrow> if aclosed a then a\<lparr>worker := AtSend batch\<rparr> else a\<lparr>worker := AtLen batch\<rparr>)
          else a\<lparr>worker := AtSend batch\<rparr>
      | AtLen batch \<Rightarrow>
          if length batch = 0 \<or> length (queue a) = 0 then a\<lparr>worker := AtSend batch\<rparr>
          else a\<lparr>worker := AtSelect batch\<rparr>
      | AtSend batch \<Rightarrow>
          let (s, err) = deliv batch (inner a);
              a1 = a\<lparr>inner := s, handed := handed a @ [batch], worker := AtRange\<rparr>
          in (case err of Some e \<Rightarrow> a1\<lparr>errors := errors a1 @ [e]\<rparr> | None \<Rightarrow> a1)
      | WorkerDone \<Rightarrow> a)"

subsection \<open>Closing\<close>

text \<open>\<open>Close\<close> up to its wait, and after it: the inner sender is closed once the worker is done.\<close>

definition AsyncSender_Close :: "('s, 'e) AsyncSender \<Rightarrow> ('s, 'e) AsyncSender" where
  "AsyncSender_Close a =
     (if closing a = NotClosed then a\<lparr>aclosed := True, closing := AwaitingWorker\<rparr> else a)"

definition AsyncSender_Close_done :: "('s \<Rightarrow> 's) \<Rightarrow> ('s, 'e) AsyncSender \<Rightarrow> ('s, 'e) AsyncSender" where
  "AsyncSender_Close_done iclose a =
     (if closing a = AwaitingWorker \<and> worker a = WorkerDone
      then a\<lparr>inner := iclose (inner a), closing := InnerClosed\<rparr> else a)"

subsection \<open>Histories\<close>

text \<open>Anything may happen between two steps: to the sender itself, or to the sender behind it.\<close>

datatype ('n, 'k) async_op =
    Offer "PDU option" | WorkerStep "nat \<Rightarrow> 'n" | BeginClose | FinishClose | InnerStep 'k

fun async_step :: "('n \<Rightarrow> PDU option \<Rightarrow> 's \<Rightarrow> 's \<times> 'e option) \<Rightarrow> ('n \<Rightarrow> PDU option list \<Rightarrow> 's \<Rightarrow> 's \<times> 'e option) option
    \<Rightarrow> ('s \<Rightarrow> 's) \<Rightarrow> ('k \<Rightarrow> 's \<Rightarrow> 's) \<Rightarrow> ('n, 'k) async_op \<Rightarrow> ('s, 'e) AsyncSender \<Rightarrow> ('s, 'e) AsyncSender" where
  "async_step isend ibatch iclose istep (Offer pdu) a = fst (AsyncSender_Send pdu a)"
| "async_step isend ibatch iclose istep (WorkerStep net) a = run_step (async_send isend ibatch net) a"
| "async_step isend ibatch iclose istep BeginClose a = AsyncSender_Close a"
| "async_step isend ibatch iclose istep FinishClose a = AsyncSender_Close_done iclose a"
| "async_step isend ibatch iclose istep (InnerStep k) a = a\<lparr>inner := istep k (inner a)\<rparr>"

definition async_run where
  "async_run isend ibatch iclose istep ops a = fold (async_step isend ibatch iclose istep) ops a"

fun offers_of :: "('n, 'k) async_op list \<Rightarrow> PDU list" where
  "offers_of [] = []"
| "offers_of (Offer (Some p) # ops) = p # offers_of ops"
| "offers_of (op # ops) = offers_of ops"

subsection \<open>The queue loses nothing it accepted\<close>

fun in_hand :: "worker_pc \<Rightarrow> PDU list" where
  "in_hand (AtSelect b) = b"
| "in_hand (AtLen b) = b"
| "in_hand (AtSend b) = b"
| "in_hand _ = []"

definition batch_sized :: "PDU list \<Rightarrow> bool" where
  "batch_sized b \<longleftrightarrow> 0 < length b \<and> length b \<le> maxDeliveryBatch"

definition async_inv :: "('s, 'e) AsyncSender \<Rightarrow> bool" where
  "async_inv a \<longleftrightarrow>
     accepted a = concat (handed a) @ in_hand (worker a) @ queue a \<and> length (queue a) \<le> depth a \<and>
     list_all batch_sized (handed a) \<and> (worker a \<notin> {AtRange, WorkerDone} \<longrightarrow> batch_sized (in_hand (worker a))) \<and>
     (worker a = WorkerDone \<longrightarrow> aclosed a \<and> queue a = []) \<and> (aclosed a \<longleftrightarrow> closing a \<noteq> NotClosed) \<and>
     (closing a = InnerClosed \<longrightarrow> worker a = WorkerDone)"

lemma New_fields [simp]:
  "accepted (NewAsyncSender s d) = []" "handed (NewAsyncSender s d) = []" "dropped (NewAsyncSender s d) = 0"
  "inner (NewAsyncSender s d) = s" "depth (NewAsyncSender s d) = (if d \<le> 0 then 1024 else nat d)"
  by (simp_all add: NewAsyncSender_def defaultQueueDepth_def)

lemma inv_New: "async_inv (NewAsyncSender s d)"
  by (simp add: async_inv_def NewAsyncSender_def)

lemma inv_Send: "async_inv a \<Longrightarrow> async_inv (fst (AsyncSender_Send pdu a))"
  by (auto simp: async_inv_def AsyncSender_Send_def enqueue_def split: option.splits)

lemma inv_run_step: "async_inv a \<Longrightarrow> async_inv (run_step f a)"
  by (cases "worker a"; cases "queue a"; cases "f (in_hand (worker a)) (inner a)")
     (auto simp: async_inv_def run_step_def batch_sized_def maxDeliveryBatch_def Let_def split: option.splits)

lemma inv_Close: "async_inv a \<Longrightarrow> async_inv (AsyncSender_Close a)" "async_inv a \<Longrightarrow> async_inv (AsyncSender_Close_done f a)"
  by (auto simp: async_inv_def AsyncSender_Close_def AsyncSender_Close_done_def)

lemma inv_step: "async_inv a \<Longrightarrow> async_inv (async_step s b c i op a)"
proof (cases op)
  case (InnerStep k)
  assume "async_inv a"
  with InnerStep show ?thesis by (auto simp: async_inv_def)
qed (simp_all add: inv_Send inv_run_step inv_Close)

lemma inv_async_run: "async_inv a \<Longrightarrow> async_inv (async_run s b c i ops a)"
  unfolding async_run_def by (induction ops arbitrary: a) (simp_all add: inv_step)

text \<open>Every unit offered is accepted or counted as dropped.\<close>

lemma run_step_log [simp]: "accepted (run_step f a) = accepted a" "dropped (run_step f a) = dropped a" "depth (run_step f a) = depth a"
  by (auto simp: run_step_def Let_def split: worker_pc.splits list.splits prod.splits option.splits)

lemma close_log [simp]:
  "accepted (AsyncSender_Close a) = accepted a" "dropped (AsyncSender_Close a) = dropped a" "depth (AsyncSender_Close a) = depth a"
  "accepted (AsyncSender_Close_done f a) = accepted a" "dropped (AsyncSender_Close_done f a) = dropped a"
  "depth (AsyncSender_Close_done f a) = depth a"
  by (simp_all add: AsyncSender_Close_def AsyncSender_Close_done_def)

lemma async_step_log:
  "\<exists>new. accepted (async_step s b c i op a) = accepted a @ new \<and> subseq new (offers_of [op]) \<and>
     dropped (async_step s b c i op a) + length new = dropped a + length (offers_of [op]) \<and>
     depth (async_step s b c i op a) = depth a"
proof (cases op)
  case (Offer pdu)
  then show ?thesis by (cases pdu) (auto simp: AsyncSender_Send_def enqueue_def)
qed auto

lemma offers_of_Cons: "offers_of (op # ops) = offers_of [op] @ offers_of ops"
  by (cases "op # ops" rule: offers_of.cases) auto

lemma async_run_log:
  "\<exists>new. accepted (async_run s b c i ops a) = accepted a @ new \<and> subseq new (offers_of ops) \<and>
     dropped (async_run s b c i ops a) + length new = dropped a + length (offers_of ops) \<and>
     depth (async_run s b c i ops a) = depth a"
proof (induction ops arbitrary: a)
  case (Cons op ops)
  let ?a = "async_step s b c i op a"
  obtain n1 where n1: "accepted ?a = accepted a @ n1" "subseq n1 (offers_of [op])"
      "dropped ?a + length n1 = dropped a + length (offers_of [op])" "depth ?a = depth a"
    using async_step_log by blast
  obtain n2 where n2: "accepted (async_run s b c i ops ?a) = accepted ?a @ n2" "subseq n2 (offers_of ops)"
      "dropped (async_run s b c i ops ?a) + length n2 = dropped ?a + length (offers_of ops)"
      "depth (async_run s b c i ops ?a) = depth ?a"
    using Cons.IH by blast
  have "subseq (n1 @ n2) (offers_of (op # ops))"
    using list_emb_append_mono [OF n1(2) n2(2)] by (subst offers_of_Cons)
  moreover have "length (offers_of (op # ops)) = length (offers_of [op]) + length (offers_of ops)"
    by (subst offers_of_Cons) simp
  ultimately show ?case using n1 n2 by (intro exI [of _ "n1 @ n2"]) (simp add: async_run_def)
qed (simp add: async_run_def)

subsection \<open>Draining\<close>

text \<open>Each step of the worker brings a closed sender nearer to the end of its queue.\<close>

fun worker_distance :: "worker_pc \<Rightarrow> nat" where
  "worker_distance AtRange = 1"
| "worker_distance (AtSelect b) = 4"
| "worker_distance (AtLen b) = (if b = [] then 3 else 5)"
| "worker_distance (AtSend b) = 2"
| "worker_distance WorkerDone = 0"

definition drain_measure :: "('s, 'e) AsyncSender \<Rightarrow> nat" where
  "drain_measure a = 6 * length (queue a) + worker_distance (worker a)"

lemma run_step_progress: "aclosed a \<Longrightarrow> worker a \<noteq> WorkerDone \<Longrightarrow> drain_measure (run_step f a) < drain_measure a"
  by (cases "worker a"; cases "queue a"; cases "f (in_hand (worker a)) (inner a)")
     (auto simp: run_step_def drain_measure_def Let_def split: option.splits)

lemma run_step_closed [simp]: "aclosed (run_step f a) = aclosed a" "closing (run_step f a) = closing a"
  by (auto simp: run_step_def Let_def split: worker_pc.splits list.splits prod.splits option.splits)

text \<open>The worker run on its own; the \<open>k\<close>-th delivery meets the \<open>k\<close>-th behaviour of the network.\<close>

fun run_worker :: "(nat \<Rightarrow> PDU list \<Rightarrow> 's \<Rightarrow> 's \<times> 'e option) \<Rightarrow> nat \<Rightarrow> ('s, 'e) AsyncSender \<Rightarrow> ('s, 'e) AsyncSender" where
  "run_worker f 0 a = a"
| "run_worker f (Suc n) a = run_worker (\<lambda>k. f (Suc k)) n (run_step (f 0) a)"

lemma run_step_Done [simp]: "worker a = WorkerDone \<Longrightarrow> run_step f a = a"
  by (simp add: run_step_def)

lemma run_worker_Done: "worker a = WorkerDone \<Longrightarrow> run_worker f n a = a"
  by (induction n arbitrary: f) simp_all

lemma run_worker_finishes: "aclosed a \<Longrightarrow> drain_measure a \<le> n \<Longrightarrow> worker (run_worker f n a) = WorkerDone"
proof (induction n arbitrary: a f)
  case 0
  then show ?case by (cases "worker a") (auto simp: drain_measure_def split: if_splits)
next
  case (Suc n)
  show ?case
  proof (cases "worker a = WorkerDone")
    case True
    then show ?thesis using run_worker_Done [of a f "Suc n"] by simp
  next
    case False
    with Suc.prems run_step_progress [of a "f 0"] show ?thesis by (auto intro!: Suc.IH)
  qed
qed

lemma run_worker_keeps:
  "async_inv a \<Longrightarrow> async_inv (run_worker f n a)" "accepted (run_worker f n a) = accepted a"
  by (induction n arbitrary: a f) (simp_all add: inv_run_step)

subsection \<open>Over any sender that delivers in order\<close>

text \<open>
  What the queue relies on from the sender behind it: a call adds to what the destination has got a
  subsequence of the units it was given, closing and whatever the sender does by itself add
  nothing, and its own invariant is kept.
\<close>

locale sender =
  fixes isend :: "'n \<Rightarrow> PDU option \<Rightarrow> 's \<Rightarrow> 's \<times> 'e option"
    and ibatch :: "('n \<Rightarrow> PDU option list \<Rightarrow> 's \<Rightarrow> 's \<times> 'e option) option"
    and iclose :: "'s \<Rightarrow> 's" and istep :: "'k \<Rightarrow> 's \<Rightarrow> 's"
    and ok :: "'s \<Rightarrow> bool" and got :: "'s \<Rightarrow> PDU list" and good :: "PDU \<Rightarrow> bool"
  assumes isend_delivers: "ok s \<Longrightarrow> good p \<Longrightarrow>
      ok (fst (isend n (Some p) s)) \<and> (\<exists>new. subseq new [p] \<and> got (fst (isend n (Some p) s)) = got s @ new)"
    and ibatch_delivers: "ibatch = Some bs \<Longrightarrow> ok s \<Longrightarrow> list_all good ps \<Longrightarrow>
      ok (fst (bs n (map Some ps) s)) \<and> (\<exists>new. subseq new ps \<and> got (fst (bs n (map Some ps) s)) = got s @ new)"
    and iclose_quiet: "ok s \<Longrightarrow> ok (iclose s) \<and> got (iclose s) = got s"
    and istep_quiet: "ok s \<Longrightarrow> ok (istep k s) \<and> got (istep k s) = got s"
begin

lemma send_each_delivers:
  "ok s \<Longrightarrow> list_all good ps \<Longrightarrow>
   ok (fst (send_each isend net ps s)) \<and> (\<exists>new. subseq new ps \<and> got (fst (send_each isend net ps s)) = got s @ new)"
proof (induction ps arbitrary: s net)
  case (Cons p ps)
  obtain s1 e where s1: "isend (net 0) (Some p) s = (s1, e)" by fastforce
  then obtain n1 where n1: "ok s1" "subseq n1 [p]" "got s1 = got s @ n1"
    using isend_delivers [of s p "net 0"] Cons.prems by auto
  show ?case
  proof (cases e)
    case None
    from Cons.IH [OF n1(1), of "\<lambda>k. net (Suc k)"] Cons.prems obtain n2 where
      n2: "ok (fst (send_each isend (\<lambda>k. net (Suc k)) ps s1))" "subseq n2 ps"
        "got (fst (send_each isend (\<lambda>k. net (Suc k)) ps s1)) = got s1 @ n2" by auto
    from list_emb_append_mono [OF n1(2) n2(2)] n2 n1 s1 None show ?thesis by auto
  next
    case (Some x)
    have "subseq n1 (p # ps)" using list_emb_append_mono [OF n1(2) list_emb_Nil, of ps] by simp
    with n1 s1 Some show ?thesis by auto
  qed
qed simp

lemma async_send_delivers:
  assumes "ok s" and "list_all good ps"
  shows "ok (fst (async_send isend ibatch net ps s)) \<and>
    (\<exists>new. subseq new ps \<and> got (fst (async_send isend ibatch net ps s)) = got s @ new)"
proof (cases "length ps = 1")
  case True
  then obtain p where "ps = [p]" by (auto simp: length_Suc_conv)
  then show ?thesis using isend_delivers [OF assms(1), of p "net 0"] assms(2) by (simp add: async_send_def)
next
  case False
  then show ?thesis
    using ibatch_delivers [OF _ assms] send_each_delivers [OF assms] by (auto simp: async_send_def split: option.splits)
qed

lemma async_step_delivers:
  assumes inv: "async_inv a" and ok: "ok (inner a)" and good: "list_all good (accepted a)"
  shows "ok (inner (async_step isend ibatch iclose istep op a)) \<and>
    (\<exists>new hs. subseq new (concat hs) \<and> handed (async_step isend ibatch iclose istep op a) = handed a @ hs \<and>
       got (inner (async_step isend ibatch iclose istep op a)) = got (inner a) @ new)"
proof (cases op)
  case (WorkerStep net)
  show ?thesis
  proof (cases "worker a")
    case (AtSend b)
    have "list_all good b" using good inv AtSend by (auto simp: async_inv_def list_all_iff)
    from async_send_delivers [OF ok this, of net] obtain new where
      n: "ok (fst (async_send isend ibatch net b (inner a)))" "subseq new b"
        "got (fst (async_send isend ibatch net b (inner a))) = got (inner a) @ new" by blast
    then show ?thesis using AtSend WorkerStep
      by (auto simp: run_step_def Let_def case_prod_unfold intro!: exI [of _ new] split: option.splits)
  qed (use WorkerStep ok in \<open>auto simp: run_step_def split: list.splits\<close>)
next
  case (Offer pdu)
  then show ?thesis using ok by (auto simp: AsyncSender_Send_def enqueue_def split: option.splits)
qed (use ok iclose_quiet istep_quiet in \<open>auto simp: AsyncSender_Close_def AsyncSender_Close_done_def\<close>)

lemma async_run_delivers:
  "async_inv a \<Longrightarrow> ok (inner a) \<Longrightarrow> list_all good (accepted a @ offers_of ops) \<Longrightarrow>
   ok (inner (async_run isend ibatch iclose istep ops a)) \<and>
   (\<exists>new hs. subseq new (concat hs) \<and> handed (async_run isend ibatch iclose istep ops a) = handed a @ hs \<and>
       got (inner (async_run isend ibatch iclose istep ops a)) = got (inner a) @ new)"
proof (induction ops arbitrary: a)
  case (Cons op ops)
  let ?a = "async_step isend ibatch iclose istep op a"
  have good: "list_all good (accepted a)" "list_all good (offers_of [op])" "list_all good (offers_of ops)"
    using Cons.prems(3) offers_of_Cons [of op ops] by auto
  obtain n1 h1 where 1: "ok (inner ?a)" "subseq n1 (concat h1)" "handed ?a = handed a @ h1" "got (inner ?a) = got (inner a) @ n1"
    using async_step_delivers [OF Cons.prems(1,2) good(1)] by blast
  obtain acc where acc: "accepted ?a = accepted a @ acc" "subseq acc (offers_of [op])" using async_step_log by blast
  have "set acc \<subseteq> set (offers_of [op])" using acc(2) by (auto elim: list_emb_set)
  then have "list_all good (accepted ?a @ offers_of ops)" using acc(1) good by (auto simp: list_all_iff)
  from Cons.IH [OF inv_step [OF Cons.prems(1)] 1(1) this] obtain n2 h2 where
    2: "ok (inner (async_run isend ibatch iclose istep ops ?a))" "subseq n2 (concat h2)"
       "handed (async_run isend ibatch iclose istep ops ?a) = handed ?a @ h2"
       "got (inner (async_run isend ibatch iclose istep ops ?a)) = got (inner ?a) @ n2" by blast
  from list_emb_append_mono [OF 1(2) 2(2)] have "subseq (n1 @ n2) (concat (h1 @ h2))" by simp
  with 1 2 show ?case by (intro conjI exI [of _ "n1 @ n2"] exI [of _ "h1 @ h2"]) (auto simp: async_run_def)
qed (auto simp: async_run_def)

end

subsection \<open>Over the delivery client\<close>

text \<open>What a client does by itself: everything but sending.\<close>

fun client_round :: "client_op \<Rightarrow> Client \<Rightarrow> Client" where
  "client_round (DoSend net pdu) c = c"
| "client_round (DoBatch net pdus) c = c"
| "client_round op c = client_step op c"



lemma subseq_products_marshalled: "subseq (products (marshalled (map Some ps))) ps"
proof -
  have "marshalled (map Some ps) = filter (\<lambda>p. \<not> isl (Marshal (Some p))) ps"
    by (induction ps) auto
  then show ?thesis by (simp add: products_def subseq_filter_left)
qed

lemma client_step_delivers:
  "client_inv c \<Longrightarrow> all_fit (op_offers op) \<Longrightarrow> op_offers op = map Some ps \<Longrightarrow>
   client_inv (client_step op c) \<and>
   (\<exists>new. subseq new ps \<and> (products \<circ> received) (client_step op c) = (products \<circ> received) c @ new)"
proof -
  assume a: "client_inv c" "all_fit (op_offers op)" "op_offers op = map Some ps"
  from client_step_facts [OF a(1,2)] obtain new where
    n: "client_inv (client_step op c)" "subseq new (products (marshalled (map Some ps)))"
       "products (received (client_step op c)) = products (received c) @ new" unfolding a(3) by blast
  from subseq_order.trans [OF n(2) subseq_products_marshalled] n(1,3) show ?thesis unfolding comp_apply by blast
qed

interpretation cl: sender Send "Some SendBatch" Close client_round client_inv "products \<circ> received" fits
proof
  fix s p n
  assume "client_inv s" "fits p"
  then show "client_inv (fst (Send n (Some p) s)) \<and>
      (\<exists>new. subseq new [p] \<and> (products \<circ> received) (fst (Send n (Some p) s)) = (products \<circ> received) s @ new)"
    using client_step_delivers [of s "DoSend n (Some p)" "[p]"] by (simp add: all_fit_def)
next
  fix bs s ps n
  assume "Some SendBatch = Some bs" "client_inv s" "list_all fits ps"
  then show "client_inv (fst (bs n (map Some ps) s)) \<and>
      (\<exists>new. subseq new ps \<and> (products \<circ> received) (fst (bs n (map Some ps) s)) = (products \<circ> received) s @ new)"
    using client_step_delivers [of s "DoBatch n (map Some ps)" ps] by (auto simp: all_fit_def list_all_iff)
next
  fix s :: Client
  assume "client_inv s"
  then show "client_inv (Close s) \<and> (products \<circ> received) (Close s) = (products \<circ> received) s"
    using keeps_Close [of s] by (simp add: keeps_product_def)
next
  fix s k
  assume "client_inv s"
  then show "client_inv (client_round k s) \<and> (products \<circ> received) (client_round k s) = (products \<circ> received) s"
    using client_step_facts [of s k] by (cases k) (auto simp: all_fit_def products_def)
qed

type_synonym client_sender = "(Client, send_error) AsyncSender"

definition async_client_run :: "(Net, client_op) async_op list \<Rightarrow> client_sender \<Rightarrow> client_sender" where
  "async_client_run ops a = async_run Send (Some SendBatch) Close client_round ops a"

subsection \<open>Properties\<close>

definition ex_async_ops :: "(Net, client_op) async_op list" where
  "ex_async_ops = [Offer (Some ex_pdu), Offer None, Offer (Some ex_pdu), WorkerStep (\<lambda>k. ex_net), WorkerStep (\<lambda>k. ex_net),
     BeginClose, WorkerStep (\<lambda>k. ex_net), WorkerStep (\<lambda>k. ex_net), Offer (Some ex_pdu), WorkerStep (\<lambda>k. ex_net), FinishClose]"

lemma ex_async_fit: "list_all fits (offers_of ex_async_ops)"
  by (simp add: ex_async_ops_def fits_ex_pdu)

text \<open>
  The queue is honest. Whatever is interleaved with it, over any sender: every unit offered was
  either accepted or reported as dropped; what was accepted has been handed over in the order it
  was offered, is in the worker's hands, or is still queued, nothing lost and nothing repeated; the
  queue never holds more than its depth; and every batch handed over has between 1 and 32 units.
\<close>

theorem queue_keeps_every_accepted_unit:
  "let a = async_run isend ibatch iclose istep ops (NewAsyncSender s d) in
     accepted a = concat (handed a) @ in_hand (worker a) @ queue a \<and>
     subseq (accepted a) (offers_of ops) \<and> length (accepted a) + dropped a = length (offers_of ops) \<and>
     length (queue a) \<le> (if d \<le> 0 then 1024 else nat d) \<and>
     list_all (\<lambda>b. 1 \<le> length b \<and> length b \<le> 32) (handed a)"
proof -
  let ?a = "async_run isend ibatch iclose istep ops (NewAsyncSender s d)"
  have log: "subseq (accepted ?a) (offers_of ops)" "length (accepted ?a) + dropped ?a = length (offers_of ops)"
      "depth ?a = (if d \<le> 0 then 1024 else nat d)"
    using async_run_log [of isend ibatch iclose istep ops "NewAsyncSender s d"] by auto
  have inv: "async_inv ?a" by (rule inv_async_run [OF inv_New])
  then have "list_all batch_sized (handed ?a)" by (simp add: async_inv_def)
  then have "list_all (\<lambda>b. 1 \<le> length b \<and> length b \<le> 32) (handed ?a)"
    by (auto simp: list_all_iff batch_sized_def maxDeliveryBatch_def Suc_le_eq)
  with inv log show ?thesis by (simp add: async_inv_def Let_def)
qed

text \<open>
  C28. Closing drains. Once a sender is closed, its worker running on its own ends after a bounded
  number of steps, whatever each delivery meets, and by then every unit ever accepted has been
  handed to the sender behind it, in order; and the inner sender is closed only in that state.
\<close>

theorem close_drains_the_queue:
  "aclosed (async_run isend ibatch iclose istep ops (NewAsyncSender s d)) \<Longrightarrow>
   let a = async_run isend ibatch iclose istep ops (NewAsyncSender s d); a' = run_worker f (6 * length (queue a) + 5) a in
     worker a' = WorkerDone \<and> concat (handed a') = accepted a \<and>
     (closing a = InnerClosed \<longrightarrow> concat (handed a) = accepted a)"
proof -
  let ?a = "async_run isend ibatch iclose istep ops (NewAsyncSender s d)"
  let ?a' = "run_worker f (6 * length (queue ?a) + 5) ?a"
  assume c: "aclosed ?a"
  have inv: "async_inv ?a" by (rule inv_async_run [OF inv_New])
  have "drain_measure ?a \<le> 6 * length (queue ?a) + 5" by (cases "worker ?a") (auto simp: drain_measure_def)
  then have done': "worker ?a' = WorkerDone" using c by (intro run_worker_finishes)
  have "async_inv ?a'" "accepted ?a' = accepted ?a" using run_worker_keeps inv by blast+
  then have "concat (handed ?a') = accepted ?a" using done' by (simp add: async_inv_def)
  with done' inv show ?thesis by (auto simp: Let_def async_inv_def)
qed

theorem close_drains_the_queue_witness:
  "worker (run_worker (\<lambda>k. async_send Send (Some SendBatch) (\<lambda>j. ex_net)) 5
     (async_client_run [BeginClose] (NewAsyncSender (NewClient ex_config) 0))) = WorkerDone"
proof -
  have "aclosed (async_run Send (Some SendBatch) Close client_round [BeginClose] (NewAsyncSender (NewClient ex_config) 0))"
    and "queue (async_run Send (Some SendBatch) Close client_round [BeginClose] (NewAsyncSender (NewClient ex_config) 0)) = []"
    by (simp_all add: async_run_def AsyncSender_Close_def NewAsyncSender_def)
  from close_drains_the_queue [OF this(1), of "\<lambda>k. async_send Send (Some SendBatch) (\<lambda>j. ex_net)"] this(2) show ?thesis
    by (simp add: async_client_run_def Let_def)
qed

text \<open>
  C5. End to end: the product a mediation function receives through the queue and the client is a
  subsequence of what the point of interception offered, each unit at most once and in order, over
  every interleaving of offers, worker steps, keepalive rounds, network failures and closing.
\<close>

theorem queued_product_at_most_once_in_order:
  "list_all fits (offers_of ops) \<Longrightarrow>
   subseq (products (received (inner (async_client_run ops (NewAsyncSender (NewClient k) d))))) (offers_of ops)"
proof -
  let ?a = "async_client_run ops (NewAsyncSender (NewClient k) d)"
  assume "list_all fits (offers_of ops)"
  then obtain new hs where
    1: "subseq new (concat hs)" "handed ?a = hs" "products (received (inner ?a)) = new"
    using cl.async_run_delivers [OF inv_New, of "NewClient k" d ops]
    by (auto simp: async_client_run_def products_def)
  have "async_inv ?a" unfolding async_client_run_def by (rule inv_async_run [OF inv_New])
  then have "subseq (concat hs) (accepted ?a)" using 1(2) by (auto simp: async_inv_def intro!: prefix_imp_subseq)
  moreover have "subseq (accepted ?a) (offers_of ops)"
    using async_run_log [of Send "Some SendBatch" Close client_round ops "NewAsyncSender (NewClient k) d"]
    by (auto simp: async_client_run_def)
  ultimately show ?thesis using 1 by (metis subseq_order.trans)
qed

theorem queued_product_at_most_once_in_order_witness:
  "list_all fits (offers_of ex_async_ops) \<and>
   subseq (products (received (inner (async_client_run ex_async_ops (NewAsyncSender (NewClient ex_config) 0))))) (offers_of ex_async_ops)"
  using queued_product_at_most_once_in_order [OF ex_async_fit] ex_async_fit by simp

end
