(* ===== verification/Pool.thy ===== *)
theory Pool
  imports Async
begin

text \<open>
  One delivery client per destination: \<open>src/x2x3/pool.go\<close>. The senders live in \<open>heap\<close>, so that a
  sender a caller obtained earlier is the same object after the pool has let go of it; the pool's
  map holds their positions. \<open>addressOf\<close> records the address each was created for, and \<open>discarded\<close>
  counts the calls of \<open>onDrop\<close> a \<open>discardSender\<close> makes. The TLS configuration and the callbacks are
  the same for every sender and are left out.
\<close>

subsection \<open>State and operations\<close>

datatype sender_ref = Held nat | DiscardSender

record Pool =
  poolKeepalive :: KeepaliveConfig
  senders :: "(string, nat) gomap"
  poolClosed :: bool
  heap :: "client_sender list"
  addressOf :: "string list"
  discarded :: nat

definition NewPool :: "KeepaliveConfig \<Rightarrow> Pool" where
  "NewPool k = \<lparr>poolKeepalive = k, senders = [], poolClosed = False, heap = [], addressOf = [], discarded = 0\<rparr>"

definition For :: "string \<Rightarrow> Pool \<Rightarrow> Pool \<times> sender_ref" where
  "For addr p =
     (case map_of (senders p) addr of
        Some i \<Rightarrow> (p, Held i)
      | None \<Rightarrow>
          if poolClosed p then (p, DiscardSender)
          else let i = length (heap p)
            in (p\<lparr>heap := heap p @ [NewAsyncSender (NewClient (poolKeepalive p)) 0],
                  addressOf := addressOf p @ [addr],
                  senders := AList.update addr i (senders p)\<rparr>, Held i))"

definition discardSender_Send :: "PDU option \<Rightarrow> Pool \<Rightarrow> Pool \<times> pdu_error option" where
  "discardSender_Send pdu p = (p\<lparr>discarded := discarded p + 1\<rparr>, None)"

text \<open>\<open>Send\<close> on what \<open>For\<close> returned, whichever of the two it is.\<close>

definition ref_Send :: "sender_ref \<Rightarrow> PDU option \<Rightarrow> Pool \<Rightarrow> Pool \<times> pdu_error option" where
  "ref_Send r pdu p =
     (case r of
        DiscardSender \<Rightarrow> discardSender_Send pdu p
      | Held i \<Rightarrow> let (a, e) = AsyncSender_Send pdu (heap p ! i) in (p\<lparr>heap := (heap p)[i := a]\<rparr>, e))"

definition sender_unreachable :: "Pool \<Rightarrow> nat \<Rightarrow> bool" where
  "sender_unreachable p i = AsyncSender_Unreachable (Some Unreachable) (heap p ! i)"

definition UnreachableAt :: "string \<Rightarrow> Pool \<Rightarrow> bool" where
  "UnreachableAt addr p = (case map_of (senders p) addr of None \<Rightarrow> False | Some i \<Rightarrow> sender_unreachable p i)"

fun among_loop :: "string list \<Rightarrow> string list \<Rightarrow> nat \<Rightarrow> nat \<Rightarrow> Pool \<Rightarrow> nat \<times> nat" where
  "among_loop [] counted unreach inUse p = (unreach, inUse)"
| "among_loop (addr # addrs) counted unreach inUse p =
     (if addr \<in> set counted then among_loop addrs counted unreach inUse p
      else case map_of (senders p) addr of
        None \<Rightarrow> among_loop addrs (addr # counted) unreach inUse p
      | Some i \<Rightarrow> among_loop addrs (addr # counted) (if sender_unreachable p i then unreach + 1 else unreach) (inUse + 1) p)"

definition UnreachableAmong :: "string list \<Rightarrow> Pool \<Rightarrow> nat \<times> nat" where
  "UnreachableAmong addrs p = among_loop addrs [] 0 0 p"

text \<open>
  \<open>Close\<close>: the map is emptied and every sender starts to close; then the results are awaited, in
  the order they arrive, up to the deadline.
\<close>

definition Pool_Close :: "Pool \<Rightarrow> Pool" where
  "Pool_Close p =
     p\<lparr>senders := [], poolClosed := True,
       heap := fold (\<lambda>(addr, i) h. h[i := AsyncSender_Close (h ! i)]) (senders p) (heap p)\<rparr>"

datatype 'e close_event = Closed "'e option" | DeadlinePassed

datatype 'e close_error = CloseFailed 'e | ErrCloseTimedOut

text \<open>The waiting loop, over the events so far; \<open>None\<close> while a sender is still being waited for.\<close>

fun close_wait :: "nat \<Rightarrow> 'e close_event list \<Rightarrow> 'e close_error option \<Rightarrow> 'e close_error option option" where
  "close_wait 0 evs firstErr = Some firstErr"
| "close_wait (Suc n) [] firstErr = None"
| "close_wait (Suc n) (Closed err # evs) firstErr =
     close_wait n evs (case err of Some e \<Rightarrow> if firstErr = None then Some (CloseFailed e) else firstErr | None \<Rightarrow> firstErr)"
| "close_wait (Suc n) (DeadlinePassed # evs) firstErr = Some (if firstErr = None then Some ErrCloseTimedOut else firstErr)"

subsection \<open>Histories\<close>

datatype pool_op =
    PoolFor string | RefSend sender_ref "PDU option" | SenderStep nat "(Net, client_op) async_op" | PoolClose

text \<open>The goroutines behind a sender; closing one is the pool's business.\<close>

definition sender_step :: "(Net, client_op) async_op \<Rightarrow> client_sender \<Rightarrow> client_sender" where
  "sender_step op a = async_step Send (Some SendBatch) Close client_round op a"

fun pool_step :: "pool_op \<Rightarrow> Pool \<Rightarrow> Pool" where
  "pool_step (PoolFor addr) p = fst (For addr p)"
| "pool_step (RefSend r pdu) p = (case r of Held i \<Rightarrow> if i < length (heap p) then fst (ref_Send r pdu p) else p
                                          | DiscardSender \<Rightarrow> fst (ref_Send r pdu p))"
| "pool_step (SenderStep i op) p = (if i < length (heap p) then p\<lparr>heap := (heap p)[i := sender_step op (heap p ! i)]\<rparr> else p)"
| "pool_step PoolClose p = Pool_Close p"

definition pool_run :: "pool_op list \<Rightarrow> Pool \<Rightarrow> Pool" where
  "pool_run ops p = fold pool_step ops p"

subsection \<open>Invariant\<close>

definition pool_inv :: "Pool \<Rightarrow> bool" where
  "pool_inv p \<longleftrightarrow> length (addressOf p) = length (heap p) \<and> distinct (map fst (senders p)) \<and>
     (\<forall>addr i. map_of (senders p) addr = Some i \<longrightarrow> i < length (heap p) \<and> addressOf p ! i = addr) \<and>
     (\<forall>i < length (heap p). \<not> aclosed (heap p ! i) \<longrightarrow> map_of (senders p) (addressOf p ! i) = Some i) \<and>
     (poolClosed p \<longrightarrow> senders p = [])"

lemma aclosed_Close [simp]: "async_inv a \<Longrightarrow> aclosed (AsyncSender_Close a)"
  by (auto simp: AsyncSender_Close_def async_inv_def)

lemma aclosed_step: "aclosed a \<Longrightarrow> aclosed (sender_step op a)"
  by (cases op) (auto simp: sender_step_def AsyncSender_Send_def enqueue_def AsyncSender_Close_def AsyncSender_Close_done_def
      split: option.splits)

text \<open>Every sender of a reachable pool has a history of its own, started fresh for its address.\<close>

definition own_history :: "Pool \<Rightarrow> client_sender \<Rightarrow> bool" where
  "own_history p a \<longleftrightarrow> (\<exists>ops. a = async_client_run ops (NewAsyncSender (NewClient (poolKeepalive p)) 0))"

lemma own_history_New: "own_history p (NewAsyncSender (NewClient (poolKeepalive p)) 0)"
  unfolding own_history_def by (rule exI [of _ "[]"]) (simp add: async_client_run_def async_run_def)

lemma own_history_step: "own_history p a \<Longrightarrow> own_history p (sender_step op a)"
proof -
  assume "own_history p a"
  then obtain ops where "a = async_client_run ops (NewAsyncSender (NewClient (poolKeepalive p)) 0)" by (auto simp: own_history_def)
  then have "sender_step op a = async_client_run (ops @ [op]) (NewAsyncSender (NewClient (poolKeepalive p)) 0)"
    by (simp add: sender_step_def async_client_run_def async_run_def)
  then show ?thesis by (auto simp: own_history_def)
qed

lemma own_history_Close: "own_history p a \<Longrightarrow> own_history p (AsyncSender_Close a)"
  using own_history_step [of p a BeginClose] by (simp add: sender_step_def)

lemma own_history_inv: "own_history p a \<Longrightarrow> async_inv a"
  by (auto simp: own_history_def async_client_run_def intro: inv_async_run inv_New)

lemma own_history_cong: "poolKeepalive p = poolKeepalive q \<Longrightarrow> own_history p = own_history q"
  by (auto simp: own_history_def)

definition pool_ok :: "Pool \<Rightarrow> bool" where
  "pool_ok p \<longleftrightarrow> pool_inv p \<and> list_all (own_history p) (heap p)"

lemma ok_New: "pool_ok (NewPool k)"
  by (simp add: pool_ok_def pool_inv_def NewPool_def)

lemma ok_For: "pool_ok p \<Longrightarrow> pool_ok (fst (For addr p))"
proof (cases "map_of (senders p) addr = None \<and> \<not> poolClosed p")
  case True
  assume p: "pool_ok p"
  let ?q = "fst (For addr p)"
  from True have q: "heap ?q = heap p @ [NewAsyncSender (NewClient (poolKeepalive p)) 0]" "addressOf ?q = addressOf p @ [addr]"
      "senders ?q = AList.update addr (length (heap p)) (senders p)" "poolClosed ?q = poolClosed p" "poolKeepalive ?q = poolKeepalive p"
    by (auto simp: For_def Let_def)
  have "pool_inv ?q" unfolding pool_inv_def
  proof (intro conjI allI impI)
    fix i assume i: "i < length (heap ?q)" "\<not> aclosed (heap ?q ! i)"
    show "map_of (senders ?q) (addressOf ?q ! i) = Some i"
    proof (cases "i < length (heap p)")
      case True': True
      then have "map_of (senders p) (addressOf p ! i) = Some i" using i q p by (auto simp: pool_ok_def pool_inv_def nth_append)
      moreover from this True have "addressOf p ! i \<noteq> addr" by auto
      moreover have "length (addressOf p) = length (heap p)" using p by (simp add: pool_ok_def pool_inv_def)
      ultimately show ?thesis using True' by (simp add: q(2,3) nth_append update_conv)
    next
      case False
      then have n: "i = length (heap p)" using i(1) by (simp add: q(1))
      moreover have "length (addressOf p) = length (heap p)" using p by (simp add: pool_ok_def pool_inv_def)
      ultimately show ?thesis by (simp add: q(2,3) nth_append update_conv)
    qed
  qed (use p True in \<open>auto simp: q pool_ok_def pool_inv_def nth_append update_conv distinct_update less_SucI split: if_splits\<close>)
  moreover have "list_all (own_history ?q) (heap ?q)"
    using p own_history_New [of p] own_history_cong [OF q(5)] by (simp add: q(1) pool_ok_def)
  ultimately show ?thesis by (simp add: pool_ok_def)
qed (auto simp: For_def split: option.splits)

text \<open>A change to one sender that opens nothing.\<close>

lemma ok_update:
  assumes "pool_ok p" and "i < length (heap p)" and "own_history p a" and "aclosed (heap p ! i) \<Longrightarrow> aclosed a"
  shows "pool_ok (p\<lparr>heap := (heap p)[i := a]\<rparr>)"
proof -
  have "own_history (p\<lparr>heap := h\<rparr>) = own_history p" for h by (rule own_history_cong) simp
  with assms show ?thesis
    by (auto simp: pool_ok_def pool_inv_def list_all_length nth_list_update)
qed

lemma ok_ref_Send: "pool_ok p \<Longrightarrow> (\<And>i. r = Held i \<Longrightarrow> i < length (heap p)) \<Longrightarrow> pool_ok (fst (ref_Send r pdu p))"
proof (cases r)
  case (Held i)
  assume p: "pool_ok p" "\<And>i. r = Held i \<Longrightarrow> i < length (heap p)"
  let ?a = "sender_step (Offer pdu) (heap p ! i)"
  have "pool_ok (p\<lparr>heap := (heap p)[i := ?a]\<rparr>)"
    using p Held by (intro ok_update own_history_step aclosed_step) (auto simp: pool_ok_def list_all_length)
  then show ?thesis by (simp add: Held ref_Send_def case_prod_unfold Let_def sender_step_def)
next
  case DiscardSender
  assume "pool_ok p"
  moreover have "own_history (p\<lparr>discarded := n\<rparr>) = own_history p" for n by (rule own_history_cong) simp
  ultimately show ?thesis by (simp add: DiscardSender ref_Send_def discardSender_Send_def pool_ok_def pool_inv_def)
qed

lemma close_fold:
  "(\<forall>(x, i) \<in> set xs. i < length h) \<Longrightarrow> list_all async_inv h \<Longrightarrow>
   length (fold (\<lambda>(addr, i) h. h[i := AsyncSender_Close (h ! i)]) xs h) = length h \<and>
   (\<forall>i < length h. (aclosed (h ! i) \<or> i \<in> snd ` set xs) \<longrightarrow> aclosed (fold (\<lambda>(addr, i) h. h[i := AsyncSender_Close (h ! i)]) xs h ! i)) \<and>
   (\<forall>P. list_all P h \<longrightarrow> (\<forall>a. P a \<longrightarrow> P (AsyncSender_Close a)) \<longrightarrow> list_all P (fold (\<lambda>(addr, i) h. h[i := AsyncSender_Close (h ! i)]) xs h))"
proof (induction xs arbitrary: h)
  case (Cons x xs)
  obtain addr i where x: "x = (addr, i)" by fastforce
  let ?h = "h[i := AsyncSender_Close (h ! i)]"
  from Cons.prems x have i: "i < length h" by auto
  then have inv: "list_all async_inv ?h" using Cons.prems(2) by (auto simp: list_all_length nth_list_update inv_Close)
  have P: "list_all P h \<Longrightarrow> (\<forall>a. P a \<longrightarrow> P (AsyncSender_Close a)) \<Longrightarrow> list_all P ?h" for P
    using i by (auto simp: list_all_length nth_list_update)
  have "aclosed (h ! j) \<or> j = i \<Longrightarrow> j < length h \<Longrightarrow> aclosed (?h ! j)" for j
    using Cons.prems(2) i by (auto simp: nth_list_update list_all_length AsyncSender_Close_def async_inv_def)
  with Cons.IH [OF _ inv] Cons.prems(1) P x show ?case by auto
qed simp

lemma ok_Close: "pool_ok p \<Longrightarrow> pool_ok (Pool_Close p) \<and> list_all aclosed (heap (Pool_Close p))"
proof -
  assume p: "pool_ok p"
  have held: "\<forall>(x, i) \<in> set (senders p). i < length (heap p)"
    using p by (auto simp: pool_ok_def pool_inv_def dest!: map_of_is_SomeI)
  have "list_all async_inv (heap p)" using p own_history_inv by (auto simp: pool_ok_def list_all_iff)
  note f = close_fold [OF held this]
  let ?h = "fold (\<lambda>(addr, i) h. h[i := AsyncSender_Close (h ! i)]) (senders p) (heap p)"
  have hist: "list_all (own_history p) ?h" using f p own_history_Close by (auto simp: pool_ok_def)
  have "aclosed (?h ! i)" if i: "i < length (heap p)" for i
  proof (cases "aclosed (heap p ! i)")
    case False
    then have "map_of (senders p) (addressOf p ! i) = Some i" using p i by (auto simp: pool_ok_def pool_inv_def)
    then have "i \<in> snd ` set (senders p)" by (force dest: map_of_SomeD)
    with f i show ?thesis by auto
  qed (use f i in auto)
  then have cl: "list_all aclosed ?h" using f by (auto simp: list_all_length)
  have "own_history (Pool_Close p) = own_history p" by (rule own_history_cong) (simp add: Pool_Close_def)
  with hist cl f p show ?thesis by (auto simp: Pool_Close_def pool_ok_def pool_inv_def list_all_length)
qed

lemma ok_step: "pool_ok p \<Longrightarrow> pool_ok (pool_step op p)"
proof (cases op)
  case (SenderStep i x)
  assume "pool_ok p"
  moreover from this have "i < length (heap p) \<Longrightarrow> own_history p (heap p ! i)" by (auto simp: pool_ok_def list_all_length)
  ultimately show ?thesis
    using ok_update [of p i "sender_step x (heap p ! i)"] SenderStep by (auto simp: own_history_step aclosed_step)
qed (auto simp: ok_For ok_Close intro!: ok_ref_Send split: sender_ref.splits)

lemma ok_run: "pool_ok p \<Longrightarrow> pool_ok (pool_run ops p)"
  unfolding pool_run_def by (induction ops arbitrary: p) (simp_all add: ok_step)

subsection \<open>Counting\<close>

lemma among_loop_counts:
  "among_loop addrs counted u n p =
     (u + card {a \<in> set addrs - set counted. UnreachableAt a p},
      n + card {a \<in> set addrs - set counted. map_of (senders p) a \<noteq> None})"
proof (induction addrs counted u n p rule: among_loop.induct)
  case (2 addr addrs counted u n p)
  have grow: "card {a \<in> set (addr # addrs) - set counted. Q a} =
      (if Q addr then 1 else 0) + card {a \<in> set addrs - set (addr # counted). Q a}" if "addr \<notin> set counted" for Q
  proof -
    have "{a \<in> set (addr # addrs) - set counted. Q a} =
        (if Q addr then {addr} else {}) \<union> {a \<in> set addrs - set (addr # counted). Q a}" using that by auto
    then show ?thesis by (simp add: card_Un_disjoint)
  qed
  show ?case
  proof (cases "addr \<in> set counted")
    case True
    then have "set (addr # addrs) - set counted = set addrs - set counted" by auto
    with 2 True show ?thesis by simp
  next
    case False
    with 2 grow [of "\<lambda>a. UnreachableAt a p"] grow [of "\<lambda>a. map_of (senders p) a \<noteq> None"] show ?thesis
      by (cases "map_of (senders p) addr") (simp_all add: UnreachableAt_def del: set_simps)
  qed
qed simp

subsection \<open>Properties\<close>

text \<open>The entry of an address outlives every operation that leaves the pool open.\<close>

lemma closed_step: "poolClosed p \<Longrightarrow> poolClosed (pool_step op p)"
  by (cases op) (auto simp: For_def Pool_Close_def ref_Send_def discardSender_Send_def case_prod_unfold Let_def
      split: sender_ref.splits option.splits)

lemma closed_run: "poolClosed p \<Longrightarrow> poolClosed (pool_run ops p)"
  unfolding pool_run_def by (induction ops arbitrary: p) (simp_all add: closed_step)

lemma sender_kept_step:
  "map_of (senders p) a = Some i \<Longrightarrow> \<not> poolClosed (pool_step op p) \<Longrightarrow> map_of (senders (pool_step op p)) a = Some i"
  by (cases op) (auto simp: For_def Pool_Close_def ref_Send_def discardSender_Send_def case_prod_unfold Let_def update_conv
      split: sender_ref.splits option.splits)

lemma sender_kept:
  "map_of (senders p) a = Some i \<Longrightarrow> \<not> poolClosed (pool_run ops p) \<Longrightarrow> map_of (senders (pool_run ops p)) a = Some i"
proof (induction ops arbitrary: p)
  case (Cons op ops)
  then have "\<not> poolClosed (pool_run ops (pool_step op p))" by (simp add: pool_run_def)
  moreover from this have "\<not> poolClosed (pool_step op p)" using closed_run by blast
  ultimately show ?case using Cons sender_kept_step by (simp add: pool_run_def)
qed (simp add: pool_run_def)

lemma keepalive_kept: "poolKeepalive (pool_run ops p) = poolKeepalive p"
proof -
  have "poolKeepalive (pool_step op p) = poolKeepalive p" for op p
    by (cases op) (auto simp: For_def Pool_Close_def ref_Send_def discardSender_Send_def case_prod_unfold Let_def
        split: sender_ref.splits option.splits)
  then show ?thesis unfolding pool_run_def by (induction ops arbitrary: p) simp_all
qed

text \<open>
  C29. Destinations are not mixed up. On a pool that is open, \<open>For\<close> returns the sender of that
  address, and whatever is done with the pool afterwards, for as long as it stays open: asking for
  the address again returns the same sender and changes nothing, asking for any other address
  returns another one, the sender is the one created for this address, and its whole history is its
  own, started from a fresh client.
\<close>

theorem For_is_per_destination:
  assumes "For addr (pool_run ops (NewPool k)) = (p, r)" and "q = pool_run later p" and "\<not> poolClosed q"
  shows "\<exists>i < length (heap q). r = Held i \<and> addressOf q ! i = addr \<and> For addr q = (q, r) \<and>
    (\<forall>other. snd (For other q) = r \<longrightarrow> other = addr) \<and>
    (\<exists>hist. heap q ! i = async_client_run hist (NewAsyncSender (NewClient k) 0))"
proof -
  have p: "p = pool_run (ops @ [PoolFor addr]) (NewPool k)" using assms(1) by (simp add: pool_run_def)
  have ok: "pool_ok q" unfolding assms(2) p by (intro ok_run ok_New)
  have open_p: "\<not> poolClosed p" using assms(2,3) closed_run by blast
  obtain i where i: "map_of (senders p) addr = Some i" "r = Held i"
    using assms(1) open_p by (auto simp: For_def Let_def update_conv split: option.splits if_splits)
  have s: "map_of (senders q) addr = Some i" using sender_kept [OF i(1)] assms(2,3) by simp
  have inv: "i < length (heap q)" "addressOf q ! i = addr" "own_history q (heap q ! i)"
    using ok s by (auto simp: pool_ok_def pool_inv_def list_all_length)
  have "other = addr" if "snd (For other q) = r" for other
  proof (cases "map_of (senders q) other")
    case None
    with that i inv(1) assms(3) show ?thesis by (auto simp: For_def Let_def)
  next
    case (Some j)
    with that i(2) have "j = i" by (simp add: For_def)
    with Some ok inv(2) show ?thesis by (auto simp: pool_ok_def pool_inv_def)
  qed
  moreover have "poolKeepalive q = k" by (simp add: assms(2) p keepalive_kept NewPool_def)
  ultimately show ?thesis using i(2) s inv by (auto simp: For_def own_history_def)
qed

theorem For_is_per_destination_witness:
  "\<exists>i < 2. snd (For ''b'' (pool_run [PoolFor ''a''] (NewPool ex_config))) = Held i \<and>
     snd (For ''b'' (pool_run [PoolFor ''c''] (pool_run [PoolFor ''a'', PoolFor ''b''] (NewPool ex_config)))) = Held i"
proof -
  let ?p = "pool_run [PoolFor ''a''] (NewPool ex_config)"
  let ?q = "pool_run [PoolFor ''c''] (fst (For ''b'' ?p))"
  have "\<not> poolClosed ?q" by (simp add: pool_run_def For_def NewPool_def Let_def)
  from For_is_per_destination [OF prod.collapse [symmetric] refl this] obtain i where
    "snd (For ''b'' ?p) = Held i" "For ''b'' ?q = (?q, snd (For ''b'' ?p))" by blast
  moreover from this(1) have "i = 1" by (simp add: pool_run_def For_def NewPool_def Let_def)
  ultimately show ?thesis by (auto simp: pool_run_def)
qed

text \<open>
  A pool once closed stays closed and delivers nothing new: no operation opens it or makes
  another sender, \<open>For\<close> answers with the sender that discards, every sender it ever made refuses
  what it is offered, and each unit offered, to a sender or to the discarding one, is reported as a
  drop rather than lost silently.
\<close>

theorem closed_pool_accepts_nothing:
  "let p = pool_run (before @ [PoolClose] @ later) (NewPool k) in
     poolClosed p \<and> For addr p = (p, DiscardSender) \<and> list_all aclosed (heap p) \<and>
     length (heap p) = length (heap (pool_run before (NewPool k))) \<and>
     discarded (fst (ref_Send DiscardSender (Some u) p)) = discarded p + 1 \<and>
     list_all (\<lambda>a. AsyncSender_Send (Some u) a = (a\<lparr>dropped := dropped a + 1\<rparr>, None)) (heap p)"
proof -
  let ?c = "pool_run (before @ [PoolClose]) (NewPool k)"
  define shut where "shut n p \<longleftrightarrow> pool_ok p \<and> poolClosed p \<and> list_all aclosed (heap p) \<and> length (heap p) = n" for n p
  have c: "?c = Pool_Close (pool_run before (NewPool k))" by (simp add: pool_run_def)
  have "pool_inv (pool_run before (NewPool k))" using ok_run [OF ok_New] by (simp add: pool_ok_def)
  then have "length (heap ?c) = length (heap (pool_run before (NewPool k)))"
    using ok_Close [OF ok_run [OF ok_New], of before k] unfolding c
    by (auto simp: pool_ok_def pool_inv_def Pool_Close_def)
  then have start: "shut (length (heap (pool_run before (NewPool k)))) ?c"
    using ok_Close [OF ok_run [OF ok_New], of before k] unfolding c by (simp add: shut_def Pool_Close_def)
  have step: "shut n (pool_step op p)" if "shut n p" for n op p
  proof -
    have "senders p = []" using that by (simp add: shut_def pool_ok_def pool_inv_def)
    with that show ?thesis unfolding shut_def using ok_step [of p op]
      by (cases op)
         (auto simp: For_def Pool_Close_def ref_Send_def discardSender_Send_def AsyncSender_Send_def enqueue_def
           list_all_length nth_list_update aclosed_step case_prod_unfold Let_def split: sender_ref.splits option.splits)
  qed
  have "shut n (fold pool_step later p)" if "shut n p" for n p
    using that by (induction later arbitrary: p) (simp_all add: step)
  from this [OF start] have sh: "shut (length (heap (pool_run before (NewPool k)))) (pool_run (before @ [PoolClose] @ later) (NewPool k))"
    by (simp add: pool_run_def)
  moreover from this have "senders (pool_run (before @ [PoolClose] @ later) (NewPool k)) = []"
    by (simp add: shut_def pool_ok_def pool_inv_def)
  ultimately show ?thesis
    by (auto simp: Let_def shut_def For_def ref_Send_def discardSender_Send_def AsyncSender_Send_def enqueue_def list_all_iff)
qed

text \<open>
  \<open>UnreachableAmong\<close> counts destinations and not tasks: over the distinct addresses named, how
  many have a sender at all and how many of those its last exchange left unreachable; an address
  nothing was sent to counts for neither, and the first number never exceeds the second.
\<close>

theorem UnreachableAmong_counts:
  "UnreachableAmong addrs p =
     (card {a \<in> set addrs. UnreachableAt a p}, card {a \<in> set addrs. map_of (senders p) a \<noteq> None}) \<and>
   fst (UnreachableAmong addrs p) \<le> snd (UnreachableAmong addrs p)"
proof -
  have "UnreachableAmong addrs p =
      (card {a \<in> set addrs. UnreachableAt a p}, card {a \<in> set addrs. map_of (senders p) a \<noteq> None})"
    by (simp add: UnreachableAmong_def among_loop_counts)
  moreover have "card {a \<in> set addrs. UnreachableAt a p} \<le> card {a \<in> set addrs. map_of (senders p) a \<noteq> None}"
    by (rule card_mono) (auto simp: UnreachableAt_def split: option.splits)
  ultimately show ?thesis by simp
qed

end
