(* ===== verification/Report.thy ===== *)
theory Report
  imports X1Tasking Pool
begin

text \<open>
  Issue reports to the ADMF, \<open>src/x1/report.go\<close>, with the condition constructors of
  \<open>src/x1/x1.go\<close> and the destination watcher of \<open>src/x1/faultwatch.go\<close>. The reporter's maps to \<open>bool\<close>
  are association lists in which a missing key reads as false; \<open>rpNow\<close> is what \<open>now()\<close> reads. Sending a
  report is an exchange with the ADMF: its outcome is an argument, \<open>None\<close> when the ADMF accepted the
  report and an error otherwise, and \<open>outbox\<close> lists the messages in the order they were sent. A nil
  reporter does nothing in every operation and has no counterpart.
\<close>

subsection \<open>Conditions and codes\<close>

definition NEIssueX1ListenFailed :: string where "NEIssueX1ListenFailed = ''x1ListenFailed''"
definition NEIssueX3EgressDown :: string where "NEIssueX3EgressDown = ''x3EgressDown''"
definition NEIssueMDFUnreachable :: string where "NEIssueMDFUnreachable = ''mdfUnreachable''"
definition NEIssueInvalidConfig :: string where "NEIssueInvalidConfig = ''invalidConfig''"
definition NEIssueContentUntasked :: string where "NEIssueContentUntasked = ''contentUntasked''"
definition NEIssueX3PuntLost :: string where "NEIssueX3PuntLost = ''x3PuntLost''"
definition NEIssueX3FramingLost :: string where "NEIssueX3FramingLost = ''x3FramingLost''"
definition NEIssueX3DeliveryLost :: string where "NEIssueX3DeliveryLost = ''x3DeliveryLost''"
definition NEIssueX2DeliveryLost :: string where "NEIssueX2DeliveryLost = ''x2DeliveryLost''"
definition NEIssueTaskingPurged :: string where "NEIssueTaskingPurged = ''taskingPurged''"
definition NEIssueReconcileFailed :: string where "NEIssueReconcileFailed = ''reconcileFailed''"
definition NEIssueTaskingAbsent :: string where "NEIssueTaskingAbsent = ''taskingAbsent''"
definition NEIssueTriggerFaulty :: string where "NEIssueTriggerFaulty = ''triggerFaulty''"
definition NEIssueDuplicationRefused :: string where "NEIssueDuplicationRefused = ''duplicationRefused''"
definition NEIssueX3TagInvalid :: string where "NEIssueX3TagInvalid = ''x3TagInvalid''"
definition NEIssueRecordValueSubstituted :: string where "NEIssueRecordValueSubstituted = ''recordValueSubstituted''"
definition NEIssueContentTaskOverlap :: string where "NEIssueContentTaskOverlap = ''contentTaskOverlap''"
definition NEIssueTaskingWithdrawalFailed :: string where "NEIssueTaskingWithdrawalFailed = ''taskingWithdrawalFailed''"
definition NEIssueTaskingWithdrawalStuck :: string where "NEIssueTaskingWithdrawalStuck = ''taskingWithdrawalStuck''"
definition NEIssueX1AuthFailed :: string where "NEIssueX1AuthFailed = ''x1AuthFailed''"
definition NEIssueX1ResponseUnattributable :: string where "NEIssueX1ResponseUnattributable = ''x1ResponseUnattributable''"
definition neIssueWarning :: string where "neIssueWarning = ''Warning''"
definition neIssueFaultCleared :: string where "neIssueFaultCleared = ''FaultCleared''"
definition neIssueFaultReport :: string where "neIssueFaultReport = ''FaultReport''"
definition neIssueAlert :: string where "neIssueAlert = ''Alert''"
definition issueCodeNonTerminatingFault :: nat where "issueCodeNonTerminatingFault = 9020"
definition issueCodeTerminatingFault :: nat where "issueCodeTerminatingFault = 9030"
definition issueCodeKeepalivesNotRcvd :: nat where "issueCodeKeepalivesNotRcvd = 9050"
definition issueCodeDatabaseCleared :: nat where "issueCodeDatabaseCleared = 10000"
definition TaskIssueDuplicationNotProgrammed :: string where "TaskIssueDuplicationNotProgrammed = ''duplicationNotProgrammed''"
definition TaskIssueNoTrafficSelected :: string where "TaskIssueNoTrafficSelected = ''noTrafficSelected''"
definition TaskIssueTriggerNotRunning :: string where "TaskIssueTriggerNotRunning = ''triggerNotRunning''"
definition TaskIssueRecordNotEncoded :: string where "TaskIssueRecordNotEncoded = ''recordNotEncoded''"
definition TaskReportAllClear :: string where "TaskReportAllClear = ''AllClear''"
definition TaskReportWarning :: string where "TaskReportWarning = ''Warning''"
definition TaskReportNonTerminatingFault :: string where "TaskReportNonTerminatingFault = ''NonTerminatingFault''"
definition TaskReportTerminatingFault :: string where "TaskReportTerminatingFault = ''TerminatingFault''"

lemmas report_literals = NEIssueX1ListenFailed_def NEIssueX3EgressDown_def NEIssueMDFUnreachable_def NEIssueInvalidConfig_def NEIssueContentUntasked_def NEIssueX3PuntLost_def NEIssueX3FramingLost_def NEIssueX3DeliveryLost_def NEIssueX2DeliveryLost_def NEIssueTaskingPurged_def NEIssueReconcileFailed_def NEIssueTaskingAbsent_def NEIssueTriggerFaulty_def NEIssueDuplicationRefused_def NEIssueX3TagInvalid_def NEIssueRecordValueSubstituted_def NEIssueContentTaskOverlap_def NEIssueTaskingWithdrawalFailed_def NEIssueTaskingWithdrawalStuck_def NEIssueX1AuthFailed_def NEIssueX1ResponseUnattributable_def neIssueWarning_def neIssueFaultCleared_def neIssueFaultReport_def neIssueAlert_def issueCodeNonTerminatingFault_def issueCodeTerminatingFault_def issueCodeKeepalivesNotRcvd_def issueCodeDatabaseCleared_def TaskIssueDuplicationNotProgrammed_def TaskIssueNoTrafficSelected_def TaskIssueTriggerNotRunning_def TaskIssueRecordNotEncoded_def TaskReportAllClear_def TaskReportWarning_def TaskReportNonTerminatingFault_def TaskReportTerminatingFault_def

record neIssueEncoding =
  ieKind :: string
  ieCode :: nat

definition neIssueEncodings :: "(string \<times> neIssueEncoding) list" where
  "neIssueEncodings =
     [(NEIssueX1ListenFailed, \<lparr>ieKind = neIssueFaultReport, ieCode = issueCodeTerminatingFault\<rparr>),
      (NEIssueX3EgressDown, \<lparr>ieKind = neIssueFaultReport, ieCode = issueCodeNonTerminatingFault\<rparr>),
      (NEIssueMDFUnreachable, \<lparr>ieKind = neIssueFaultReport, ieCode = issueCodeNonTerminatingFault\<rparr>),
      (NEIssueInvalidConfig, \<lparr>ieKind = neIssueFaultReport, ieCode = issueCodeNonTerminatingFault\<rparr>),
      (NEIssueContentUntasked, \<lparr>ieKind = neIssueFaultReport, ieCode = issueCodeNonTerminatingFault\<rparr>),
      (NEIssueX3PuntLost, \<lparr>ieKind = neIssueFaultReport, ieCode = issueCodeNonTerminatingFault\<rparr>),
      (NEIssueX3FramingLost, \<lparr>ieKind = neIssueFaultReport, ieCode = issueCodeNonTerminatingFault\<rparr>),
      (NEIssueX3DeliveryLost, \<lparr>ieKind = neIssueFaultReport, ieCode = issueCodeNonTerminatingFault\<rparr>),
      (NEIssueX2DeliveryLost, \<lparr>ieKind = neIssueFaultReport, ieCode = issueCodeNonTerminatingFault\<rparr>),
      (NEIssueX3TagInvalid, \<lparr>ieKind = neIssueFaultReport, ieCode = issueCodeNonTerminatingFault\<rparr>),
      (NEIssueRecordValueSubstituted, \<lparr>ieKind = neIssueFaultReport, ieCode = issueCodeNonTerminatingFault\<rparr>),
      (NEIssueDuplicationRefused, \<lparr>ieKind = neIssueFaultReport, ieCode = issueCodeNonTerminatingFault\<rparr>),
      (NEIssueReconcileFailed, \<lparr>ieKind = neIssueFaultReport, ieCode = issueCodeNonTerminatingFault\<rparr>),
      (NEIssueTriggerFaulty, \<lparr>ieKind = neIssueFaultReport, ieCode = issueCodeNonTerminatingFault\<rparr>),
      (NEIssueTaskingWithdrawalFailed, \<lparr>ieKind = neIssueFaultReport, ieCode = issueCodeNonTerminatingFault\<rparr>),
      (NEIssueTaskingWithdrawalStuck, \<lparr>ieKind = neIssueFaultReport, ieCode = issueCodeTerminatingFault\<rparr>),
      (NEIssueX1ResponseUnattributable, \<lparr>ieKind = neIssueFaultReport, ieCode = issueCodeNonTerminatingFault\<rparr>),
      (NEIssueContentTaskOverlap, \<lparr>ieKind = neIssueWarning, ieCode = issueCodeNonTerminatingFault\<rparr>),
      (NEIssueTaskingPurged, \<lparr>ieKind = neIssueFaultReport, ieCode = issueCodeKeepalivesNotRcvd\<rparr>),
      (NEIssueTaskingAbsent, \<lparr>ieKind = neIssueAlert, ieCode = issueCodeDatabaseCleared\<rparr>),
      (NEIssueX1AuthFailed, \<lparr>ieKind = neIssueAlert, ieCode = 0\<rparr>)]"

definition encodeNEIssue :: "string \<Rightarrow> neIssueEncoding" where
  "encodeNEIssue condition =
     (case map_of neIssueEncodings condition of
        Some e \<Rightarrow> e
      | None \<Rightarrow> \<lparr>ieKind = neIssueFaultReport, ieCode = issueCodeNonTerminatingFault\<rparr>)"

definition taskScoped :: "string list" where
  "taskScoped = [TaskIssueDuplicationNotProgrammed, TaskIssueNoTrafficSelected, TaskIssueTriggerNotRunning,
     TaskIssueRecordNotEncoded]"

definition NEFault :: "string \<Rightarrow> string \<Rightarrow> X1Error" where
  "NEFault condition detail = X1Error errCodeGeneric (errorf0 (condition @ '': '' @ detail))"

definition TaskFault :: "string \<Rightarrow> string \<Rightarrow> X1Error" where
  "TaskFault condition detail =
     (if condition \<notin> set taskScoped
      then X1Error issueCodeNonTerminatingFault
             (errorf0 (''this element reported a condition it does not declare as '' @
                       ''task-scoped, which is a defect in the element rather than in the task''))
      else X1Error issueCodeNonTerminatingFault (errorf0 (condition @ '': '' @ detail)))"

text \<open>\<open>counts\<close> is what the probe's function answers: unreachable destinations, destinations in use.\<close>

definition MDFUnreachableProbe :: "nat \<times> nat \<Rightarrow> X1Error option" where
  "MDFUnreachableProbe counts =
     (let (down, inUse) = counts in
      if down = 0 then None
      else Some (NEFault NEIssueMDFUnreachable
             (FormatUint down @ '' of '' @ FormatUint inUse @ '' delivery destination(s) unreachable'')))"

subsection \<open>The reporter\<close>

datatype reportScope = scopeElement | scopeTask | scopeDestination

record reportKey =
  rkScope :: reportScope
  rkId :: string
  rkCondition :: string

text \<open>A report: the header every message carries, and the fields of its kind.\<close>

record report_header =
  rhAdmfID :: string
  rhNeID :: string
  rhTimestamp :: int
  rhTxID :: string

datatype report =
    NEIssue report_header string nat string
  | TaskIssue report_header string string string
  | DestinationIssue report_header string string string

record Reporter =
  rpAdmfID :: string
  rpNeID :: string
  rpFresh :: "nat \<Rightarrow> string"
  rpNow :: int
  lastSent :: "(reportKey, int) gomap"
  sending :: "(reportKey, bool) gomap"
  reported :: "(reportKey, bool) gomap"
  outbox :: "report list"

definition NewReporter :: "string \<Rightarrow> string \<Rightarrow> (nat \<Rightarrow> string) \<Rightarrow> int \<Rightarrow> Reporter" where
  "NewReporter admf ne fresh t = \<lparr>rpAdmfID = admf, rpNeID = ne, rpFresh = fresh, rpNow = t, lastSent = [], sending = [],
     reported = [], outbox = []\<rparr>"

definition reportThrottle :: int where
  "reportThrottle = 30000000000"

text \<open>Reading a \<open>map[reportKey]bool\<close>.\<close>

definition flag :: "(reportKey, bool) gomap \<Rightarrow> reportKey \<Rightarrow> bool" where
  "flag m k \<longleftrightarrow> map_of m k = Some True"

definition reserve :: "reportKey \<Rightarrow> Reporter \<Rightarrow> Reporter \<times> bool" where
  "reserve k r =
     (if flag (sending r) k then (r, False)
      else case map_of (lastSent r) k of
        Some sent \<Rightarrow>
          if Sub (rpNow r) (Some sent) < reportThrottle then (r, False)
          else (r\<lparr>sending := AList.update k True (sending r)\<rparr>, True)
      | None \<Rightarrow> (r\<lparr>sending := AList.update k True (sending r)\<rparr>, True))"

definition commit :: "reportKey \<Rightarrow> Reporter \<Rightarrow> Reporter" where
  "commit k r = r\<lparr>sending := AList.delete k (sending r), lastSent := AList.update k (rpNow r) (lastSent r),
     reported := AList.update k True (reported r)\<rparr>"

definition release :: "reportKey \<Rightarrow> Reporter \<Rightarrow> Reporter" where
  "release k r = r\<lparr>sending := AList.delete k (sending r)\<rparr>"

definition settle :: "reportKey \<Rightarrow> 'e option \<Rightarrow> Reporter \<Rightarrow> Reporter" where
  "settle k err r = (if err \<noteq> None then release k r else commit k r)"

definition clearing :: "reportKey \<Rightarrow> Reporter \<Rightarrow> Reporter \<times> bool" where
  "clearing k r =
     (if flag (sending r) k then (r, False)
      else if \<not> flag (reported r) k then (r, False)
      else (r\<lparr>sending := AList.update k True (sending r)\<rparr>, True))"

definition commitClear :: "reportKey \<Rightarrow> Reporter \<Rightarrow> Reporter" where
  "commitClear k r = r\<lparr>sending := AList.delete k (sending r), reported := AList.delete k (reported r),
     lastSent := AList.delete k (lastSent r)\<rparr>"

definition settleClear :: "reportKey \<Rightarrow> 'e option \<Rightarrow> Reporter \<Rightarrow> Reporter" where
  "settleClear k err r = (if err \<noteq> None then release k r else commitClear k r)"

subsection \<open>Sending\<close>

text \<open>
  The message is rendered and posted, and the answer read and bound to it: \<open>answers\<close> says how that
  ends for a message sent now. The transaction identifiers drawn are \<open>rpFresh\<close>, in order.
\<close>

definition header :: "Reporter \<Rightarrow> report_header" where
  "header r = \<lparr>rhAdmfID = rpAdmfID r, rhNeID = rpNeID r, rhTimestamp = rpNow r, rhTxID = rpFresh r (length (outbox r))\<rparr>"

definition post :: "(report \<Rightarrow> 'e option) \<Rightarrow> report \<Rightarrow> Reporter \<Rightarrow> Reporter \<times> 'e option" where
  "post answers m r = (r\<lparr>outbox := outbox r @ [m]\<rparr>, answers m)"

definition reportNEIssueAs :: "(report \<Rightarrow> 'e option) \<Rightarrow> string \<Rightarrow> string \<Rightarrow> nat \<Rightarrow> string \<Rightarrow> Reporter \<Rightarrow> Reporter \<times> 'e option" where
  "reportNEIssueAs answers issueType kind code description r =
     post answers (NEIssue (header r) kind code (issueType @ '': '' @ description)) r"

definition ReportTaskIssue :: "(report \<Rightarrow> 'e option) \<Rightarrow> string \<Rightarrow> string \<Rightarrow> string \<Rightarrow> Reporter \<Rightarrow> Reporter \<times> 'e option" where
  "ReportTaskIssue answers x reportType details r = post answers (TaskIssue (header r) x reportType details) r"

definition NotifyTask :: "(report \<Rightarrow> 'e option) \<Rightarrow> string \<Rightarrow> string \<Rightarrow> string \<Rightarrow> Reporter \<Rightarrow> Reporter" where
  "NotifyTask answers x reportType details r = fst (ReportTaskIssue answers x reportType details r)"

definition ReportDestinationIssue :: "(report \<Rightarrow> 'e option) \<Rightarrow> string \<Rightarrow> string \<Rightarrow> string \<Rightarrow> Reporter \<Rightarrow> Reporter \<times> 'e option" where
  "ReportDestinationIssue answers did reportType details r = post answers (DestinationIssue (header r) did reportType details) r"

definition elementKey :: "string \<Rightarrow> reportKey" where
  "elementKey condition = \<lparr>rkScope = scopeElement, rkId = '''', rkCondition = condition\<rparr>"

definition taskKey :: "string \<Rightarrow> string \<Rightarrow> reportKey" where
  "taskKey x condition = \<lparr>rkScope = scopeTask, rkId = x, rkCondition = condition\<rparr>"

definition destinationKey :: "string \<Rightarrow> string \<Rightarrow> reportKey" where
  "destinationKey did condition = \<lparr>rkScope = scopeDestination, rkId = did, rkCondition = condition\<rparr>"

definition ReportNEIssue :: "(report \<Rightarrow> 'e option) \<Rightarrow> string \<Rightarrow> string \<Rightarrow> Reporter \<Rightarrow> Reporter \<times> 'e option" where
  "ReportNEIssue answers issueType description r =
     (let k = elementKey issueType; (r1, go) = reserve k r in
      if \<not> go then (r1, None)
      else let enc = encodeNEIssue issueType;
               (r2, err) = reportNEIssueAs answers issueType (ieKind enc) (ieCode enc) description r1
           in (settle k err r2, err))"

definition Notify :: "(report \<Rightarrow> 'e option) \<Rightarrow> string \<Rightarrow> string \<Rightarrow> Reporter \<Rightarrow> Reporter" where
  "Notify answers issueType description r = fst (ReportNEIssue answers issueType description r)"

text \<open>
  The asynchronous forms take the reservation at once and leave the exchange to a goroutine: the
  reporter after the call, and what the goroutine does to it when it runs.
\<close>

definition NotifyAsync :: "(report \<Rightarrow> 'e option) \<Rightarrow> string \<Rightarrow> string \<Rightarrow> Reporter \<Rightarrow> Reporter \<times> (Reporter \<Rightarrow> Reporter) option" where
  "NotifyAsync answers issueType description r =
     (let k = elementKey issueType; (r1, go) = reserve k r in
      if \<not> go then (r1, None)
      else let enc = encodeNEIssue issueType
           in (r1, Some (\<lambda>r. let (r2, err) = reportNEIssueAs answers issueType (ieKind enc) (ieCode enc) description r
                            in settle k err r2)))"

definition NotifyTaskAsync :: "(report \<Rightarrow> 'e option) \<Rightarrow> string \<Rightarrow> string \<Rightarrow> string \<Rightarrow> string \<Rightarrow> Reporter \<Rightarrow> Reporter \<times> (Reporter \<Rightarrow> Reporter) option" where
  "NotifyTaskAsync answers x reportType condition details r =
     (if x = '''' then (r, None)
      else let k = taskKey x condition; (r1, go) = reserve k r in
           if \<not> go then (r1, None)
           else (r1, Some (\<lambda>r. let (r2, err) = ReportTaskIssue answers x reportType details r in settle k err r2)))"

definition NotifyDestinationFault :: "(report \<Rightarrow> 'e option) \<Rightarrow> string \<Rightarrow> string \<Rightarrow> string \<Rightarrow> Reporter \<Rightarrow> Reporter" where
  "NotifyDestinationFault answers did condition details r =
     (let k = destinationKey did condition; (r1, go) = reserve k r in
      if \<not> go then r1
      else let (r2, err) = ReportDestinationIssue answers did TaskReportNonTerminatingFault (condition @ '': '' @ details) r1
           in settle k err r2)"

definition NotifyElementFault :: "(report \<Rightarrow> 'e option) \<Rightarrow> string \<Rightarrow> string \<Rightarrow> Reporter \<Rightarrow> Reporter" where
  "NotifyElementFault answers condition description r =
     (let k = elementKey condition; (r1, go) = reserve k r in
      if \<not> go then r1
      else let enc = encodeNEIssue condition;
               (r2, err) = reportNEIssueAs answers condition (ieKind enc) (ieCode enc) description r1
           in settle k err r2)"

definition NotifyElementClear :: "(report \<Rightarrow> 'e option) \<Rightarrow> string \<Rightarrow> Reporter \<Rightarrow> Reporter" where
  "NotifyElementClear answers condition r =
     (let k = elementKey condition; (r1, go) = clearing k r in
      if \<not> go then r1
      else let (r2, err) = reportNEIssueAs answers condition neIssueFaultCleared 0 (condition @ '': resolved'') r1
           in settleClear k err r2)"

definition NotifyDestinationClear :: "(report \<Rightarrow> 'e option) \<Rightarrow> string \<Rightarrow> string \<Rightarrow> Reporter \<Rightarrow> Reporter" where
  "NotifyDestinationClear answers did condition r =
     (let k = destinationKey did condition; (r1, go) = clearing k r in
      if \<not> go then r1
      else let (r2, err) = ReportDestinationIssue answers did TaskReportAllClear (condition @ '': resolved'') r1
           in settleClear k err r2)"

text \<open>\<open>newUUID\<close> from the sixteen octets the random source gave: the version and variant, and the text.\<close>

definition hex_digit :: "nat \<Rightarrow> char" where
  "hex_digit d = (if d < 10 then char_of (48 + d) else char_of (87 + d))"

definition hex_text :: "byte list \<Rightarrow> string" where
  "hex_text bs = concat (map (\<lambda>b. [hex_digit (unat b div 16), hex_digit (unat b mod 16)]) bs)"

definition newUUID :: "byte list \<Rightarrow> string" where
  "newUUID random =
     (let b = random[6 := or (and (random ! 6) 0x0f) 0x40];
          b = b[8 := or (and (b ! 8) 0x3f) 0x80]
      in hex_text (take 4 b) @ ''-'' @ hex_text (take 2 (drop 4 b)) @ ''-'' @ hex_text (take 2 (drop 6 b)) @ ''-'' @
         hex_text (take 2 (drop 8 b)) @ ''-'' @ hex_text (drop 10 b))"

subsection \<open>The destination watcher\<close>

record DestinationHealth =
  dhDID :: string
  dhAddress :: string
  dhUnreachable :: bool

text \<open>The three nested loops of \<open>DestinationHealthOf\<close>, from the inside out.\<close>

fun health_dids :: "string \<Rightarrow> bool \<Rightarrow> string list \<Rightarrow> DestinationHealth list \<Rightarrow> DestinationHealth list" where
  "health_dids addr down [] out = out"
| "health_dids addr down (did # dids) out =
     (if list_ex (\<lambda>h. dhDID h = did \<and> dhAddress h = addr) out then health_dids addr down dids out
      else health_dids addr down dids (out @ [\<lparr>dhDID = did, dhAddress = addr, dhUnreachable = down\<rparr>]))"

fun health_addresses :: "InterceptTask \<Rightarrow> DeliveryType \<Rightarrow> (string \<Rightarrow> bool) \<Rightarrow> string list \<Rightarrow> DestinationHealth list \<Rightarrow> DestinationHealth list" where
  "health_addresses t dt isDown [] out = out"
| "health_addresses t dt isDown (addr # addrs) out =
     (let dids = DeliveryDIDs t dt addr;
          dids = (if length dids = 0 then [''''] else dids)
      in health_addresses t dt isDown addrs (health_dids addr (isDown addr) dids out))"

fun health_tasks :: "DeliveryType \<Rightarrow> (InterceptTask \<Rightarrow> string list) \<Rightarrow> (string \<Rightarrow> bool) \<Rightarrow> InterceptTask list \<Rightarrow> DestinationHealth list \<Rightarrow> DestinationHealth list" where
  "health_tasks dt dests isDown [] out = out"
| "health_tasks dt dests isDown (t # ts) out =
     health_tasks dt dests isDown ts (health_addresses t dt isDown (dests t) out)"

definition DestinationHealthOf ::
  "InterceptTask list \<Rightarrow> DeliveryType \<Rightarrow> (InterceptTask \<Rightarrow> string list) \<Rightarrow> (string \<Rightarrow> bool) \<Rightarrow> DestinationHealth list" where
  "DestinationHealthOf tasks dt dests isDown = health_tasks dt dests isDown tasks []"

text \<open>The loop of \<open>sample\<close> over the destinations, with the two flags it keeps about unnamed ones.\<close>

fun sample_loop :: "(report \<Rightarrow> 'e option) \<Rightarrow> string \<Rightarrow> DestinationHealth list \<Rightarrow> bool \<Rightarrow> bool \<Rightarrow> Reporter \<Rightarrow> bool \<times> bool \<times> Reporter" where
  "sample_loop answers c [] unnamed unnamedDown r = (unnamed, unnamedDown, r)"
| "sample_loop answers c (h # hs) unnamed unnamedDown r =
     (if dhDID h = '''' then sample_loop answers c hs True (unnamedDown \<or> dhUnreachable h) r
      else if dhUnreachable h
      then sample_loop answers c hs unnamed unnamedDown
             (NotifyDestinationFault answers (dhDID h) c ''delivery destination is unreachable'' r)
      else sample_loop answers c hs unnamed unnamedDown (NotifyDestinationClear answers (dhDID h) c r))"

definition sample :: "(report \<Rightarrow> 'e option) \<Rightarrow> string \<Rightarrow> DestinationHealth list \<Rightarrow> Reporter \<Rightarrow> Reporter" where
  "sample answers c health r =
     (let (unnamed, unnamedDown, r1) = sample_loop answers c health False False r in
      if \<not> unnamed then r1
      else if unnamedDown then NotifyElementFault answers c ''a delivery destination is unreachable'' r1
      else NotifyElementClear answers c r1)"

text \<open>The interval of a new watcher, and its nudge: a buffer for one.\<close>

definition watcher_interval :: "int \<Rightarrow> int" where
  "watcher_interval interval = (if interval \<le> 0 then reportThrottle else interval)"

definition Nudge :: "bool \<Rightarrow> bool" where
  "Nudge waiting = (if \<not> waiting then True else waiting)"

subsection \<open>Reports in flight\<close>

text \<open>
  Calls of different goroutines interleave between a reservation and its settlement. \<open>exchanges\<close>
  records, in the order they were settled, the exchanges with the ADMF: the condition, whether it was
  announced or retracted, when, whether the ADMF took the report (\<open>exTaken\<close>), and whether the
  reporter was told so (\<open>exTold\<close>, no error from the call). The two are independent: an answer can be
  lost on the way, and an answer that refuses can be read as one that does not.
\<close>

definition sent_out :: "report \<Rightarrow> Reporter \<Rightarrow> Reporter" where
  "sent_out m r = r\<lparr>outbox := outbox r @ [m]\<rparr>"

lemma post_sent_out: "post answers m r = (sent_out m r, answers m)"
  by (simp add: post_def sent_out_def)

lemmas sends = post_sent_out reportNEIssueAs_def ReportDestinationIssue_def

datatype attempt = Announce | Retract

record exchange =
  exKey :: reportKey
  exAttempt :: attempt
  exAt :: int
  exTaken :: bool
  exTold :: bool

record reporting =
  rp :: Reporter
  pending :: "(reportKey \<times> attempt) list"
  exchanges :: "exchange list"

definition settled :: "reportKey \<Rightarrow> attempt \<Rightarrow> bool \<Rightarrow> string option \<Rightarrow> reporting \<Rightarrow> exchange" where
  "settled k a took err y = \<lparr>exKey = k, exAttempt = a, exAt = rpNow (rp y), exTaken = took, exTold = (err = None)\<rparr>"

inductive rep_step :: "reporting \<Rightarrow> reporting \<Rightarrow> bool" where
  announce: "reserve k (rp y) = (r, True) \<Longrightarrow> rep_step y (y\<lparr>rp := sent_out m r, pending := (k, Announce) # pending y\<rparr>)"
| announced: "(k, Announce) \<in> set (pending y) \<Longrightarrow>
    rep_step y (y\<lparr>rp := settle k err (rp y), pending := remove1 (k, Announce) (pending y),
      exchanges := exchanges y @ [settled k Announce took err y]\<rparr>)"
| retract: "clearing k (rp y) = (r, True) \<Longrightarrow> rep_step y (y\<lparr>rp := sent_out m r, pending := (k, Retract) # pending y\<rparr>)"
| retracted: "(k, Retract) \<in> set (pending y) \<Longrightarrow>
    rep_step y (y\<lparr>rp := settleClear k err (rp y), pending := remove1 (k, Retract) (pending y),
      exchanges := exchanges y @ [settled k Retract took err y]\<rparr>)"
| later: "0 \<le> d \<Longrightarrow> rep_step y (y\<lparr>rp := (rp y)\<lparr>rpNow := rpNow (rp y) + d\<rparr>\<rparr>)"

definition reporting_init :: "string \<Rightarrow> string \<Rightarrow> (nat \<Rightarrow> string) \<Rightarrow> int \<Rightarrow> reporting" where
  "reporting_init a ne fresh t = \<lparr>rp = NewReporter a ne fresh t, pending = [], exchanges = []\<rparr>"

text \<open>The reports the ADMF took, and those the reporter was told it took.\<close>

definition entry :: "exchange \<Rightarrow> reportKey \<times> attempt \<times> int" where
  "entry e = (exKey e, exAttempt e, exAt e)"

definition taken_reports :: "exchange list \<Rightarrow> (reportKey \<times> attempt \<times> int) list" where
  "taken_reports es = map entry (filter exTaken es)"

definition told_reports :: "exchange list \<Rightarrow> (reportKey \<times> attempt \<times> int) list" where
  "told_reports es = map entry (filter exTold es)"

text \<open>The faults that stand after such reports, with the time of the last announcement.\<close>

fun accept_report :: "(reportKey \<rightharpoonup> int) \<Rightarrow> reportKey \<times> attempt \<times> int \<Rightarrow> (reportKey \<rightharpoonup> int)" where
  "accept_report m (k, Announce, t) = m(k \<mapsto> t)"
| "accept_report m (k, Retract, t) = m(k := None)"

definition standing :: "(reportKey \<times> attempt \<times> int) list \<Rightarrow> (reportKey \<rightharpoonup> int)" where
  "standing es = foldl accept_report Map.empty es"

fun fits :: "(reportKey \<rightharpoonup> int) \<Rightarrow> reportKey \<times> attempt \<times> int \<Rightarrow> bool" where
  "fits m (k, Announce, t) \<longleftrightarrow> (case m k of None \<Rightarrow> True | Some t' \<Rightarrow> t - t' \<ge> reportThrottle)"
| "fits m (k, Retract, t) \<longleftrightarrow> m k \<noteq> None"

text \<open>Every exchange fits what the reporter knew the ADMF to hold.\<close>

definition orderly :: "exchange list \<Rightarrow> bool" where
  "orderly es \<longleftrightarrow> (\<forall>i < length es. fits (standing (told_reports (take i es))) (entry (es ! i)))"

text \<open>
  Both sides agree about a condition: the last exchange about it that either side counts as done is one
  that the ADMF took and the reporter was told of.
\<close>

definition in_step :: "reportKey \<Rightarrow> exchange list \<Rightarrow> bool" where
  "in_step k es =
     foldl (\<lambda>b e. if exKey e \<noteq> k \<or> \<not> exTaken e \<and> \<not> exTold e then b else exTaken e \<and> exTold e) True es"

lemma standing_snoc [simp]: "standing (es @ [e]) = accept_report (standing es) e"
  by (simp add: standing_def)

lemma reports_snoc [simp]:
  "taken_reports (es @ [e]) = taken_reports es @ (if exTaken e then [entry e] else [])"
  "told_reports (es @ [e]) = told_reports es @ (if exTold e then [entry e] else [])"
  "in_step k (es @ [e]) = (if exKey e \<noteq> k \<or> \<not> exTaken e \<and> \<not> exTold e then in_step k es else exTaken e \<and> exTold e)"
  by (simp_all add: taken_reports_def told_reports_def in_step_def)

lemma reports_Nil [simp]: "taken_reports [] = []" "told_reports [] = []" "in_step k []"
  by (simp_all add: taken_reports_def told_reports_def in_step_def)

lemma orderly_snoc: "orderly (es @ [e]) \<longleftrightarrow> orderly es \<and> fits (standing (told_reports es)) (entry e)"
  by (auto simp: orderly_def nth_append less_Suc_eq)

lemma accept_report_entry:
  "accept_report m (entry e) k =
     (if exKey e = k then (case exAttempt e of Announce \<Rightarrow> Some (exAt e) | Retract \<Rightarrow> None) else m k)"
  by (cases "exAttempt e") (auto simp: entry_def)

lemma in_step_standing:
  "in_step k es \<Longrightarrow> (standing (told_reports es) k = None) = (standing (taken_reports es) k = None)"
proof (induction es rule: rev_induct)
  case Nil
  then show ?case by simp
next
  case (snoc e es)
  then show ?case by (auto simp: accept_report_entry split: if_splits attempt.split)
qed

text \<open>
  The representation invariant: a key is reserved exactly while an exchange about it is under way,
  what the reporter remembers is what it was told, and the reservation of an announcement was made
  outside the throttle window.
\<close>

definition rep_inv :: "reporting \<Rightarrow> bool" where
  "rep_inv y \<longleftrightarrow> distinct (map fst (pending y)) \<and>
     (\<forall>k. flag (sending (rp y)) k \<longleftrightarrow> k \<in> fst ` set (pending y)) \<and>
     (\<forall>k. map_of (lastSent (rp y)) k = standing (told_reports (exchanges y)) k) \<and>
     (\<forall>k. flag (reported (rp y)) k \<longleftrightarrow> standing (told_reports (exchanges y)) k \<noteq> None) \<and>
     (\<forall>k t. standing (told_reports (exchanges y)) k = Some t \<longrightarrow> t \<le> rpNow (rp y)) \<and>
     (\<forall>e \<in> set (pending y). fits (standing (told_reports (exchanges y))) (fst e, snd e, rpNow (rp y))) \<and>
     orderly (exchanges y)"

lemma flag_simps [simp]:
  "flag [] k = False" "flag (AList.update j b m) k = (if k = j then b else flag m k)"
  "flag (AList.delete j m) k = (k \<noteq> j \<and> flag m k)"
  by (auto simp: flag_def go_maps)

lemma sent_out_simps [simp]:
  "rpNow (sent_out m r) = rpNow r" "lastSent (sent_out m r) = lastSent r" "sending (sent_out m r) = sending r"
  "reported (sent_out m r) = reported r"
  by (simp_all add: sent_out_def)

lemma reserve_shape:
  "reserve k r = (r', go) \<Longrightarrow>
   (go \<longleftrightarrow> \<not> flag (sending r) k \<and> (case map_of (lastSent r) k of None \<Rightarrow> True | Some t \<Rightarrow> rpNow r - t \<ge> reportThrottle)) \<and>
   r' = (if go then r\<lparr>sending := AList.update k True (sending r)\<rparr> else r)"
  by (auto simp: reserve_def Sub_def reportThrottle_def maxDuration_def minDuration_def split: if_splits option.splits)

lemma clearing_shape:
  "clearing k r = (r', go) \<Longrightarrow>
   (go \<longleftrightarrow> \<not> flag (sending r) k \<and> flag (reported r) k) \<and> r' = (if go then r\<lparr>sending := AList.update k True (sending r)\<rparr> else r)"
  by (auto simp: clearing_def split: if_splits)

lemma rep_inv_init: "rep_inv (reporting_init a ne fr t)"
  by (simp add: rep_inv_def reporting_init_def NewReporter_def standing_def orderly_def)

text \<open>An exchange that ends touches its own key only.\<close>

lemma fits_other: "j \<noteq> k \<Longrightarrow> fits (accept_report m (k, a, t)) (j, b, u) = fits m (j, b, u)"
  by (cases a; cases b) auto

lemma pending_others:
  assumes "distinct (map fst xs)" and "(k, a) \<in> set xs"
  shows "distinct (map fst (remove1 (k, a) xs))" and "fst ` set (remove1 (k, a) xs) = fst ` set xs - {k}"
    and "e \<in> set (remove1 (k, a) xs) \<Longrightarrow> e \<in> set xs \<and> fst e \<noteq> k"
proof -
  have d: "distinct xs" using assms(1) by (simp add: distinct_map)
  have inj: "inj_on fst (set xs)" using assms(1) by (simp add: distinct_map)
  show "distinct (map fst (remove1 (k, a) xs))"
    using d inj by (auto simp: distinct_map intro: inj_on_subset)
  show e: "e \<in> set xs \<and> fst e \<noteq> k" if "e \<in> set (remove1 (k, a) xs)" for e
    using that d inj_onD [OF inj, of e "(k, a)"] assms(2) by (auto simp: set_remove1_eq)
  show "fst ` set (remove1 (k, a) xs) = fst ` set xs - {k}"
    using d e assms(2) by (auto simp: set_remove1_eq image_iff)
qed

lemma rep_invD:
  assumes "rep_inv y"
  shows "distinct (map fst (pending y))" and "flag (sending (rp y)) k \<longleftrightarrow> k \<in> fst ` set (pending y)"
    and "map_of (lastSent (rp y)) k = standing (told_reports (exchanges y)) k" and "flag (reported (rp y)) k \<longleftrightarrow> standing (told_reports (exchanges y)) k \<noteq> None"
    and "standing (told_reports (exchanges y)) k = Some t \<Longrightarrow> t \<le> rpNow (rp y)"
    and "e \<in> set (pending y) \<Longrightarrow> fits (standing (told_reports (exchanges y))) (fst e, snd e, rpNow (rp y))" and "orderly (exchanges y)"
  using assms unfolding rep_inv_def by blast+

lemma rep_inv_ends:
  assumes inv: "rep_inv y" and p: "(k, a) \<in> set (pending y)" and e: "e = settled k a took err y"
    and r: "\<And>j. flag (sending r) j \<longleftrightarrow> j \<noteq> k \<and> flag (sending (rp y)) j" "rpNow r = rpNow (rp y)"
      "\<And>j. map_of (lastSent r) j = standing (told_reports (exchanges y @ [e])) j"
      "\<And>j. flag (reported r) j \<longleftrightarrow> standing (told_reports (exchanges y @ [e])) j \<noteq> None"
  shows "rep_inv (y\<lparr>rp := r, pending := remove1 (k, a) (pending y), exchanges := exchanges y @ [e]\<rparr>)"
proof -
  let ?es = "exchanges y @ [e]"
  note q = pending_others [OF rep_invD(1) [OF inv] p]
  have entry: "entry e = (k, a, rpNow (rp y))" by (simp add: e settled_def entry_def)
  have "orderly ?es" using rep_invD(7) [OF inv] rep_invD(6) [OF inv p] by (simp add: orderly_snoc entry)
  moreover have "t \<le> rpNow (rp y)" if "standing (told_reports ?es) j = Some t" for j t
    using that rep_invD(5) [OF inv] by (cases a) (auto simp: entry split: if_splits)
  moreover have "fits (standing (told_reports ?es)) (fst f, snd f, rpNow (rp y))" if "f \<in> set (remove1 (k, a) (pending y))" for f
  proof -
    from q(3) [OF that] have f: "f \<in> set (pending y)" "fst f \<noteq> k" by auto
    show ?thesis using rep_invD(6) [OF inv f(1)] fits_other [OF f(2)] by (simp add: entry)
  qed
  ultimately show ?thesis
    unfolding rep_inv_def using q(1,2) r rep_invD(2) [OF inv] by simp blast
qed

lemma rep_inv_starts:
  assumes inv: "rep_inv y" and "\<not> flag (sending (rp y)) k" and "fits (standing (told_reports (exchanges y))) (k, a, rpNow (rp y))"
  shows "rep_inv (y\<lparr>rp := sent_out m ((rp y)\<lparr>sending := AList.update k True (sending (rp y))\<rparr>), pending := (k, a) # pending y\<rparr>)"
  using assms unfolding rep_inv_def by auto

lemma fits_later: "fits m (k, a, t) \<Longrightarrow> t \<le> u \<Longrightarrow> fits m (k, a, u)"
  by (cases a) (auto split: option.splits)

lemma rep_inv_later:
  assumes inv: "rep_inv y" and "0 \<le> d"
  shows "rep_inv (y\<lparr>rp := (rp y)\<lparr>rpNow := rpNow (rp y) + d\<rparr>\<rparr>)"
proof -
  have "fits (standing (told_reports (exchanges y))) (fst e, snd e, rpNow (rp y) + d)" if "e \<in> set (pending y)" for e
    using fits_later [OF rep_invD(6) [OF inv that]] assms(2) by simp
  moreover have "t \<le> rpNow (rp y) + d" if "standing (told_reports (exchanges y)) k = Some t" for k t
    using rep_invD(5) [OF inv that] assms(2) by simp
  ultimately show ?thesis using inv unfolding rep_inv_def by simp
qed

lemma rep_inv_step: "rep_step y z \<Longrightarrow> rep_inv y \<Longrightarrow> rep_inv z"
proof (induction rule: rep_step.induct)
  case (announce k y r m)
  from reserve_shape [OF announce(1)] rep_invD(3) [OF announce(2), of k]
  have "\<not> flag (sending (rp y)) k" "fits (standing (told_reports (exchanges y))) (k, Announce, rpNow (rp y))"
    "r = (rp y)\<lparr>sending := AList.update k True (sending (rp y))\<rparr>" by (auto split: option.splits)
  with rep_inv_starts [OF announce(2)] show ?case by simp
next
  case (announced k y err took)
  show ?case
    by (rule rep_inv_ends [OF announced(2,1) refl])
      (use rep_invD(3,4) [OF announced(2)] in \<open>auto simp: settle_def release_def commit_def go_maps settled_def entry_def\<close>)
next
  case (retract k y r m)
  from clearing_shape [OF retract(1)] rep_invD(4) [OF retract(2), of k]
  have "\<not> flag (sending (rp y)) k" "fits (standing (told_reports (exchanges y))) (k, Retract, rpNow (rp y))"
    "r = (rp y)\<lparr>sending := AList.update k True (sending (rp y))\<rparr>" by auto
  with rep_inv_starts [OF retract(2)] show ?case by simp
next
  case (retracted k y err took)
  show ?case
    by (rule rep_inv_ends [OF retracted(2,1) refl])
      (use rep_invD(3,4) [OF retracted(2)] in \<open>auto simp: settleClear_def release_def commitClear_def go_maps settled_def entry_def\<close>)
next
  case (later d y)
  then show ?case by (simp add: rep_inv_later)
qed

lemma rep_inv_reachable: "rep_step\<^sup>*\<^sup>* (reporting_init a ne fr t) y \<Longrightarrow> rep_inv y"
  by (induction rule: rtranclp_induct) (auto intro: rep_inv_step rep_inv_init)

subsection \<open>What a sample tells the ADMF\<close>

text \<open>A reporter with nothing in flight whose memory of announcements and of faults agree.\<close>

definition quiet :: "Reporter \<Rightarrow> bool" where
  "quiet r \<longleftrightarrow> (\<forall>k. \<not> flag (sending r) k) \<and> (\<forall>k. flag (reported r) k \<longleftrightarrow> map_of (lastSent r) k \<noteq> None)"

lemma quiet_reachable: "rep_step\<^sup>*\<^sup>* (reporting_init a ne fr t) y \<Longrightarrow> pending y = [] \<Longrightarrow> quiet (rp y)"
  using rep_invD(2-4) [OF rep_inv_reachable] by (simp add: quiet_def)

text \<open>\<open>tells k b r r'\<close>: the only fault whose record may differ is the one at \<open>k\<close>, which is now \<open>b\<close>.\<close>

definition tells :: "reportKey \<Rightarrow> bool \<Rightarrow> Reporter \<Rightarrow> Reporter \<Rightarrow> bool" where
  "tells k b r r' \<longleftrightarrow> quiet r' \<and> (\<forall>j. flag (reported r') j \<longleftrightarrow> (if j = k then b else flag (reported r) j))"

lemma announce_tells:
  assumes "quiet r" and "reserve k r = (r1, go)"
  shows "tells k True r (if go then settle k None (sent_out m r1) else r1)"
  using assms reserve_shape [OF assms(2)]
  by (auto simp: tells_def quiet_def settle_def commit_def go_maps split: option.splits if_splits)

lemma retract_tells:
  assumes "quiet r" and "clearing k r = (r1, go)"
  shows "tells k False r (if go then settleClear k None (sent_out m r1) else r1)"
  using assms clearing_shape [OF assms(2)]
  by (auto simp: tells_def quiet_def settleClear_def commitClear_def go_maps)

text \<open>A notification is one of these two, whatever the message.\<close>

lemma notify_tells:
  assumes "quiet r" and "\<forall>m. answers m = None"
  shows "tells (destinationKey did c) True r (NotifyDestinationFault answers did c d r)"
    and "tells (destinationKey did c) False r (NotifyDestinationClear answers did c r)"
    and "tells (elementKey c) True r (NotifyElementFault answers c d r)"
    and "tells (elementKey c) False r (NotifyElementClear answers c r)"
proof -
  obtain r1 go where a: "reserve (destinationKey did c) r = (r1, go)" by (metis prod.exhaust)
  show "tells (destinationKey did c) True r (NotifyDestinationFault answers did c d r)"
    using announce_tells [OF assms(1) a] assms(2) by (cases go) (simp_all add: NotifyDestinationFault_def sends a Let_def)
  obtain r1 go where a: "reserve (elementKey c) r = (r1, go)" by (metis prod.exhaust)
  show "tells (elementKey c) True r (NotifyElementFault answers c d r)"
    using announce_tells [OF assms(1) a] assms(2) by (cases go) (simp_all add: NotifyElementFault_def sends a Let_def)
  obtain r1 go where a: "clearing (destinationKey did c) r = (r1, go)" by (metis prod.exhaust)
  show "tells (destinationKey did c) False r (NotifyDestinationClear answers did c r)"
    using retract_tells [OF assms(1) a] assms(2) by (cases go) (simp_all add: NotifyDestinationClear_def sends a Let_def)
  obtain r1 go where a: "clearing (elementKey c) r = (r1, go)" by (metis prod.exhaust)
  show "tells (elementKey c) False r (NotifyElementClear answers c r)"
    using retract_tells [OF assms(1) a] assms(2) by (cases go) (simp_all add: NotifyElementClear_def sends a Let_def)
qed

lemma sample_loop_tells:
  assumes "sample_loop answers c hs u d r = (u', d', r')" and "quiet r" and "\<forall>m. answers m = None"
    and "distinct (map dhDID (filter (\<lambda>h. dhDID h \<noteq> '''') hs))"
  shows "quiet r' \<and> (u' \<longleftrightarrow> u \<or> (\<exists>h \<in> set hs. dhDID h = '''')) \<and> (d' \<longleftrightarrow> d \<or> (\<exists>h \<in> set hs. dhDID h = '''' \<and> dhUnreachable h)) \<and>
    (\<forall>h \<in> set hs. dhDID h \<noteq> '''' \<longrightarrow> (flag (reported r') (destinationKey (dhDID h) c) \<longleftrightarrow> dhUnreachable h)) \<and>
    (\<forall>j. (\<forall>h \<in> set hs. dhDID h \<noteq> '''' \<longrightarrow> j \<noteq> destinationKey (dhDID h) c) \<longrightarrow> flag (reported r') j = flag (reported r) j)"
  using assms
proof (induction hs arbitrary: u d r)
  case (Cons h hs)
  show ?case
  proof (cases "dhDID h = ''''")
    case True
    with Cons.IH [of True "d \<or> dhUnreachable h" r] Cons.prems show ?thesis by auto
  next
    case False
    let ?r = "if dhUnreachable h then NotifyDestinationFault answers (dhDID h) c ''delivery destination is unreachable'' r
      else NotifyDestinationClear answers (dhDID h) c r"
    have t: "tells (destinationKey (dhDID h) c) (dhUnreachable h) r ?r"
      using notify_tells(1,2) [OF Cons.prems(2,3)] by simp
    have "sample_loop answers c hs u d ?r = (u', d', r')" using Cons.prems(1) False by (auto split: if_splits)
    from Cons.IH [OF this _ Cons.prems(3)] t False Cons.prems(4)
    have IH: "quiet r'" "u' \<longleftrightarrow> u \<or> (\<exists>h \<in> set hs. dhDID h = '''')" "d' \<longleftrightarrow> d \<or> (\<exists>h \<in> set hs. dhDID h = '''' \<and> dhUnreachable h)"
      "\<forall>g \<in> set hs. dhDID g \<noteq> '''' \<longrightarrow> (flag (reported r') (destinationKey (dhDID g) c) \<longleftrightarrow> dhUnreachable g)"
      "\<forall>j. (\<forall>g \<in> set hs. dhDID g \<noteq> '''' \<longrightarrow> j \<noteq> destinationKey (dhDID g) c) \<longrightarrow> flag (reported r') j = flag (reported ?r) j"
      by (auto simp: tells_def)
    have "flag (reported r') (destinationKey (dhDID h) c) = flag (reported ?r) (destinationKey (dhDID h) c)"
      by (rule IH(5) [rule_format]) (use False Cons.prems(4) in \<open>auto simp: destinationKey_def rev_image_eqI\<close>)
    with t have "flag (reported r') (destinationKey (dhDID h) c) = dhUnreachable h" by (simp add: tells_def)
    with IH t False show ?thesis by (auto simp: tells_def)
  qed
qed auto

lemma sample_tells:
  assumes "quiet r" and "\<forall>m. answers m = None" and "distinct (map dhDID (filter (\<lambda>h. dhDID h \<noteq> '''') hs))"
  shows "quiet (sample answers c hs r)"
    and "h \<in> set hs \<Longrightarrow> dhDID h \<noteq> '''' \<Longrightarrow> flag (reported (sample answers c hs r)) (destinationKey (dhDID h) c) \<longleftrightarrow> dhUnreachable h"
    and "\<exists>h \<in> set hs. dhDID h = '''' \<Longrightarrow>
      flag (reported (sample answers c hs r)) (elementKey c) \<longleftrightarrow> (\<exists>h \<in> set hs. dhDID h = '''' \<and> dhUnreachable h)"
proof -
  obtain u d r1 where l: "sample_loop answers c hs False False r = (u, d, r1)" by (metis prod_cases3)
  note s = sample_loop_tells [OF l assms]
  have ne: "destinationKey x c \<noteq> elementKey c" for x by (simp add: destinationKey_def elementKey_def)
  have e: "sample answers c hs r = (if u then if d then NotifyElementFault answers c ''a delivery destination is unreachable'' r1
      else NotifyElementClear answers c r1 else r1)" by (simp add: sample_def l)
  have t: "u \<Longrightarrow> tells (elementKey c) d r1 (sample answers c hs r)"
    using notify_tells(3,4) [OF _ assms(2), of r1 c] s by (cases d) (simp_all add: e)
  show "quiet (sample answers c hs r)" using s t e by (cases u) (auto simp: tells_def)
  show "h \<in> set hs \<Longrightarrow> dhDID h \<noteq> '''' \<Longrightarrow> flag (reported (sample answers c hs r)) (destinationKey (dhDID h) c) \<longleftrightarrow> dhUnreachable h"
    using s t e ne by (cases u) (auto simp: tells_def)
  show "\<exists>h \<in> set hs. dhDID h = '''' \<Longrightarrow>
      flag (reported (sample answers c hs r)) (elementKey c) \<longleftrightarrow> (\<exists>h \<in> set hs. dhDID h = '''' \<and> dhUnreachable h)"
    using s t by (auto simp: tells_def)
qed

subsection \<open>The destinations of the tasks held\<close>

text \<open>What the loops of \<open>DestinationHealthOf\<close> list, and that they list it once.\<close>

definition health_ok :: "(string \<Rightarrow> bool) \<Rightarrow> DestinationHealth list \<Rightarrow> bool" where
  "health_ok isDown out \<longleftrightarrow> distinct (map (\<lambda>h. (dhDID h, dhAddress h)) out) \<and> (\<forall>h \<in> set out. dhUnreachable h = isDown (dhAddress h))"

abbreviation listed :: "DestinationHealth list \<Rightarrow> (string \<times> string) set" where
  "listed out \<equiv> (\<lambda>h. (dhDID h, dhAddress h)) ` set out"

lemma health_dids_lists:
  "health_ok isDown out \<Longrightarrow> health_ok isDown (health_dids addr (isDown addr) dids out) \<and>
   listed (health_dids addr (isDown addr) dids out) = listed out \<union> {(did, addr) | did. did \<in> set dids}"
proof (induction dids arbitrary: out)
  case (Cons did dids)
  show ?case
  proof (cases "list_ex (\<lambda>h. dhDID h = did \<and> dhAddress h = addr) out")
    case True
    then have "(did, addr) \<in> listed out" by (auto simp: list_ex_iff rev_image_eqI)
    with Cons True show ?thesis by auto
  next
    case False
    then have "(did, addr) \<notin> listed out" by (auto simp: list_ex_iff)
    with Cons.prems have "health_ok isDown (out @ [\<lparr>dhDID = did, dhAddress = addr, dhUnreachable = isDown addr\<rparr>])"
      by (auto simp: health_ok_def)
    from Cons.IH [OF this] False show ?thesis by auto
  qed
qed simp

definition identifiers :: "InterceptTask \<Rightarrow> DeliveryType \<Rightarrow> string \<Rightarrow> string list" where
  "identifiers t dt addr = (if DeliveryDIDs t dt addr = [] then [''''] else DeliveryDIDs t dt addr)"

lemma health_addresses_lists:
  "health_ok isDown out \<Longrightarrow> health_ok isDown (health_addresses t dt isDown addrs out) \<and>
   listed (health_addresses t dt isDown addrs out) =
     listed out \<union> {(did, addr) | did addr. addr \<in> set addrs \<and> did \<in> set (identifiers t dt addr)}"
proof (induction addrs arbitrary: out)
  case (Cons addr addrs)
  let ?out = "health_dids addr (isDown addr) (identifiers t dt addr) out"
  have "health_addresses t dt isDown (addr # addrs) out = health_addresses t dt isDown addrs ?out"
    by (simp add: identifiers_def Let_def)
  with Cons.IH [of ?out] health_dids_lists [OF Cons.prems, of addr "identifiers t dt addr"] show ?case by auto
qed simp

lemma health_tasks_lists:
  "health_ok isDown out \<Longrightarrow> health_ok isDown (health_tasks dt dests isDown ts out) \<and>
   listed (health_tasks dt dests isDown ts out) =
     listed out \<union> {(did, addr) | did addr t. t \<in> set ts \<and> addr \<in> set (dests t) \<and> did \<in> set (identifiers t dt addr)}"
proof (induction ts arbitrary: out)
  case (Cons t ts)
  from Cons.IH health_addresses_lists [OF Cons.prems, of t dt "dests t"] show ?case by auto
qed simp

lemma DestinationHealthOf_lists:
  "health_ok isDown (DestinationHealthOf ts dt dests isDown)"
  "listed (DestinationHealthOf ts dt dests isDown) =
     {(did, addr) | did addr t. t \<in> set ts \<and> addr \<in> set (dests t) \<and> did \<in> set (identifiers t dt addr)}"
  using health_tasks_lists [of isDown "[]" dt dests ts] by (simp_all add: DestinationHealthOf_def health_ok_def)

text \<open>An identifier that a held task delivers under resolves to one address.\<close>

lemma endpoints_name: "e \<in> set (endpoints d did) \<Longrightarrow> deDID e = did \<and> deAddress e = hdAddress d"
  by (auto simp: endpoints_def split: if_splits)

lemma delivered_address:
  assumes "tasking_ok s" and "t \<in> set (Snapshot (store s))" and "did \<in> set (DeliveryDIDs t dt addr)"
  shows "\<exists>d. resolveLocked did s = Some d \<and> addr = hdAddress d"
proof -
  have "store_inv (store s)" using assms(1) by (simp add: tasking_ok_def)
  then obtain x where "store_abs (store s) x = Some t" using assms(2) st.set_tasks by (auto simp: ran_def)
  then have "task_ok s t" using assms(1) by (auto simp: tasking_ok_def)
  then have "Deliveries t = concat (map (\<lambda>did. case resolveLocked did s of Some d \<Rightarrow> endpoints d did | None \<Rightarrow> []) (DIDs t))"
    by (simp add: task_ok_def resolveDIDs_alt)
  moreover obtain e where "e \<in> set (Deliveries t)" "deDID e = did" "deAddress e = addr"
    using assms(3) by (auto simp: DeliveryDIDs_firsts)
  ultimately obtain did' where "e \<in> set (case resolveLocked did' s of Some d \<Rightarrow> endpoints d did' | None \<Rightarrow> [])" by auto
  then obtain d where "resolveLocked did' s = Some d" "e \<in> set (endpoints d did')" by (cases "resolveLocked did' s") auto
  with endpoints_name [of e d did'] \<open>deDID e = did\<close> \<open>deAddress e = addr\<close> show ?thesis by auto
qed

lemma one_entry_per_identifier:
  assumes "tasking_ok s"
  shows "distinct (map dhDID (filter (\<lambda>h. dhDID h \<noteq> '''') (DestinationHealthOf (Snapshot (store s)) dt dests isDown)))"
proof -
  let ?hs = "DestinationHealthOf (Snapshot (store s)) dt dests isDown"
  have d: "distinct (map (\<lambda>h. (dhDID h, dhAddress h)) ?hs)" using DestinationHealthOf_lists(1) by (auto simp: health_ok_def)
  have "\<exists>d. resolveLocked (dhDID h) s = Some d \<and> dhAddress h = hdAddress d" if "h \<in> set ?hs" "dhDID h \<noteq> ''''" for h
  proof -
    have "(dhDID h, dhAddress h) \<in> listed ?hs" using that(1) by blast
    then obtain t where "t \<in> set (Snapshot (store s))" "dhDID h \<in> set (identifiers t dt (dhAddress h))"
      unfolding DestinationHealthOf_lists(2) by auto
    with that(2) show ?thesis by (intro delivered_address [OF assms]) (auto simp: identifiers_def split: if_splits)
  qed
  then have "dhAddress g = dhAddress h" if "g \<in> set ?hs" "h \<in> set ?hs" "dhDID g \<noteq> ''''" "dhDID g = dhDID h" for g h
    using that by (metis option.inject)
  with d show ?thesis
    by (auto simp: distinct_map distinct_filter inj_on_def)
qed

subsection \<open>Identifiers\<close>

lemma hex_digit_lhex: "d < 16 \<Longrightarrow> is_lhex (hex_digit d)"
  by (auto simp: hex_digit_def is_lhex_def is_digit_def code_of_def)

lemma hex_text_shape: "length (hex_text bs) = 2 * length bs \<and> list_all is_lhex (hex_text bs)"
proof (induction bs)
  case (Cons b bs)
  have "unat b div 16 < 16" using unat_byte_less [of b] by (intro less_mult_imp_div_less) simp
  moreover have "unat b mod 16 < 16" by simp
  ultimately show ?case using Cons by (simp add: hex_text_def hex_digit_lhex)
qed (simp add: hex_text_def)

lemma groups_match_join:
  "length a = n \<Longrightarrow> list_all is_lhex a \<Longrightarrow> groups_match (m # ns) s \<Longrightarrow> groups_match (n # m # ns) (a @ CHR ''-'' # s)"
  by (simp add: nth_append)

text \<open>A generated identifier is one the schema, and this element's own checks, accept.\<close>

lemma newUUID_valid: "length random = 16 \<Longrightarrow> uuidPattern (newUUID random)"
  unfolding uuidPattern_def newUUID_def Let_def
  by (simp only: append.simps) (intro groups_match_join; simp add: hex_text_shape)

subsection \<open>Properties\<close>

text \<open>
  C18. What the reporter remembers and what the ADMF holds. Reports and retractions interleave in any
  way, the ADMF takes a report or does not, and independently of that the reporter is told of success
  or of failure. For each condition: the reporter counts it as reported exactly while the ADMF holds
  it, provided that the last exchange about it that either of them counts as done is one that the
  ADMF took and the reporter was told of; a lost answer parts them, and the next exchange that both
  count as done joins them again. Whatever the ADMF does, an announcement is only made when none was
  confirmed before or the last confirmed one is a throttle interval back, a retraction only of a fault
  with a confirmed announcement, and no condition ever has two exchanges under way.
\<close>

theorem reports_track_the_admf:
  assumes "rep_step\<^sup>*\<^sup>* (reporting_init a ne fr t) y" and es: "es = exchanges y"
  shows "(\<forall>k. in_step k es \<longrightarrow> (flag (reported (rp y)) k \<longleftrightarrow> standing (taken_reports es) k \<noteq> None)) \<and>
    (\<forall>i < length es. let confirmed = standing (told_reports (take i es)) (exKey (es ! i)) in
       case exAttempt (es ! i) of
         Announce \<Rightarrow> (case confirmed of None \<Rightarrow> True | Some v \<Rightarrow> exAt (es ! i) - v \<ge> 30000000000)
       | Retract \<Rightarrow> confirmed \<noteq> None) \<and>
    distinct (map fst (pending y)) \<and> (\<forall>k. flag (sending (rp y)) k \<longleftrightarrow> k \<in> fst ` set (pending y))"
proof -
  note inv = rep_inv_reachable [OF assms(1)]
  have f: "fits m (entry e) \<longleftrightarrow> (case exAttempt e of
      Announce \<Rightarrow> (case m (exKey e) of None \<Rightarrow> True | Some v \<Rightarrow> exAt e - v \<ge> 30000000000) | Retract \<Rightarrow> m (exKey e) \<noteq> None)" for m e
    by (cases "exAttempt e") (simp_all add: entry_def reportThrottle_def split: option.splits)
  have "flag (reported (rp y)) k \<longleftrightarrow> standing (taken_reports es) k \<noteq> None" if "in_step k es" for k
    using rep_invD(4) [OF inv, of k] in_step_standing [OF that] es by auto
  then show ?thesis
    using rep_invD(1,2,7) [OF inv] unfolding es by (simp add: orderly_def f Let_def)
qed

text \<open>
  One announcement, with the ADMF's doing and the reporter's knowledge as given. When the answer is
  lost, the fault stands and the reporter will not retract it.
\<close>

lemma ex_announced:
  "\<exists>y. rep_step\<^sup>*\<^sup>* (reporting_init ''a'' ''ne'' fr 0) y \<and> pending y = [] \<and>
     exchanges y = [\<lparr>exKey = k, exAttempt = Announce, exAt = 0, exTaken = took, exTold = ((err :: string option) = None)\<rparr>]"
proof -
  let ?y0 = "reporting_init ''a'' ''ne'' fr 0"
  obtain r where r: "reserve k (rp ?y0) = (r, True)" by (simp add: reporting_init_def NewReporter_def reserve_def)
  let ?y1 = "?y0\<lparr>rp := sent_out m r, pending := (k, Announce) # pending ?y0\<rparr>"
  have "rep_step ?y0 ?y1" using r by (rule rep_step.announce)
  moreover let ?y2 = "?y1\<lparr>rp := settle k err (rp ?y1), pending := remove1 (k, Announce) (pending ?y1),
      exchanges := exchanges ?y1 @ [settled k Announce took err ?y1]\<rparr>"
  have "rep_step ?y1 ?y2" by (rule rep_step.announced) simp
  ultimately have "rep_step\<^sup>*\<^sup>* ?y0 ?y2" by (meson converse_rtranclp_into_rtranclp r_into_rtranclp)
  moreover have "rpNow r = 0" using reserve_shape [OF r] by (simp add: reporting_init_def NewReporter_def)
  then have "pending ?y2 = [] \<and>
      exchanges ?y2 = [\<lparr>exKey = k, exAttempt = Announce, exAt = 0, exTaken = took, exTold = (err = None)\<rparr>]"
    by (simp add: reporting_init_def settled_def)
  ultimately show ?thesis by blast
qed

theorem reports_track_the_admf_witness:
  "\<exists>y. rep_step\<^sup>*\<^sup>* (reporting_init ''a'' ''ne'' (\<lambda>i. ex_uuid) 0) y \<and> flag (reported (rp y)) (elementKey ''x'')"
proof -
  obtain y where y: "rep_step\<^sup>*\<^sup>* (reporting_init ''a'' ''ne'' (\<lambda>i. ex_uuid) 0) y"
    "exchanges y = [\<lparr>exKey = elementKey ''x'', exAttempt = Announce, exAt = 0, exTaken = True, exTold = True\<rparr>]"
    using ex_announced [where err = None and took = True] by auto
  with reports_track_the_admf [OF y(1) refl] show ?thesis
    by (auto simp: standing_def taken_reports_def in_step_def entry_def)
qed

lemma lost_answer_strands_fault:
  "\<exists>y. rep_step\<^sup>*\<^sup>* (reporting_init ''a'' ''ne'' fr 0) y \<and> standing (taken_reports (exchanges y)) k \<noteq> None \<and>
     clearing k (rp y) = (rp y, False)"
proof -
  obtain y where y: "rep_step\<^sup>*\<^sup>* (reporting_init ''a'' ''ne'' fr 0) y"
    "exchanges y = [\<lparr>exKey = k, exAttempt = Announce, exAt = 0, exTaken = True, exTold = False\<rparr>]"
    using ex_announced [where err = "Some ''''" and took = True and k = k] by auto
  have "\<not> flag (reported (rp y)) k"
    using rep_invD(4) [OF rep_inv_reachable [OF y(1)], of k] y(2) by (simp add: told_reports_def standing_def)
  then show ?thesis using y by (auto simp: clearing_def standing_def taken_reports_def entry_def)
qed



lemma sample_loop_unlisted:
  "sample_loop answers c hs u d r = (u', d', r') \<Longrightarrow> \<forall>h \<in> set hs. dhDID h \<noteq> did \<Longrightarrow>
   flag (reported r') (destinationKey did c) = flag (reported r) (destinationKey did c)"
proof (induction hs arbitrary: u d r)
  case (Cons h hs)
  have k: "destinationKey (dhDID h) c \<noteq> destinationKey did c" using Cons.prems(2) by (simp add: destinationKey_def)
  have "flag (reported (NotifyDestinationFault answers (dhDID h) c e r)) (destinationKey did c) = flag (reported r) (destinationKey did c)" for e
    using k by (auto simp: NotifyDestinationFault_def sends Let_def settle_def release_def commit_def dest: reserve_shape split: prod.splits)
  moreover have "flag (reported (NotifyDestinationClear answers (dhDID h) c r)) (destinationKey did c) = flag (reported r) (destinationKey did c)"
    using k by (auto simp: NotifyDestinationClear_def sends Let_def settleClear_def release_def commitClear_def dest: clearing_shape split: prod.splits)
  ultimately show ?case using Cons by (auto split: if_splits)
qed simp

text \<open>
  C36. A fault is only ever retracted by a sample that lists its destination. When the last task
  that named a destination is withdrawn while the destination is down, no later sample lists it, so
  whatever those samples contain and whatever the ADMF answers the fault neither ends nor begins.
\<close>

theorem unlisted_fault_stands:
  "did \<noteq> '''' \<Longrightarrow> \<forall>h \<in> set hs. dhDID h \<noteq> did \<Longrightarrow>
   flag (reported (sample answers c hs r)) (destinationKey did c) = flag (reported r) (destinationKey did c)"
proof -
  assume h: "\<forall>h \<in> set hs. dhDID h \<noteq> did"
  obtain u d r1 where l: "sample_loop answers c hs False False r = (u, d, r1)" by (metis prod_cases3)
  have k: "elementKey c \<noteq> destinationKey did c" by (simp add: elementKey_def destinationKey_def)
  have "flag (reported (NotifyElementFault answers c e r1)) (destinationKey did c) = flag (reported r1) (destinationKey did c)" for e
    using k by (auto simp: NotifyElementFault_def sends Let_def settle_def release_def commit_def dest: reserve_shape split: prod.splits)
  moreover have "flag (reported (NotifyElementClear answers c r1)) (destinationKey did c) = flag (reported r1) (destinationKey did c)"
    using k by (auto simp: NotifyElementClear_def sends Let_def settleClear_def release_def commitClear_def dest: clearing_shape split: prod.splits)
  ultimately show ?thesis using sample_loop_unlisted [OF l h] by (simp add: sample_def l)
qed

theorem unlisted_fault_stands_witness:
  "flag (reported (sample (\<lambda>m. None :: string option) ''x'' [] ((NewReporter ''a'' ''ne'' (\<lambda>i. ex_uuid) 0)
     \<lparr>reported := [(destinationKey ''d'' ''x'', True)]\<rparr>))) (destinationKey ''d'' ''x'')"
  using unlisted_fault_stands [of "''d''" "[]" "\<lambda>m. None :: string option" "''x''"
      "(NewReporter ''a'' ''ne'' (\<lambda>i. ex_uuid) 0)\<lparr>reported := [(destinationKey ''d'' ''x'', True)]\<rparr>"]
  by (simp add: flag_def)

text \<open>
  The element's own status is faulty exactly when the pool counts an unreachable destination, and
  no condition belongs to both scopes; every element condition is sent under one of the enumerated
  message types.
\<close>

lemma probe_asks_the_pool:
  "MDFUnreachableProbe (UnreachableAmong addrs p) = None \<longleftrightarrow> (\<forall>a \<in> set addrs. \<not> UnreachableAt a p)"
proof -
  have "fst (UnreachableAmong addrs p) = card {a \<in> set addrs. UnreachableAt a p}"
    by (simp add: UnreachableAmong_def among_loop_counts)
  moreover have "finite {a \<in> set addrs. UnreachableAt a p}" by simp
  ultimately show ?thesis by (auto simp: MDFUnreachableProbe_def Let_def case_prod_beta)
qed

lemma scopes_disjoint: "set taskScoped \<inter> fst ` set neIssueEncodings = {}"
  by (simp add: taskScoped_def neIssueEncodings_def report_literals)

lemma encodings_enumerated:
  "ieKind (encodeNEIssue condition) \<in> {neIssueWarning, neIssueFaultReport, neIssueAlert} \<and>
   ieCode (encodeNEIssue condition) \<in> {0, 9020, 9030, 9050, 10000}"
proof (cases "map_of neIssueEncodings condition")
  case (Some e)
  then have "e \<in> snd ` set neIssueEncodings" by (force dest: map_of_SomeD)
  with Some show ?thesis by (auto simp: encodeNEIssue_def neIssueEncodings_def report_literals)
qed (simp add: encodeNEIssue_def report_literals)

end
