(* ===== verification/Text.thy ===== *)
theory Text
  imports Prelude
begin

text \<open>
  Text as Go reads it: a string is bytes, and \<open>range\<close> over it or \<open>[]rune\<close> decodes UTF-8, where every
  byte that does not begin a well-formed sequence counts as one character, U+FFFD
  (\<open>unicode/utf8\<close>).
\<close>

definition RuneError :: nat where "RuneError = 65533"

definition continuation :: "nat \<Rightarrow> bool" where
  "continuation b \<longleftrightarrow> 128 \<le> b \<and> b < 192"

text \<open>The rune at the front of a byte string and its width in bytes.\<close>

fun DecodeRune :: "nat list \<Rightarrow> nat \<times> nat" where
  "DecodeRune [] = (RuneError, 0)"
| "DecodeRune (b0 # bs) =
     (if b0 < 128 then (b0, 1)
      else if 194 \<le> b0 \<and> b0 < 224 then
        (case bs of
           b1 # _ \<Rightarrow> if continuation b1 then ((b0 - 192) * 64 + (b1 - 128), 2) else (RuneError, 1)
         | [] \<Rightarrow> (RuneError, 1))
      else if 224 \<le> b0 \<and> b0 < 240 then
        (case bs of
           b1 # b2 # _ \<Rightarrow>
             if continuation b1 \<and> (b0 = 224 \<longrightarrow> 160 \<le> b1) \<and> (b0 = 237 \<longrightarrow> b1 < 160) \<and> continuation b2
             then ((b0 - 224) * 4096 + (b1 - 128) * 64 + (b2 - 128), 3) else (RuneError, 1)
         | _ \<Rightarrow> (RuneError, 1))
      else if 240 \<le> b0 \<and> b0 < 245 then
        (case bs of
           b1 # b2 # b3 # _ \<Rightarrow>
             if continuation b1 \<and> (b0 = 240 \<longrightarrow> 144 \<le> b1) \<and> (b0 = 244 \<longrightarrow> b1 < 144) \<and> continuation b2 \<and> continuation b3
             then ((b0 - 240) * 262144 + (b1 - 128) * 4096 + (b2 - 128) * 64 + (b3 - 128), 4) else (RuneError, 1)
         | _ \<Rightarrow> (RuneError, 1))
      else (RuneError, 1))"

lemma DecodeRune_width: "bs \<noteq> [] \<Longrightarrow> 0 < snd (DecodeRune bs) \<and> snd (DecodeRune bs) \<le> length bs"
  by (cases bs) (auto split: list.split)

declare DecodeRune.simps [simp del]

lemma DecodeRune_ascii [simp]: "b < 128 \<Longrightarrow> DecodeRune (b # bs) = (b, 1)"
  by (simp add: DecodeRune.simps)

function decode_runes :: "nat list \<Rightarrow> nat list" where
  "decode_runes bs =
     (if bs = [] then [] else fst (DecodeRune bs) # decode_runes (drop (snd (DecodeRune bs)) bs))"
  by auto
termination
proof (relation "measure length")
  fix bs :: "nat list" assume "bs \<noteq> []"
  with DecodeRune_width [of bs] show "(drop (snd (DecodeRune bs)) bs, bs) \<in> measure length" by auto
qed simp

declare decode_runes.simps [simp del]

definition runes :: "string \<Rightarrow> nat list" where
  "runes s = decode_runes (map code_of s)"

lemma runes_Nil [simp]: "runes [] = []"
  by (simp add: runes_def decode_runes.simps)

lemma decode_runes_ascii: "list_all (\<lambda>b. b < 128) bs \<Longrightarrow> decode_runes bs = bs"
proof (induction bs)
  case (Cons b bs)
  then have "decode_runes (b # bs) = b # decode_runes bs" by (subst decode_runes.simps) simp
  with Cons show ?case by simp
qed (simp add: decode_runes.simps)

lemma runes_ascii: "list_all (\<lambda>c. code_of c < 128) s \<Longrightarrow> runes s = map code_of s"
  by (simp add: runes_def decode_runes_ascii list.pred_map comp_def)

end
