(* ===== verification/Iri.thy ===== *)
theory Iri
  imports Text
begin

text \<open>
  The records of \<open>src/iri/iri.go\<close>: one \<open>record\<close> for each struct, with the struct's field names behind a
  prefix of its own. A named integer type is an \<open>int\<close>, a named string type a \<open>string\<close>, and a byte
  slice is an \<open>octet_string\<close>, where \<open>None\<close> is the nil slice. A member of type \<open>any\<close> is a value of the
  datatype \<open>any\<close>: nil, one of the types the CHOICE functions name, or some other value.

  The sources look at records by reflection, to see whether a member is its type's zero and which
  restriction its type carries. \<open>goval\<close> is what reflection sees, and \<open>refl_T\<close> is the view of a
  struct \<open>T\<close>. The \<open>asn1\<close> tags of the structs are the tables \<open>tags_T\<close>.
\<close>

subsection \<open>What reflection sees\<close>

text \<open>A type of this package, or any other by its Go spelling.\<close>

datatype gotype = Iri_t string | Go_t string

fun Name :: "gotype \<Rightarrow> string" where
  "Name (Iri_t n) = n"
| "Name (Go_t n) = n"

fun TypeString :: "gotype \<Rightarrow> string" where
  "TypeString (Iri_t n) = ''iri.'' @ n"
| "TypeString (Go_t n) = n"

text \<open>
  \<open>GNil\<close> is the nil interface, \<open>GNilPtr\<close> a nil pointer; a struct lists its fields with whether they
  are exported. \<open>GOther\<close> is a value of a kind the walk does not descend into, with whether it is its
  type's zero. \<open>GOpaque\<close> marks a value of a type that no type switch of the package names.
\<close>

datatype goval =
    GNil
  | GIface goval
  | GNilPtr string
  | GPtr goval
  | GStruct gotype "(string \<times> bool \<times> goval) list"
  | GSlice gotype "goval list option"
  | GArray gotype "goval list"
  | GBytes gotype "byte list option"
  | GInt gotype int
  | GString gotype string
  | GBool gotype bool
  | GOther gotype bool
  | GOpaque goval

definition fld :: "string \<Rightarrow> goval \<Rightarrow> string \<times> bool \<times> goval" where
  "fld n v = (n, True, v)"

text \<open>\<open>reflect.Value.IsZero\<close>.\<close>

fun isZero :: "goval \<Rightarrow> bool" where
  "isZero GNil = True"
| "isZero (GIface v) = False"
| "isZero (GNilPtr t) = True"
| "isZero (GPtr v) = False"
| "isZero (GStruct t fs) = list_all (\<lambda>(n, e, v). isZero v) fs"
| "isZero (GSlice t vs) = (vs = None)"
| "isZero (GArray t vs) = list_all isZero vs"
| "isZero (GBytes t b) = (b = None)"
| "isZero (GInt t i) = (i = 0)"
| "isZero (GString t s) = (s = '''')"
| "isZero (GBool t v) = (\<not> v)"
| "isZero (GOther t z) = z"
| "isZero (GOpaque v) = isZero v"

text \<open>\<open>%T\<close>.\<close>

fun type_text :: "goval \<Rightarrow> string" where
  "type_text GNil = ''<nil>''"
| "type_text (GIface v) = type_text v"
| "type_text (GNilPtr t) = t"
| "type_text (GPtr v) = ''*'' @ type_text v"
| "type_text (GStruct t fs) = TypeString t"
| "type_text (GSlice t vs) = TypeString t"
| "type_text (GArray t vs) = TypeString t"
| "type_text (GBytes t b) = TypeString t"
| "type_text (GInt t i) = TypeString t"
| "type_text (GString t s) = TypeString t"
| "type_text (GBool t v) = TypeString t"
| "type_text (GOther t z) = TypeString t"
| "type_text (GOpaque v) = type_text v"

subsection \<open>Values of type any\<close>

type_synonym octet_string = "byte list option"

datatype any =
    NilAny
  | IMSI string | NAI string | IMEI string | IMEISV string | MSISDN string
  | IPv4Address octet_string | IPv6Address octet_string | MACAddress octet_string
  | FiveGMMCause int | FiveGSMCause int
  | SubscriberSUPI any | SubscriberPEI any | SubscriberGPSI any
  | ServiceRequestIdentity octet_string | ServiceAcceptIdentity octet_string
  | CauseRadioNetwork int | CauseTransport int | CauseNas int | CauseProtocol int | CauseMisc int
  | OtherValue goval

fun refl_any :: "any \<Rightarrow> goval" where
  "refl_any NilAny = GNil"
| "refl_any (IMSI v) = GIface (GString (Iri_t ''IMSI'') v)"
| "refl_any (NAI v) = GIface (GString (Iri_t ''NAI'') v)"
| "refl_any (IMEI v) = GIface (GString (Iri_t ''IMEI'') v)"
| "refl_any (IMEISV v) = GIface (GString (Iri_t ''IMEISV'') v)"
| "refl_any (MSISDN v) = GIface (GString (Iri_t ''MSISDN'') v)"
| "refl_any (IPv4Address v) = GIface (GBytes (Iri_t ''IPv4Address'') v)"
| "refl_any (IPv6Address v) = GIface (GBytes (Iri_t ''IPv6Address'') v)"
| "refl_any (MACAddress v) = GIface (GBytes (Iri_t ''MACAddress'') v)"
| "refl_any (FiveGMMCause v) = GIface (GInt (Iri_t ''FiveGMMCause'') v)"
| "refl_any (FiveGSMCause v) = GIface (GInt (Iri_t ''FiveGSMCause'') v)"
| "refl_any (SubscriberSUPI v) = GIface (GStruct (Iri_t ''SubscriberSUPI'') [fld ''Value'' (refl_any v)])"
| "refl_any (SubscriberPEI v) = GIface (GStruct (Iri_t ''SubscriberPEI'') [fld ''Value'' (refl_any v)])"
| "refl_any (SubscriberGPSI v) = GIface (GStruct (Iri_t ''SubscriberGPSI'') [fld ''Value'' (refl_any v)])"
| "refl_any (ServiceRequestIdentity v) = GIface (GBytes (Iri_t ''ServiceRequestIdentity'') v)"
| "refl_any (ServiceAcceptIdentity v) = GIface (GBytes (Iri_t ''ServiceAcceptIdentity'') v)"
| "refl_any (CauseRadioNetwork v) = GIface (GInt (Iri_t ''CauseRadioNetwork'') v)"
| "refl_any (CauseTransport v) = GIface (GInt (Iri_t ''CauseTransport'') v)"
| "refl_any (CauseNas v) = GIface (GInt (Iri_t ''CauseNas'') v)"
| "refl_any (CauseProtocol v) = GIface (GInt (Iri_t ''CauseProtocol'') v)"
| "refl_any (CauseMisc v) = GIface (GInt (Iri_t ''CauseMisc'') v)"
| "refl_any (OtherValue v) = GIface (GOpaque v)"

text \<open>\<open>present\<close>: an OPTIONAL CHOICE member is written when it holds an alternative that is not its type's zero.\<close>

definition present :: "any \<Rightarrow> bool" where
  "present v = (case refl_any v of GIface w \<Rightarrow> \<not> isZero w | _ \<Rightarrow> False)"

fun refl_ptr :: "string \<Rightarrow> ('v \<Rightarrow> goval) \<Rightarrow> 'v option \<Rightarrow> goval" where
  "refl_ptr t f None = GNilPtr t"
| "refl_ptr t f (Some v) = GPtr (f v)"

text \<open>\<open>net.IP\<close>: \<open>To4\<close> also accepts the 16-byte form of an IPv4 address.\<close>

definition To4 :: "byte list \<Rightarrow> byte list option" where
  "To4 ip =
     (if length ip = 4 then Some ip
      else if length ip = 16 \<and> take 10 ip = replicate 10 0 \<and> take 2 (drop 10 ip) = [255, 255] then Some (drop 12 ip)
      else None)"

definition To16 :: "byte list \<Rightarrow> byte list option" where
  "To16 ip =
     (if length ip = 4 then Some (replicate 10 0 @ [255, 255] @ ip)
      else if length ip = 16 then Some ip else None)"

definition UEEndpoint :: "octet_string \<Rightarrow> any list option" where
  "UEEndpoint ip =
     (case ip of
        None \<Rightarrow> None
      | Some b \<Rightarrow>
          (case To4 b of
             Some v4 \<Rightarrow> Some [IPv4Address (Some v4)]
           | None \<Rightarrow>
               (case To16 b of
                  Some v16 \<Rightarrow> Some [IPv6Address (Some v16)]
                | None \<Rightarrow> None)))"

subsection \<open>Enumerations\<close>

text \<open>The named values of each enumerated type, in the order of the source.\<close>

definition AMFRegistrationType_values :: "(string \<times> int) list" where
  "AMFRegistrationType_values =
     [(''RegTypeInitial'', 1), (''RegTypeMobility'', 2), (''RegTypePeriodic'', 3),
      (''RegTypeEmergency'', 4), (''RegTypeSNPNOnboarding'', 5), (''RegTypeDisasterMobility'', 6),
      (''RegTypeDisasterInitial'', 7)]"

definition AMFRegistrationResult_values :: "(string \<times> int) list" where
  "AMFRegistrationResult_values =
     [(''RegResult3GPPAccess'', 1), (''RegResultNon3GPPAccess'', 2), (''RegResult3GPPAndNon3GPP'', 3)]"

definition AMFDirection_values :: "(string \<times> int) list" where
  "AMFDirection_values =
     [(''DirNetworkInitiated'', 1), (''DirUEInitiated'', 2)]"

definition AccessType_values :: "(string \<times> int) list" where
  "AccessType_values =
     [(''AccessThreeGPP'', 1), (''AccessNonThreeGPP'', 2), (''AccessBoth'', 3)]"

definition PDUSessionType_values :: "(string \<times> int) list" where
  "PDUSessionType_values =
     [(''PDUSessionTypeIPv4'', 1), (''PDUSessionTypeIPv6'', 2), (''PDUSessionTypeIPv4v6'', 3),
      (''PDUSessionTypeUnstructured'', 4), (''PDUSessionTypeEthernet'', 5)]"

definition FiveGSMRequestType_values :: "(string \<times> int) list" where
  "FiveGSMRequestType_values =
     [(''SMRequestInitial'', 1), (''SMRequestExisting'', 2), (''SMRequestInitialEmergency'', 3),
      (''SMRequestExistingEmergency'', 4), (''SMRequestModification'', 5), (''SMRequestReserved'', 6),
      (''SMRequestMAPDU'', 7)]"

definition AMFFailedProcedureType_values :: "(string \<times> int) list" where
  "AMFFailedProcedureType_values =
     [(''FailedRegistration'', 1), (''FailedSMS'', 2), (''FailedPDUSessionEstablishment'', 3)]"

definition SMFFailedProcedureType_values :: "(string \<times> int) list" where
  "SMFFailedProcedureType_values =
     [(''SMFFailedPDUSessionEstablishment'', 1), (''SMFFailedPDUSessionModification'', 2),
      (''SMFFailedPDUSessionRelease'', 3)]"

definition Initiator_values :: "(string \<times> int) list" where
  "Initiator_values =
     [(''InitiatorUE'', 1), (''InitiatorNetwork'', 2), (''InitiatorUnknown'', 3)]"

definition HandoverType_values :: "(string \<times> int) list" where
  "HandoverType_values =
     [(''HandoverIntra5GS'', 1), (''HandoverFiveGSToEPS'', 2), (''HandoverEPSTo5GS'', 3),
      (''HandoverFiveGSToUTRA'', 4)]"

definition RATType_values :: "(string \<times> int) list" where
  "RATType_values =
     [(''RATNR'', 1), (''RATEUTRA'', 2), (''RATWLAN'', 3), (''RATVirtual'', 4), (''RATNBIOT'', 5),
      (''RATLTEM'', 9), (''RATNRU'', 10), (''RATEUTRAU'', 11), (''RATTrustedN3GA'', 12),
      (''RATTrustedWLAN'', 13), (''RATNRLEO'', 16), (''RATNRMEO'', 17), (''RATNRGEO'', 18),
      (''RATNROtherSat'', 19), (''RATNRRedCap'', 20)]"

definition CauseRadioNetwork_values :: "(string \<times> int) list" where
  "CauseRadioNetwork_values =
     [(''CauseRadioNetworkUnspecified'', 1), (''CauseRadioNetworkTxnrelocoverallExpiry'', 2),
      (''CauseRadioNetworkSuccessfulHandover'', 3),
      (''CauseRadioNetworkReleaseDueToNGRANGeneratedReason'', 4),
      (''CauseRadioNetworkReleaseDueTo5gcGeneratedReason'', 5), (''CauseRadioNetworkHandoverCancelled'', 6),
      (''CauseRadioNetworkPartialHandover'', 7),
      (''CauseRadioNetworkHoFailureInTarget5GCNGRANNodeOrTargetSystem'', 8),
      (''CauseRadioNetworkHoTargetNotAllowed'', 9), (''CauseRadioNetworkTNGRelocOverallExpiry'', 10),
      (''CauseRadioNetworkTNGRelocPrepExpiry'', 11), (''CauseRadioNetworkCellNotAvailable'', 12),
      (''CauseRadioNetworkUnknownTargetID'', 13),
      (''CauseRadioNetworkNoRadioResourcesAvailableInTargetCell'', 14),
      (''CauseRadioNetworkUnknownLocalUENGAPID'', 15),
      (''CauseRadioNetworkInconsistentRemoteUENGAPID'', 16),
      (''CauseRadioNetworkHandoverDesirableForRadioReason'', 17),
      (''CauseRadioNetworkTimeCriticalHandover'', 18),
      (''CauseRadioNetworkResourceOptimisationHandover'', 19),
      (''CauseRadioNetworkReduceLoadInServingCell'', 20), (''CauseRadioNetworkUserInactivity'', 21),
      (''CauseRadioNetworkRadioConnectionWithUELost'', 22),
      (''CauseRadioNetworkRadioResourcesNotAvailable'', 23),
      (''CauseRadioNetworkInvalidQoSCombination'', 24),
      (''CauseRadioNetworkFailureInRadioInterfaceProcedure'', 25),
      (''CauseRadioNetworkInteractionWithOtherProcedure'', 26),
      (''CauseRadioNetworkUnknownPDUSessionID'', 27),
      (''CauseRadioNetworkMultiplePDUSessionIDInstances'', 29),
      (''CauseRadioNetworkMultipleQoSFlowIDInstances'', 30),
      (''CauseRadioNetworkEncryptionAndOrIntegrityProtectionAlgorithmsNotSupported'', 31),
      (''CauseRadioNetworkNGIntraSystemHandoverTriggered'', 32),
      (''CauseRadioNetworkNGInterSystemHandoverTriggered'', 33),
      (''CauseRadioNetworkXNHandoverTriggered'', 34), (''CauseRadioNetworkNotSupported5QIValue'', 35),
      (''CauseRadioNetworkUEContextTransfer'', 36),
      (''CauseRadioNetworkIMSVoiceeEPSFallbackOrRATFallbackTriggered'', 37),
      (''CauseRadioNetworkUPIntegrityProtectioNotPossible'', 38),
      (''CauseRadioNetworkUPConfidentialityProtectionNotPossible'', 39),
      (''CauseRadioNetworkSliceNotSupported'', 40),
      (''CauseRadioNetworkUEInRRCInactiveStateNotReachable'', 41), (''CauseRadioNetworkRedirection'', 42),
      (''CauseRadioNetworkResourcesNotAvailableForTheSlice'', 43),
      (''CauseRadioNetworkUEMaxIntegrityProtectedDataRateReason'', 44),
      (''CauseRadioNetworkReleaseDueToCNDetectedMobility'', 45),
      (''CauseRadioNetworkN26InterfaceNotAvailable'', 46),
      (''CauseRadioNetworkReleaseDueToPreemption'', 47),
      (''CauseRadioNetworkMultipleLocationReportingReferenceIDInstances'', 48),
      (''CauseRadioNetworkRSNNotAvailableForTheUP'', 49), (''CauseRadioNetworkNPMAccessDenied'', 50),
      (''CauseRadioNetworkCAGOnlyAccessDenied'', 51),
      (''CauseRadioNetworkInsufficientUECapabilities'', 52)]"

definition CauseTransport_values :: "(string \<times> int) list" where
  "CauseTransport_values =
     [(''CauseTransportTransportResourceUnavailable'', 1), (''CauseTransportUnspecified'', 2)]"

definition CauseNas_values :: "(string \<times> int) list" where
  "CauseNas_values =
     [(''CauseNasNormalRelease'', 1), (''CauseNasAuthenticationFailure'', 2), (''CauseNasDeregister'', 3),
      (''CauseNasUnspecified'', 4)]"

definition CauseProtocol_values :: "(string \<times> int) list" where
  "CauseProtocol_values =
     [(''CauseProtocolTransferSyntaxError'', 1), (''CauseProtocolAbstractSyntaxErrorReject'', 2),
      (''CauseProtocolAbstractSyntaxErrorIgnoreAndNotify'', 3),
      (''CauseProtocolMessageNotCompatibleWithReceiverState'', 4), (''CauseProtocolSemanticError'', 5),
      (''CauseProtocolAbstractSyntaxErrorFalselyConstructedMessage'', 6),
      (''CauseProtocolUnspecified'', 7)]"

definition CauseMisc_values :: "(string \<times> int) list" where
  "CauseMisc_values =
     [(''CauseMiscControlProcessingOverload'', 1), (''CauseMiscNotEnoughUserPlaneProcessingResources'', 2),
      (''CauseMiscHardwareFailure'', 3), (''CauseMiscOMIntervention'', 4),
      (''CauseMiscUnknownPLMNOrSNPN'', 5), (''CauseMiscUnspecified'', 6)]"

subsection \<open>Structures and records\<close>

record SNSSAI =
  snssai_SliceServiceType :: "int"
  snssai_SliceDifferentiator :: "octet_string"
  snssai_MappedHPLMNSST :: "int"
  snssai_MappedHPLMNSD :: "octet_string"

record FTEID =
  fteid_TEID :: "int"
  fteid_IPv4Address :: "octet_string"
  fteid_IPv6Address :: "octet_string"

record FiveGSGTPTunnels =
  tunnels_ULNGUUPTunnelInformation :: "FTEID"

record GTPTunnelInfo =
  gtp_FiveGSGTPTunnels :: "FiveGSGTPTunnels"

record LocationInfo =
  locinfo_CurrentLocation :: "bool"

record Location =
  loc_LocationInfo :: "LocationInfo"

record FiveGSSubscriberIDs =
  subs_IDs :: "any list option"

record UserIdentifiers =
  uids_FiveGS :: "FiveGSSubscriberIDs"

record PDUSessionResourceInformation =
  psri_PDUSessionID :: "int"

record FiveGGUTI =
  guti_MCC :: "string"
  guti_MNC :: "string"
  guti_AMFRegionID :: "int"
  guti_AMFSetID :: "int"
  guti_AMFPointer :: "int"
  guti_FiveGTMSI :: "int"

record SUCI =
  suci_MCC :: "string"
  suci_MNC :: "string"
  suci_RoutingIndicator :: "int"
  suci_ProtectionSchemeID :: "int"
  suci_HomeNetworkPublicKeyID :: "octet_string"
  suci_SchemeOutput :: "octet_string"
  suci_RoutingIndicatorLength :: "int option"
  suci_SUPIType :: "int option"
  suci_HomeNetworkIdentifier :: "string"

record PLMNID =
  plmn_MCC :: "string"
  plmn_MNC :: "string"

record TAI =
  tai_PLMNID :: "PLMNID"
  tai_TAC :: "octet_string"
  tai_NID :: "string"

record SMFServingNetwork =
  snet_PLMNID :: "PLMNID"
  snet_NID :: "string"

record AMFID =
  amfid_AMFRegionID :: "int"
  amfid_AMFSetID :: "int"
  amfid_AMFPointer :: "int"

record AMFRegistration =
  areg_RegistrationType :: "int"
  areg_RegistrationResult :: "int"
  areg_SUPI :: "any"
  areg_SUCI :: "SUCI"
  areg_PEI :: "any"
  areg_GPSI :: "any"
  areg_GUTI :: "FiveGGUTI"
  areg_FiveGSTAIList :: "TAI list option"
  areg_RATType :: "int"

record AMFDeregistration =
  adereg_DeregistrationDirection :: "int"
  adereg_AccessType :: "int"
  adereg_SUPI :: "any"
  adereg_SUCI :: "SUCI"
  adereg_PEI :: "any"
  adereg_GPSI :: "any"
  adereg_GUTI :: "FiveGGUTI"

record AMFStartOfInterceptionWithRegisteredUE =
  astart_RegistrationResult :: "int"
  astart_RegistrationType :: "int"
  astart_SUPI :: "any"
  astart_SUCI :: "SUCI"
  astart_PEI :: "any"
  astart_GPSI :: "any"
  astart_GUTI :: "FiveGGUTI"
  astart_FiveGSTAIList :: "TAI list option"

record SMFPDUSessionEstablishment =
  sest_SUPI :: "any"
  sest_SUPIUnauthenticated :: "bool option"
  sest_PEI :: "any"
  sest_GPSI :: "any"
  sest_PDUSessionID :: "int"
  sest_GTPTunnelID :: "FTEID"
  sest_PDUSessionType :: "int"
  sest_SNSSAI :: "SNSSAI"
  sest_UEEndpoint :: "any list option"
  sest_DNN :: "string"
  sest_AMFID :: "AMFID"
  sest_RequestType :: "int"
  sest_AccessType :: "int"
  sest_RATType :: "int"
  sest_ServingNetwork :: "SMFServingNetwork"
  sest_GTPTunnelInfo :: "GTPTunnelInfo"

record SMFPDUSessionModification =
  smod_SUPI :: "any"
  smod_SUPIUnauthenticated :: "bool option"
  smod_PEI :: "any"
  smod_GPSI :: "any"
  smod_SNSSAI :: "SNSSAI"
  smod_RequestType :: "int"
  smod_AccessType :: "int"
  smod_RATType :: "int"
  smod_PDUSessionID :: "int"
  smod_UEEndpoint :: "any list option"
  smod_ServingNetwork :: "SMFServingNetwork"
  smod_GTPTunnelInfo :: "GTPTunnelInfo"

record SMFPDUSessionRelease =
  srel_SUPI :: "any"
  srel_PEI :: "any"
  srel_GPSI :: "any"
  srel_PDUSessionID :: "int"
  srel_UplinkVolume :: "int"
  srel_DownlinkVolume :: "int"

record AMFLocationUpdate =
  aloc_SUPI :: "any"
  aloc_SUCI :: "SUCI"
  aloc_PEI :: "any"
  aloc_GPSI :: "any"
  aloc_GUTI :: "FiveGGUTI"
  aloc_Location :: "Location"

record AMFUnsuccessfulProcedure =
  aunsucc_FailedProcedureType :: "int"
  aunsucc_FailureCause :: "any"
  aunsucc_SUPI :: "any"
  aunsucc_SUCI :: "SUCI"
  aunsucc_PEI :: "any"
  aunsucc_GPSI :: "any"
  aunsucc_GUTI :: "FiveGGUTI"
  aunsucc_Location :: "Location"

record AMFIdentifierAssociation =
  aassoc_SUPI :: "any"
  aassoc_SUCI :: "SUCI"
  aassoc_PEI :: "any"
  aassoc_GPSI :: "any"
  aassoc_GUTI :: "FiveGGUTI"
  aassoc_Location :: "Location"
  aassoc_FiveGSTAIList :: "TAI list option"

record AMFIdentifierDeassociation =
  adeassoc_SUPI :: "any"
  adeassoc_SUCI :: "SUCI"
  adeassoc_PEI :: "any"
  adeassoc_GPSI :: "any"
  adeassoc_GUTI :: "FiveGGUTI"

record SMFStartOfInterceptionWithEstablishedPDUSession =
  sstart_SUPI :: "any"
  sstart_SUPIUnauthenticated :: "bool option"
  sstart_PEI :: "any"
  sstart_GPSI :: "any"
  sstart_PDUSessionID :: "int"
  sstart_GTPTunnelID :: "FTEID"
  sstart_PDUSessionType :: "int"
  sstart_SNSSAI :: "SNSSAI"
  sstart_UEEndpoint :: "any list option"
  sstart_DNN :: "string"
  sstart_AMFID :: "AMFID"
  sstart_RequestType :: "int"
  sstart_AccessType :: "int"
  sstart_RATType :: "int"
  sstart_ServingNetwork :: "SMFServingNetwork"
  sstart_GTPTunnelInfo :: "GTPTunnelInfo"

record SMFUnsuccessfulProcedure =
  sunsucc_FailedProcedureType :: "int"
  sunsucc_FailureCause :: "int"
  sunsucc_Initiator :: "int"
  sunsucc_SUPI :: "any"
  sunsucc_SUPIUnauthenticated :: "bool option"
  sunsucc_PEI :: "any"
  sunsucc_GPSI :: "any"
  sunsucc_PDUSessionID :: "int"
  sunsucc_UEEndpoint :: "any list option"
  sunsucc_DNN :: "string"
  sunsucc_AMFID :: "AMFID"
  sunsucc_RequestType :: "int"
  sunsucc_AccessType :: "int"
  sunsucc_RATType :: "int"

record AMFUEServiceAccept =
  aserv_UserIdentifiers :: "UserIdentifiers"
  aserv_ServiceMessageIdentity :: "any"
  aserv_ServiceType :: "octet_string"
  aserv_FiveGTMSI :: "int"

record AMFUEPolicyTransfer =
  apol_SUPI :: "any"
  apol_SUCI :: "SUCI"
  apol_PEI :: "any"
  apol_GPSI :: "any"
  apol_GUTI :: "FiveGGUTI"
  apol_UEPolicy :: "octet_string"

record AMFPositioningInfoTransfer =
  apos_SUPI :: "any"
  apos_SUCI :: "SUCI"
  apos_PEI :: "any"
  apos_GPSI :: "any"
  apos_GUTI :: "FiveGGUTI"
  apos_NRPPaMessage :: "octet_string"
  apos_LPPMessage :: "octet_string"
  apos_LCSCorrelationID :: "string"

record AMFRANHandoverCommand =
  ahcmd_UserIdentifiers :: "UserIdentifiers"
  ahcmd_AMFUENGAPID :: "int"
  ahcmd_RANUENGAPID :: "int"
  ahcmd_HandoverType :: "int"
  ahcmd_TargetToSourceContainer :: "octet_string"

record AMFRANHandoverRequest =
  ahreq_UserIdentifiers :: "UserIdentifiers"
  ahreq_AMFUENGAPID :: "int"
  ahreq_RANUENGAPID :: "int"
  ahreq_HandoverType :: "int"
  ahreq_HandoverCause :: "any"
  ahreq_PDUSessionResourceInformation :: "PDUSessionResourceInformation"
  ahreq_TargetToSourceContainer :: "octet_string"
  ahreq_SourceToTargetContainer :: "octet_string"

definition refl_SNSSAI :: "SNSSAI \<Rightarrow> goval" where
  "refl_SNSSAI r =
     GStruct (Iri_t ''SNSSAI'')
       [fld ''SliceServiceType'' (GInt (Iri_t ''SliceServiceType'') (snssai_SliceServiceType r)),
        fld ''SliceDifferentiator'' (GBytes (Iri_t ''SliceDifferentiator'') (snssai_SliceDifferentiator r)),
        fld ''MappedHPLMNSST'' (GInt (Iri_t ''SliceServiceType'') (snssai_MappedHPLMNSST r)),
        fld ''MappedHPLMNSD'' (GBytes (Iri_t ''SliceDifferentiator'') (snssai_MappedHPLMNSD r))]"

definition refl_FTEID :: "FTEID \<Rightarrow> goval" where
  "refl_FTEID r =
     GStruct (Iri_t ''FTEID'')
       [fld ''TEID'' (GInt (Iri_t ''TEID'') (fteid_TEID r)),
        fld ''IPv4Address'' (GBytes (Iri_t ''IPv4Address'') (fteid_IPv4Address r)),
        fld ''IPv6Address'' (GBytes (Iri_t ''IPv6Address'') (fteid_IPv6Address r))]"

definition refl_FiveGSGTPTunnels :: "FiveGSGTPTunnels \<Rightarrow> goval" where
  "refl_FiveGSGTPTunnels r =
     GStruct (Iri_t ''FiveGSGTPTunnels'')
       [fld ''ULNGUUPTunnelInformation'' (refl_FTEID (tunnels_ULNGUUPTunnelInformation r))]"

definition refl_GTPTunnelInfo :: "GTPTunnelInfo \<Rightarrow> goval" where
  "refl_GTPTunnelInfo r =
     GStruct (Iri_t ''GTPTunnelInfo'')
       [fld ''FiveGSGTPTunnels'' (refl_FiveGSGTPTunnels (gtp_FiveGSGTPTunnels r))]"

definition refl_LocationInfo :: "LocationInfo \<Rightarrow> goval" where
  "refl_LocationInfo r =
     GStruct (Iri_t ''LocationInfo'')
       [fld ''CurrentLocation'' (GBool (Go_t ''bool'') (locinfo_CurrentLocation r))]"

definition refl_Location :: "Location \<Rightarrow> goval" where
  "refl_Location r =
     GStruct (Iri_t ''Location'')
       [fld ''LocationInfo'' (refl_LocationInfo (loc_LocationInfo r))]"

definition refl_FiveGSSubscriberIDs :: "FiveGSSubscriberIDs \<Rightarrow> goval" where
  "refl_FiveGSSubscriberIDs r =
     GStruct (Iri_t ''FiveGSSubscriberIDs'')
       [fld ''IDs'' (GSlice (Go_t ''[]interface {}'') (map_option (map refl_any) (subs_IDs r)))]"

definition refl_UserIdentifiers :: "UserIdentifiers \<Rightarrow> goval" where
  "refl_UserIdentifiers r =
     GStruct (Iri_t ''UserIdentifiers'')
       [fld ''FiveGS'' (refl_FiveGSSubscriberIDs (uids_FiveGS r))]"

definition refl_PDUSessionResourceInformation :: "PDUSessionResourceInformation \<Rightarrow> goval" where
  "refl_PDUSessionResourceInformation r =
     GStruct (Iri_t ''PDUSessionResourceInformation'')
       [fld ''PDUSessionID'' (GInt (Iri_t ''PDUSessionID'') (psri_PDUSessionID r))]"

definition refl_FiveGGUTI :: "FiveGGUTI \<Rightarrow> goval" where
  "refl_FiveGGUTI r =
     GStruct (Iri_t ''FiveGGUTI'')
       [fld ''MCC'' (GString (Iri_t ''MCC'') (guti_MCC r)),
        fld ''MNC'' (GString (Iri_t ''MNC'') (guti_MNC r)),
        fld ''AMFRegionID'' (GInt (Iri_t ''AMFRegionID'') (guti_AMFRegionID r)),
        fld ''AMFSetID'' (GInt (Iri_t ''AMFSetID'') (guti_AMFSetID r)),
        fld ''AMFPointer'' (GInt (Iri_t ''AMFPointer'') (guti_AMFPointer r)),
        fld ''FiveGTMSI'' (GInt (Iri_t ''FiveGTMSI'') (guti_FiveGTMSI r))]"

definition refl_SUCI :: "SUCI \<Rightarrow> goval" where
  "refl_SUCI r =
     GStruct (Iri_t ''SUCI'')
       [fld ''MCC'' (GString (Iri_t ''MCC'') (suci_MCC r)),
        fld ''MNC'' (GString (Iri_t ''MNC'') (suci_MNC r)),
        fld ''RoutingIndicator'' (GInt (Iri_t ''RoutingIndicator'') (suci_RoutingIndicator r)),
        fld ''ProtectionSchemeID'' (GInt (Iri_t ''ProtectionSchemeID'') (suci_ProtectionSchemeID r)),
        fld ''HomeNetworkPublicKeyID'' (GBytes (Iri_t ''HomeNetworkPublicKeyID'') (suci_HomeNetworkPublicKeyID r)),
        fld ''SchemeOutput'' (GBytes (Iri_t ''SchemeOutput'') (suci_SchemeOutput r)),
        fld ''RoutingIndicatorLength'' (refl_ptr ''*iri.RoutingIndicatorLength'' (GInt (Iri_t ''RoutingIndicatorLength'')) (suci_RoutingIndicatorLength r)),
        fld ''SUPIType'' (refl_ptr ''*iri.SUPIType'' (GInt (Iri_t ''SUPIType'')) (suci_SUPIType r)),
        fld ''HomeNetworkIdentifier'' (GString (Iri_t ''HomeNetworkIdentifier'') (suci_HomeNetworkIdentifier r))]"

definition refl_PLMNID :: "PLMNID \<Rightarrow> goval" where
  "refl_PLMNID r =
     GStruct (Iri_t ''PLMNID'')
       [fld ''MCC'' (GString (Iri_t ''MCC'') (plmn_MCC r)),
        fld ''MNC'' (GString (Iri_t ''MNC'') (plmn_MNC r))]"

definition refl_TAI :: "TAI \<Rightarrow> goval" where
  "refl_TAI r =
     GStruct (Iri_t ''TAI'')
       [fld ''PLMNID'' (refl_PLMNID (tai_PLMNID r)),
        fld ''TAC'' (GBytes (Iri_t ''TAC'') (tai_TAC r)),
        fld ''NID'' (GString (Iri_t ''NID'') (tai_NID r))]"

definition refl_SMFServingNetwork :: "SMFServingNetwork \<Rightarrow> goval" where
  "refl_SMFServingNetwork r =
     GStruct (Iri_t ''SMFServingNetwork'')
       [fld ''PLMNID'' (refl_PLMNID (snet_PLMNID r)),
        fld ''NID'' (GString (Iri_t ''NID'') (snet_NID r))]"

definition refl_AMFID :: "AMFID \<Rightarrow> goval" where
  "refl_AMFID r =
     GStruct (Iri_t ''AMFID'')
       [fld ''AMFRegionID'' (GInt (Iri_t ''AMFRegionID'') (amfid_AMFRegionID r)),
        fld ''AMFSetID'' (GInt (Iri_t ''AMFSetID'') (amfid_AMFSetID r)),
        fld ''AMFPointer'' (GInt (Iri_t ''AMFPointer'') (amfid_AMFPointer r))]"

definition refl_AMFRegistration :: "AMFRegistration \<Rightarrow> goval" where
  "refl_AMFRegistration r =
     GStruct (Iri_t ''AMFRegistration'')
       [fld ''RegistrationType'' (GInt (Iri_t ''AMFRegistrationType'') (areg_RegistrationType r)),
        fld ''RegistrationResult'' (GInt (Iri_t ''AMFRegistrationResult'') (areg_RegistrationResult r)),
        fld ''SUPI'' (refl_any (areg_SUPI r)),
        fld ''SUCI'' (refl_SUCI (areg_SUCI r)),
        fld ''PEI'' (refl_any (areg_PEI r)),
        fld ''GPSI'' (refl_any (areg_GPSI r)),
        fld ''GUTI'' (refl_FiveGGUTI (areg_GUTI r)),
        fld ''FiveGSTAIList'' (GSlice (Iri_t ''TAIList'') (map_option (map refl_TAI) (areg_FiveGSTAIList r))),
        fld ''RATType'' (GInt (Iri_t ''RATType'') (areg_RATType r))]"

definition refl_AMFDeregistration :: "AMFDeregistration \<Rightarrow> goval" where
  "refl_AMFDeregistration r =
     GStruct (Iri_t ''AMFDeregistration'')
       [fld ''DeregistrationDirection'' (GInt (Iri_t ''AMFDirection'') (adereg_DeregistrationDirection r)),
        fld ''AccessType'' (GInt (Iri_t ''AccessType'') (adereg_AccessType r)),
        fld ''SUPI'' (refl_any (adereg_SUPI r)),
        fld ''SUCI'' (refl_SUCI (adereg_SUCI r)),
        fld ''PEI'' (refl_any (adereg_PEI r)),
        fld ''GPSI'' (refl_any (adereg_GPSI r)),
        fld ''GUTI'' (refl_FiveGGUTI (adereg_GUTI r))]"

definition refl_AMFStartOfInterceptionWithRegisteredUE :: "AMFStartOfInterceptionWithRegisteredUE \<Rightarrow> goval" where
  "refl_AMFStartOfInterceptionWithRegisteredUE r =
     GStruct (Iri_t ''AMFStartOfInterceptionWithRegisteredUE'')
       [fld ''RegistrationResult'' (GInt (Iri_t ''AMFRegistrationResult'') (astart_RegistrationResult r)),
        fld ''RegistrationType'' (GInt (Iri_t ''AMFRegistrationType'') (astart_RegistrationType r)),
        fld ''SUPI'' (refl_any (astart_SUPI r)),
        fld ''SUCI'' (refl_SUCI (astart_SUCI r)),
        fld ''PEI'' (refl_any (astart_PEI r)),
        fld ''GPSI'' (refl_any (astart_GPSI r)),
        fld ''GUTI'' (refl_FiveGGUTI (astart_GUTI r)),
        fld ''FiveGSTAIList'' (GSlice (Iri_t ''TAIList'') (map_option (map refl_TAI) (astart_FiveGSTAIList r)))]"

definition refl_SMFPDUSessionEstablishment :: "SMFPDUSessionEstablishment \<Rightarrow> goval" where
  "refl_SMFPDUSessionEstablishment r =
     GStruct (Iri_t ''SMFPDUSessionEstablishment'')
       [fld ''SUPI'' (refl_any (sest_SUPI r)),
        fld ''SUPIUnauthenticated'' (refl_ptr ''*iri.SUPIUnauthenticatedIndication'' (GBool (Iri_t ''SUPIUnauthenticatedIndication'')) (sest_SUPIUnauthenticated r)),
        fld ''PEI'' (refl_any (sest_PEI r)),
        fld ''GPSI'' (refl_any (sest_GPSI r)),
        fld ''PDUSessionID'' (GInt (Iri_t ''PDUSessionID'') (sest_PDUSessionID r)),
        fld ''GTPTunnelID'' (refl_FTEID (sest_GTPTunnelID r)),
        fld ''PDUSessionType'' (GInt (Iri_t ''PDUSessionType'') (sest_PDUSessionType r)),
        fld ''SNSSAI'' (refl_SNSSAI (sest_SNSSAI r)),
        fld ''UEEndpoint'' (GSlice (Go_t ''[]interface {}'') (map_option (map refl_any) (sest_UEEndpoint r))),
        fld ''DNN'' (GString (Iri_t ''DNN'') (sest_DNN r)),
        fld ''AMFID'' (refl_AMFID (sest_AMFID r)),
        fld ''RequestType'' (GInt (Iri_t ''FiveGSMRequestType'') (sest_RequestType r)),
        fld ''AccessType'' (GInt (Iri_t ''AccessType'') (sest_AccessType r)),
        fld ''RATType'' (GInt (Iri_t ''RATType'') (sest_RATType r)),
        fld ''ServingNetwork'' (refl_SMFServingNetwork (sest_ServingNetwork r)),
        fld ''GTPTunnelInfo'' (refl_GTPTunnelInfo (sest_GTPTunnelInfo r))]"

definition refl_SMFPDUSessionModification :: "SMFPDUSessionModification \<Rightarrow> goval" where
  "refl_SMFPDUSessionModification r =
     GStruct (Iri_t ''SMFPDUSessionModification'')
       [fld ''SUPI'' (refl_any (smod_SUPI r)),
        fld ''SUPIUnauthenticated'' (refl_ptr ''*iri.SUPIUnauthenticatedIndication'' (GBool (Iri_t ''SUPIUnauthenticatedIndication'')) (smod_SUPIUnauthenticated r)),
        fld ''PEI'' (refl_any (smod_PEI r)),
        fld ''GPSI'' (refl_any (smod_GPSI r)),
        fld ''SNSSAI'' (refl_SNSSAI (smod_SNSSAI r)),
        fld ''RequestType'' (GInt (Iri_t ''FiveGSMRequestType'') (smod_RequestType r)),
        fld ''AccessType'' (GInt (Iri_t ''AccessType'') (smod_AccessType r)),
        fld ''RATType'' (GInt (Iri_t ''RATType'') (smod_RATType r)),
        fld ''PDUSessionID'' (GInt (Iri_t ''PDUSessionID'') (smod_PDUSessionID r)),
        fld ''UEEndpoint'' (GSlice (Go_t ''[]interface {}'') (map_option (map refl_any) (smod_UEEndpoint r))),
        fld ''ServingNetwork'' (refl_SMFServingNetwork (smod_ServingNetwork r)),
        fld ''GTPTunnelInfo'' (refl_GTPTunnelInfo (smod_GTPTunnelInfo r))]"

definition refl_SMFPDUSessionRelease :: "SMFPDUSessionRelease \<Rightarrow> goval" where
  "refl_SMFPDUSessionRelease r =
     GStruct (Iri_t ''SMFPDUSessionRelease'')
       [fld ''SUPI'' (refl_any (srel_SUPI r)),
        fld ''PEI'' (refl_any (srel_PEI r)),
        fld ''GPSI'' (refl_any (srel_GPSI r)),
        fld ''PDUSessionID'' (GInt (Iri_t ''PDUSessionID'') (srel_PDUSessionID r)),
        fld ''UplinkVolume'' (GInt (Go_t ''int64'') (srel_UplinkVolume r)),
        fld ''DownlinkVolume'' (GInt (Go_t ''int64'') (srel_DownlinkVolume r))]"

definition refl_AMFLocationUpdate :: "AMFLocationUpdate \<Rightarrow> goval" where
  "refl_AMFLocationUpdate r =
     GStruct (Iri_t ''AMFLocationUpdate'')
       [fld ''SUPI'' (refl_any (aloc_SUPI r)),
        fld ''SUCI'' (refl_SUCI (aloc_SUCI r)),
        fld ''PEI'' (refl_any (aloc_PEI r)),
        fld ''GPSI'' (refl_any (aloc_GPSI r)),
        fld ''GUTI'' (refl_FiveGGUTI (aloc_GUTI r)),
        fld ''Location'' (refl_Location (aloc_Location r))]"

definition refl_AMFUnsuccessfulProcedure :: "AMFUnsuccessfulProcedure \<Rightarrow> goval" where
  "refl_AMFUnsuccessfulProcedure r =
     GStruct (Iri_t ''AMFUnsuccessfulProcedure'')
       [fld ''FailedProcedureType'' (GInt (Iri_t ''AMFFailedProcedureType'') (aunsucc_FailedProcedureType r)),
        fld ''FailureCause'' (refl_any (aunsucc_FailureCause r)),
        fld ''SUPI'' (refl_any (aunsucc_SUPI r)),
        fld ''SUCI'' (refl_SUCI (aunsucc_SUCI r)),
        fld ''PEI'' (refl_any (aunsucc_PEI r)),
        fld ''GPSI'' (refl_any (aunsucc_GPSI r)),
        fld ''GUTI'' (refl_FiveGGUTI (aunsucc_GUTI r)),
        fld ''Location'' (refl_Location (aunsucc_Location r))]"

definition refl_AMFIdentifierAssociation :: "AMFIdentifierAssociation \<Rightarrow> goval" where
  "refl_AMFIdentifierAssociation r =
     GStruct (Iri_t ''AMFIdentifierAssociation'')
       [fld ''SUPI'' (refl_any (aassoc_SUPI r)),
        fld ''SUCI'' (refl_SUCI (aassoc_SUCI r)),
        fld ''PEI'' (refl_any (aassoc_PEI r)),
        fld ''GPSI'' (refl_any (aassoc_GPSI r)),
        fld ''GUTI'' (refl_FiveGGUTI (aassoc_GUTI r)),
        fld ''Location'' (refl_Location (aassoc_Location r)),
        fld ''FiveGSTAIList'' (GSlice (Iri_t ''TAIList'') (map_option (map refl_TAI) (aassoc_FiveGSTAIList r)))]"

definition refl_AMFIdentifierDeassociation :: "AMFIdentifierDeassociation \<Rightarrow> goval" where
  "refl_AMFIdentifierDeassociation r =
     GStruct (Iri_t ''AMFIdentifierDeassociation'')
       [fld ''SUPI'' (refl_any (adeassoc_SUPI r)),
        fld ''SUCI'' (refl_SUCI (adeassoc_SUCI r)),
        fld ''PEI'' (refl_any (adeassoc_PEI r)),
        fld ''GPSI'' (refl_any (adeassoc_GPSI r)),
        fld ''GUTI'' (refl_FiveGGUTI (adeassoc_GUTI r))]"

definition refl_SMFStartOfInterceptionWithEstablishedPDUSession :: "SMFStartOfInterceptionWithEstablishedPDUSession \<Rightarrow> goval" where
  "refl_SMFStartOfInterceptionWithEstablishedPDUSession r =
     GStruct (Iri_t ''SMFStartOfInterceptionWithEstablishedPDUSession'')
       [fld ''SUPI'' (refl_any (sstart_SUPI r)),
        fld ''SUPIUnauthenticated'' (refl_ptr ''*iri.SUPIUnauthenticatedIndication'' (GBool (Iri_t ''SUPIUnauthenticatedIndication'')) (sstart_SUPIUnauthenticated r)),
        fld ''PEI'' (refl_any (sstart_PEI r)),
        fld ''GPSI'' (refl_any (sstart_GPSI r)),
        fld ''PDUSessionID'' (GInt (Iri_t ''PDUSessionID'') (sstart_PDUSessionID r)),
        fld ''GTPTunnelID'' (refl_FTEID (sstart_GTPTunnelID r)),
        fld ''PDUSessionType'' (GInt (Iri_t ''PDUSessionType'') (sstart_PDUSessionType r)),
        fld ''SNSSAI'' (refl_SNSSAI (sstart_SNSSAI r)),
        fld ''UEEndpoint'' (GSlice (Go_t ''[]interface {}'') (map_option (map refl_any) (sstart_UEEndpoint r))),
        fld ''DNN'' (GString (Iri_t ''DNN'') (sstart_DNN r)),
        fld ''AMFID'' (refl_AMFID (sstart_AMFID r)),
        fld ''RequestType'' (GInt (Iri_t ''FiveGSMRequestType'') (sstart_RequestType r)),
        fld ''AccessType'' (GInt (Iri_t ''AccessType'') (sstart_AccessType r)),
        fld ''RATType'' (GInt (Iri_t ''RATType'') (sstart_RATType r)),
        fld ''ServingNetwork'' (refl_SMFServingNetwork (sstart_ServingNetwork r)),
        fld ''GTPTunnelInfo'' (refl_GTPTunnelInfo (sstart_GTPTunnelInfo r))]"

definition refl_SMFUnsuccessfulProcedure :: "SMFUnsuccessfulProcedure \<Rightarrow> goval" where
  "refl_SMFUnsuccessfulProcedure r =
     GStruct (Iri_t ''SMFUnsuccessfulProcedure'')
       [fld ''FailedProcedureType'' (GInt (Iri_t ''SMFFailedProcedureType'') (sunsucc_FailedProcedureType r)),
        fld ''FailureCause'' (GInt (Iri_t ''FiveGSMCause'') (sunsucc_FailureCause r)),
        fld ''Initiator'' (GInt (Iri_t ''Initiator'') (sunsucc_Initiator r)),
        fld ''SUPI'' (refl_any (sunsucc_SUPI r)),
        fld ''SUPIUnauthenticated'' (refl_ptr ''*iri.SUPIUnauthenticatedIndication'' (GBool (Iri_t ''SUPIUnauthenticatedIndication'')) (sunsucc_SUPIUnauthenticated r)),
        fld ''PEI'' (refl_any (sunsucc_PEI r)),
        fld ''GPSI'' (refl_any (sunsucc_GPSI r)),
        fld ''PDUSessionID'' (GInt (Iri_t ''PDUSessionID'') (sunsucc_PDUSessionID r)),
        fld ''UEEndpoint'' (GSlice (Go_t ''[]interface {}'') (map_option (map refl_any) (sunsucc_UEEndpoint r))),
        fld ''DNN'' (GString (Iri_t ''DNN'') (sunsucc_DNN r)),
        fld ''AMFID'' (refl_AMFID (sunsucc_AMFID r)),
        fld ''RequestType'' (GInt (Iri_t ''FiveGSMRequestType'') (sunsucc_RequestType r)),
        fld ''AccessType'' (GInt (Iri_t ''AccessType'') (sunsucc_AccessType r)),
        fld ''RATType'' (GInt (Iri_t ''RATType'') (sunsucc_RATType r))]"

definition refl_AMFUEServiceAccept :: "AMFUEServiceAccept \<Rightarrow> goval" where
  "refl_AMFUEServiceAccept r =
     GStruct (Iri_t ''AMFUEServiceAccept'')
       [fld ''UserIdentifiers'' (refl_UserIdentifiers (aserv_UserIdentifiers r)),
        fld ''ServiceMessageIdentity'' (refl_any (aserv_ServiceMessageIdentity r)),
        fld ''ServiceType'' (GBytes (Iri_t ''ServiceType'') (aserv_ServiceType r)),
        fld ''FiveGTMSI'' (GInt (Iri_t ''FiveGTMSI'') (aserv_FiveGTMSI r))]"

definition refl_AMFUEPolicyTransfer :: "AMFUEPolicyTransfer \<Rightarrow> goval" where
  "refl_AMFUEPolicyTransfer r =
     GStruct (Iri_t ''AMFUEPolicyTransfer'')
       [fld ''SUPI'' (refl_any (apol_SUPI r)),
        fld ''SUCI'' (refl_SUCI (apol_SUCI r)),
        fld ''PEI'' (refl_any (apol_PEI r)),
        fld ''GPSI'' (refl_any (apol_GPSI r)),
        fld ''GUTI'' (refl_FiveGGUTI (apol_GUTI r)),
        fld ''UEPolicy'' (GBytes (Iri_t ''UEPolicy'') (apol_UEPolicy r))]"

definition refl_AMFPositioningInfoTransfer :: "AMFPositioningInfoTransfer \<Rightarrow> goval" where
  "refl_AMFPositioningInfoTransfer r =
     GStruct (Iri_t ''AMFPositioningInfoTransfer'')
       [fld ''SUPI'' (refl_any (apos_SUPI r)),
        fld ''SUCI'' (refl_SUCI (apos_SUCI r)),
        fld ''PEI'' (refl_any (apos_PEI r)),
        fld ''GPSI'' (refl_any (apos_GPSI r)),
        fld ''GUTI'' (refl_FiveGGUTI (apos_GUTI r)),
        fld ''NRPPaMessage'' (GBytes (Go_t ''[]uint8'') (apos_NRPPaMessage r)),
        fld ''LPPMessage'' (GBytes (Go_t ''[]uint8'') (apos_LPPMessage r)),
        fld ''LCSCorrelationID'' (GString (Iri_t ''LCSCorrelationID'') (apos_LCSCorrelationID r))]"

definition refl_AMFRANHandoverCommand :: "AMFRANHandoverCommand \<Rightarrow> goval" where
  "refl_AMFRANHandoverCommand r =
     GStruct (Iri_t ''AMFRANHandoverCommand'')
       [fld ''UserIdentifiers'' (refl_UserIdentifiers (ahcmd_UserIdentifiers r)),
        fld ''AMFUENGAPID'' (GInt (Iri_t ''AMFUENGAPID'') (ahcmd_AMFUENGAPID r)),
        fld ''RANUENGAPID'' (GInt (Iri_t ''RANUENGAPID'') (ahcmd_RANUENGAPID r)),
        fld ''HandoverType'' (GInt (Iri_t ''HandoverType'') (ahcmd_HandoverType r)),
        fld ''TargetToSourceContainer'' (GBytes (Iri_t ''RANTargetToSourceContainer'') (ahcmd_TargetToSourceContainer r))]"

definition refl_AMFRANHandoverRequest :: "AMFRANHandoverRequest \<Rightarrow> goval" where
  "refl_AMFRANHandoverRequest r =
     GStruct (Iri_t ''AMFRANHandoverRequest'')
       [fld ''UserIdentifiers'' (refl_UserIdentifiers (ahreq_UserIdentifiers r)),
        fld ''AMFUENGAPID'' (GInt (Iri_t ''AMFUENGAPID'') (ahreq_AMFUENGAPID r)),
        fld ''RANUENGAPID'' (GInt (Iri_t ''RANUENGAPID'') (ahreq_RANUENGAPID r)),
        fld ''HandoverType'' (GInt (Iri_t ''HandoverType'') (ahreq_HandoverType r)),
        fld ''HandoverCause'' (refl_any (ahreq_HandoverCause r)),
        fld ''PDUSessionResourceInformation'' (refl_PDUSessionResourceInformation (ahreq_PDUSessionResourceInformation r)),
        fld ''TargetToSourceContainer'' (GBytes (Iri_t ''RANTargetToSourceContainer'') (ahreq_TargetToSourceContainer r)),
        fld ''SourceToTargetContainer'' (GBytes (Iri_t ''RANSourceToTargetContainer'') (ahreq_SourceToTargetContainer r))]"

definition Identifiers :: "any \<Rightarrow> any \<Rightarrow> any \<Rightarrow> UserIdentifiers" where
  "Identifiers supi pei gpsi =
     (let ids = (if supi \<noteq> NilAny then [SubscriberSUPI supi] else []);
          ids = (if pei \<noteq> NilAny then ids @ [SubscriberPEI pei] else ids);
          ids = (if gpsi \<noteq> NilAny then ids @ [SubscriberGPSI gpsi] else ids)
      in if length ids = 0 then \<lparr>uids_FiveGS = \<lparr>subs_IDs = None\<rparr>\<rparr>
         else \<lparr>uids_FiveGS = \<lparr>subs_IDs = Some ids\<rparr>\<rparr>)"

subsection \<open>The tags of the structs\<close>

text \<open>
  A field's \<open>asn1\<close> tag: the context tag, the CHOICE its value is an alternative of, whether the tag is
  explicit, and whether the field may be left out. \<open>mand\<close> and \<open>opt\<close> are plain members;
  \<open>_explicit\<close> is an explicitly tagged CHOICE, \<open>_choice\<close> a list of alternatives under one tag, and
  \<open>inline_choice\<close> a CHOICE with no tag of its own.
\<close>

record params =
  ptag :: "nat option"
  pexplicit :: bool
  pchoice :: "string option"
  poptional :: bool

definition mand :: "nat \<Rightarrow> params" where
  "mand n = \<lparr>ptag = Some n, pexplicit = False, pchoice = None, poptional = False\<rparr>"
definition opt :: "nat \<Rightarrow> params" where
  "opt n = \<lparr>ptag = Some n, pexplicit = False, pchoice = None, poptional = True\<rparr>"
definition mand_explicit :: "nat \<Rightarrow> string \<Rightarrow> params" where
  "mand_explicit n c = \<lparr>ptag = Some n, pexplicit = True, pchoice = Some c, poptional = False\<rparr>"
definition opt_explicit :: "nat \<Rightarrow> string \<Rightarrow> params" where
  "opt_explicit n c = \<lparr>ptag = Some n, pexplicit = True, pchoice = Some c, poptional = True\<rparr>"
definition mand_choice :: "nat \<Rightarrow> string \<Rightarrow> params" where
  "mand_choice n c = \<lparr>ptag = Some n, pexplicit = False, pchoice = Some c, poptional = False\<rparr>"
definition opt_choice :: "nat \<Rightarrow> string \<Rightarrow> params" where
  "opt_choice n c = \<lparr>ptag = Some n, pexplicit = False, pchoice = Some c, poptional = True\<rparr>"
definition inline_choice :: "string \<Rightarrow> params" where
  "inline_choice c = \<lparr>ptag = None, pexplicit = False, pchoice = Some c, poptional = False\<rparr>"

lemmas params_defs = mand_def opt_def mand_explicit_def opt_explicit_def mand_choice_def opt_choice_def inline_choice_def

definition tags_SubscriberSUPI :: "params list" where
  "tags_SubscriberSUPI =
     [inline_choice ''supi'']"

definition tags_SubscriberPEI :: "params list" where
  "tags_SubscriberPEI =
     [inline_choice ''pei'']"

definition tags_SubscriberGPSI :: "params list" where
  "tags_SubscriberGPSI =
     [inline_choice ''gpsi'']"

definition tags_SNSSAI :: "params list" where
  "tags_SNSSAI =
     [mand 1, opt 2, opt 3, opt 4]"

definition tags_FTEID :: "params list" where
  "tags_FTEID =
     [mand 1, opt 2, opt 3]"

definition tags_FiveGSGTPTunnels :: "params list" where
  "tags_FiveGSGTPTunnels =
     [opt 1]"

definition tags_GTPTunnelInfo :: "params list" where
  "tags_GTPTunnelInfo =
     [opt 1]"

definition tags_LocationInfo :: "params list" where
  "tags_LocationInfo =
     [opt 2]"

definition tags_Location :: "params list" where
  "tags_Location =
     [opt 1]"

definition tags_FiveGSSubscriberIDs :: "params list" where
  "tags_FiveGSSubscriberIDs =
     [mand_choice 1 ''fiveGSSubscriberID'']"

definition tags_UserIdentifiers :: "params list" where
  "tags_UserIdentifiers =
     [opt 1]"

definition tags_PDUSessionResourceInformation :: "params list" where
  "tags_PDUSessionResourceInformation =
     [mand 1]"

definition tags_FiveGGUTI :: "params list" where
  "tags_FiveGGUTI =
     [mand 1, mand 2, mand 3, mand 4, mand 5, mand 6]"

definition tags_SUCI :: "params list" where
  "tags_SUCI =
     [mand 1, mand 2, mand 3, mand 4, mand 5, mand 6, opt 7, opt 8, opt 9]"

definition tags_PLMNID :: "params list" where
  "tags_PLMNID =
     [mand 1, mand 2]"

definition tags_TAI :: "params list" where
  "tags_TAI =
     [mand 1, mand 2, opt 3]"

definition tags_SMFServingNetwork :: "params list" where
  "tags_SMFServingNetwork =
     [mand 1, opt 2]"

definition tags_AMFID :: "params list" where
  "tags_AMFID =
     [mand 1, mand 2, mand 3]"

definition tags_AMFRegistration :: "params list" where
  "tags_AMFRegistration =
     [mand 1, mand 2, mand_explicit 4 ''supi'', opt 5, opt_explicit 6 ''pei'', opt_explicit 7 ''gpsi'',
      mand 8, opt 11, opt 18]"

definition tags_AMFDeregistration :: "params list" where
  "tags_AMFDeregistration =
     [mand 1, mand 2, opt_explicit 3 ''supi'', opt 4, opt_explicit 5 ''pei'', opt_explicit 6 ''gpsi'',
      opt 7]"

definition tags_AMFStartOfInterceptionWithRegisteredUE :: "params list" where
  "tags_AMFStartOfInterceptionWithRegisteredUE =
     [mand 1, opt 2, mand_explicit 4 ''supi'', opt 5, opt_explicit 6 ''pei'', opt_explicit 7 ''gpsi'',
      mand 8, opt 12]"

definition tags_SMFPDUSessionEstablishment :: "params list" where
  "tags_SMFPDUSessionEstablishment =
     [opt_explicit 1 ''supi'', opt 2, opt_explicit 3 ''pei'', opt_explicit 4 ''gpsi'', mand 5, mand 6,
      mand 7, opt 8, opt_choice 9 ''ueEndpointAddress'', mand 12, opt 13, mand 15, opt 16, opt 17,
      opt 22, opt 25]"

definition tags_SMFPDUSessionModification :: "params list" where
  "tags_SMFPDUSessionModification =
     [opt_explicit 1 ''supi'', opt 2, opt_explicit 3 ''pei'', opt_explicit 4 ''gpsi'', opt 5, mand 8,
      opt 9, opt 10, opt 11, opt_choice 13 ''ueEndpointAddress'', opt 14, opt 16]"

definition tags_SMFPDUSessionRelease :: "params list" where
  "tags_SMFPDUSessionRelease =
     [mand_explicit 1 ''supi'', opt_explicit 2 ''pei'', opt_explicit 3 ''gpsi'', mand 4, opt 7, opt 8]"

definition tags_AMFLocationUpdate :: "params list" where
  "tags_AMFLocationUpdate =
     [mand_explicit 1 ''supi'', opt 2, opt_explicit 3 ''pei'', opt_explicit 4 ''gpsi'', opt 5, mand 6]"

definition tags_AMFUnsuccessfulProcedure :: "params list" where
  "tags_AMFUnsuccessfulProcedure =
     [mand 1, mand_explicit 2 ''amfFailureCause'', opt_explicit 4 ''supi'', opt 5,
      opt_explicit 6 ''pei'', opt_explicit 7 ''gpsi'', opt 8, opt 9]"

definition tags_AMFIdentifierAssociation :: "params list" where
  "tags_AMFIdentifierAssociation =
     [mand_explicit 1 ''supi'', opt 2, opt_explicit 3 ''pei'', opt_explicit 4 ''gpsi'', mand 5, mand 6,
      opt 7]"

definition tags_AMFIdentifierDeassociation :: "params list" where
  "tags_AMFIdentifierDeassociation =
     [mand_explicit 1 ''supi'', opt 2, opt_explicit 3 ''pei'', opt_explicit 4 ''gpsi'', mand 5]"

definition tags_SMFStartOfInterceptionWithEstablishedPDUSession :: "params list" where
  "tags_SMFStartOfInterceptionWithEstablishedPDUSession =
     [opt_explicit 1 ''supi'', opt 2, opt_explicit 3 ''pei'', opt_explicit 4 ''gpsi'', mand 5, mand 6,
      mand 7, opt 8, mand_choice 9 ''ueEndpointAddress'', mand 12, opt 13, mand 15, opt 16, opt 17,
      opt 22, opt 23]"

definition tags_SMFUnsuccessfulProcedure :: "params list" where
  "tags_SMFUnsuccessfulProcedure =
     [mand 1, mand 2, mand 3, opt_explicit 5 ''supi'', opt 6, opt_explicit 7 ''pei'',
      opt_explicit 8 ''gpsi'', opt 9, opt_choice 10 ''ueEndpointAddress'', opt 12, opt 13, opt 15,
      opt 16, opt 17]"

definition tags_AMFUEServiceAccept :: "params list" where
  "tags_AMFUEServiceAccept =
     [mand 1, mand_explicit 2 ''serviceMessageIdentity'', opt 3, opt 4]"

definition tags_AMFUEPolicyTransfer :: "params list" where
  "tags_AMFUEPolicyTransfer =
     [mand_explicit 1 ''supi'', opt 2, opt_explicit 3 ''pei'', opt_explicit 4 ''gpsi'', opt 5, mand 6]"

definition tags_AMFPositioningInfoTransfer :: "params list" where
  "tags_AMFPositioningInfoTransfer =
     [mand_explicit 1 ''supi'', opt 2, opt_explicit 3 ''pei'', opt_explicit 4 ''gpsi'', opt 5, opt 6,
      opt 7, mand 8]"

definition tags_AMFRANHandoverCommand :: "params list" where
  "tags_AMFRANHandoverCommand =
     [mand 1, mand 2, mand 3, mand 4, mand 5]"

definition tags_AMFRANHandoverRequest :: "params list" where
  "tags_AMFRANHandoverRequest =
     [mand 1, mand 2, mand 3, mand 4, mand_explicit 5 ''handoverCause'', mand 6, mand 9, mand 11]"

definition tags_XIRIPayload :: "params list" where
  "tags_XIRIPayload =
     [mand 1, mand_explicit 2 ''xiriEvent'']"

lemmas tags_defs = params_defs
  tags_SubscriberSUPI_def tags_SubscriberPEI_def tags_SubscriberGPSI_def tags_SNSSAI_def tags_FTEID_def
  tags_FiveGSGTPTunnels_def tags_GTPTunnelInfo_def tags_LocationInfo_def tags_Location_def
  tags_FiveGSSubscriberIDs_def tags_UserIdentifiers_def tags_PDUSessionResourceInformation_def
  tags_FiveGGUTI_def tags_SUCI_def tags_PLMNID_def tags_TAI_def tags_SMFServingNetwork_def
  tags_AMFID_def tags_AMFRegistration_def tags_AMFDeregistration_def
  tags_AMFStartOfInterceptionWithRegisteredUE_def tags_SMFPDUSessionEstablishment_def
  tags_SMFPDUSessionModification_def tags_SMFPDUSessionRelease_def tags_AMFLocationUpdate_def
  tags_AMFUnsuccessfulProcedure_def tags_AMFIdentifierAssociation_def
  tags_AMFIdentifierDeassociation_def tags_SMFStartOfInterceptionWithEstablishedPDUSession_def
  tags_SMFUnsuccessfulProcedure_def tags_AMFUEServiceAccept_def tags_AMFUEPolicyTransfer_def
  tags_AMFPositioningInfoTransfer_def tags_AMFRANHandoverCommand_def tags_AMFRANHandoverRequest_def
  tags_XIRIPayload_def

definition struct_tags :: "(string \<times> params list) list" where
  "struct_tags =
     [(''SubscriberSUPI'', tags_SubscriberSUPI), (''SubscriberPEI'', tags_SubscriberPEI),
      (''SubscriberGPSI'', tags_SubscriberGPSI), (''SNSSAI'', tags_SNSSAI), (''FTEID'', tags_FTEID),
      (''FiveGSGTPTunnels'', tags_FiveGSGTPTunnels), (''GTPTunnelInfo'', tags_GTPTunnelInfo),
      (''LocationInfo'', tags_LocationInfo), (''Location'', tags_Location),
      (''FiveGSSubscriberIDs'', tags_FiveGSSubscriberIDs), (''UserIdentifiers'', tags_UserIdentifiers),
      (''PDUSessionResourceInformation'', tags_PDUSessionResourceInformation),
      (''FiveGGUTI'', tags_FiveGGUTI), (''SUCI'', tags_SUCI), (''PLMNID'', tags_PLMNID),
      (''TAI'', tags_TAI), (''SMFServingNetwork'', tags_SMFServingNetwork), (''AMFID'', tags_AMFID),
      (''AMFRegistration'', tags_AMFRegistration), (''AMFDeregistration'', tags_AMFDeregistration),
      (''AMFStartOfInterceptionWithRegisteredUE'', tags_AMFStartOfInterceptionWithRegisteredUE),
      (''SMFPDUSessionEstablishment'', tags_SMFPDUSessionEstablishment),
      (''SMFPDUSessionModification'', tags_SMFPDUSessionModification),
      (''SMFPDUSessionRelease'', tags_SMFPDUSessionRelease),
      (''AMFLocationUpdate'', tags_AMFLocationUpdate),
      (''AMFUnsuccessfulProcedure'', tags_AMFUnsuccessfulProcedure),
      (''AMFIdentifierAssociation'', tags_AMFIdentifierAssociation),
      (''AMFIdentifierDeassociation'', tags_AMFIdentifierDeassociation),
      (''SMFStartOfInterceptionWithEstablishedPDUSession'', tags_SMFStartOfInterceptionWithEstablishedPDUSession),
      (''SMFUnsuccessfulProcedure'', tags_SMFUnsuccessfulProcedure),
      (''AMFUEServiceAccept'', tags_AMFUEServiceAccept),
      (''AMFUEPolicyTransfer'', tags_AMFUEPolicyTransfer),
      (''AMFPositioningInfoTransfer'', tags_AMFPositioningInfoTransfer),
      (''AMFRANHandoverCommand'', tags_AMFRANHandoverCommand),
      (''AMFRANHandoverRequest'', tags_AMFRANHandoverRequest), (''XIRIPayload'', tags_XIRIPayload)]"

subsection \<open>Events\<close>

text \<open>What \<open>EncodeXIRI\<close> may be given: nil, one of the records of the \<open>XIRIEvent\<close> CHOICE, or another value.\<close>

datatype XIRIEvent =
    EvNil
  | EvAMFRegistration AMFRegistration
  | EvAMFDeregistration AMFDeregistration
  | EvAMFLocationUpdate AMFLocationUpdate
  | EvAMFStartOfInterceptionWithRegisteredUE AMFStartOfInterceptionWithRegisteredUE
  | EvAMFUnsuccessfulProcedure AMFUnsuccessfulProcedure
  | EvSMFPDUSessionEstablishment SMFPDUSessionEstablishment
  | EvSMFPDUSessionModification SMFPDUSessionModification
  | EvSMFPDUSessionRelease SMFPDUSessionRelease
  | EvSMFStartOfInterceptionWithEstablishedPDUSession SMFStartOfInterceptionWithEstablishedPDUSession
  | EvSMFUnsuccessfulProcedure SMFUnsuccessfulProcedure
  | EvAMFIdentifierAssociation AMFIdentifierAssociation
  | EvAMFPositioningInfoTransfer AMFPositioningInfoTransfer
  | EvAMFRANHandoverCommand AMFRANHandoverCommand
  | EvAMFRANHandoverRequest AMFRANHandoverRequest
  | EvAMFUEPolicyTransfer AMFUEPolicyTransfer
  | EvAMFUEServiceAccept AMFUEServiceAccept
  | EvAMFIdentifierDeassociation AMFIdentifierDeassociation
  | EvOther goval

fun refl_event :: "XIRIEvent \<Rightarrow> goval" where
  "refl_event EvNil = GNil"
| "refl_event (EvAMFRegistration r) = GIface (refl_AMFRegistration r)"
| "refl_event (EvAMFDeregistration r) = GIface (refl_AMFDeregistration r)"
| "refl_event (EvAMFLocationUpdate r) = GIface (refl_AMFLocationUpdate r)"
| "refl_event (EvAMFStartOfInterceptionWithRegisteredUE r) = GIface (refl_AMFStartOfInterceptionWithRegisteredUE r)"
| "refl_event (EvAMFUnsuccessfulProcedure r) = GIface (refl_AMFUnsuccessfulProcedure r)"
| "refl_event (EvSMFPDUSessionEstablishment r) = GIface (refl_SMFPDUSessionEstablishment r)"
| "refl_event (EvSMFPDUSessionModification r) = GIface (refl_SMFPDUSessionModification r)"
| "refl_event (EvSMFPDUSessionRelease r) = GIface (refl_SMFPDUSessionRelease r)"
| "refl_event (EvSMFStartOfInterceptionWithEstablishedPDUSession r) = GIface (refl_SMFStartOfInterceptionWithEstablishedPDUSession r)"
| "refl_event (EvSMFUnsuccessfulProcedure r) = GIface (refl_SMFUnsuccessfulProcedure r)"
| "refl_event (EvAMFIdentifierAssociation r) = GIface (refl_AMFIdentifierAssociation r)"
| "refl_event (EvAMFPositioningInfoTransfer r) = GIface (refl_AMFPositioningInfoTransfer r)"
| "refl_event (EvAMFRANHandoverCommand r) = GIface (refl_AMFRANHandoverCommand r)"
| "refl_event (EvAMFRANHandoverRequest r) = GIface (refl_AMFRANHandoverRequest r)"
| "refl_event (EvAMFUEPolicyTransfer r) = GIface (refl_AMFUEPolicyTransfer r)"
| "refl_event (EvAMFUEServiceAccept r) = GIface (refl_AMFUEServiceAccept r)"
| "refl_event (EvAMFIdentifierDeassociation r) = GIface (refl_AMFIdentifierDeassociation r)"
| "refl_event (EvOther v) = GIface (GOpaque v)"

definition xIRIPayloadOID :: "byte list" where
  "xIRIPayloadOID = [4, 19, 18, 15, 1]"

definition refl_payload :: "XIRIEvent \<Rightarrow> goval" where
  "refl_payload e =
     GStruct (Iri_t ''XIRIPayload'')
       [fld ''OID'' (GBytes (Go_t ''[]uint8'') (Some xIRIPayloadOID)), fld ''Event'' (refl_event e)]"

end
