(* ===== verification/IriConstraints.thy ===== *)
theory IriConstraints
  imports Iri
begin

text \<open>
  The restrictions of \<open>src/iri/constraints.go\<close>: the tables keyed by type, and the reflective walk that
  applies them to every value of a record. A permitted range is a pair, both ends included.
\<close>

subsection \<open>Tables\<close>

definition octetConstraints :: "(string \<times> nat \<times> nat) list" where
  "octetConstraints =
     [(''IPv4Address'', 4, 4), (''IPv6Address'', 16, 16), (''MACAddress'', 6, 6), (''UEPolicy'', 16, 65540),
      (''SliceDifferentiator'', 3, 3), (''ServiceType'', 1, 1), (''TAC'', 2, 3)]"

definition intConstraints :: "(string \<times> int \<times> int) list" where
  "intConstraints =
     [(''PDUSessionID'', 0, 255), (''FiveGMMCause'', 0, 255), (''FiveGSMCause'', 0, 255),
      (''AMFUENGAPID'', 0, 1099511627775), (''RANUENGAPID'', 0, 4294967295),
      (''SliceServiceType'', 0, 255), (''TEID'', 0, 4294967295),
      (''AMFRegionID'', 0, 255), (''AMFSetID'', 0, 1023), (''AMFPointer'', 0, 63), (''FiveGTMSI'', 0, 4294967295),
      (''RoutingIndicator'', 0, 9999), (''ProtectionSchemeID'', 0, 15), (''SUPIType'', 0, 7),
      (''RoutingIndicatorLength'', 1, 4)]"

definition utf8Constraints :: "(string \<times> nat \<times> nat) list" where
  "utf8Constraints = [(''LCSCorrelationID'', 1, 255), (''NID'', 11, 11)]"

definition numericConstraints :: "(string \<times> nat \<times> nat) list" where
  "numericConstraints = [(''MCC'', 3, 3), (''MNC'', 2, 3)]"

definition mandatoryEnums :: "string list" where
  "mandatoryEnums =
     [''HandoverType'', ''CauseRadioNetwork'', ''CauseTransport'', ''CauseNas'', ''CauseProtocol'', ''CauseMisc'',
      ''AMFDirection'', ''AMFRegistrationResult'', ''AMFFailedProcedureType'', ''SMFFailedProcedureType'',
      ''PDUSessionType'', ''Initiator'']"

definition mandatoryEnumFields :: "string list" where
  "mandatoryEnumFields =
     [''AMFDeregistration.AccessType'', ''SMFPDUSessionEstablishment.RequestType'',
      ''SMFPDUSessionModification.RequestType'',
      ''SMFStartOfInterceptionWithEstablishedPDUSession.RequestType'', ''AMFRegistration.RegistrationType'']"

definition enumConstraints :: "(string \<times> int \<times> int) list" where
  "enumConstraints =
     [(''AMFRegistrationType'', 1, 7), (''AMFRegistrationResult'', 1, 3), (''AMFDirection'', 1, 2),
      (''AccessType'', 1, 3), (''PDUSessionType'', 1, 5), (''FiveGSMRequestType'', 1, 7),
      (''AMFFailedProcedureType'', 1, 3), (''SMFFailedProcedureType'', 1, 3), (''Initiator'', 1, 3),
      (''HandoverType'', 1, 4), (''CauseRadioNetwork'', 1, 52), (''CauseTransport'', 1, 2), (''CauseNas'', 1, 4),
      (''CauseProtocol'', 1, 7), (''CauseMisc'', 1, 6)]"

text \<open>A table is keyed by a type of this package; the type of a value of another package has no entry.\<close>

fun lookup_type :: "(string \<times> 'a) list \<Rightarrow> gotype \<Rightarrow> 'a option" where
  "lookup_type tab (Iri_t n) = map_of tab n"
| "lookup_type tab (Go_t n) = None"

subsection \<open>The walk\<close>

text \<open>The refusals of the package, each with what its text names.\<close>

datatype iri_error =
    Missing string
  | NotAnAlternative string string string
  | OctetCount string nat string nat nat
  | IntegerRange string int string int int
  | EnumRange string int string int int
  | NumericLength string nat string nat nat
  | NumericAlphabet string nat string
  | Utf8Length string nat string nat nat
  | EmptyEndpoint string

definition octets_allowed :: "gotype \<Rightarrow> string \<Rightarrow> nat \<Rightarrow> iri_error option" where
  "octets_allowed t path n =
     (case lookup_type octetConstraints t of
        None \<Rightarrow> None
      | Some (lo, hi) \<Rightarrow>
          if n = 0 then None
          else if n < lo \<or> n > hi then Some (OctetCount path n (Name t) lo hi) else None)"

definition enum_allowed :: "gotype \<Rightarrow> string \<Rightarrow> bool \<Rightarrow> int \<Rightarrow> iri_error option" where
  "enum_allowed t path zeroForbidden n =
     (case lookup_type enumConstraints t of
        None \<Rightarrow> None
      | Some (lo, hi) \<Rightarrow>
          if n = 0 \<and> Name t \<notin> set mandatoryEnums \<and> \<not> zeroForbidden then None
          else if n < lo \<or> n > hi then Some (EnumRange path n (Name t) lo hi) else None)"

definition int_allowed :: "gotype \<Rightarrow> string \<Rightarrow> bool \<Rightarrow> int \<Rightarrow> iri_error option" where
  "int_allowed t path zeroForbidden n =
     (case lookup_type intConstraints t of
        Some (lo, hi) \<Rightarrow>
          if n < lo \<or> n > hi then Some (IntegerRange path n (Name t) lo hi)
          else enum_allowed t path zeroForbidden n
      | None \<Rightarrow> enum_allowed t path zeroForbidden n)"

fun alphabet_loop :: "gotype \<Rightarrow> string \<Rightarrow> nat list \<Rightarrow> iri_error option" where
  "alphabet_loop t path [] = None"
| "alphabet_loop t path (r # rs) =
     (if (r < 48 \<or> r > 57) \<and> r \<noteq> 32 then Some (NumericAlphabet path r (Name t)) else alphabet_loop t path rs)"

definition numeric_allowed :: "gotype \<Rightarrow> string \<Rightarrow> string \<Rightarrow> iri_error option" where
  "numeric_allowed t path s =
     (case lookup_type numericConstraints t of
        None \<Rightarrow> None
      | Some (lo, hi) \<Rightarrow>
          if s \<noteq> '''' then
            (let n = length (runes s)
             in if n < lo \<or> n > hi then Some (NumericLength path n (Name t) lo hi)
                else alphabet_loop t path (runes s))
          else None)"

definition utf8_allowed :: "gotype \<Rightarrow> string \<Rightarrow> string \<Rightarrow> iri_error option" where
  "utf8_allowed t path s =
     (case lookup_type utf8Constraints t of
        None \<Rightarrow> None
      | Some (lo, hi) \<Rightarrow>
          if s = '''' then None
          else let n = length (runes s)
            in if n < lo \<or> n > hi then Some (Utf8Length path n (Name t) lo hi) else None)"

definition constraintOf :: "goval \<Rightarrow> string \<Rightarrow> bool \<Rightarrow> iri_error option" where
  "constraintOf v path zeroForbidden =
     (case v of
        GBytes t b \<Rightarrow> octets_allowed t path (case b of None \<Rightarrow> 0 | Some bs \<Rightarrow> length bs)
      | GInt t n \<Rightarrow> int_allowed t path zeroForbidden n
      | GString t s \<Rightarrow> (case numeric_allowed t path s of Some e \<Rightarrow> Some e | None \<Rightarrow> utf8_allowed t path s)
      | _ \<Rightarrow> None)"

fun walkConstrained :: "goval \<Rightarrow> string \<Rightarrow> bool \<Rightarrow> iri_error option"
  and walk_fields :: "string \<Rightarrow> (string \<times> bool \<times> goval) list \<Rightarrow> string \<Rightarrow> iri_error option"
  and walk_elements :: "goval list \<Rightarrow> nat \<Rightarrow> string \<Rightarrow> bool \<Rightarrow> iri_error option" where
  "walkConstrained GNil path zf = None"
| "walkConstrained (GIface v) path zf = walkConstrained v path zf"
| "walkConstrained (GNilPtr t) path zf = None"
| "walkConstrained (GPtr v) path zf = walkConstrained v path zf"
| "walkConstrained (GStruct t fs) path zf = walk_fields (Name t) fs path"
| "walkConstrained (GSlice t vs) path zf = (case vs of None \<Rightarrow> None | Some es \<Rightarrow> walk_elements es 0 path zf)"
| "walkConstrained (GArray t es) path zf = walk_elements es 0 path zf"
| "walkConstrained (GBytes t b) path zf = constraintOf (GBytes t b) path zf"
| "walkConstrained (GInt t i) path zf = constraintOf (GInt t i) path zf"
| "walkConstrained (GString t s) path zf = constraintOf (GString t s) path zf"
| "walkConstrained (GBool t v) path zf = None"
| "walkConstrained (GOther t z) path zf = None"
| "walkConstrained (GOpaque v) path zf = walkConstrained v path zf"
| "walk_fields tn [] path = None"
| "walk_fields tn ((n, exported, v) # fs) path =
     (if \<not> exported then walk_fields tn fs path
      else case walkConstrained v (path @ ''.'' @ n) (tn @ ''.'' @ n \<in> set mandatoryEnumFields) of
        Some e \<Rightarrow> Some e
      | None \<Rightarrow> walk_fields tn fs path)"
| "walk_elements [] i path zf = None"
| "walk_elements (v # vs) i path zf =
     (case walkConstrained v (path @ ''['' @ FormatUint i @ '']'') zf of
        Some e \<Rightarrow> Some e
      | None \<Rightarrow> walk_elements vs (Suc i) path zf)"

text \<open>The event holds a value: \<open>reflect.TypeOf(nil).String()\<close> has no result, see \<open>EncodeXIRI\<close>.\<close>

definition validateConstraints :: "goval \<Rightarrow> iri_error option" where
  "validateConstraints v = walkConstrained v (type_text v) False"

subsection \<open>What the walk establishes\<close>

text \<open>
  \<open>part v z w z'\<close>: \<open>w\<close> is a value inside \<open>v\<close>, in a field that forbids zero when \<open>z'\<close> holds.
\<close>

inductive part :: "goval \<Rightarrow> bool \<Rightarrow> goval \<Rightarrow> bool \<Rightarrow> bool" where
  whole: "part v z v z"
| iface: "part v z w y \<Longrightarrow> part (GIface v) z w y"
| pointer: "part v z w y \<Longrightarrow> part (GPtr v) z w y"
| opaque: "part v z w y \<Longrightarrow> part (GOpaque v) z w y"
| field: "(n, True, u) \<in> set fs \<Longrightarrow> part u (Name t @ ''.'' @ n \<in> set mandatoryEnumFields) w y \<Longrightarrow> part (GStruct t fs) z w y"
| element: "u \<in> set es \<Longrightarrow> part u z w y \<Longrightarrow> part (GSlice t (Some es)) z w y"
| array: "u \<in> set es \<Longrightarrow> part u z w y \<Longrightarrow> part (GArray t es) z w y"

inductive_simps part_simps:
  "part GNil z w y" "part (GIface v) z w y" "part (GNilPtr t) z w y" "part (GPtr v) z w y"
  "part (GStruct t fs) z w y" "part (GSlice t vs) z w y" "part (GArray t es) z w y" "part (GBytes t b) z w y"
  "part (GInt t i) z w y" "part (GString t s) z w y" "part (GBool t v) z w y" "part (GOther t x) z w y"
  "part (GOpaque v) z w y"

text \<open>A value within the restriction of its type, where an absent one is excused.\<close>

definition in_range :: "'a :: linorder \<times> 'a \<Rightarrow> 'a \<Rightarrow> bool" where
  "in_range r n \<longleftrightarrow> fst r \<le> n \<and> n \<le> snd r"

fun permitted :: "goval \<Rightarrow> bool \<Rightarrow> bool" where
  "permitted (GBytes t b) z =
     (case (lookup_type octetConstraints t, b) of
        (Some r, Some bs) \<Rightarrow> bs = [] \<or> in_range r (length bs)
      | _ \<Rightarrow> True)"
| "permitted (GInt t n) z =
     ((case lookup_type intConstraints t of Some r \<Rightarrow> in_range r n | None \<Rightarrow> True) \<and>
      (case lookup_type enumConstraints t of
         Some r \<Rightarrow> in_range r n \<or> n = 0 \<and> Name t \<notin> set mandatoryEnums \<and> \<not> z
       | None \<Rightarrow> True))"
| "permitted (GString t s) z =
     ((case lookup_type numericConstraints t of
         Some r \<Rightarrow> s = '''' \<or> in_range r (length (runes s)) \<and> list_all (\<lambda>c. 48 \<le> c \<and> c \<le> 57 \<or> c = 32) (runes s)
       | None \<Rightarrow> True) \<and>
      (case lookup_type utf8Constraints t of
         Some r \<Rightarrow> s = '''' \<or> in_range r (length (runes s))
       | None \<Rightarrow> True))"
| "permitted v z = True"

lemma alphabet_loop_None: "alphabet_loop t path rs = None \<longleftrightarrow> list_all (\<lambda>c. 48 \<le> c \<and> c \<le> 57 \<or> c = 32) rs"
  by (induction rs) auto

lemma constraintOf_None: "constraintOf v path z = None \<longleftrightarrow> permitted v z"
proof (cases v)
  case (GBytes t b)
  then show ?thesis
    by (cases "lookup_type octetConstraints t"; cases b)
      (auto simp: constraintOf_def octets_allowed_def in_range_def not_less split: if_splits)
next
  case (GInt t n)
  then show ?thesis
    by (cases "lookup_type intConstraints t"; cases "lookup_type enumConstraints t")
      (auto simp: constraintOf_def int_allowed_def enum_allowed_def in_range_def not_less split: if_splits)
next
  case (GString t s)
  have n: "numeric_allowed t path s = None \<longleftrightarrow>
      (case lookup_type numericConstraints t of
         Some r \<Rightarrow> s = '''' \<or> in_range r (length (runes s)) \<and> list_all (\<lambda>c. 48 \<le> c \<and> c \<le> 57 \<or> c = 32) (runes s)
       | None \<Rightarrow> True)"
    by (auto simp: numeric_allowed_def in_range_def not_less Let_def alphabet_loop_None split: option.split)
  have u: "utf8_allowed t path s = None \<longleftrightarrow>
      (case lookup_type utf8Constraints t of Some r \<Rightarrow> s = '''' \<or> in_range r (length (runes s)) | None \<Rightarrow> True)"
    by (auto simp: utf8_allowed_def in_range_def not_less Let_def split: option.split)
  show ?thesis using n u GString by (cases "numeric_allowed t path s") (simp_all add: constraintOf_def)
qed (simp_all add: constraintOf_def)

lemma walk_None:
  "walkConstrained v path z = None \<longleftrightarrow> (\<forall>w y. part v z w y \<longrightarrow> permitted w y)"
  "walk_fields tn fs path = None \<longleftrightarrow>
     list_all (\<lambda>(n, e, u). e \<longrightarrow> (\<forall>w y. part u (tn @ ''.'' @ n \<in> set mandatoryEnumFields) w y \<longrightarrow> permitted w y)) fs"
  "walk_elements es i path z = None \<longleftrightarrow> list_all (\<lambda>u. \<forall>w y. part u z w y \<longrightarrow> permitted w y) es"
proof (induction v path z and tn fs path and es i path z
    rule: walkConstrained_walk_fields_walk_elements.induct)
  case (5 t fs path zf)
  then show ?case by (fastforce simp: part_simps list_all_iff)
next
  case (6 t vs path zf)
  then show ?case by (cases vs) (fastforce simp: part_simps list_all_iff)+
next
  case (7 t es path zf)
  then show ?case by (fastforce simp: part_simps list_all_iff)
next
  case (15 tn n exported v fs path)
  then show ?case
    by (cases "walkConstrained v (path @ ''.'' @ n) (tn @ ''.'' @ n \<in> set mandatoryEnumFields)") auto
next
  case (17 v vs i path zf)
  then show ?case by (cases "walkConstrained v (path @ ''['' @ FormatUint i @ '']'') zf") auto
qed (auto simp: part_simps constraintOf_None)

lemma validateConstraints_None: "validateConstraints v = None \<longleftrightarrow> (\<forall>w y. part v False w y \<longrightarrow> permitted w y)"
  by (simp add: validateConstraints_def walk_None(1))

text \<open>
  The bounds of every restricted enumeration are the values it declares: each declared value is
  permitted, and each permitted value is declared, apart from the one number the radio network
  causes leave out.
\<close>

definition declared_enums :: "(string \<times> (string \<times> int) list) list" where
  "declared_enums =
     [(''AMFRegistrationType'', AMFRegistrationType_values), (''AMFRegistrationResult'', AMFRegistrationResult_values),
      (''AMFDirection'', AMFDirection_values), (''AccessType'', AccessType_values),
      (''PDUSessionType'', PDUSessionType_values), (''FiveGSMRequestType'', FiveGSMRequestType_values),
      (''AMFFailedProcedureType'', AMFFailedProcedureType_values), (''SMFFailedProcedureType'', SMFFailedProcedureType_values),
      (''Initiator'', Initiator_values), (''HandoverType'', HandoverType_values),
      (''CauseRadioNetwork'', CauseRadioNetwork_values), (''CauseTransport'', CauseTransport_values),
      (''CauseNas'', CauseNas_values), (''CauseProtocol'', CauseProtocol_values), (''CauseMisc'', CauseMisc_values)]"

lemma enum_tables_agree:
  "map (\<lambda>(t, lo, hi). (t, filter (\<lambda>n. t \<noteq> ''CauseRadioNetwork'' \<or> n \<noteq> 28) [lo..hi])) enumConstraints =
   map (\<lambda>(t, vs). (t, map snd vs)) declared_enums"
  by code_simp

end
