(* ===== verification/Der.thy ===== *)
theory Der
  imports Prelude
begin

text \<open>
  The parts of Go's \<open>encoding/asn1\<close> that \<open>src/iri/emit.go\<close> writes with (identifier and length octets,
  \<open>INTEGER\<close>, \<open>BOOLEAN\<close> and \<open>RawValue\<close>), and a reader for the same encoding rules: elements as trees,
  \<open>der\<close> writes a tree and \<open>read_ders\<close> reads back every sequence of elements. The reader follows
  X.690 and not the encoder, so that reading is a statement about what a receiver sees.
\<close>

subsection \<open>Writing\<close>

definition ClassUniversal :: nat where "ClassUniversal = 0"
definition ClassContextSpecific :: nat where "ClassContextSpecific = 2"
definition TagSequence :: nat where "TagSequence = 16"

lemmas asn1_classes = ClassUniversal_def ClassContextSpecific_def TagSequence_def

definition octet :: "nat \<Rightarrow> byte" where
  "octet n = of_nat n"

lemma unat_octet [simp]: "n < 256 \<Longrightarrow> unat (octet n) = n"
  by (simp add: octet_def)

fun base128_loop :: "nat \<Rightarrow> nat" where
  "base128_loop i = (if i = 0 then 0 else Suc (base128_loop (i div 128)))"

declare base128_loop.simps [simp del]

definition base128IntLength :: "nat \<Rightarrow> nat" where
  "base128IntLength n = (if n = 0 then 1 else base128_loop n)"

text \<open>The seven bits from position \<open>7 i\<close>, with the continuation bit on every octet but the last.\<close>

definition base128_octet :: "nat \<Rightarrow> nat \<Rightarrow> byte" where
  "base128_octet n i = octet (n div 128 ^ i mod 128 + (if i = 0 then 0 else 128))"

definition appendBase128Int :: "nat \<Rightarrow> byte list" where
  "appendBase128Int n = map (base128_octet n) (rev [0..<base128IntLength n])"

fun lengthLength :: "nat \<Rightarrow> nat" where
  "lengthLength i = (if i > 255 then Suc (lengthLength (i div 256)) else 1)"

declare lengthLength.simps [simp del]

definition tag_octets :: "nat \<Rightarrow> bool \<Rightarrow> nat \<Rightarrow> byte list" where
  "tag_octets class isCompound tag =
     (let b = class * 64 + (if isCompound then 32 else 0)
      in if tag \<ge> 31 then octet (b + 31) # appendBase128Int tag else [octet (b + tag)])"

definition length_octets :: "nat \<Rightarrow> byte list" where
  "length_octets len =
     (if len \<ge> 128 then octet (128 + lengthLength len) # be (lengthLength len) len else [octet len])"

definition appendTagAndLength :: "nat \<Rightarrow> nat \<Rightarrow> nat \<Rightarrow> bool \<Rightarrow> byte list" where
  "appendTagAndLength class tag len isCompound = tag_octets class isCompound tag @ length_octets len"

text \<open>\<open>int64Encoder\<close>: the shortest two's complement form.\<close>

function int64_length :: "int \<Rightarrow> nat" where
  "int64_length i = (if i > 127 \<or> i < - 128 then Suc (int64_length (i div 256)) else 1)"
  by auto
termination
proof (relation "measure (\<lambda>i. nat \<bar>i\<bar>)")
  fix i :: int assume "i > 127 \<or> i < - 128"
  then show "(i div 256, i) \<in> measure (\<lambda>i. nat \<bar>i\<bar>)" by (cases "i \<ge> 0") auto
qed simp

declare int64_length.simps [simp del]

definition int64Encoder :: "int \<Rightarrow> byte list" where
  "int64Encoder i = map (\<lambda>j. of_int (i div 256 ^ j)) (rev [0..<int64_length i])"

definition Marshal_int64 :: "nat \<Rightarrow> int \<Rightarrow> byte list" where
  "Marshal_int64 tag v =
     (let body = int64Encoder v in appendTagAndLength ClassContextSpecific tag (length body) False @ body)"

definition boolEncoder :: "bool \<Rightarrow> byte list" where
  "boolEncoder v = [if v then 255 else 0]"

definition Marshal_bool :: "nat \<Rightarrow> bool \<Rightarrow> byte list" where
  "Marshal_bool tag v = appendTagAndLength ClassContextSpecific tag 1 False @ boolEncoder v"

definition Marshal_raw :: "nat \<Rightarrow> nat \<Rightarrow> bool \<Rightarrow> byte list \<Rightarrow> byte list" where
  "Marshal_raw class tag isCompound b = appendTagAndLength class tag (length b) isCompound @ b"

subsection \<open>Elements and their reader\<close>

datatype element = Prim nat nat "byte list" | Constr nat nat "element list"

fun der :: "element \<Rightarrow> byte list" where
  "der (Prim class tag body) = Marshal_raw class tag False body"
| "der (Constr class tag es) = Marshal_raw class tag True (concat (map der es))"

text \<open>A tag number of several octets, most significant first, ended by an octet below 128.\<close>

fun read_base128 :: "nat \<Rightarrow> byte list \<Rightarrow> (nat \<times> byte list) option" where
  "read_base128 acc [] = None"
| "read_base128 acc (b # bs) =
     (let acc1 = 128 * acc + unat b mod 128
      in if unat b \<ge> 128 then read_base128 acc1 bs else Some (acc1, bs))"

definition read_tag :: "byte list \<Rightarrow> ((nat \<times> bool \<times> nat) \<times> byte list) option" where
  "read_tag bs =
     (case bs of
        [] \<Rightarrow> None
      | b # bs1 \<Rightarrow>
          let class = unat b div 64; compound = (unat b div 32 mod 2 = 1); low = unat b mod 32
          in if low = 31
             then map_option (\<lambda>(tag, bs2). ((class, compound, tag), bs2)) (read_base128 0 bs1)
             else Some ((class, compound, low), bs1))"

definition read_length :: "byte list \<Rightarrow> (nat \<times> byte list) option" where
  "read_length bs =
     (case bs of
        [] \<Rightarrow> None
      | b # bs1 \<Rightarrow>
          if unat b < 128 then Some (unat b, bs1)
          else let k = unat b - 128
            in if length bs1 < k then None else Some (unbe (take k bs1), drop k bs1))"

definition read_element :: "byte list \<Rightarrow> (nat \<times> bool \<times> nat \<times> byte list \<times> byte list) option" where
  "read_element bs =
     (case read_tag bs of
        None \<Rightarrow> None
      | Some ((class, compound, tag), bs1) \<Rightarrow>
          (case read_length bs1 of
             None \<Rightarrow> None
           | Some (n, bs2) \<Rightarrow>
               if length bs2 < n then None else Some (class, compound, tag, take n bs2, drop n bs2)))"

lemma read_base128_shorter: "read_base128 acc bs = Some (n, rest) \<Longrightarrow> length rest < length bs"
  by (induction acc bs rule: read_base128.induct) (auto simp: Let_def split: if_splits)

lemma read_element_shorter:
  assumes "read_element bs = Some (class, compound, tag, body, rest)"
  shows "length body < length bs" and "length rest < length bs"
proof -
  obtain n bs1 bs2 where t: "read_tag bs = Some ((class, compound, tag), bs1)"
      and l: "read_length bs1 = Some (n, bs2)" "length bs2 \<ge> n" "body = take n bs2" "rest = drop n bs2"
    using assms by (auto simp: read_element_def split: option.splits if_splits)
  have "length bs1 < length bs"
    using t by (auto simp: read_tag_def Let_def dest: read_base128_shorter split: list.splits if_splits)
  moreover have "length bs2 < length bs1"
    using l(1) by (auto simp: read_length_def Let_def split: list.splits if_splits)
  ultimately show "length body < length bs" "length rest < length bs" using l(3,4) by auto
qed

function read_ders :: "byte list \<Rightarrow> element list option" where
  "read_ders bs =
     (if bs = [] then Some []
      else case read_element bs of
        None \<Rightarrow> None
      | Some (class, compound, tag, body, rest) \<Rightarrow>
          (case read_ders rest of
             None \<Rightarrow> None
           | Some es \<Rightarrow>
               if \<not> compound then Some (Prim class tag body # es)
               else map_option (\<lambda>inner. Constr class tag inner # es) (read_ders body)))"
  by auto
termination
  by (relation "measure length") (auto dest: read_element_shorter)

declare read_ders.simps [simp del]

subsection \<open>Reading back what was written\<close>

text \<open>The elements Go can write: two class bits, and bodies whose length is a Go \<open>int\<close>.\<close>

definition maxLen :: nat where "maxLen = 2 ^ 63"

fun writable :: "element \<Rightarrow> bool" where
  "writable (Prim class tag body) = (class < 4 \<and> length body < maxLen)"
| "writable (Constr class tag es) = (class < 4 \<and> length (concat (map der es)) < maxLen \<and> list_all writable es)"

lemma base128_loop_bound: "n < 128 ^ base128_loop n"
  by (induction n rule: base128_loop.induct) (subst base128_loop.simps, auto)

lemma base128IntLength_pos: "0 < base128IntLength n"
  by (simp add: base128IntLength_def base128_loop.simps)

lemma base128IntLength_bound: "n < 128 ^ base128IntLength n"
  using base128_loop_bound [of n] by (auto simp: base128IntLength_def)

lemma unat_base128_octet: "unat (base128_octet n i) = n div 128 ^ i mod 128 + (if i = 0 then 0 else 128)"
proof -
  have "n div 128 ^ i mod 128 < 128" by simp
  then have "n div 128 ^ i mod 128 + (if i = 0 then 0 else 128) < 256" by (auto intro: order.strict_trans)
  then show ?thesis unfolding base128_octet_def by simp
qed

lemma read_base128_octets:
  "read_base128 (n div 128 ^ Suc k) (map (base128_octet n) (rev [0..<Suc k]) @ rest) = Some (n, rest)"
proof (induction k)
  case 0
  have "128 * (n div 128) + n mod 128 = n" and "\<not> 128 \<le> n mod 128" by (simp_all add: not_le)
  then show ?case by (simp add: unat_base128_octet Let_def)
next
  case (Suc k)
  have "128 * (n div 128 ^ Suc (Suc k)) + n div 128 ^ Suc k mod 128 = n div 128 ^ Suc k"
    by (metis div_mult2_eq mult.commute mult_div_mod_eq power_Suc)
  with Suc show ?case by (simp add: unat_base128_octet Let_def)
qed

lemma read_appendBase128Int [simp]: "read_base128 0 (appendBase128Int n @ rest) = Some (n, rest)"
proof -
  obtain k where k: "base128IntLength n = Suc k" using base128IntLength_pos [of n] by (cases "base128IntLength n") auto
  have "n div 128 ^ Suc k = 0" using base128IntLength_bound [of n] unfolding k by simp
  then show ?thesis using read_base128_octets [of n k rest] unfolding appendBase128Int_def k by simp
qed

lemma read_tag_octets [simp]:
  assumes "class < 4"
  shows "read_tag (tag_octets class compound tag @ rest) = Some ((class, compound, tag), rest)"
proof -
  define b where "b = (\<lambda>l. class * 64 + (if compound then 32 else 0) + l)"
  have b: "b l < 256" "b l div 64 = class" "(b l div 32 mod 2 = 1) = compound" "b l mod 32 = l" if "l < 32" for l
  proof -
    have c: "class \<in> {0, 1, 2, 3}" using assms by auto
    show "b l < 256" "b l div 64 = class" using that c by (auto simp: b_def)
    have e: "b l = l + 32 * (2 * class + (if compound then 1 else 0))" by (simp add: b_def)
    have "b l div 32 = 2 * class + (if compound then 1 else 0)" unfolding e using that by simp
    then show "(b l div 32 mod 2 = 1) = compound" by simp
    show "b l mod 32 = l" unfolding e mod_mult_self2 using that by simp
  qed
  show ?thesis
  proof (cases "tag \<ge> 31")
    case True
    then have "tag_octets class compound tag = octet (b 31) # appendBase128Int tag" by (simp add: tag_octets_def b_def)
    then show ?thesis using b [of 31] by (simp add: read_tag_def)
  next
    case False
    then have "tag_octets class compound tag = [octet (b tag)]" by (simp add: tag_octets_def b_def)
    then show ?thesis using b [of tag] False by (simp add: read_tag_def)
  qed
qed

lemma lengthLength_bound: "n < 256 ^ lengthLength n"
  by (induction n rule: lengthLength.induct) (subst lengthLength.simps, auto)

lemma lengthLength_le: "n < 256 ^ Suc k \<Longrightarrow> lengthLength n \<le> Suc k"
proof (induction k arbitrary: n)
  case (Suc k)
  from Suc.prems have "n div 256 < 256 ^ Suc k" by (simp add: less_mult_imp_div_less mult.commute)
  from Suc.IH [OF this] show ?case by (subst lengthLength.simps) simp
qed (simp add: lengthLength.simps)

lemma read_length_octets [simp]:
  assumes "n < maxLen"
  shows "read_length (length_octets n @ rest) = Some (n, rest)"
proof -
  have "n < 256 ^ Suc 7" using assms by (simp add: maxLen_def)
  then have l: "lengthLength n \<le> 8" using lengthLength_le [of n 7] by simp
  show ?thesis using l lengthLength_bound [of n] by (simp add: length_octets_def read_length_def Let_def)
qed

lemma read_element_raw:
  "class < 4 \<Longrightarrow> length body < maxLen \<Longrightarrow>
   read_element (Marshal_raw class tag compound body @ rest) = Some (class, compound, tag, body, rest)"
  by (simp add: read_element_def Marshal_raw_def appendTagAndLength_def)

lemma Marshal_raw_nonempty [simp]: "Marshal_raw class tag compound body \<noteq> []"
  by (simp add: Marshal_raw_def appendTagAndLength_def tag_octets_def Let_def)

lemma read_ders_raw:
  "class < 4 \<Longrightarrow> length body < maxLen \<Longrightarrow>
   read_ders (Marshal_raw class tag compound body @ rest) =
     (case read_ders rest of
        None \<Rightarrow> None
      | Some es \<Rightarrow> if \<not> compound then Some (Prim class tag body # es)
                  else map_option (\<lambda>inner. Constr class tag inner # es) (read_ders body))"
  by (subst read_ders.simps) (simp add: read_element_raw)

text \<open>Every sequence of elements is read back as it was written.\<close>

lemma read_ders_Nil [simp]: "read_ders [] = Some []"
  by (simp add: read_ders.simps)

lemma read_ders_der: "writable e \<Longrightarrow> read_ders rest = Some es \<Longrightarrow> read_ders (der e @ rest) = Some (e # es)"
proof (induction e arbitrary: rest es)
  case (Constr cl tag xs)
  then have "list_all writable xs" by simp
  then have "read_ders (concat (map der xs)) = Some xs"
    using Constr.IH by (induction xs) auto
  with Constr.prems show ?case by (simp add: read_ders_raw)
qed (simp add: read_ders_raw)

lemma read_ders_concat: "list_all writable xs \<Longrightarrow> read_ders (concat (map der xs)) = Some xs"
  by (induction xs) (simp_all add: read_ders_der)

subsection \<open>Integers\<close>

text \<open>The contents of an \<open>INTEGER\<close>, read as two's complement.\<close>

definition twos_complement :: "byte list \<Rightarrow> int" where
  "twos_complement bs =
     (if bs \<noteq> [] \<and> unat (hd bs) \<ge> 128 then int (unbe bs) - 256 ^ length bs else int (unbe bs))"

lemma int64_length_range: "- (128 * 256 ^ (int64_length i - 1)) \<le> i \<and> i < 128 * 256 ^ (int64_length i - 1)"
proof (induction i rule: int64_length.induct)
  case (1 i)
  show ?case
  proof (cases "i > 127 \<or> i < - 128")
    case True
    define p :: int where "p = 256 ^ (int64_length (i div 256) - 1)"
    have l: "int64_length i = Suc (int64_length (i div 256))" using True by (subst int64_length.simps) simp
    have "int64_length (i div 256) > 0" by (subst int64_length.simps) simp
    then have q: "(256::int) ^ (int64_length i - 1) = 256 * p" unfolding l p_def by (cases "int64_length (i div 256)") auto
    have "- (128 * p) \<le> i div 256 \<and> i div 256 < 128 * p" using 1 True by (simp add: p_def)
    then have "- (128 * (256 * p)) \<le> i \<and> i < 128 * (256 * p)" by linarith
    then show ?thesis unfolding q .
  qed (simp add: int64_length.simps)
qed

lemma int64_length_least:
  "int64_length i > 1 \<Longrightarrow> \<not> (- (128 * 256 ^ (int64_length i - 2)) \<le> i \<and> i < 128 * 256 ^ (int64_length i - 2))"
proof (induction i rule: int64_length.induct)
  case (1 i)
  then have c: "i > 127 \<or> i < - 128" by (subst (asm) (2) int64_length.simps) (simp split: if_splits)
  then have l: "int64_length i = Suc (int64_length (i div 256))" by (subst int64_length.simps) simp
  show ?case
  proof (cases "int64_length (i div 256) > 1")
    case True
    then obtain k where k: "int64_length (i div 256) = Suc (Suc k)"
      by (cases "int64_length (i div 256)"; cases "int64_length (i div 256) - 1") auto
    define p :: int where "p = 256 ^ k"
    have "\<not> (- (128 * p) \<le> i div 256 \<and> i div 256 < 128 * p)" using 1(1) [OF c True] by (simp add: k p_def)
    then consider "i div 256 + 1 \<le> - (128 * p)" | "128 * p \<le> i div 256" by linarith
    then have "\<not> (- (128 * (256 * p)) \<le> i \<and> i < 128 * (256 * p))"
      using mult_div_mod_eq [of 256 i] pos_mod_bound [of 256 i] pos_mod_sign [of 256 i] by cases linarith+
    then show ?thesis by (simp add: l k p_def)
  next
    case False
    moreover have "int64_length (i div 256) > 0" by (subst int64_length.simps) simp
    ultimately have "int64_length (i div 256) = 1" by simp
    with c show ?thesis by (auto simp: l)
  qed
qed

lemma unat_of_int_byte: "int (unat (of_int i :: byte)) = i mod 256"
  by (simp add: unsigned_of_int take_bit_eq_mod)

lemma uint_of_int_byte: "uint (of_int i :: byte) = i mod 256"
  using unat_of_int_byte [of i] by simp

lemma unbe_int_bytes: "int (unbe (map (\<lambda>j. of_int (i div 256 ^ (j + s))) (rev [0..<k]))) = (i div 256 ^ s) mod 256 ^ k"
proof (induction k arbitrary: s)
  case (Suc k)
  have r: "rev [0..<Suc k] = map Suc (rev [0..<k]) @ [0]" by (metis map_Suc_upt rev.simps(2) rev_map upt_conv_Cons zero_less_Suc)
  define q where "q = i div 256 ^ s"
  have "q mod 256 ^ Suc k = 256 * (q div 256 mod 256 ^ k) + q mod 256"
    by (simp add: zmod_zmult2_eq)
  moreover have "i div 256 ^ (s + 1) = q div 256"
    using zdiv_zmult2_eq [of 256 i "256 ^ s"] by (simp add: q_def mult.commute)
  ultimately show ?case
    using Suc.IH [of "Suc s"] unfolding r by (simp add: uint_of_int_byte comp_def q_def)
qed simp

lemma div_less_bound: "i < 128 * 256 ^ k \<Longrightarrow> i div 256 ^ k < (128 :: int)"
proof -
  assume "i < 128 * 256 ^ k"
  moreover have "256 ^ k * (i div 256 ^ k) \<le> i"
    using mult_div_mod_eq [of "256 ^ k" i] pos_mod_sign [of "256 ^ k" i] zero_less_power [of "256 :: int" k] by linarith
  ultimately have "256 ^ k * (i div 256 ^ k) < 256 ^ k * 128" by linarith
  then show ?thesis by simp
qed

lemma twos_complement_bytes:
  assumes "- (128 * 256 ^ k) \<le> i" and "i < 128 * 256 ^ k"
  shows "twos_complement (map (\<lambda>j. of_int (i div 256 ^ j)) (rev [0..<Suc k])) = i"
proof -
  let ?bs = "map (\<lambda>j. of_int (i div 256 ^ j)) (rev [0..<Suc k]) :: byte list"
  have u: "int (unbe ?bs) = i mod 256 ^ Suc k" using unbe_int_bytes [of i 0 "Suc k"] by simp
  have h: "int (unat (hd ?bs)) = i div 256 ^ k mod 256" using unat_of_int_byte [of "i div 256 ^ k"] by simp
  show ?thesis
  proof (cases "i < 0")
    case True
    have "i mod 256 ^ Suc k = (i + 256 ^ Suc k) mod 256 ^ Suc k" by simp
    also have "\<dots> = i + 256 ^ Suc k" using True assms(1) by (intro mod_pos_pos_trivial) auto
    finally have m: "i mod 256 ^ Suc k = i + 256 ^ Suc k" .
    have d: "- 128 \<le> i div 256 ^ k" "i div 256 ^ k < 0"
      using assms(1) True zdiv_mono1 [of "(- 128) * 256 ^ k" i "256 ^ k"]
      by (simp_all only: nonzero_mult_div_cancel_right) (simp_all add: pos_imp_zdiv_neg_iff)
    have "i div 256 ^ k mod 256 = (i div 256 ^ k + 256) mod 256" by simp
    also have "\<dots> = i div 256 ^ k + 256" using d by (intro mod_pos_pos_trivial) auto
    finally have "unat (hd ?bs) \<ge> 128" using h d by linarith
    then show ?thesis unfolding twos_complement_def using u m by simp
  next
    case False
    then have m: "i mod 256 ^ Suc k = i" using assms(2) by (intro mod_pos_pos_trivial) auto
    have d: "0 \<le> i div 256 ^ k" "i div 256 ^ k < 128"
      using False assms(2) div_less_bound [of i k]
      by (auto simp: pos_imp_zdiv_nonneg_iff)
    then have "int (unat (hd ?bs)) < 128" unfolding h by simp
    then have "\<not> unat (hd ?bs) \<ge> 128" by linarith
    then show ?thesis unfolding twos_complement_def using u m by simp
  qed
qed

text \<open>The contents written for an integer read back as it, in the fewest octets that can hold it.\<close>

lemma int64Encoder_reads: "twos_complement (int64Encoder i) = i"
proof -
  have "int64_length i > 0" by (subst int64_length.simps) simp
  then obtain k where "int64_length i = Suc k" by (cases "int64_length i") auto
  then show ?thesis
    using twos_complement_bytes [of k i] int64_length_range [of i] by (simp add: int64Encoder_def)
qed

end
