(* ===== verification/IriEmit.thy ===== *)
theory IriEmit
  imports IriConstraints Der
begin

text \<open>
  The encoder of \<open>src/iri/emit.go\<close>: a builder that accumulates elements and keeps its first error, one
  function for each CHOICE, and one emit method for each structure, in the order of the source. A
  method that writes to the builder maps the builder to the builder after it; a closure passed as
  \<open>build\<close> is such a function.
\<close>

subsection \<open>The builder\<close>

record builder =
  buf :: "byte list"
  err :: "iri_error option"

definition empty_builder :: builder where
  "empty_builder = \<lparr>buf = [], err = None\<rparr>"

definition fail :: "iri_error \<Rightarrow> builder \<Rightarrow> builder" where
  "fail e b = (if err b = None then b\<lparr>err := Some e\<rparr> else b)"

text \<open>The result of a call of \<open>encoding/asn1\<close> is \<open>Inr\<close> of what it wrote.\<close>

definition add :: "iri_error + byte list \<Rightarrow> builder \<Rightarrow> builder" where
  "add r b =
     (if err b \<noteq> None then b
      else case r of
        Inl e \<Rightarrow> b\<lparr>err := Some e\<rparr>
      | Inr out \<Rightarrow> b\<lparr>buf := buf b @ out\<rparr>)"

definition integer :: "nat \<Rightarrow> int \<Rightarrow> builder \<Rightarrow> builder" where
  "integer tag v b = add (Inr (Marshal_int64 tag v)) b"

definition boolean :: "nat \<Rightarrow> bool \<Rightarrow> builder \<Rightarrow> builder" where
  "boolean tag v b = add (Inr (Marshal_bool tag v)) b"

definition content :: "octet_string \<Rightarrow> byte list" where
  "content v = (case v of None \<Rightarrow> [] | Some bs \<Rightarrow> bs)"

definition octets :: "nat \<Rightarrow> octet_string \<Rightarrow> builder \<Rightarrow> builder" where
  "octets tag v b = add (Inr (Marshal_raw ClassContextSpecific tag False (content v))) b"

definition text_member :: "nat \<Rightarrow> string \<Rightarrow> builder \<Rightarrow> builder" where
  "text_member tag v b = octets tag (Some (bytes_of v)) b"

definition wrap :: "nat \<Rightarrow> nat \<Rightarrow> (builder \<Rightarrow> builder) \<Rightarrow> builder \<Rightarrow> builder" where
  "wrap class tag build b =
     (if err b \<noteq> None then b
      else let inner = build empty_builder
        in case err inner of
          Some e \<Rightarrow> b\<lparr>err := Some e\<rparr>
        | None \<Rightarrow> add (Inr (Marshal_raw class tag True (buf inner))) b)"

definition constructed :: "nat \<Rightarrow> (builder \<Rightarrow> builder) \<Rightarrow> builder \<Rightarrow> builder" where
  "constructed tag build b = wrap ClassContextSpecific tag build b"

definition sequence :: "(builder \<Rightarrow> builder) \<Rightarrow> builder \<Rightarrow> builder" where
  "sequence build b = wrap ClassUniversal TagSequence build b"

text \<open>\<open>isNil\<close> is the test \<open>v == nil\<close>, which depends on the interface's type here.\<close>

definition explicit :: "nat \<Rightarrow> string \<Rightarrow> bool \<Rightarrow> 'v \<Rightarrow> (string \<Rightarrow> 'v \<Rightarrow> builder \<Rightarrow> builder) \<Rightarrow> builder \<Rightarrow> builder" where
  "explicit tag field isNil v alternative b =
     (if isNil then fail (Missing field) b else constructed tag (alternative field v) b)"

text \<open>The statements \<open>if c { ... }\<close> and \<open>if p != nil { ... *p ... }\<close> of an emit method.\<close>

definition if_then :: "bool \<Rightarrow> (builder \<Rightarrow> builder) \<Rightarrow> builder \<Rightarrow> builder" where
  "if_then c f b = (if c then f b else b)"

definition if_some :: "'v option \<Rightarrow> ('v \<Rightarrow> builder \<Rightarrow> builder) \<Rightarrow> builder \<Rightarrow> builder" where
  "if_some p f b = (case p of None \<Rightarrow> b | Some v \<Rightarrow> f v b)"

subsection \<open>CHOICE alternatives\<close>

definition notAnAlternative :: "string \<Rightarrow> string \<Rightarrow> any \<Rightarrow> iri_error" where
  "notAnAlternative choice field v = NotAnAlternative choice field (type_text (refl_any v))"

definition supi :: "string \<Rightarrow> any \<Rightarrow> builder \<Rightarrow> builder" where
  "supi field v b =
     (case v of
        IMSI w \<Rightarrow> text_member 1 w b
      | NAI w \<Rightarrow> text_member 2 w b
      | NilAny \<Rightarrow> fail (Missing field) b
      | _ \<Rightarrow> fail (notAnAlternative ''SUPI'' field v) b)"

definition pei :: "string \<Rightarrow> any \<Rightarrow> builder \<Rightarrow> builder" where
  "pei field v b =
     (case v of
        IMEI w \<Rightarrow> text_member 1 w b
      | IMEISV w \<Rightarrow> text_member 2 w b
      | NilAny \<Rightarrow> fail (Missing field) b
      | _ \<Rightarrow> fail (notAnAlternative ''PEI'' field v) b)"

definition gpsi :: "string \<Rightarrow> any \<Rightarrow> builder \<Rightarrow> builder" where
  "gpsi field v b =
     (case v of
        MSISDN w \<Rightarrow> text_member 1 w b
      | NAI w \<Rightarrow> text_member 2 w b
      | NilAny \<Rightarrow> fail (Missing field) b
      | _ \<Rightarrow> fail (notAnAlternative ''GPSI'' field v) b)"

definition ueEndpointAddress :: "string \<Rightarrow> any \<Rightarrow> builder \<Rightarrow> builder" where
  "ueEndpointAddress field v b =
     (case v of
        IPv4Address w \<Rightarrow> octets 1 w b
      | IPv6Address w \<Rightarrow> octets 2 w b
      | MACAddress w \<Rightarrow> octets 3 w b
      | NilAny \<Rightarrow> fail (Missing field) b
      | _ \<Rightarrow> fail (notAnAlternative ''UEEndpointAddress'' field v) b)"

definition amfFailureCause :: "string \<Rightarrow> any \<Rightarrow> builder \<Rightarrow> builder" where
  "amfFailureCause field v b =
     (case v of
        FiveGMMCause w \<Rightarrow> integer 1 w b
      | FiveGSMCause w \<Rightarrow> integer 2 w b
      | NilAny \<Rightarrow> fail (Missing field) b
      | _ \<Rightarrow> fail (notAnAlternative ''AMFFailureCause'' field v) b)"

definition fiveGSSubscriberID :: "string \<Rightarrow> any \<Rightarrow> builder \<Rightarrow> builder" where
  "fiveGSSubscriberID field v b =
     (case v of
        SubscriberSUPI w \<Rightarrow> constructed 1 (supi (field @ ''.Value'') w) b
      | SubscriberPEI w \<Rightarrow> constructed 3 (pei (field @ ''.Value'') w) b
      | SubscriberGPSI w \<Rightarrow> constructed 4 (gpsi (field @ ''.Value'') w) b
      | NilAny \<Rightarrow> fail (Missing field) b
      | _ \<Rightarrow> fail (notAnAlternative ''FiveGSSubscriberID'' field v) b)"

definition serviceMessageIdentity :: "string \<Rightarrow> any \<Rightarrow> builder \<Rightarrow> builder" where
  "serviceMessageIdentity field v b =
     (case v of
        ServiceRequestIdentity w \<Rightarrow> octets 1 w b
      | ServiceAcceptIdentity w \<Rightarrow> octets 2 w b
      | NilAny \<Rightarrow> fail (Missing field) b
      | _ \<Rightarrow> fail (notAnAlternative ''ServiceMessageIdentity'' field v) b)"

definition handoverCause :: "string \<Rightarrow> any \<Rightarrow> builder \<Rightarrow> builder" where
  "handoverCause field v b =
     (case v of
        CauseRadioNetwork w \<Rightarrow> integer 1 w b
      | CauseTransport w \<Rightarrow> integer 2 w b
      | CauseNas w \<Rightarrow> integer 3 w b
      | CauseProtocol w \<Rightarrow> integer 4 w b
      | CauseMisc w \<Rightarrow> integer 5 w b
      | NilAny \<Rightarrow> fail (Missing field) b
      | _ \<Rightarrow> fail (notAnAlternative ''HandoverCause'' field v) b)"

subsection \<open>SEQUENCE OF\<close>

fun sequence_loop_of :: "string \<Rightarrow> nat \<Rightarrow> any list \<Rightarrow> (string \<Rightarrow> any \<Rightarrow> builder \<Rightarrow> builder) \<Rightarrow> builder \<Rightarrow> builder" where
  "sequence_loop_of field i [] alternative c = c"
| "sequence_loop_of field i (v # list) alternative c =
     sequence_loop_of field (Suc i) list alternative (alternative (field @ ''['' @ FormatUint i @ '']'') v c)"

text \<open>A nil list has no elements.\<close>

definition elements :: "'a list option \<Rightarrow> 'a list" where
  "elements l = (case l of None \<Rightarrow> [] | Some xs \<Rightarrow> xs)"

definition sequenceOf :: "nat \<Rightarrow> string \<Rightarrow> any list option \<Rightarrow> (string \<Rightarrow> any \<Rightarrow> builder \<Rightarrow> builder) \<Rightarrow> builder \<Rightarrow> builder" where
  "sequenceOf tag field list alternative b =
     constructed tag (sequence_loop_of field 0 (elements list) alternative) b"

subsection \<open>Structures and records\<close>

definition emit_SNSSAI :: "SNSSAI \<Rightarrow> builder \<Rightarrow> builder" where
  "emit_SNSSAI r b =
     (let b = integer 1 (snssai_SliceServiceType r) b;
          b = if_then (snssai_SliceDifferentiator r \<noteq> None) (octets 2 (snssai_SliceDifferentiator r)) b;
          b = if_then (snssai_MappedHPLMNSST r \<noteq> 0) (integer 3 (snssai_MappedHPLMNSST r)) b;
          b = if_then (snssai_MappedHPLMNSD r \<noteq> None) (octets 4 (snssai_MappedHPLMNSD r)) b
      in b)"

definition emit_FTEID :: "FTEID \<Rightarrow> builder \<Rightarrow> builder" where
  "emit_FTEID r b =
     (let b = integer 1 (fteid_TEID r) b;
          b = if_then (fteid_IPv4Address r \<noteq> None) (octets 2 (fteid_IPv4Address r)) b;
          b = if_then (fteid_IPv6Address r \<noteq> None) (octets 3 (fteid_IPv6Address r)) b
      in b)"

definition emit_FiveGSGTPTunnels :: "FiveGSGTPTunnels \<Rightarrow> builder \<Rightarrow> builder" where
  "emit_FiveGSGTPTunnels r b = if_then (\<not> isZero (refl_FTEID (tunnels_ULNGUUPTunnelInformation r))) (constructed 1 (emit_FTEID (tunnels_ULNGUUPTunnelInformation r))) b"

definition emit_GTPTunnelInfo :: "GTPTunnelInfo \<Rightarrow> builder \<Rightarrow> builder" where
  "emit_GTPTunnelInfo r b = if_then (\<not> isZero (refl_FiveGSGTPTunnels (gtp_FiveGSGTPTunnels r))) (constructed 1 (emit_FiveGSGTPTunnels (gtp_FiveGSGTPTunnels r))) b"

definition emit_LocationInfo :: "LocationInfo \<Rightarrow> builder \<Rightarrow> builder" where
  "emit_LocationInfo r b = if_then (locinfo_CurrentLocation r) (boolean 2 (locinfo_CurrentLocation r)) b"

definition emit_Location :: "Location \<Rightarrow> builder \<Rightarrow> builder" where
  "emit_Location r b = if_then (\<not> isZero (refl_LocationInfo (loc_LocationInfo r))) (constructed 1 (emit_LocationInfo (loc_LocationInfo r))) b"

definition emit_FiveGSSubscriberIDs :: "FiveGSSubscriberIDs \<Rightarrow> builder \<Rightarrow> builder" where
  "emit_FiveGSSubscriberIDs r b = sequenceOf 1 ''FiveGSSubscriberIDs.IDs'' (subs_IDs r) fiveGSSubscriberID b"

definition emit_UserIdentifiers :: "UserIdentifiers \<Rightarrow> builder \<Rightarrow> builder" where
  "emit_UserIdentifiers r b = if_then (\<not> isZero (refl_FiveGSSubscriberIDs (uids_FiveGS r))) (constructed 1 (emit_FiveGSSubscriberIDs (uids_FiveGS r))) b"

definition emit_PDUSessionResourceInformation :: "PDUSessionResourceInformation \<Rightarrow> builder \<Rightarrow> builder" where
  "emit_PDUSessionResourceInformation r b = integer 1 (psri_PDUSessionID r) b"

definition emit_FiveGGUTI :: "FiveGGUTI \<Rightarrow> builder \<Rightarrow> builder" where
  "emit_FiveGGUTI r b =
     (let b = text_member 1 (guti_MCC r) b;
          b = text_member 2 (guti_MNC r) b;
          b = integer 3 (guti_AMFRegionID r) b;
          b = integer 4 (guti_AMFSetID r) b;
          b = integer 5 (guti_AMFPointer r) b;
          b = integer 6 (guti_FiveGTMSI r) b
      in b)"

definition emit_SUCI :: "SUCI \<Rightarrow> builder \<Rightarrow> builder" where
  "emit_SUCI r b =
     (let b = text_member 1 (suci_MCC r) b;
          b = text_member 2 (suci_MNC r) b;
          b = integer 3 (suci_RoutingIndicator r) b;
          b = integer 4 (suci_ProtectionSchemeID r) b;
          b = octets 5 (suci_HomeNetworkPublicKeyID r) b;
          b = octets 6 (suci_SchemeOutput r) b;
          b = if_some (suci_RoutingIndicatorLength r) (integer 7) b;
          b = if_some (suci_SUPIType r) (integer 8) b;
          b = if_then (suci_HomeNetworkIdentifier r \<noteq> '''') (text_member 9 (suci_HomeNetworkIdentifier r)) b
      in b)"

definition emit_PLMNID :: "PLMNID \<Rightarrow> builder \<Rightarrow> builder" where
  "emit_PLMNID r b =
     (let b = text_member 1 (plmn_MCC r) b;
          b = text_member 2 (plmn_MNC r) b
      in b)"

definition emit_TAI :: "TAI \<Rightarrow> builder \<Rightarrow> builder" where
  "emit_TAI r b =
     (let b = constructed 1 (emit_PLMNID (tai_PLMNID r)) b;
          b = octets 2 (tai_TAC r) b;
          b = if_then (tai_NID r \<noteq> '''') (text_member 3 (tai_NID r)) b
      in b)"

fun tai_loop :: "TAI list \<Rightarrow> builder \<Rightarrow> builder" where
  "tai_loop [] c = c"
| "tai_loop (tai # list) c = tai_loop list (sequence (emit_TAI tai) c)"

definition taiList :: "nat \<Rightarrow> TAI list option \<Rightarrow> builder \<Rightarrow> builder" where
  "taiList tag list b = constructed tag (tai_loop (elements list)) b"

definition emit_SMFServingNetwork :: "SMFServingNetwork \<Rightarrow> builder \<Rightarrow> builder" where
  "emit_SMFServingNetwork r b =
     (let b = constructed 1 (emit_PLMNID (snet_PLMNID r)) b;
          b = if_then (snet_NID r \<noteq> '''') (text_member 2 (snet_NID r)) b
      in b)"

definition emit_AMFID :: "AMFID \<Rightarrow> builder \<Rightarrow> builder" where
  "emit_AMFID r b =
     (let b = integer 1 (amfid_AMFRegionID r) b;
          b = integer 2 (amfid_AMFSetID r) b;
          b = integer 3 (amfid_AMFPointer r) b
      in b)"

definition emit_AMFRegistration :: "AMFRegistration \<Rightarrow> builder \<Rightarrow> builder" where
  "emit_AMFRegistration r b =
     (let b = integer 1 (areg_RegistrationType r) b;
          b = integer 2 (areg_RegistrationResult r) b;
          b = explicit 4 ''AMFRegistration.SUPI'' (areg_SUPI r = NilAny) (areg_SUPI r) supi b;
          b = if_then (\<not> isZero (refl_SUCI (areg_SUCI r))) (constructed 5 (emit_SUCI (areg_SUCI r))) b;
          b = if_then (present (areg_PEI r)) (explicit 6 ''AMFRegistration.PEI'' (areg_PEI r = NilAny) (areg_PEI r) pei) b;
          b = if_then (present (areg_GPSI r)) (explicit 7 ''AMFRegistration.GPSI'' (areg_GPSI r = NilAny) (areg_GPSI r) gpsi) b;
          b = constructed 8 (emit_FiveGGUTI (areg_GUTI r)) b;
          b = if_then (areg_FiveGSTAIList r \<noteq> None) (taiList 11 (areg_FiveGSTAIList r)) b;
          b = if_then (areg_RATType r \<noteq> 0) (integer 18 (areg_RATType r)) b
      in b)"

definition emit_AMFDeregistration :: "AMFDeregistration \<Rightarrow> builder \<Rightarrow> builder" where
  "emit_AMFDeregistration r b =
     (let b = integer 1 (adereg_DeregistrationDirection r) b;
          b = integer 2 (adereg_AccessType r) b;
          b = if_then (present (adereg_SUPI r)) (explicit 3 ''AMFDeregistration.SUPI'' (adereg_SUPI r = NilAny) (adereg_SUPI r) supi) b;
          b = if_then (\<not> isZero (refl_SUCI (adereg_SUCI r))) (constructed 4 (emit_SUCI (adereg_SUCI r))) b;
          b = if_then (present (adereg_PEI r)) (explicit 5 ''AMFDeregistration.PEI'' (adereg_PEI r = NilAny) (adereg_PEI r) pei) b;
          b = if_then (present (adereg_GPSI r)) (explicit 6 ''AMFDeregistration.GPSI'' (adereg_GPSI r = NilAny) (adereg_GPSI r) gpsi) b;
          b = if_then (\<not> isZero (refl_FiveGGUTI (adereg_GUTI r))) (constructed 7 (emit_FiveGGUTI (adereg_GUTI r))) b
      in b)"

definition emit_AMFStartOfInterceptionWithRegisteredUE :: "AMFStartOfInterceptionWithRegisteredUE \<Rightarrow> builder \<Rightarrow> builder" where
  "emit_AMFStartOfInterceptionWithRegisteredUE r b =
     (let b = integer 1 (astart_RegistrationResult r) b;
          b = if_then (astart_RegistrationType r \<noteq> 0) (integer 2 (astart_RegistrationType r)) b;
          b = explicit 4 ''AMFStartOfInterceptionWithRegisteredUE.SUPI'' (astart_SUPI r = NilAny) (astart_SUPI r) supi b;
          b = if_then (\<not> isZero (refl_SUCI (astart_SUCI r))) (constructed 5 (emit_SUCI (astart_SUCI r))) b;
          b = if_then (present (astart_PEI r)) (explicit 6 ''AMFStartOfInterceptionWithRegisteredUE.PEI'' (astart_PEI r = NilAny) (astart_PEI r) pei) b;
          b = if_then (present (astart_GPSI r)) (explicit 7 ''AMFStartOfInterceptionWithRegisteredUE.GPSI'' (astart_GPSI r = NilAny) (astart_GPSI r) gpsi) b;
          b = constructed 8 (emit_FiveGGUTI (astart_GUTI r)) b;
          b = if_then (astart_FiveGSTAIList r \<noteq> None) (taiList 12 (astart_FiveGSTAIList r)) b
      in b)"

definition emit_SMFPDUSessionEstablishment :: "SMFPDUSessionEstablishment \<Rightarrow> builder \<Rightarrow> builder" where
  "emit_SMFPDUSessionEstablishment r b =
     (let b = if_then (present (sest_SUPI r)) (explicit 1 ''SMFPDUSessionEstablishment.SUPI'' (sest_SUPI r = NilAny) (sest_SUPI r) supi) b;
          b = if_some (sest_SUPIUnauthenticated r) (boolean 2) b;
          b = if_then (present (sest_PEI r)) (explicit 3 ''SMFPDUSessionEstablishment.PEI'' (sest_PEI r = NilAny) (sest_PEI r) pei) b;
          b = if_then (present (sest_GPSI r)) (explicit 4 ''SMFPDUSessionEstablishment.GPSI'' (sest_GPSI r = NilAny) (sest_GPSI r) gpsi) b;
          b = integer 5 (sest_PDUSessionID r) b;
          b = constructed 6 (emit_FTEID (sest_GTPTunnelID r)) b;
          b = integer 7 (sest_PDUSessionType r) b;
          b = if_then (\<not> isZero (refl_SNSSAI (sest_SNSSAI r))) (constructed 8 (emit_SNSSAI (sest_SNSSAI r))) b;
          b = if_then (sest_UEEndpoint r \<noteq> None) (sequenceOf 9 ''SMFPDUSessionEstablishment.UEEndpoint'' (sest_UEEndpoint r) ueEndpointAddress) b;
          b = text_member 12 (sest_DNN r) b;
          b = if_then (\<not> isZero (refl_AMFID (sest_AMFID r))) (constructed 13 (emit_AMFID (sest_AMFID r))) b;
          b = integer 15 (sest_RequestType r) b;
          b = if_then (sest_AccessType r \<noteq> 0) (integer 16 (sest_AccessType r)) b;
          b = if_then (sest_RATType r \<noteq> 0) (integer 17 (sest_RATType r)) b;
          b = if_then (\<not> isZero (refl_SMFServingNetwork (sest_ServingNetwork r))) (constructed 22 (emit_SMFServingNetwork (sest_ServingNetwork r))) b;
          b = if_then (\<not> isZero (refl_GTPTunnelInfo (sest_GTPTunnelInfo r))) (constructed 25 (emit_GTPTunnelInfo (sest_GTPTunnelInfo r))) b
      in b)"

definition emit_SMFPDUSessionModification :: "SMFPDUSessionModification \<Rightarrow> builder \<Rightarrow> builder" where
  "emit_SMFPDUSessionModification r b =
     (let b = if_then (present (smod_SUPI r)) (explicit 1 ''SMFPDUSessionModification.SUPI'' (smod_SUPI r = NilAny) (smod_SUPI r) supi) b;
          b = if_some (smod_SUPIUnauthenticated r) (boolean 2) b;
          b = if_then (present (smod_PEI r)) (explicit 3 ''SMFPDUSessionModification.PEI'' (smod_PEI r = NilAny) (smod_PEI r) pei) b;
          b = if_then (present (smod_GPSI r)) (explicit 4 ''SMFPDUSessionModification.GPSI'' (smod_GPSI r = NilAny) (smod_GPSI r) gpsi) b;
          b = if_then (\<not> isZero (refl_SNSSAI (smod_SNSSAI r))) (constructed 5 (emit_SNSSAI (smod_SNSSAI r))) b;
          b = integer 8 (smod_RequestType r) b;
          b = if_then (smod_AccessType r \<noteq> 0) (integer 9 (smod_AccessType r)) b;
          b = if_then (smod_RATType r \<noteq> 0) (integer 10 (smod_RATType r)) b;
          b = if_then (smod_PDUSessionID r \<noteq> 0) (integer 11 (smod_PDUSessionID r)) b;
          b = if_then (smod_UEEndpoint r \<noteq> None) (sequenceOf 13 ''SMFPDUSessionModification.UEEndpoint'' (smod_UEEndpoint r) ueEndpointAddress) b;
          b = if_then (\<not> isZero (refl_SMFServingNetwork (smod_ServingNetwork r))) (constructed 14 (emit_SMFServingNetwork (smod_ServingNetwork r))) b;
          b = if_then (\<not> isZero (refl_GTPTunnelInfo (smod_GTPTunnelInfo r))) (constructed 16 (emit_GTPTunnelInfo (smod_GTPTunnelInfo r))) b
      in b)"

definition emit_SMFPDUSessionRelease :: "SMFPDUSessionRelease \<Rightarrow> builder \<Rightarrow> builder" where
  "emit_SMFPDUSessionRelease r b =
     (let b = explicit 1 ''SMFPDUSessionRelease.SUPI'' (srel_SUPI r = NilAny) (srel_SUPI r) supi b;
          b = if_then (present (srel_PEI r)) (explicit 2 ''SMFPDUSessionRelease.PEI'' (srel_PEI r = NilAny) (srel_PEI r) pei) b;
          b = if_then (present (srel_GPSI r)) (explicit 3 ''SMFPDUSessionRelease.GPSI'' (srel_GPSI r = NilAny) (srel_GPSI r) gpsi) b;
          b = integer 4 (srel_PDUSessionID r) b;
          b = if_then (srel_UplinkVolume r \<noteq> 0) (integer 7 (srel_UplinkVolume r)) b;
          b = if_then (srel_DownlinkVolume r \<noteq> 0) (integer 8 (srel_DownlinkVolume r)) b
      in b)"

definition emit_AMFLocationUpdate :: "AMFLocationUpdate \<Rightarrow> builder \<Rightarrow> builder" where
  "emit_AMFLocationUpdate r b =
     (let b = explicit 1 ''AMFLocationUpdate.SUPI'' (aloc_SUPI r = NilAny) (aloc_SUPI r) supi b;
          b = if_then (\<not> isZero (refl_SUCI (aloc_SUCI r))) (constructed 2 (emit_SUCI (aloc_SUCI r))) b;
          b = if_then (present (aloc_PEI r)) (explicit 3 ''AMFLocationUpdate.PEI'' (aloc_PEI r = NilAny) (aloc_PEI r) pei) b;
          b = if_then (present (aloc_GPSI r)) (explicit 4 ''AMFLocationUpdate.GPSI'' (aloc_GPSI r = NilAny) (aloc_GPSI r) gpsi) b;
          b = if_then (\<not> isZero (refl_FiveGGUTI (aloc_GUTI r))) (constructed 5 (emit_FiveGGUTI (aloc_GUTI r))) b;
          b = constructed 6 (emit_Location (aloc_Location r)) b
      in b)"

definition emit_AMFUnsuccessfulProcedure :: "AMFUnsuccessfulProcedure \<Rightarrow> builder \<Rightarrow> builder" where
  "emit_AMFUnsuccessfulProcedure r b =
     (let b = integer 1 (aunsucc_FailedProcedureType r) b;
          b = explicit 2 ''AMFUnsuccessfulProcedure.FailureCause'' (aunsucc_FailureCause r = NilAny) (aunsucc_FailureCause r) amfFailureCause b;
          b = if_then (present (aunsucc_SUPI r)) (explicit 4 ''AMFUnsuccessfulProcedure.SUPI'' (aunsucc_SUPI r = NilAny) (aunsucc_SUPI r) supi) b;
          b = if_then (\<not> isZero (refl_SUCI (aunsucc_SUCI r))) (constructed 5 (emit_SUCI (aunsucc_SUCI r))) b;
          b = if_then (present (aunsucc_PEI r)) (explicit 6 ''AMFUnsuccessfulProcedure.PEI'' (aunsucc_PEI r = NilAny) (aunsucc_PEI r) pei) b;
          b = if_then (present (aunsucc_GPSI r)) (explicit 7 ''AMFUnsuccessfulProcedure.GPSI'' (aunsucc_GPSI r = NilAny) (aunsucc_GPSI r) gpsi) b;
          b = if_then (\<not> isZero (refl_FiveGGUTI (aunsucc_GUTI r))) (constructed 8 (emit_FiveGGUTI (aunsucc_GUTI r))) b;
          b = if_then (\<not> isZero (refl_Location (aunsucc_Location r))) (constructed 9 (emit_Location (aunsucc_Location r))) b
      in b)"

definition emit_AMFIdentifierAssociation :: "AMFIdentifierAssociation \<Rightarrow> builder \<Rightarrow> builder" where
  "emit_AMFIdentifierAssociation r b =
     (let b = explicit 1 ''AMFIdentifierAssociation.SUPI'' (aassoc_SUPI r = NilAny) (aassoc_SUPI r) supi b;
          b = if_then (\<not> isZero (refl_SUCI (aassoc_SUCI r))) (constructed 2 (emit_SUCI (aassoc_SUCI r))) b;
          b = if_then (present (aassoc_PEI r)) (explicit 3 ''AMFIdentifierAssociation.PEI'' (aassoc_PEI r = NilAny) (aassoc_PEI r) pei) b;
          b = if_then (present (aassoc_GPSI r)) (explicit 4 ''AMFIdentifierAssociation.GPSI'' (aassoc_GPSI r = NilAny) (aassoc_GPSI r) gpsi) b;
          b = constructed 5 (emit_FiveGGUTI (aassoc_GUTI r)) b;
          b = constructed 6 (emit_Location (aassoc_Location r)) b;
          b = if_then (aassoc_FiveGSTAIList r \<noteq> None) (taiList 7 (aassoc_FiveGSTAIList r)) b
      in b)"

definition emit_AMFIdentifierDeassociation :: "AMFIdentifierDeassociation \<Rightarrow> builder \<Rightarrow> builder" where
  "emit_AMFIdentifierDeassociation r b =
     (let b = explicit 1 ''AMFIdentifierDeassociation.SUPI'' (adeassoc_SUPI r = NilAny) (adeassoc_SUPI r) supi b;
          b = if_then (\<not> isZero (refl_SUCI (adeassoc_SUCI r))) (constructed 2 (emit_SUCI (adeassoc_SUCI r))) b;
          b = if_then (present (adeassoc_PEI r)) (explicit 3 ''AMFIdentifierDeassociation.PEI'' (adeassoc_PEI r = NilAny) (adeassoc_PEI r) pei) b;
          b = if_then (present (adeassoc_GPSI r)) (explicit 4 ''AMFIdentifierDeassociation.GPSI'' (adeassoc_GPSI r = NilAny) (adeassoc_GPSI r) gpsi) b;
          b = constructed 5 (emit_FiveGGUTI (adeassoc_GUTI r)) b
      in b)"

definition emit_SMFStartOfInterceptionWithEstablishedPDUSession :: "SMFStartOfInterceptionWithEstablishedPDUSession \<Rightarrow> builder \<Rightarrow> builder" where
  "emit_SMFStartOfInterceptionWithEstablishedPDUSession r b =
     (let b = if_then (present (sstart_SUPI r)) (explicit 1 ''SMFStartOfInterceptionWithEstablishedPDUSession.SUPI'' (sstart_SUPI r = NilAny) (sstart_SUPI r) supi) b;
          b = if_some (sstart_SUPIUnauthenticated r) (boolean 2) b;
          b = if_then (present (sstart_PEI r)) (explicit 3 ''SMFStartOfInterceptionWithEstablishedPDUSession.PEI'' (sstart_PEI r = NilAny) (sstart_PEI r) pei) b;
          b = if_then (present (sstart_GPSI r)) (explicit 4 ''SMFStartOfInterceptionWithEstablishedPDUSession.GPSI'' (sstart_GPSI r = NilAny) (sstart_GPSI r) gpsi) b;
          b = integer 5 (sstart_PDUSessionID r) b;
          b = constructed 6 (emit_FTEID (sstart_GTPTunnelID r)) b;
          b = integer 7 (sstart_PDUSessionType r) b;
          b = if_then (\<not> isZero (refl_SNSSAI (sstart_SNSSAI r))) (constructed 8 (emit_SNSSAI (sstart_SNSSAI r))) b;
          b = sequenceOf 9 ''SMFStartOfInterceptionWithEstablishedPDUSession.UEEndpoint'' (sstart_UEEndpoint r) ueEndpointAddress b;
          b = text_member 12 (sstart_DNN r) b;
          b = if_then (\<not> isZero (refl_AMFID (sstart_AMFID r))) (constructed 13 (emit_AMFID (sstart_AMFID r))) b;
          b = integer 15 (sstart_RequestType r) b;
          b = if_then (sstart_AccessType r \<noteq> 0) (integer 16 (sstart_AccessType r)) b;
          b = if_then (sstart_RATType r \<noteq> 0) (integer 17 (sstart_RATType r)) b;
          b = if_then (\<not> isZero (refl_SMFServingNetwork (sstart_ServingNetwork r))) (constructed 22 (emit_SMFServingNetwork (sstart_ServingNetwork r))) b;
          b = if_then (\<not> isZero (refl_GTPTunnelInfo (sstart_GTPTunnelInfo r))) (constructed 23 (emit_GTPTunnelInfo (sstart_GTPTunnelInfo r))) b
      in b)"

definition emit_SMFUnsuccessfulProcedure :: "SMFUnsuccessfulProcedure \<Rightarrow> builder \<Rightarrow> builder" where
  "emit_SMFUnsuccessfulProcedure r b =
     (let b = integer 1 (sunsucc_FailedProcedureType r) b;
          b = integer 2 (sunsucc_FailureCause r) b;
          b = integer 3 (sunsucc_Initiator r) b;
          b = if_then (present (sunsucc_SUPI r)) (explicit 5 ''SMFUnsuccessfulProcedure.SUPI'' (sunsucc_SUPI r = NilAny) (sunsucc_SUPI r) supi) b;
          b = if_some (sunsucc_SUPIUnauthenticated r) (boolean 6) b;
          b = if_then (present (sunsucc_PEI r)) (explicit 7 ''SMFUnsuccessfulProcedure.PEI'' (sunsucc_PEI r = NilAny) (sunsucc_PEI r) pei) b;
          b = if_then (present (sunsucc_GPSI r)) (explicit 8 ''SMFUnsuccessfulProcedure.GPSI'' (sunsucc_GPSI r = NilAny) (sunsucc_GPSI r) gpsi) b;
          b = if_then (sunsucc_PDUSessionID r \<noteq> 0) (integer 9 (sunsucc_PDUSessionID r)) b;
          b = if_then (sunsucc_UEEndpoint r \<noteq> None) (sequenceOf 10 ''SMFUnsuccessfulProcedure.UEEndpoint'' (sunsucc_UEEndpoint r) ueEndpointAddress) b;
          b = if_then (sunsucc_DNN r \<noteq> '''') (text_member 12 (sunsucc_DNN r)) b;
          b = if_then (\<not> isZero (refl_AMFID (sunsucc_AMFID r))) (constructed 13 (emit_AMFID (sunsucc_AMFID r))) b;
          b = if_then (sunsucc_RequestType r \<noteq> 0) (integer 15 (sunsucc_RequestType r)) b;
          b = if_then (sunsucc_AccessType r \<noteq> 0) (integer 16 (sunsucc_AccessType r)) b;
          b = if_then (sunsucc_RATType r \<noteq> 0) (integer 17 (sunsucc_RATType r)) b
      in b)"

definition emit_AMFUEServiceAccept :: "AMFUEServiceAccept \<Rightarrow> builder \<Rightarrow> builder" where
  "emit_AMFUEServiceAccept r b =
     (let b = constructed 1 (emit_UserIdentifiers (aserv_UserIdentifiers r)) b;
          b = explicit 2 ''AMFUEServiceAccept.ServiceMessageIdentity'' (aserv_ServiceMessageIdentity r = NilAny) (aserv_ServiceMessageIdentity r) serviceMessageIdentity b;
          b = if_then (aserv_ServiceType r \<noteq> None) (octets 3 (aserv_ServiceType r)) b;
          b = if_then (aserv_FiveGTMSI r \<noteq> 0) (integer 4 (aserv_FiveGTMSI r)) b
      in b)"

definition emit_AMFUEPolicyTransfer :: "AMFUEPolicyTransfer \<Rightarrow> builder \<Rightarrow> builder" where
  "emit_AMFUEPolicyTransfer r b =
     (let b = explicit 1 ''AMFUEPolicyTransfer.SUPI'' (apol_SUPI r = NilAny) (apol_SUPI r) supi b;
          b = if_then (\<not> isZero (refl_SUCI (apol_SUCI r))) (constructed 2 (emit_SUCI (apol_SUCI r))) b;
          b = if_then (present (apol_PEI r)) (explicit 3 ''AMFUEPolicyTransfer.PEI'' (apol_PEI r = NilAny) (apol_PEI r) pei) b;
          b = if_then (present (apol_GPSI r)) (explicit 4 ''AMFUEPolicyTransfer.GPSI'' (apol_GPSI r = NilAny) (apol_GPSI r) gpsi) b;
          b = if_then (\<not> isZero (refl_FiveGGUTI (apol_GUTI r))) (constructed 5 (emit_FiveGGUTI (apol_GUTI r))) b;
          b = octets 6 (apol_UEPolicy r) b
      in b)"

definition emit_AMFPositioningInfoTransfer :: "AMFPositioningInfoTransfer \<Rightarrow> builder \<Rightarrow> builder" where
  "emit_AMFPositioningInfoTransfer r b =
     (let b = explicit 1 ''AMFPositioningInfoTransfer.SUPI'' (apos_SUPI r = NilAny) (apos_SUPI r) supi b;
          b = if_then (\<not> isZero (refl_SUCI (apos_SUCI r))) (constructed 2 (emit_SUCI (apos_SUCI r))) b;
          b = if_then (present (apos_PEI r)) (explicit 3 ''AMFPositioningInfoTransfer.PEI'' (apos_PEI r = NilAny) (apos_PEI r) pei) b;
          b = if_then (present (apos_GPSI r)) (explicit 4 ''AMFPositioningInfoTransfer.GPSI'' (apos_GPSI r = NilAny) (apos_GPSI r) gpsi) b;
          b = if_then (\<not> isZero (refl_FiveGGUTI (apos_GUTI r))) (constructed 5 (emit_FiveGGUTI (apos_GUTI r))) b;
          b = if_then (apos_NRPPaMessage r \<noteq> None) (octets 6 (apos_NRPPaMessage r)) b;
          b = if_then (apos_LPPMessage r \<noteq> None) (octets 7 (apos_LPPMessage r)) b;
          b = text_member 8 (apos_LCSCorrelationID r) b
      in b)"

definition emit_AMFRANHandoverCommand :: "AMFRANHandoverCommand \<Rightarrow> builder \<Rightarrow> builder" where
  "emit_AMFRANHandoverCommand r b =
     (let b = constructed 1 (emit_UserIdentifiers (ahcmd_UserIdentifiers r)) b;
          b = integer 2 (ahcmd_AMFUENGAPID r) b;
          b = integer 3 (ahcmd_RANUENGAPID r) b;
          b = integer 4 (ahcmd_HandoverType r) b;
          b = octets 5 (ahcmd_TargetToSourceContainer r) b
      in b)"

definition emit_AMFRANHandoverRequest :: "AMFRANHandoverRequest \<Rightarrow> builder \<Rightarrow> builder" where
  "emit_AMFRANHandoverRequest r b =
     (let b = constructed 1 (emit_UserIdentifiers (ahreq_UserIdentifiers r)) b;
          b = integer 2 (ahreq_AMFUENGAPID r) b;
          b = integer 3 (ahreq_RANUENGAPID r) b;
          b = integer 4 (ahreq_HandoverType r) b;
          b = explicit 5 ''AMFRANHandoverRequest.HandoverCause'' (ahreq_HandoverCause r = NilAny) (ahreq_HandoverCause r) handoverCause b;
          b = constructed 6 (emit_PDUSessionResourceInformation (ahreq_PDUSessionResourceInformation r)) b;
          b = octets 9 (ahreq_TargetToSourceContainer r) b;
          b = octets 11 (ahreq_SourceToTargetContainer r) b
      in b)"

definition xiriEvent :: "string \<Rightarrow> XIRIEvent \<Rightarrow> builder \<Rightarrow> builder" where
  "xiriEvent field v b =
     (case v of
        EvAMFRegistration r \<Rightarrow> constructed 1 (emit_AMFRegistration r) b
      | EvAMFDeregistration r \<Rightarrow> constructed 2 (emit_AMFDeregistration r) b
      | EvAMFLocationUpdate r \<Rightarrow> constructed 3 (emit_AMFLocationUpdate r) b
      | EvAMFStartOfInterceptionWithRegisteredUE r \<Rightarrow> constructed 4 (emit_AMFStartOfInterceptionWithRegisteredUE r) b
      | EvAMFUnsuccessfulProcedure r \<Rightarrow> constructed 5 (emit_AMFUnsuccessfulProcedure r) b
      | EvSMFPDUSessionEstablishment r \<Rightarrow> constructed 6 (emit_SMFPDUSessionEstablishment r) b
      | EvSMFPDUSessionModification r \<Rightarrow> constructed 7 (emit_SMFPDUSessionModification r) b
      | EvSMFPDUSessionRelease r \<Rightarrow> constructed 8 (emit_SMFPDUSessionRelease r) b
      | EvSMFStartOfInterceptionWithEstablishedPDUSession r \<Rightarrow> constructed 9 (emit_SMFStartOfInterceptionWithEstablishedPDUSession r) b
      | EvSMFUnsuccessfulProcedure r \<Rightarrow> constructed 10 (emit_SMFUnsuccessfulProcedure r) b
      | EvAMFIdentifierAssociation r \<Rightarrow> constructed 62 (emit_AMFIdentifierAssociation r) b
      | EvAMFPositioningInfoTransfer r \<Rightarrow> constructed 111 (emit_AMFPositioningInfoTransfer r) b
      | EvAMFRANHandoverCommand r \<Rightarrow> constructed 113 (emit_AMFRANHandoverCommand r) b
      | EvAMFRANHandoverRequest r \<Rightarrow> constructed 114 (emit_AMFRANHandoverRequest r) b
      | EvAMFUEPolicyTransfer r \<Rightarrow> constructed 146 (emit_AMFUEPolicyTransfer r) b
      | EvAMFUEServiceAccept r \<Rightarrow> constructed 147 (emit_AMFUEServiceAccept r) b
      | EvAMFIdentifierDeassociation r \<Rightarrow> constructed 186 (emit_AMFIdentifierDeassociation r) b
      | EvNil \<Rightarrow> fail (Missing field) b
      | EvOther w \<Rightarrow> fail (NotAnAlternative ''XIRIEvent'' field (type_text w)) b)"

definition encodePayload :: "XIRIEvent \<Rightarrow> byte list \<times> iri_error option" where
  "encodePayload event =
     (let b = sequence (\<lambda>p. explicit 2 ''XIRIPayload.Event'' (event = EvNil) event xiriEvent
                              (octets 1 (Some xIRIPayloadOID) p)) empty_builder
      in (buf b, err b))"

definition validateEvent :: "XIRIEvent \<Rightarrow> iri_error option" where
  "validateEvent event =
     (case event of
        EvSMFStartOfInterceptionWithEstablishedPDUSession rec \<Rightarrow>
          if length (elements (sstart_UEEndpoint rec)) = 0
          then Some (EmptyEndpoint ''SMFStartOfInterceptionWithEstablishedPDUSession'') else None
      | EvSMFPDUSessionEstablishment rec \<Rightarrow>
          if sest_UEEndpoint rec \<noteq> None \<and> length (elements (sest_UEEndpoint rec)) = 0
          then Some (EmptyEndpoint ''SMFPDUSessionEstablishment'') else None
      | _ \<Rightarrow> None)"

text \<open>A call returns the encoding, is refused, or panics: the type of a nil event has no text.\<close>

datatype encode_result = Encoded "byte list" | Refused iri_error | Panicked

definition EncodeXIRI :: "XIRIEvent \<Rightarrow> encode_result" where
  "EncodeXIRI event =
     (case validateEvent event of
        Some e \<Rightarrow> Refused e
      | None \<Rightarrow>
          if event = EvNil then Panicked
          else case validateConstraints (refl_event event) of
            Some e \<Rightarrow> Refused e
          | None \<Rightarrow>
              (case encodePayload event of
                 (out, None) \<Rightarrow> Encoded out
               | (out, Some e) \<Rightarrow> Refused e))"

lemmas emit_defs =
  emit_SNSSAI_def emit_FTEID_def emit_FiveGSGTPTunnels_def emit_GTPTunnelInfo_def emit_LocationInfo_def
  emit_Location_def emit_FiveGSSubscriberIDs_def emit_UserIdentifiers_def
  emit_PDUSessionResourceInformation_def emit_FiveGGUTI_def emit_SUCI_def emit_PLMNID_def emit_TAI_def
  emit_SMFServingNetwork_def emit_AMFID_def emit_AMFRegistration_def emit_AMFDeregistration_def
  emit_AMFStartOfInterceptionWithRegisteredUE_def emit_SMFPDUSessionEstablishment_def
  emit_SMFPDUSessionModification_def emit_SMFPDUSessionRelease_def emit_AMFLocationUpdate_def
  emit_AMFUnsuccessfulProcedure_def emit_AMFIdentifierAssociation_def
  emit_AMFIdentifierDeassociation_def emit_SMFStartOfInterceptionWithEstablishedPDUSession_def
  emit_SMFUnsuccessfulProcedure_def emit_AMFUEServiceAccept_def emit_AMFUEPolicyTransfer_def
  emit_AMFPositioningInfoTransfer_def emit_AMFRANHandoverCommand_def emit_AMFRANHandoverRequest_def

end
