(* ===== verification/IriSpec.thy ===== *)
theory IriSpec
  imports IriEmit
begin

text \<open>
  What the emitters are held to: the encoding that the \<open>asn1\<close> tags of the structs describe. The
  reference walks the reflected record, looks its fields' tags up in \<open>struct_tags\<close> and the
  alternatives of a CHOICE in \<open>choices\<close>, and yields a tree of elements, or the error a mandatory member
  without a usable value calls for. The emitters are shown to write exactly that tree, and a reader
  of the encoding rules to read exactly that tree back.
\<close>

subsection \<open>The encoding the tags describe\<close>

text \<open>The CHOICE types of the module: the name, and the tag of each alternative.\<close>

definition choices :: "(string \<times> string \<times> (string \<times> nat) list) list" where
  "choices =
     [(''supi'', ''SUPI'', [(''IMSI'', 1), (''NAI'', 2)]),
      (''pei'', ''PEI'', [(''IMEI'', 1), (''IMEISV'', 2)]),
      (''gpsi'', ''GPSI'', [(''MSISDN'', 1), (''NAI'', 2)]),
      (''ueEndpointAddress'', ''UEEndpointAddress'', [(''IPv4Address'', 1), (''IPv6Address'', 2), (''MACAddress'', 3)]),
      (''amfFailureCause'', ''AMFFailureCause'', [(''FiveGMMCause'', 1), (''FiveGSMCause'', 2)]),
      (''fiveGSSubscriberID'', ''FiveGSSubscriberID'', [(''SubscriberSUPI'', 1), (''SubscriberPEI'', 3), (''SubscriberGPSI'', 4)]),
      (''serviceMessageIdentity'', ''ServiceMessageIdentity'', [(''ServiceRequestIdentity'', 1), (''ServiceAcceptIdentity'', 2)]),
      (''handoverCause'', ''HandoverCause'',
       [(''CauseRadioNetwork'', 1), (''CauseTransport'', 2), (''CauseNas'', 3), (''CauseProtocol'', 4), (''CauseMisc'', 5)]),
      (''xiriEvent'', ''XIRIEvent'',
       [(''AMFRegistration'', 1), (''AMFDeregistration'', 2), (''AMFLocationUpdate'', 3),
        (''AMFStartOfInterceptionWithRegisteredUE'', 4), (''AMFUnsuccessfulProcedure'', 5),
        (''SMFPDUSessionEstablishment'', 6), (''SMFPDUSessionModification'', 7), (''SMFPDUSessionRelease'', 8),
        (''SMFStartOfInterceptionWithEstablishedPDUSession'', 9), (''SMFUnsuccessfulProcedure'', 10),
        (''AMFIdentifierAssociation'', 62), (''AMFPositioningInfoTransfer'', 111), (''AMFRANHandoverCommand'', 113),
        (''AMFRANHandoverRequest'', 114), (''AMFUEPolicyTransfer'', 146), (''AMFUEServiceAccept'', 147),
        (''AMFIdentifierDeassociation'', 186)])]"

definition choice_name :: "string \<Rightarrow> string" where
  "choice_name c = (case map_of choices c of Some (n, as) \<Rightarrow> n | None \<Rightarrow> [])"

definition choice_tag :: "string \<Rightarrow> goval \<Rightarrow> nat option" where
  "choice_tag c v =
     (case map_of choices c of
        None \<Rightarrow> None
      | Some (n, as) \<Rightarrow>
          (case v of
             GStruct (Iri_t t) fs \<Rightarrow> map_of as t
           | GBytes (Iri_t t) b \<Rightarrow> map_of as t
           | GInt (Iri_t t) i \<Rightarrow> map_of as t
           | GString (Iri_t t) s \<Rightarrow> map_of as t
           | _ \<Rightarrow> None))"

text \<open>The elements written, and the error after which nothing more is.\<close>

type_synonym emission = "element list \<times> iri_error option"

abbreviation wrote :: "element list \<Rightarrow> emission" where
  "wrote es \<equiv> (es, None)"

abbreviation refused :: "iri_error \<Rightarrow> emission" where
  "refused e \<equiv> ([], Some e)"

definition join :: "emission \<Rightarrow> emission \<Rightarrow> emission" where
  "join x y = (if snd x \<noteq> None then x else (fst x @ fst y, snd y))"

definition enclose :: "nat \<Rightarrow> nat \<Rightarrow> emission \<Rightarrow> emission" where
  "enclose class tag x = (case snd x of Some e \<Rightarrow> refused e | None \<Rightarrow> wrote [Constr class tag (fst x)])"

text \<open>An optional member is left out when it is its type's zero, and so is a CHOICE that holds one.\<close>

fun absent :: "goval \<Rightarrow> bool" where
  "absent (GIface v) = isZero v"
| "absent v = isZero v"

text \<open>
  \<open>spec_value class tag field v\<close> is the element of a value that is not a CHOICE; \<open>field\<close> is how the
  enclosing member is named in errors. \<open>spec_fields\<close> goes through the fields of a struct of type \<open>tn\<close>
  with their tags, \<open>spec_alternative\<close> writes one alternative of a CHOICE and \<open>spec_list\<close> a list of them,
  \<open>spec_structs\<close> a list of structures.
\<close>

fun spec_value :: "nat \<Rightarrow> nat \<Rightarrow> string \<Rightarrow> goval \<Rightarrow> emission"
  and spec_fields :: "string \<Rightarrow> string \<Rightarrow> params list \<Rightarrow> (string \<times> bool \<times> goval) list \<Rightarrow> emission"
  and spec_alternative :: "string \<Rightarrow> string \<Rightarrow> goval \<Rightarrow> emission"
  and spec_list :: "string \<Rightarrow> string \<Rightarrow> nat \<Rightarrow> goval list \<Rightarrow> emission"
  and spec_structs :: "goval list \<Rightarrow> emission" where
  "spec_value class tag field (GInt t i) = wrote [Prim class tag (int64Encoder i)]"
| "spec_value class tag field (GBool t v) = wrote [Prim class tag (boolEncoder v)]"
| "spec_value class tag field (GString t s) = wrote [Prim class tag (bytes_of s)]"
| "spec_value class tag field (GBytes t b) = wrote [Prim class tag (content b)]"
| "spec_value class tag field (GPtr v) = spec_value class tag field v"
| "spec_value class tag field (GStruct t fs) =
     (case map_of struct_tags (Name t) of
        None \<Rightarrow> refused (Missing field)
      | Some ps \<Rightarrow> enclose class tag (spec_fields (Name t) field ps fs))"
| "spec_value class tag field (GSlice t vs) =
     enclose class tag (case vs of None \<Rightarrow> wrote [] | Some es \<Rightarrow> spec_structs es)"
| "spec_value class tag field v = refused (Missing field)"
| "spec_fields tn field (p # ps) ((n, e, v) # fs) =
     join
       (if poptional p \<and> absent v then wrote []
        else case (pchoice p, ptag p) of
          (None, Some tag) \<Rightarrow> spec_value ClassContextSpecific tag (tn @ ''.'' @ n) v
        | (Some c, Some tag) \<Rightarrow>
            enclose ClassContextSpecific tag
              (if pexplicit p then spec_alternative c (tn @ ''.'' @ n) v
               else case v of
                 GSlice t (Some vs) \<Rightarrow> spec_list c (tn @ ''.'' @ n) 0 vs
               | _ \<Rightarrow> wrote [])
        | (Some c, None) \<Rightarrow> spec_alternative c (field @ ''.'' @ n) v
        | (None, None) \<Rightarrow> refused (Missing (tn @ ''.'' @ n)))
       (spec_fields tn field ps fs)"
| "spec_fields tn field ps fs = wrote []"
| "spec_alternative c field (GIface v) =
     (case choice_tag c v of
        Some tag \<Rightarrow> spec_value ClassContextSpecific tag field v
      | None \<Rightarrow> refused (NotAnAlternative (choice_name c) field (type_text v)))"
| "spec_alternative c field v = refused (Missing field)"
| "spec_list c field i [] = wrote []"
| "spec_list c field i (v # vs) =
     join (spec_alternative c (field @ ''['' @ FormatUint i @ '']'') v) (spec_list c field (Suc i) vs)"
| "spec_structs [] = wrote []"
| "spec_structs (v # vs) = join (spec_value ClassUniversal TagSequence [] v) (spec_structs vs)"

text \<open>The tree of a payload.\<close>

definition spec_payload :: "XIRIEvent \<Rightarrow> emission" where
  "spec_payload event = spec_value ClassUniversal TagSequence [] (refl_payload event)"

subsection \<open>The emitters write what the tags describe\<close>

text \<open>What it means for a builder to receive an emission: nothing after an error, the elements otherwise.\<close>

definition emitting :: "emission \<Rightarrow> builder \<Rightarrow> builder" where
  "emitting x b =
     (if err b \<noteq> None then b
      else b\<lparr>buf := buf b @ concat (map der (fst x)), err := snd x\<rparr>)"

lemma join_Nil [simp]: "join (wrote []) x = x" "join x (wrote []) = x"
  by (cases x; simp add: join_def)+

lemma join_assoc [simp]: "join (join x y) z = join x (join y z)"
  by (auto simp: join_def split: option.split)

lemma emitting_emitting [simp]: "emitting y (emitting x b) = emitting (join x y) b"
  by (auto simp: emitting_def join_def split: option.split)

lemma emitting_Nil: "emitting (wrote []) b = b"
  by (simp add: emitting_def)

lemma emitting_members:
  "integer tag i = emitting (wrote [Prim ClassContextSpecific tag (int64Encoder i)])"
  "boolean tag v = emitting (wrote [Prim ClassContextSpecific tag (boolEncoder v)])"
  "octets tag bs = emitting (wrote [Prim ClassContextSpecific tag (content bs)])"
  "text_member tag s = emitting (wrote [Prim ClassContextSpecific tag (bytes_of s)])"
  "fail e = emitting (refused e)"
  by (auto simp: fun_eq_iff emitting_def integer_def boolean_def octets_def text_member_def fail_def add_def content_def
      Marshal_int64_def Marshal_bool_def Marshal_raw_def boolEncoder_def Let_def)

lemma emitting_wrap: "wrap class tag (emitting x) = emitting (enclose class tag x)"
  by (auto simp: fun_eq_iff emitting_def wrap_def enclose_def empty_builder_def add_def Let_def split: option.split)

lemma emitting_constructed: "constructed tag (emitting x) = emitting (enclose ClassContextSpecific tag x)"
  by (simp add: fun_eq_iff constructed_def emitting_wrap)

lemma emitting_sequence: "sequence (emitting x) = emitting (enclose ClassUniversal TagSequence x)"
  by (simp add: fun_eq_iff sequence_def emitting_wrap)

lemma emitting_if_then: "if_then c (emitting x) = emitting (if \<not> c then wrote [] else x)"
  by (simp add: fun_eq_iff if_then_def emitting_Nil)

lemma emitting_if_some:
  "if_some p (integer tag) = emitting (case p of None \<Rightarrow> wrote [] | Some v \<Rightarrow> wrote [Prim ClassContextSpecific tag (int64Encoder v)])"
  "if_some q (boolean tag) = emitting (case q of None \<Rightarrow> wrote [] | Some v \<Rightarrow> wrote [Prim ClassContextSpecific tag (boolEncoder v)])"
  by (simp_all add: fun_eq_iff if_some_def emitting_Nil emitting_members split: option.split)

lemmas emittings = emitting_members emitting_constructed emitting_sequence emitting_if_then emitting_if_some

text \<open>The tables, looked up.\<close>

lemma choice_lookups:
  "map_of choices ''supi'' = Some (''SUPI'', [(''IMSI'', 1), (''NAI'', 2)])"
  "map_of choices ''pei'' = Some (''PEI'', [(''IMEI'', 1), (''IMEISV'', 2)])"
  "map_of choices ''gpsi'' = Some (''GPSI'', [(''MSISDN'', 1), (''NAI'', 2)])"
  "map_of choices ''ueEndpointAddress'' = Some (''UEEndpointAddress'', [(''IPv4Address'', 1), (''IPv6Address'', 2), (''MACAddress'', 3)])"
  "map_of choices ''amfFailureCause'' = Some (''AMFFailureCause'', [(''FiveGMMCause'', 1), (''FiveGSMCause'', 2)])"
  "map_of choices ''fiveGSSubscriberID'' = Some (''FiveGSSubscriberID'', [(''SubscriberSUPI'', 1), (''SubscriberPEI'', 3), (''SubscriberGPSI'', 4)])"
  "map_of choices ''serviceMessageIdentity'' = Some (''ServiceMessageIdentity'', [(''ServiceRequestIdentity'', 1), (''ServiceAcceptIdentity'', 2)])"
  "map_of choices ''handoverCause'' = Some (''HandoverCause'', [(''CauseRadioNetwork'', 1), (''CauseTransport'', 2), (''CauseNas'', 3), (''CauseProtocol'', 4), (''CauseMisc'', 5)])"
  by (simp_all add: choices_def)

lemma struct_lookups:
  "map_of struct_tags ''SubscriberSUPI'' = Some tags_SubscriberSUPI"
  "map_of struct_tags ''SubscriberPEI'' = Some tags_SubscriberPEI"
  "map_of struct_tags ''SubscriberGPSI'' = Some tags_SubscriberGPSI"
  "map_of struct_tags ''SNSSAI'' = Some tags_SNSSAI"
  "map_of struct_tags ''FTEID'' = Some tags_FTEID"
  "map_of struct_tags ''FiveGSGTPTunnels'' = Some tags_FiveGSGTPTunnels"
  "map_of struct_tags ''GTPTunnelInfo'' = Some tags_GTPTunnelInfo"
  "map_of struct_tags ''LocationInfo'' = Some tags_LocationInfo"
  "map_of struct_tags ''Location'' = Some tags_Location"
  "map_of struct_tags ''FiveGSSubscriberIDs'' = Some tags_FiveGSSubscriberIDs"
  "map_of struct_tags ''UserIdentifiers'' = Some tags_UserIdentifiers"
  "map_of struct_tags ''PDUSessionResourceInformation'' = Some tags_PDUSessionResourceInformation"
  "map_of struct_tags ''FiveGGUTI'' = Some tags_FiveGGUTI"
  "map_of struct_tags ''SUCI'' = Some tags_SUCI"
  "map_of struct_tags ''PLMNID'' = Some tags_PLMNID"
  "map_of struct_tags ''TAI'' = Some tags_TAI"
  "map_of struct_tags ''SMFServingNetwork'' = Some tags_SMFServingNetwork"
  "map_of struct_tags ''AMFID'' = Some tags_AMFID"
  "map_of struct_tags ''AMFRegistration'' = Some tags_AMFRegistration"
  "map_of struct_tags ''AMFDeregistration'' = Some tags_AMFDeregistration"
  "map_of struct_tags ''AMFStartOfInterceptionWithRegisteredUE'' = Some tags_AMFStartOfInterceptionWithRegisteredUE"
  "map_of struct_tags ''SMFPDUSessionEstablishment'' = Some tags_SMFPDUSessionEstablishment"
  "map_of struct_tags ''SMFPDUSessionModification'' = Some tags_SMFPDUSessionModification"
  "map_of struct_tags ''SMFPDUSessionRelease'' = Some tags_SMFPDUSessionRelease"
  "map_of struct_tags ''AMFLocationUpdate'' = Some tags_AMFLocationUpdate"
  "map_of struct_tags ''AMFUnsuccessfulProcedure'' = Some tags_AMFUnsuccessfulProcedure"
  "map_of struct_tags ''AMFIdentifierAssociation'' = Some tags_AMFIdentifierAssociation"
  "map_of struct_tags ''AMFIdentifierDeassociation'' = Some tags_AMFIdentifierDeassociation"
  "map_of struct_tags ''SMFStartOfInterceptionWithEstablishedPDUSession'' = Some tags_SMFStartOfInterceptionWithEstablishedPDUSession"
  "map_of struct_tags ''SMFUnsuccessfulProcedure'' = Some tags_SMFUnsuccessfulProcedure"
  "map_of struct_tags ''AMFUEServiceAccept'' = Some tags_AMFUEServiceAccept"
  "map_of struct_tags ''AMFUEPolicyTransfer'' = Some tags_AMFUEPolicyTransfer"
  "map_of struct_tags ''AMFPositioningInfoTransfer'' = Some tags_AMFPositioningInfoTransfer"
  "map_of struct_tags ''AMFRANHandoverCommand'' = Some tags_AMFRANHandoverCommand"
  "map_of struct_tags ''AMFRANHandoverRequest'' = Some tags_AMFRANHandoverRequest"
  "map_of struct_tags ''XIRIPayload'' = Some tags_XIRIPayload"
  by (simp_all add: struct_tags_def)

text \<open>The members of a struct, without the element around them.\<close>

fun spec_body :: "string \<Rightarrow> goval \<Rightarrow> emission" where
  "spec_body field (GStruct t fs) =
     (case map_of struct_tags (Name t) of
        None \<Rightarrow> refused (Missing field)
      | Some ps \<Rightarrow> spec_fields (Name t) field ps fs)"
| "spec_body field v = refused (Missing field)"

lemma spec_value_body: "spec_value class tag field (GStruct t fs) = enclose class tag (spec_body field (GStruct t fs))"
  by (simp add: enclose_def split: option.split)

lemma spec_fields_context:
  "list_all (\<lambda>p. ptag p \<noteq> None) ps \<Longrightarrow> spec_fields tn field ps fs = spec_fields tn [] ps fs"
proof (induction ps arbitrary: fs)
  case (Cons p ps)
  then show ?case by (cases fs) (auto split: option.split)
qed simp

lemma spec_value_tagged:
  assumes "map_of struct_tags (Name t) = Some ps" and "list_all (\<lambda>p. ptag p \<noteq> None) ps"
  shows "spec_value class tag field (GStruct t fs) = enclose class tag (spec_body [] (GStruct t fs))"
  using spec_fields_context [OF assms(2), of "Name t" field fs] assms(1) by simp

lemma spec_value_struct:
  "spec_value class tag field (refl_SNSSAI x0) = enclose class tag (spec_body [] (refl_SNSSAI x0))"
  "spec_value class tag field (refl_FTEID x1) = enclose class tag (spec_body [] (refl_FTEID x1))"
  "spec_value class tag field (refl_FiveGSGTPTunnels x2) = enclose class tag (spec_body [] (refl_FiveGSGTPTunnels x2))"
  "spec_value class tag field (refl_GTPTunnelInfo x3) = enclose class tag (spec_body [] (refl_GTPTunnelInfo x3))"
  "spec_value class tag field (refl_LocationInfo x4) = enclose class tag (spec_body [] (refl_LocationInfo x4))"
  "spec_value class tag field (refl_Location x5) = enclose class tag (spec_body [] (refl_Location x5))"
  "spec_value class tag field (refl_FiveGSSubscriberIDs x6) = enclose class tag (spec_body [] (refl_FiveGSSubscriberIDs x6))"
  "spec_value class tag field (refl_UserIdentifiers x7) = enclose class tag (spec_body [] (refl_UserIdentifiers x7))"
  "spec_value class tag field (refl_PDUSessionResourceInformation x8) = enclose class tag (spec_body [] (refl_PDUSessionResourceInformation x8))"
  "spec_value class tag field (refl_FiveGGUTI x9) = enclose class tag (spec_body [] (refl_FiveGGUTI x9))"
  "spec_value class tag field (refl_SUCI x10) = enclose class tag (spec_body [] (refl_SUCI x10))"
  "spec_value class tag field (refl_PLMNID x11) = enclose class tag (spec_body [] (refl_PLMNID x11))"
  "spec_value class tag field (refl_TAI x12) = enclose class tag (spec_body [] (refl_TAI x12))"
  "spec_value class tag field (refl_SMFServingNetwork x13) = enclose class tag (spec_body [] (refl_SMFServingNetwork x13))"
  "spec_value class tag field (refl_AMFID x14) = enclose class tag (spec_body [] (refl_AMFID x14))"
  "spec_value class tag field (refl_AMFRegistration x15) = enclose class tag (spec_body [] (refl_AMFRegistration x15))"
  "spec_value class tag field (refl_AMFDeregistration x16) = enclose class tag (spec_body [] (refl_AMFDeregistration x16))"
  "spec_value class tag field (refl_AMFStartOfInterceptionWithRegisteredUE x17) = enclose class tag (spec_body [] (refl_AMFStartOfInterceptionWithRegisteredUE x17))"
  "spec_value class tag field (refl_SMFPDUSessionEstablishment x18) = enclose class tag (spec_body [] (refl_SMFPDUSessionEstablishment x18))"
  "spec_value class tag field (refl_SMFPDUSessionModification x19) = enclose class tag (spec_body [] (refl_SMFPDUSessionModification x19))"
  "spec_value class tag field (refl_SMFPDUSessionRelease x20) = enclose class tag (spec_body [] (refl_SMFPDUSessionRelease x20))"
  "spec_value class tag field (refl_AMFLocationUpdate x21) = enclose class tag (spec_body [] (refl_AMFLocationUpdate x21))"
  "spec_value class tag field (refl_AMFUnsuccessfulProcedure x22) = enclose class tag (spec_body [] (refl_AMFUnsuccessfulProcedure x22))"
  "spec_value class tag field (refl_AMFIdentifierAssociation x23) = enclose class tag (spec_body [] (refl_AMFIdentifierAssociation x23))"
  "spec_value class tag field (refl_AMFIdentifierDeassociation x24) = enclose class tag (spec_body [] (refl_AMFIdentifierDeassociation x24))"
  "spec_value class tag field (refl_SMFStartOfInterceptionWithEstablishedPDUSession x25) = enclose class tag (spec_body [] (refl_SMFStartOfInterceptionWithEstablishedPDUSession x25))"
  "spec_value class tag field (refl_SMFUnsuccessfulProcedure x26) = enclose class tag (spec_body [] (refl_SMFUnsuccessfulProcedure x26))"
  "spec_value class tag field (refl_AMFUEServiceAccept x27) = enclose class tag (spec_body [] (refl_AMFUEServiceAccept x27))"
  "spec_value class tag field (refl_AMFUEPolicyTransfer x28) = enclose class tag (spec_body [] (refl_AMFUEPolicyTransfer x28))"
  "spec_value class tag field (refl_AMFPositioningInfoTransfer x29) = enclose class tag (spec_body [] (refl_AMFPositioningInfoTransfer x29))"
  "spec_value class tag field (refl_AMFRANHandoverCommand x30) = enclose class tag (spec_body [] (refl_AMFRANHandoverCommand x30))"
  "spec_value class tag field (refl_AMFRANHandoverRequest x31) = enclose class tag (spec_body [] (refl_AMFRANHandoverRequest x31))"
  unfolding refl_SNSSAI_def refl_FTEID_def refl_FiveGSGTPTunnels_def refl_GTPTunnelInfo_def refl_LocationInfo_def
  refl_Location_def refl_FiveGSSubscriberIDs_def refl_UserIdentifiers_def
  refl_PDUSessionResourceInformation_def refl_FiveGGUTI_def refl_SUCI_def refl_PLMNID_def refl_TAI_def
  refl_SMFServingNetwork_def refl_AMFID_def refl_AMFRegistration_def refl_AMFDeregistration_def
  refl_AMFStartOfInterceptionWithRegisteredUE_def refl_SMFPDUSessionEstablishment_def
  refl_SMFPDUSessionModification_def refl_SMFPDUSessionRelease_def refl_AMFLocationUpdate_def
  refl_AMFUnsuccessfulProcedure_def refl_AMFIdentifierAssociation_def
  refl_AMFIdentifierDeassociation_def refl_SMFStartOfInterceptionWithEstablishedPDUSession_def
  refl_SMFUnsuccessfulProcedure_def refl_AMFUEServiceAccept_def refl_AMFUEPolicyTransfer_def
  refl_AMFPositioningInfoTransfer_def refl_AMFRANHandoverCommand_def refl_AMFRANHandoverRequest_def
  by (rule spec_value_tagged, simp add: struct_lookups, simp add: tags_defs)+

lemma absent_struct:
  "absent (refl_SNSSAI x0) = isZero (refl_SNSSAI x0)"
  "absent (refl_FTEID x1) = isZero (refl_FTEID x1)"
  "absent (refl_FiveGSGTPTunnels x2) = isZero (refl_FiveGSGTPTunnels x2)"
  "absent (refl_GTPTunnelInfo x3) = isZero (refl_GTPTunnelInfo x3)"
  "absent (refl_LocationInfo x4) = isZero (refl_LocationInfo x4)"
  "absent (refl_Location x5) = isZero (refl_Location x5)"
  "absent (refl_FiveGSSubscriberIDs x6) = isZero (refl_FiveGSSubscriberIDs x6)"
  "absent (refl_UserIdentifiers x7) = isZero (refl_UserIdentifiers x7)"
  "absent (refl_PDUSessionResourceInformation x8) = isZero (refl_PDUSessionResourceInformation x8)"
  "absent (refl_FiveGGUTI x9) = isZero (refl_FiveGGUTI x9)"
  "absent (refl_SUCI x10) = isZero (refl_SUCI x10)"
  "absent (refl_PLMNID x11) = isZero (refl_PLMNID x11)"
  "absent (refl_TAI x12) = isZero (refl_TAI x12)"
  "absent (refl_SMFServingNetwork x13) = isZero (refl_SMFServingNetwork x13)"
  "absent (refl_AMFID x14) = isZero (refl_AMFID x14)"
  "absent (refl_AMFRegistration x15) = isZero (refl_AMFRegistration x15)"
  "absent (refl_AMFDeregistration x16) = isZero (refl_AMFDeregistration x16)"
  "absent (refl_AMFStartOfInterceptionWithRegisteredUE x17) = isZero (refl_AMFStartOfInterceptionWithRegisteredUE x17)"
  "absent (refl_SMFPDUSessionEstablishment x18) = isZero (refl_SMFPDUSessionEstablishment x18)"
  "absent (refl_SMFPDUSessionModification x19) = isZero (refl_SMFPDUSessionModification x19)"
  "absent (refl_SMFPDUSessionRelease x20) = isZero (refl_SMFPDUSessionRelease x20)"
  "absent (refl_AMFLocationUpdate x21) = isZero (refl_AMFLocationUpdate x21)"
  "absent (refl_AMFUnsuccessfulProcedure x22) = isZero (refl_AMFUnsuccessfulProcedure x22)"
  "absent (refl_AMFIdentifierAssociation x23) = isZero (refl_AMFIdentifierAssociation x23)"
  "absent (refl_AMFIdentifierDeassociation x24) = isZero (refl_AMFIdentifierDeassociation x24)"
  "absent (refl_SMFStartOfInterceptionWithEstablishedPDUSession x25) = isZero (refl_SMFStartOfInterceptionWithEstablishedPDUSession x25)"
  "absent (refl_SMFUnsuccessfulProcedure x26) = isZero (refl_SMFUnsuccessfulProcedure x26)"
  "absent (refl_AMFUEServiceAccept x27) = isZero (refl_AMFUEServiceAccept x27)"
  "absent (refl_AMFUEPolicyTransfer x28) = isZero (refl_AMFUEPolicyTransfer x28)"
  "absent (refl_AMFPositioningInfoTransfer x29) = isZero (refl_AMFPositioningInfoTransfer x29)"
  "absent (refl_AMFRANHandoverCommand x30) = isZero (refl_AMFRANHandoverCommand x30)"
  "absent (refl_AMFRANHandoverRequest x31) = isZero (refl_AMFRANHandoverRequest x31)"
  unfolding refl_SNSSAI_def refl_FTEID_def refl_FiveGSGTPTunnels_def refl_GTPTunnelInfo_def refl_LocationInfo_def
  refl_Location_def refl_FiveGSSubscriberIDs_def refl_UserIdentifiers_def
  refl_PDUSessionResourceInformation_def refl_FiveGGUTI_def refl_SUCI_def refl_PLMNID_def refl_TAI_def
  refl_SMFServingNetwork_def refl_AMFID_def refl_AMFRegistration_def refl_AMFDeregistration_def
  refl_AMFStartOfInterceptionWithRegisteredUE_def refl_SMFPDUSessionEstablishment_def
  refl_SMFPDUSessionModification_def refl_SMFPDUSessionRelease_def refl_AMFLocationUpdate_def
  refl_AMFUnsuccessfulProcedure_def refl_AMFIdentifierAssociation_def
  refl_AMFIdentifierDeassociation_def refl_SMFStartOfInterceptionWithEstablishedPDUSession_def
  refl_SMFUnsuccessfulProcedure_def refl_AMFUEServiceAccept_def refl_AMFUEPolicyTransfer_def
  refl_AMFPositioningInfoTransfer_def refl_AMFRANHandoverCommand_def refl_AMFRANHandoverRequest_def
  by (rule absent.simps)+

lemma absent_any: "absent (refl_any v) \<longleftrightarrow> \<not> present v"
  by (cases v) (simp_all add: present_def)

lemma absent_ptr: "absent (refl_ptr t f p) \<longleftrightarrow> p = None"
  by (cases p) simp_all

lemma spec_value_ptr:
  "(if p = None then wrote [] else spec_value class tag field (refl_ptr t (GInt u) p)) =
   (case p of None \<Rightarrow> wrote [] | Some v \<Rightarrow> wrote [Prim class tag (int64Encoder v)])"
  "(if q = None then wrote [] else spec_value class tag field (refl_ptr t (GBool u) q)) =
   (case q of None \<Rightarrow> wrote [] | Some v \<Rightarrow> wrote [Prim class tag (boolEncoder v)])"
  by (cases p, simp_all) (cases q, simp_all)

lemma spec_alternative_nil [simp]: "spec_alternative c field GNil = refused (Missing field)"
  by simp

text \<open>Each CHOICE function writes the alternative the table names.\<close>

lemma choice_functions:
  "supi field v = emitting (spec_alternative ''supi'' field (refl_any v))"
  "pei field v = emitting (spec_alternative ''pei'' field (refl_any v))"
  "gpsi field v = emitting (spec_alternative ''gpsi'' field (refl_any v))"
  "ueEndpointAddress field v = emitting (spec_alternative ''ueEndpointAddress'' field (refl_any v))"
  "amfFailureCause field v = emitting (spec_alternative ''amfFailureCause'' field (refl_any v))"
  "fiveGSSubscriberID field v = emitting (spec_alternative ''fiveGSSubscriberID'' field (refl_any v))"
  "serviceMessageIdentity field v = emitting (spec_alternative ''serviceMessageIdentity'' field (refl_any v))"
  "handoverCause field v = emitting (spec_alternative ''handoverCause'' field (refl_any v))"
proof -
  note s = choice_tag_def choice_name_def choice_lookups emittings notAnAlternative_def fld_def
  have 1: "supi field v = emitting (spec_alternative ''supi'' field (refl_any v))" for field v
    by (rule ext, cases v) (simp_all add: supi_def s)
  have 2: "pei field v = emitting (spec_alternative ''pei'' field (refl_any v))" for field v
    by (rule ext, cases v) (simp_all add: pei_def s)
  have 3: "gpsi field v = emitting (spec_alternative ''gpsi'' field (refl_any v))" for field v
    by (rule ext, cases v) (simp_all add: gpsi_def s)
  show "fiveGSSubscriberID field v = emitting (spec_alternative ''fiveGSSubscriberID'' field (refl_any v))"
    by (rule ext, cases v) (simp_all add: fiveGSSubscriberID_def 1 2 3 s struct_lookups tags_SubscriberSUPI_def
        tags_SubscriberPEI_def tags_SubscriberGPSI_def inline_choice_def)
  show "supi field v = emitting (spec_alternative ''supi'' field (refl_any v))"
    "pei field v = emitting (spec_alternative ''pei'' field (refl_any v))"
    "gpsi field v = emitting (spec_alternative ''gpsi'' field (refl_any v))" by (rule 1 2 3)+
  show "ueEndpointAddress field v = emitting (spec_alternative ''ueEndpointAddress'' field (refl_any v))"
    by (rule ext, cases v) (simp_all add: ueEndpointAddress_def s)
  show "amfFailureCause field v = emitting (spec_alternative ''amfFailureCause'' field (refl_any v))"
    by (rule ext, cases v) (simp_all add: amfFailureCause_def s)
  show "serviceMessageIdentity field v = emitting (spec_alternative ''serviceMessageIdentity'' field (refl_any v))"
    by (rule ext, cases v) (simp_all add: serviceMessageIdentity_def s)
  show "handoverCause field v = emitting (spec_alternative ''handoverCause'' field (refl_any v))"
    by (rule ext, cases v) (simp_all add: handoverCause_def s)
qed

lemma explicit_choice:
  assumes "\<And>field v. alternative field v = emitting (spec_alternative c field (refl_any v))"
  shows "explicit tag field (v = NilAny) v alternative =
    emitting (enclose ClassContextSpecific tag (spec_alternative c field (refl_any v)))"
  by (rule ext, cases "v = NilAny") (simp_all add: explicit_def assms emittings enclose_def)

lemma sequence_of_choice:
  assumes "\<And>field v. alternative field v = emitting (spec_alternative c field (refl_any v))"
  shows "sequenceOf tag field l alternative =
    emitting (enclose ClassContextSpecific tag (spec_list c field 0 (map refl_any (elements l))))"
proof -
  have "sequence_loop_of field i xs alternative b = emitting (spec_list c field i (map refl_any xs)) b" for i xs b
    by (induction xs arbitrary: i b) (simp_all add: assms emitting_Nil)
  then have "sequence_loop_of field 0 (elements l) alternative = emitting (spec_list c field 0 (map refl_any (elements l)))"
    by (rule ext)
  then show ?thesis by (intro ext) (simp only: sequenceOf_def emittings)
qed

lemma slice_elements:
  "(case l of None \<Rightarrow> wrote [] | Some x \<Rightarrow> (spec_list c field i \<circ> map refl_any) x) = spec_list c field i (map refl_any (elements l))"
  "(case m of None \<Rightarrow> wrote [] | Some x \<Rightarrow> (spec_structs \<circ> map refl_TAI) x) = spec_structs (map refl_TAI (elements m))"
  by (cases l; simp add: elements_def) (cases m; simp add: elements_def)

lemmas choice_writers = choice_functions [THEN explicit_choice] choice_functions [THEN sequence_of_choice]

text \<open>Each emit method writes the members its struct declares.\<close>

lemmas emit_simps = emittings choice_writers spec_value_struct absent_struct absent_any absent_ptr spec_value_ptr slice_elements
  struct_lookups params_defs fld_def Let_def

lemma emit_SNSSAI_spec: "emit_SNSSAI r = emitting (spec_body [] (refl_SNSSAI r))"
  by (rule ext) (simp add: emit_SNSSAI_def refl_SNSSAI_def tags_SNSSAI_def emit_simps cong: if_cong split del: if_split)

lemma emit_FTEID_spec: "emit_FTEID r = emitting (spec_body [] (refl_FTEID r))"
  by (rule ext) (simp add: emit_FTEID_def refl_FTEID_def tags_FTEID_def emit_simps cong: if_cong split del: if_split)

lemma emit_FiveGSGTPTunnels_spec: "emit_FiveGSGTPTunnels r = emitting (spec_body [] (refl_FiveGSGTPTunnels r))"
  by (rule ext) (simp add: emit_FiveGSGTPTunnels_def refl_FiveGSGTPTunnels_def tags_FiveGSGTPTunnels_def emit_FTEID_spec emit_simps cong: if_cong split del: if_split)

lemma emit_GTPTunnelInfo_spec: "emit_GTPTunnelInfo r = emitting (spec_body [] (refl_GTPTunnelInfo r))"
  by (rule ext) (simp add: emit_GTPTunnelInfo_def refl_GTPTunnelInfo_def tags_GTPTunnelInfo_def emit_FiveGSGTPTunnels_spec emit_simps cong: if_cong split del: if_split)

lemma emit_LocationInfo_spec: "emit_LocationInfo r = emitting (spec_body [] (refl_LocationInfo r))"
  by (rule ext) (simp add: emit_LocationInfo_def refl_LocationInfo_def tags_LocationInfo_def emit_simps cong: if_cong split del: if_split)

lemma emit_Location_spec: "emit_Location r = emitting (spec_body [] (refl_Location r))"
  by (rule ext) (simp add: emit_Location_def refl_Location_def tags_Location_def emit_LocationInfo_spec emit_simps cong: if_cong split del: if_split)

lemma emit_FiveGSSubscriberIDs_spec: "emit_FiveGSSubscriberIDs r = emitting (spec_body [] (refl_FiveGSSubscriberIDs r))"
  by (rule ext) (simp add: emit_FiveGSSubscriberIDs_def refl_FiveGSSubscriberIDs_def tags_FiveGSSubscriberIDs_def emit_simps cong: if_cong split del: if_split)

lemma emit_UserIdentifiers_spec: "emit_UserIdentifiers r = emitting (spec_body [] (refl_UserIdentifiers r))"
  by (rule ext) (simp add: emit_UserIdentifiers_def refl_UserIdentifiers_def tags_UserIdentifiers_def emit_FiveGSSubscriberIDs_spec emit_simps cong: if_cong split del: if_split)

lemma emit_PDUSessionResourceInformation_spec: "emit_PDUSessionResourceInformation r = emitting (spec_body [] (refl_PDUSessionResourceInformation r))"
  by (rule ext) (simp add: emit_PDUSessionResourceInformation_def refl_PDUSessionResourceInformation_def tags_PDUSessionResourceInformation_def emit_simps cong: if_cong split del: if_split)

lemma emit_FiveGGUTI_spec: "emit_FiveGGUTI r = emitting (spec_body [] (refl_FiveGGUTI r))"
  by (rule ext) (simp add: emit_FiveGGUTI_def refl_FiveGGUTI_def tags_FiveGGUTI_def emit_simps cong: if_cong split del: if_split)

lemma emit_SUCI_spec: "emit_SUCI r = emitting (spec_body [] (refl_SUCI r))"
  by (rule ext) (simp add: emit_SUCI_def refl_SUCI_def tags_SUCI_def emit_simps cong: if_cong split del: if_split)

lemma emit_PLMNID_spec: "emit_PLMNID r = emitting (spec_body [] (refl_PLMNID r))"
  by (rule ext) (simp add: emit_PLMNID_def refl_PLMNID_def tags_PLMNID_def emit_simps cong: if_cong split del: if_split)

lemma emit_TAI_spec: "emit_TAI r = emitting (spec_body [] (refl_TAI r))"
  by (rule ext) (simp add: emit_TAI_def refl_TAI_def tags_TAI_def emit_PLMNID_spec emit_simps cong: if_cong split del: if_split)

lemma taiList_spec:
  "taiList tag l = emitting (enclose ClassContextSpecific tag (spec_structs (map refl_TAI (elements l))))"
proof -
  have "tai_loop xs b = emitting (spec_structs (map refl_TAI xs)) b" for xs b
    by (induction xs arbitrary: b) (simp_all add: emitting_Nil emittings emit_TAI_spec spec_value_struct)
  then have "tai_loop (elements l) = emitting (spec_structs (map refl_TAI (elements l)))" by (rule ext)
  then show ?thesis by (intro ext) (simp only: taiList_def emittings)
qed

lemma emit_SMFServingNetwork_spec: "emit_SMFServingNetwork r = emitting (spec_body [] (refl_SMFServingNetwork r))"
  by (rule ext) (simp add: emit_SMFServingNetwork_def refl_SMFServingNetwork_def tags_SMFServingNetwork_def emit_PLMNID_spec emit_simps cong: if_cong split del: if_split)

lemma emit_AMFID_spec: "emit_AMFID r = emitting (spec_body [] (refl_AMFID r))"
  by (rule ext) (simp add: emit_AMFID_def refl_AMFID_def tags_AMFID_def emit_simps cong: if_cong split del: if_split)

lemma emit_AMFRegistration_spec: "emit_AMFRegistration r = emitting (spec_body [] (refl_AMFRegistration r))"
  by (rule ext) (simp add: emit_AMFRegistration_def refl_AMFRegistration_def tags_AMFRegistration_def emit_SUCI_spec emit_FiveGGUTI_spec taiList_spec emit_simps cong: if_cong split del: if_split)

lemma emit_AMFDeregistration_spec: "emit_AMFDeregistration r = emitting (spec_body [] (refl_AMFDeregistration r))"
  by (rule ext) (simp add: emit_AMFDeregistration_def refl_AMFDeregistration_def tags_AMFDeregistration_def emit_SUCI_spec emit_FiveGGUTI_spec emit_simps cong: if_cong split del: if_split)

lemma emit_AMFStartOfInterceptionWithRegisteredUE_spec: "emit_AMFStartOfInterceptionWithRegisteredUE r = emitting (spec_body [] (refl_AMFStartOfInterceptionWithRegisteredUE r))"
  by (rule ext) (simp add: emit_AMFStartOfInterceptionWithRegisteredUE_def refl_AMFStartOfInterceptionWithRegisteredUE_def tags_AMFStartOfInterceptionWithRegisteredUE_def emit_SUCI_spec emit_FiveGGUTI_spec taiList_spec emit_simps cong: if_cong split del: if_split)

lemma emit_SMFPDUSessionEstablishment_spec: "emit_SMFPDUSessionEstablishment r = emitting (spec_body [] (refl_SMFPDUSessionEstablishment r))"
  by (rule ext) (simp add: emit_SMFPDUSessionEstablishment_def refl_SMFPDUSessionEstablishment_def tags_SMFPDUSessionEstablishment_def emit_FTEID_spec emit_SNSSAI_spec emit_AMFID_spec emit_SMFServingNetwork_spec emit_GTPTunnelInfo_spec emit_simps cong: if_cong split del: if_split)

lemma emit_SMFPDUSessionModification_spec: "emit_SMFPDUSessionModification r = emitting (spec_body [] (refl_SMFPDUSessionModification r))"
  by (rule ext) (simp add: emit_SMFPDUSessionModification_def refl_SMFPDUSessionModification_def tags_SMFPDUSessionModification_def emit_SNSSAI_spec emit_SMFServingNetwork_spec emit_GTPTunnelInfo_spec emit_simps cong: if_cong split del: if_split)

lemma emit_SMFPDUSessionRelease_spec: "emit_SMFPDUSessionRelease r = emitting (spec_body [] (refl_SMFPDUSessionRelease r))"
  by (rule ext) (simp add: emit_SMFPDUSessionRelease_def refl_SMFPDUSessionRelease_def tags_SMFPDUSessionRelease_def emit_simps cong: if_cong split del: if_split)

lemma emit_AMFLocationUpdate_spec: "emit_AMFLocationUpdate r = emitting (spec_body [] (refl_AMFLocationUpdate r))"
  by (rule ext) (simp add: emit_AMFLocationUpdate_def refl_AMFLocationUpdate_def tags_AMFLocationUpdate_def emit_SUCI_spec emit_FiveGGUTI_spec emit_Location_spec emit_simps cong: if_cong split del: if_split)

lemma emit_AMFUnsuccessfulProcedure_spec: "emit_AMFUnsuccessfulProcedure r = emitting (spec_body [] (refl_AMFUnsuccessfulProcedure r))"
  by (rule ext) (simp add: emit_AMFUnsuccessfulProcedure_def refl_AMFUnsuccessfulProcedure_def tags_AMFUnsuccessfulProcedure_def emit_SUCI_spec emit_FiveGGUTI_spec emit_Location_spec emit_simps cong: if_cong split del: if_split)

lemma emit_AMFIdentifierAssociation_spec: "emit_AMFIdentifierAssociation r = emitting (spec_body [] (refl_AMFIdentifierAssociation r))"
  by (rule ext) (simp add: emit_AMFIdentifierAssociation_def refl_AMFIdentifierAssociation_def tags_AMFIdentifierAssociation_def emit_SUCI_spec emit_FiveGGUTI_spec emit_Location_spec taiList_spec emit_simps cong: if_cong split del: if_split)

lemma emit_AMFIdentifierDeassociation_spec: "emit_AMFIdentifierDeassociation r = emitting (spec_body [] (refl_AMFIdentifierDeassociation r))"
  by (rule ext) (simp add: emit_AMFIdentifierDeassociation_def refl_AMFIdentifierDeassociation_def tags_AMFIdentifierDeassociation_def emit_SUCI_spec emit_FiveGGUTI_spec emit_simps cong: if_cong split del: if_split)

lemma emit_SMFStartOfInterceptionWithEstablishedPDUSession_spec: "emit_SMFStartOfInterceptionWithEstablishedPDUSession r = emitting (spec_body [] (refl_SMFStartOfInterceptionWithEstablishedPDUSession r))"
  by (rule ext) (simp add: emit_SMFStartOfInterceptionWithEstablishedPDUSession_def refl_SMFStartOfInterceptionWithEstablishedPDUSession_def tags_SMFStartOfInterceptionWithEstablishedPDUSession_def emit_FTEID_spec emit_SNSSAI_spec emit_AMFID_spec emit_SMFServingNetwork_spec emit_GTPTunnelInfo_spec emit_simps cong: if_cong split del: if_split)

lemma emit_SMFUnsuccessfulProcedure_spec: "emit_SMFUnsuccessfulProcedure r = emitting (spec_body [] (refl_SMFUnsuccessfulProcedure r))"
  by (rule ext) (simp add: emit_SMFUnsuccessfulProcedure_def refl_SMFUnsuccessfulProcedure_def tags_SMFUnsuccessfulProcedure_def emit_AMFID_spec emit_simps cong: if_cong split del: if_split)

lemma emit_AMFUEServiceAccept_spec: "emit_AMFUEServiceAccept r = emitting (spec_body [] (refl_AMFUEServiceAccept r))"
  by (rule ext) (simp add: emit_AMFUEServiceAccept_def refl_AMFUEServiceAccept_def tags_AMFUEServiceAccept_def emit_UserIdentifiers_spec emit_simps cong: if_cong split del: if_split)

lemma emit_AMFUEPolicyTransfer_spec: "emit_AMFUEPolicyTransfer r = emitting (spec_body [] (refl_AMFUEPolicyTransfer r))"
  by (rule ext) (simp add: emit_AMFUEPolicyTransfer_def refl_AMFUEPolicyTransfer_def tags_AMFUEPolicyTransfer_def emit_SUCI_spec emit_FiveGGUTI_spec emit_simps cong: if_cong split del: if_split)

lemma emit_AMFPositioningInfoTransfer_spec: "emit_AMFPositioningInfoTransfer r = emitting (spec_body [] (refl_AMFPositioningInfoTransfer r))"
  by (rule ext) (simp add: emit_AMFPositioningInfoTransfer_def refl_AMFPositioningInfoTransfer_def tags_AMFPositioningInfoTransfer_def emit_SUCI_spec emit_FiveGGUTI_spec emit_simps cong: if_cong split del: if_split)

lemma emit_AMFRANHandoverCommand_spec: "emit_AMFRANHandoverCommand r = emitting (spec_body [] (refl_AMFRANHandoverCommand r))"
  by (rule ext) (simp add: emit_AMFRANHandoverCommand_def refl_AMFRANHandoverCommand_def tags_AMFRANHandoverCommand_def emit_UserIdentifiers_spec emit_simps cong: if_cong split del: if_split)

lemma emit_AMFRANHandoverRequest_spec: "emit_AMFRANHandoverRequest r = emitting (spec_body [] (refl_AMFRANHandoverRequest r))"
  by (rule ext) (simp add: emit_AMFRANHandoverRequest_def refl_AMFRANHandoverRequest_def tags_AMFRANHandoverRequest_def emit_UserIdentifiers_spec emit_PDUSessionResourceInformation_spec emit_simps cong: if_cong split del: if_split)

lemma choice_tag_event:
  "choice_tag ''xiriEvent'' (refl_AMFRegistration x0) = Some 1"
  "choice_tag ''xiriEvent'' (refl_AMFDeregistration x1) = Some 2"
  "choice_tag ''xiriEvent'' (refl_AMFLocationUpdate x2) = Some 3"
  "choice_tag ''xiriEvent'' (refl_AMFStartOfInterceptionWithRegisteredUE x3) = Some 4"
  "choice_tag ''xiriEvent'' (refl_AMFUnsuccessfulProcedure x4) = Some 5"
  "choice_tag ''xiriEvent'' (refl_SMFPDUSessionEstablishment x5) = Some 6"
  "choice_tag ''xiriEvent'' (refl_SMFPDUSessionModification x6) = Some 7"
  "choice_tag ''xiriEvent'' (refl_SMFPDUSessionRelease x7) = Some 8"
  "choice_tag ''xiriEvent'' (refl_SMFStartOfInterceptionWithEstablishedPDUSession x8) = Some 9"
  "choice_tag ''xiriEvent'' (refl_SMFUnsuccessfulProcedure x9) = Some 10"
  "choice_tag ''xiriEvent'' (refl_AMFIdentifierAssociation x10) = Some 62"
  "choice_tag ''xiriEvent'' (refl_AMFPositioningInfoTransfer x11) = Some 111"
  "choice_tag ''xiriEvent'' (refl_AMFRANHandoverCommand x12) = Some 113"
  "choice_tag ''xiriEvent'' (refl_AMFRANHandoverRequest x13) = Some 114"
  "choice_tag ''xiriEvent'' (refl_AMFUEPolicyTransfer x14) = Some 146"
  "choice_tag ''xiriEvent'' (refl_AMFUEServiceAccept x15) = Some 147"
  "choice_tag ''xiriEvent'' (refl_AMFIdentifierDeassociation x16) = Some 186"
  by (simp_all add: choice_tag_def choices_def refl_AMFRegistration_def
    refl_AMFDeregistration_def
    refl_AMFLocationUpdate_def
    refl_AMFStartOfInterceptionWithRegisteredUE_def
    refl_AMFUnsuccessfulProcedure_def
    refl_SMFPDUSessionEstablishment_def
    refl_SMFPDUSessionModification_def
    refl_SMFPDUSessionRelease_def
    refl_SMFStartOfInterceptionWithEstablishedPDUSession_def
    refl_SMFUnsuccessfulProcedure_def
    refl_AMFIdentifierAssociation_def
    refl_AMFPositioningInfoTransfer_def
    refl_AMFRANHandoverCommand_def
    refl_AMFRANHandoverRequest_def
    refl_AMFUEPolicyTransfer_def
    refl_AMFUEServiceAccept_def
    refl_AMFIdentifierDeassociation_def)

lemmas emit_specs =
  emit_AMFRegistration_spec emit_AMFDeregistration_spec emit_AMFLocationUpdate_spec
  emit_AMFStartOfInterceptionWithRegisteredUE_spec emit_AMFUnsuccessfulProcedure_spec
  emit_SMFPDUSessionEstablishment_spec emit_SMFPDUSessionModification_spec
  emit_SMFPDUSessionRelease_spec emit_SMFStartOfInterceptionWithEstablishedPDUSession_spec
  emit_SMFUnsuccessfulProcedure_spec emit_AMFIdentifierAssociation_spec
  emit_AMFPositioningInfoTransfer_spec emit_AMFRANHandoverCommand_spec emit_AMFRANHandoverRequest_spec
  emit_AMFUEPolicyTransfer_spec emit_AMFUEServiceAccept_spec emit_AMFIdentifierDeassociation_spec

lemma choice_xiriEvent:
  "choice_tag ''xiriEvent'' (GOpaque v) = None" "choice_name ''xiriEvent'' = ''XIRIEvent''"
  by (simp_all add: choice_tag_def choice_name_def choices_def)

lemma xiriEvent_spec: "xiriEvent field v = emitting (spec_alternative ''xiriEvent'' field (refl_event v))"
  by (rule ext, cases v)
    (simp_all add: xiriEvent_def emit_specs emittings spec_value_struct choice_tag_event choice_xiriEvent)

lemma encodePayload_spec:
  "encodePayload event = (concat (map der (fst (spec_payload event))), snd (spec_payload event))"
proof -
  let ?x = "join (wrote [Prim ClassContextSpecific 1 xIRIPayloadOID])
      (enclose ClassContextSpecific 2 (spec_alternative ''xiriEvent'' ''XIRIPayload.Event'' (refl_event event)))"
  have e: "explicit 2 ''XIRIPayload.Event'' (event = EvNil) event xiriEvent =
      emitting (enclose ClassContextSpecific 2 (spec_alternative ''xiriEvent'' ''XIRIPayload.Event'' (refl_event event)))"
    by (rule ext, cases "event = EvNil") (simp_all add: explicit_def xiriEvent_spec emittings enclose_def)
  have "(\<lambda>p. explicit 2 ''XIRIPayload.Event'' (event = EvNil) event xiriEvent (octets 1 (Some xIRIPayloadOID) p)) = emitting ?x"
    by (rule ext) (simp add: e emittings content_def)
  moreover have "spec_payload event = enclose ClassUniversal TagSequence ?x"
    by (simp add: spec_payload_def refl_payload_def struct_lookups tags_XIRIPayload_def params_defs fld_def content_def)
  ultimately show ?thesis
    by (simp add: encodePayload_def emittings) (simp add: emitting_def empty_builder_def)
qed

subsection \<open>What a receiver reads\<close>

text \<open>The record an event holds, and its alternative in \<open>XIRIEvent\<close>.\<close>

definition event_record :: "XIRIEvent \<Rightarrow> goval" where
  "event_record event = (case refl_event event of GIface v \<Rightarrow> v | v \<Rightarrow> v)"

fun etag :: "element \<Rightarrow> nat" where
  "etag (Prim class tag body) = tag"
| "etag (Constr class tag es) = tag"

fun well_classed :: "element \<Rightarrow> bool" where
  "well_classed (Prim class tag body) = (class < 4)"
| "well_classed (Constr class tag es) = (class < 4 \<and> list_all well_classed es)"

lemma length_Marshal_raw: "length body \<le> length (Marshal_raw class tag compound body)"
  by (simp add: Marshal_raw_def)

lemma length_der_member: "e \<in> set es \<Longrightarrow> length (der e) \<le> length (concat (map der es))"
  by (induction es) auto

lemma writable_well_classed: "well_classed e \<Longrightarrow> length (der e) < maxLen \<Longrightarrow> writable e"
proof (induction e)
  case (Prim c t body)
  then show ?case using length_Marshal_raw [of body c t False] by simp
next
  case (Constr c t es)
  have l: "length (concat (map der es)) < maxLen"
    using Constr.prems(2) length_Marshal_raw [of "concat (map der es)" c t True] by simp
  then have "length (der e) < maxLen" if "e \<in> set es" for e using length_der_member [OF that] by simp
  with Constr l show ?case by (auto simp: list_all_iff)
qed

lemma well_classed_enclose:
  "class < 4 \<Longrightarrow> list_all well_classed (fst x) \<Longrightarrow> list_all well_classed (fst (enclose class tag x))"
  by (auto simp: enclose_def split: option.split)

lemma well_classed_join:
  "list_all well_classed (fst x) \<Longrightarrow> list_all well_classed (fst y) \<Longrightarrow> list_all well_classed (fst (join x y))"
  by (auto simp: join_def)

lemma spec_well_classed:
  "cl < 4 \<Longrightarrow> list_all well_classed (fst (spec_value cl tag field v))"
  "list_all well_classed (fst (spec_fields tn field ps fs))"
  "list_all well_classed (fst (spec_alternative c field v))"
  "list_all well_classed (fst (spec_list c field i vs))"
  "list_all well_classed (fst (spec_structs vs))"
proof (induction cl tag field v and tn field ps fs and c field v and c field i vs and vs
    rule: spec_value_spec_fields_spec_alternative_spec_list_spec_structs.induct)
qed (auto simp: asn1_classes well_classed_enclose well_classed_join split: option.splits goval.splits prod.splits)

lemma enclose_None: "enclose cl tag x = (es, None) \<longleftrightarrow> es = [Constr cl tag (fst x)] \<and> snd x = None"
  by (auto simp: enclose_def split: option.splits)

lemma join_None: "join x y = (es, None) \<longleftrightarrow> snd x = None \<and> snd y = None \<and> es = fst x @ fst y"
  by (auto simp: join_def)

lemma spec_value_single: "spec_value cl tag field v = (es, None) \<Longrightarrow> \<exists>e. es = [e] \<and> etag e = tag"
proof (induction v arbitrary: field)
  case (GStruct t fs)
  then show ?case by (auto simp: enclose_None split: option.splits)
next
  case (GSlice t vs)
  then show ?case by (auto simp: enclose_None)
qed auto

text \<open>What one tagged field contributes: one element under its tag, or nothing when it is optional.\<close>

lemma spec_field_single:
  assumes "spec_fields tn field (p # ps) ((n, e, v) # fs) = (es, None)" and "ptag p = Some tag"
  shows "\<exists>xs ys. es = xs @ ys \<and> spec_fields tn field ps fs = (ys, None) \<and>
    ((\<exists>x. xs = [x] \<and> etag x = tag) \<or> xs = [] \<and> poptional p)"
proof -
  define x where "x = (if poptional p \<and> absent v then wrote []
        else case (pchoice p, ptag p) of
          (None, Some tag) \<Rightarrow> spec_value ClassContextSpecific tag (tn @ ''.'' @ n) v
        | (Some c, Some tag) \<Rightarrow>
            enclose ClassContextSpecific tag
              (if pexplicit p then spec_alternative c (tn @ ''.'' @ n) v
               else case v of GSlice t (Some vs) \<Rightarrow> spec_list c (tn @ ''.'' @ n) 0 vs | _ \<Rightarrow> wrote [])
        | (Some c, None) \<Rightarrow> spec_alternative c (field @ ''.'' @ n) v
        | (None, None) \<Rightarrow> refused (Missing (tn @ ''.'' @ n)))"
  have x: "join x (spec_fields tn field ps fs) = (es, None)" using assms(1) by (simp only: spec_fields.simps x_def)
  have c: "x = wrote [] \<and> poptional p \<or> x = spec_value ClassContextSpecific tag (tn @ ''.'' @ n) v \<or>
      (\<exists>y. x = enclose ClassContextSpecific tag y)"
    by (cases "poptional p \<and> absent v"; cases "pchoice p") (auto simp only: x_def assms(2) prod.case option.case if_True if_False simp_thms)
  from x obtain xs where xs: "x = (xs, None)" by (cases x) (auto simp: join_None)
  then have "(\<exists>x. xs = [x] \<and> etag x = tag) \<or> xs = [] \<and> poptional p"
    using c by (elim disjE) (auto dest: spec_value_single simp: enclose_None dest!: sym [of "(xs, None)"])
  moreover have "spec_fields tn field ps fs = (fst (spec_fields tn field ps fs), None)"
    using x by (metis join_None prod.collapse)
  ultimately show ?thesis using x xs by (auto simp: join_None)
qed

lemma spec_fields_tags:
  assumes "spec_fields tn field ps fs = (es, None)" and "length ps = length fs" and "list_all (\<lambda>p. ptag p \<noteq> None) ps"
  shows "subseq (map etag es) (map (the \<circ> ptag) ps)"
    and "p \<in> set ps \<Longrightarrow> \<not> poptional p \<Longrightarrow> the (ptag p) \<in> etag ` set es"
proof -
  have "subseq (map etag es) (map (the \<circ> ptag) ps) \<and> (\<forall>p \<in> set ps. \<not> poptional p \<longrightarrow> the (ptag p) \<in> etag ` set es)"
    using assms
  proof (induction ps arbitrary: fs es)
    case (Cons p ps)
    then obtain n e v gs tag where g: "fs = (n, e, v) # gs" "ptag p = Some tag"
      by (cases fs) auto
    obtain xs ys where s: "es = xs @ ys" "spec_fields tn field ps gs = (ys, None)"
        "(\<exists>x. xs = [x] \<and> etag x = tag) \<or> xs = [] \<and> poptional p"
      using spec_field_single [OF Cons.prems(1) [unfolded g(1)] g(2)] by blast
    then have "subseq (map etag ys) (map (the \<circ> ptag) ps) \<and> (\<forall>p \<in> set ps. \<not> poptional p \<longrightarrow> the (ptag p) \<in> etag ` set ys)"
      using Cons.IH [OF s(2)] Cons.prems(2,3) g(1) by (simp add: comp_def)
    with s(1,3) g(2) show ?case by (auto simp: comp_def)
  qed simp
  then show "subseq (map etag es) (map (the \<circ> ptag) ps)"
    and "p \<in> set ps \<Longrightarrow> \<not> poptional p \<Longrightarrow> the (ptag p) \<in> etag ` set es" by auto
qed

lemma struct_tags_ascending:
  "(t, ps) \<in> set struct_tags \<Longrightarrow> list_all (\<lambda>p. ptag p \<noteq> None) ps \<Longrightarrow> sorted_wrt (<) (map (the \<circ> ptag) ps)"
proof -
  have "list_all (\<lambda>(t, ps). list_all (\<lambda>p. ptag p \<noteq> None) ps \<longrightarrow> sorted_wrt (<) (map (the \<circ> ptag) ps)) struct_tags"
    by code_simp
  then show "(t, ps) \<in> set struct_tags \<Longrightarrow> list_all (\<lambda>p. ptag p \<noteq> None) ps \<Longrightarrow> sorted_wrt (<) (map (the \<circ> ptag) ps)"
    by (auto simp: list_all_iff)
qed

text \<open>An event that holds one of the records: its struct, its tags, and its alternative.\<close>

definition is_record :: "XIRIEvent \<Rightarrow> bool" where
  "is_record event \<longleftrightarrow> event \<noteq> EvNil \<and> (\<forall>w. event \<noteq> EvOther w)"

lemma event_shape:
  assumes "is_record event"
  shows "\<exists>t fs ps n. event_record event = GStruct (Iri_t t) fs \<and> map_of struct_tags t = Some ps \<and> length ps = length fs \<and>
    list_all (\<lambda>p. ptag p \<noteq> None) ps \<and> choice_tag ''xiriEvent'' (event_record event) = Some n \<and>
    refl_event event = GIface (event_record event) \<and>
    (\<forall>field. spec_alternative ''xiriEvent'' field (refl_event event) =
      enclose ClassContextSpecific n (spec_body [] (event_record event)))"
  using assms
  by (cases event) (simp_all add: is_record_def event_record_def choice_tag_event spec_value_struct,
    simp_all add: refl_AMFRegistration_def refl_AMFDeregistration_def refl_AMFLocationUpdate_def refl_AMFStartOfInterceptionWithRegisteredUE_def refl_AMFUnsuccessfulProcedure_def refl_SMFPDUSessionEstablishment_def refl_SMFPDUSessionModification_def refl_SMFPDUSessionRelease_def refl_SMFStartOfInterceptionWithEstablishedPDUSession_def refl_SMFUnsuccessfulProcedure_def refl_AMFIdentifierAssociation_def refl_AMFPositioningInfoTransfer_def refl_AMFRANHandoverCommand_def refl_AMFRANHandoverRequest_def refl_AMFUEPolicyTransfer_def refl_AMFUEServiceAccept_def refl_AMFIdentifierDeassociation_def struct_lookups tags_defs)

lemma payload_shape:
  assumes "is_record event" and "choice_tag ''xiriEvent'' (event_record event) = Some n"
  shows "spec_payload event = enclose ClassUniversal TagSequence (join (wrote [Prim ClassContextSpecific 1 xIRIPayloadOID])
      (enclose ClassContextSpecific 2 (enclose ClassContextSpecific n (spec_body [] (event_record event)))))"
proof -
  have "spec_alternative ''xiriEvent'' ''XIRIPayload.Event'' (refl_event event) =
      enclose ClassContextSpecific n (spec_body [] (event_record event))"
    using event_shape [OF assms(1)] assms(2) by auto
  then show ?thesis
    by (simp add: spec_payload_def refl_payload_def struct_lookups tags_XIRIPayload_def params_defs fld_def content_def
        del: spec_alternative.simps spec_body.simps)
qed

lemma Encoded_payload:
  assumes "EncodeXIRI event = Encoded b"
  shows "is_record event" and "b = concat (map der (fst (spec_payload event)))" and "snd (spec_payload event) = None"
    and "validateEvent event = None" and "validateConstraints (refl_event event) = None"
proof -
  have e: "event \<noteq> EvNil" and s: "encodePayload event = (b, None)"
    and v: "validateEvent event = None" "validateConstraints (refl_event event) = None"
    using assms by (auto simp: EncodeXIRI_def split: option.splits if_splits prod.splits)
  then show "b = concat (map der (fst (spec_payload event)))" and "snd (spec_payload event) = None"
    by (auto simp: encodePayload_spec)
  then have "event \<noteq> EvOther w" for w
    by (auto simp: spec_payload_def refl_payload_def struct_lookups tags_XIRIPayload_def params_defs fld_def choice_xiriEvent
        enclose_def join_def)
  with e show "is_record event" by (simp add: is_record_def)
  show "validateEvent event = None" "validateConstraints (refl_event event) = None" by (rule v)+
qed

lemma Encoded_reads:
  "EncodeXIRI event = Encoded b \<Longrightarrow> length b < 2 ^ 63 \<Longrightarrow>
   \<exists>n ms. choice_tag ''xiriEvent'' (event_record event) = Some n \<and> spec_body [] (event_record event) = (ms, None) \<and>
     read_ders b = Some [Constr 0 16 [Prim 2 1 xIRIPayloadOID, Constr 2 2 [Constr 2 n ms]]]"
proof -
  assume a: "EncodeXIRI event = Encoded b" and l: "length b < 2 ^ 63"
  note p = Encoded_payload [OF a]
  obtain n where n: "choice_tag ''xiriEvent'' (event_record event) = Some n" using event_shape [OF p(1)] by blast
  define ms where "ms = fst (spec_body [] (event_record event))"
  let ?t = "Constr 0 16 [Prim 2 1 xIRIPayloadOID, Constr 2 2 [Constr 2 n ms]]"
  have s: "snd (spec_body [] (event_record event)) = None" and t: "fst (spec_payload event) = [?t]"
    using p(3) unfolding payload_shape [OF p(1) n] ms_def
    by (auto simp: enclose_def join_def asn1_classes split: option.splits)
  have "list_all well_classed (fst (spec_payload event))"
    unfolding spec_payload_def by (rule spec_well_classed) (simp add: asn1_classes)
  then have "writable ?t" using l p(2) t by (intro writable_well_classed) (simp_all add: maxLen_def)
  then have "read_ders b = Some [?t]" using read_ders_concat [of "[?t]"] p(2) t by simp
  moreover have "spec_body [] (event_record event) = (ms, None)" using s by (simp add: ms_def prod_eq_iff)
  ultimately show ?thesis using n by blast
qed

lemma subseq_set: "subseq xs ys \<Longrightarrow> set xs \<subseteq> set ys"
  by (induction rule: list_emb.induct) auto

lemma subseq_sorted_wrt: "subseq xs ys \<Longrightarrow> sorted_wrt r ys \<Longrightarrow> sorted_wrt r xs"
proof (induction xs ys rule: list_emb.induct)
  case (list_emb_Cons2 x y xs ys)
  then show ?case using list_emb_set [of "(=)" xs ys] by (fastforce dest: subseq_set)
qed auto

subsection \<open>Properties\<close>

text \<open>
  C20. A receiver reads the record that was meant. Whatever a record holds, when it is encoded the
  octets are one element with nothing after it, and reading them by the encoding rules gives the
  payload identifier and, under the record's own alternative of \<open>XIRIEvent\<close>, exactly the members that
  the tags of its struct describe, at every depth. The emit methods, written out by hand, thereby
  agree with the declarations they replaced.
\<close>

theorem record_read_as_declared:
  "EncodeXIRI event = Encoded b \<Longrightarrow> length b < 2 ^ 63 \<Longrightarrow>
   \<exists>n ms. choice_tag ''xiriEvent'' (event_record event) = Some n \<and> spec_body [] (event_record event) = (ms, None) \<and>
     read_ders b = Some [Constr 0 16 [Prim 2 1 xIRIPayloadOID, Constr 2 2 [Constr 2 n ms]]]"
  by (rule Encoded_reads)

text \<open>
  C37. The members of a record come in the order of the module, none twice, every mandatory one among
  them and no other than the declared: their tags ascend strictly, each belongs to a field of the
  struct, and each field that is not optional is there.
\<close>

theorem members_in_module_order:
  "EncodeXIRI event = Encoded b \<Longrightarrow> length b < 2 ^ 63 \<Longrightarrow>
   \<exists>t fs ps n ms. event_record event = GStruct (Iri_t t) fs \<and> map_of struct_tags t = Some ps \<and>
     read_ders b = Some [Constr 0 16 [Prim 2 1 xIRIPayloadOID, Constr 2 2 [Constr 2 n ms]]] \<and>
     sorted_wrt (<) (map etag ms) \<and> etag ` set ms \<subseteq> the ` ptag ` set ps \<and>
     (\<forall>p \<in> set ps. \<not> poptional p \<longrightarrow> the (ptag p) \<in> etag ` set ms)"
proof -
  assume a: "EncodeXIRI event = Encoded b" and l: "length b < 2 ^ 63"
  note p = Encoded_payload [OF a]
  obtain t fs ps where s: "event_record event = GStruct (Iri_t t) fs" "map_of struct_tags t = Some ps"
      "length ps = length fs" "list_all (\<lambda>p. ptag p \<noteq> None) ps"
    using event_shape [OF p(1)] by blast
  obtain n ms where r: "spec_body [] (event_record event) = (ms, None)"
      "read_ders b = Some [Constr 0 16 [Prim 2 1 xIRIPayloadOID, Constr 2 2 [Constr 2 n ms]]]"
    using Encoded_reads [OF a l] by blast
  from r(1) have f: "spec_fields t [] ps fs = (ms, None)" using s(1,2) by simp
  note tags = spec_fields_tags [OF f s(3,4)]
  have "sorted_wrt (<) (map etag ms)"
    using subseq_sorted_wrt [OF tags(1) struct_tags_ascending [OF map_of_SomeD [OF s(2)] s(4)]] .
  moreover have "etag ` set ms \<subseteq> the ` ptag ` set ps" using subseq_set [OF tags(1)] by auto
  ultimately show ?thesis using s(1,2) r(2) tags(2) by blast
qed

text \<open>When a call succeeds, in terms of the checks and the encoding the tags describe.\<close>

lemma Encoded_iff:
  "(\<exists>b. EncodeXIRI event = Encoded b) \<longleftrightarrow>
     is_record event \<and> validateEvent event = None \<and> validateConstraints (refl_event event) = None \<and>
     snd (spec_body [] (event_record event)) = None"
  (is "?l \<longleftrightarrow> ?r")
proof -
  have s: "snd (spec_payload event) = None \<longleftrightarrow> snd (spec_body [] (event_record event)) = None" if r: "is_record event"
  proof -
    obtain n where n: "choice_tag ''xiriEvent'' (event_record event) = Some n" using event_shape [OF r] by blast
    show ?thesis unfolding payload_shape [OF r n] by (simp add: enclose_def join_def split: option.split)
  qed
  show ?thesis
  proof
    assume ?l
    then obtain b where b: "EncodeXIRI event = Encoded b" by blast
    show ?r using Encoded_payload [OF b] s [OF Encoded_payload(1) [OF b]] by simp
  next
    assume r: ?r
    then have "event \<noteq> EvNil" by (simp add: is_record_def)
    with r s show ?l by (simp add: EncodeXIRI_def encodePayload_spec)
  qed
qed

text \<open>The two records whose list of endpoints must not be there and empty.\<close>

lemma validateEvent_None:
  "validateEvent event = None \<longleftrightarrow>
     (\<forall>r. event = EvSMFStartOfInterceptionWithEstablishedPDUSession r \<longrightarrow> elements (sstart_UEEndpoint r) \<noteq> []) \<and>
     (\<forall>r. event = EvSMFPDUSessionEstablishment r \<longrightarrow> sest_UEEndpoint r = None \<or> elements (sest_UEEndpoint r) \<noteq> [])"
  by (cases event) (simp_all add: validateEvent_def)

text \<open>
  C21. What is encoded and what is refused. A call succeeds exactly when four things hold. The event
  is one of the records. A start of interception with an established session names at least one
  endpoint, and an establishment either has no list of endpoints or one that is not empty. Every
  value at every depth is within the restriction of its type, or absent where absence is excused.
  And the encoding that the tags describe exists: every mandatory CHOICE is there, and every CHOICE
  that is there, an optional one or a member of a list too, holds one of its alternatives. A call
  panics exactly on a nil event.
\<close>

theorem encodes_exactly:
  "((\<exists>b. EncodeXIRI event = Encoded b) \<longleftrightarrow>
     is_record event \<and>
     (\<forall>r. event = EvSMFStartOfInterceptionWithEstablishedPDUSession r \<longrightarrow> elements (sstart_UEEndpoint r) \<noteq> []) \<and>
     (\<forall>r. event = EvSMFPDUSessionEstablishment r \<longrightarrow> sest_UEEndpoint r = None \<or> elements (sest_UEEndpoint r) \<noteq> []) \<and>
     (\<forall>w y. part (refl_event event) False w y \<longrightarrow> permitted w y) \<and> snd (spec_body [] (event_record event)) = None) \<and>
   (EncodeXIRI event = Panicked \<longleftrightarrow> event = EvNil)"
proof -
  have p: "EncodeXIRI event = Panicked \<longleftrightarrow> event = EvNil"
    by (auto simp: EncodeXIRI_def validateEvent_def split: option.splits prod.splits XIRIEvent.splits)
  show ?thesis using p by (simp only: Encoded_iff validateConstraints_None validateEvent_None conj_assoc)
qed

text \<open>A registration to run the theorems on.\<close>

definition ex_SUCI :: SUCI where
  "ex_SUCI = \<lparr>suci_MCC = '''', suci_MNC = '''', suci_RoutingIndicator = 0, suci_ProtectionSchemeID = 0,
     suci_HomeNetworkPublicKeyID = None, suci_SchemeOutput = None, suci_RoutingIndicatorLength = None,
     suci_SUPIType = None, suci_HomeNetworkIdentifier = ''''\<rparr>"

definition ex_GUTI :: "string \<Rightarrow> string \<Rightarrow> FiveGGUTI" where
  "ex_GUTI mcc mnc = \<lparr>guti_MCC = mcc, guti_MNC = mnc, guti_AMFRegionID = 1, guti_AMFSetID = 1,
     guti_AMFPointer = 1, guti_FiveGTMSI = 2\<rparr>"

definition ex_registration :: "FiveGGUTI \<Rightarrow> int \<Rightarrow> XIRIEvent" where
  "ex_registration g rat = EvAMFRegistration
     \<lparr>areg_RegistrationType = 1, areg_RegistrationResult = 1, areg_SUPI = IMSI ''26201'', areg_SUCI = ex_SUCI,
      areg_PEI = NilAny, areg_GPSI = NilAny, areg_GUTI = g, areg_FiveGSTAIList = None, areg_RATType = rat\<rparr>"

lemmas constraint_tables = octetConstraints_def intConstraints_def utf8Constraints_def numericConstraints_def
  mandatoryEnums_def mandatoryEnumFields_def enumConstraints_def

lemma ex_runes: "runes ''262'' = [50, 54, 50]" "runes ''01'' = [48, 49]"
  by (simp_all add: runes_ascii code_of_def)

lemma ex_zero_SUCI: "isZero (refl_SUCI ex_SUCI)"
  by (simp add: refl_SUCI_def ex_SUCI_def fld_def)

lemma ex_registration_valid:
  assumes "mcc = ''262'' \<and> mnc = ''01'' \<or> mcc = '''' \<and> mnc = ''''"
  shows "validateConstraints (refl_event (ex_registration (ex_GUTI mcc mnc) rat)) = None"
  using assms
  by (elim disjE conjE)
    (simp_all add: ex_registration_def ex_GUTI_def ex_SUCI_def validateConstraints_def refl_AMFRegistration_def
      refl_FiveGGUTI_def refl_SUCI_def fld_def constraintOf_def octets_allowed_def int_allowed_def enum_allowed_def
      numeric_allowed_def utf8_allowed_def constraint_tables ex_runes)

lemma ex_int_bytes: "int64Encoder 1 = [1]" "int64Encoder 2 = [2]" "int64Encoder 99 = [99]"
  by (simp_all add: int64Encoder_def int64_length.simps)

definition ex_members :: "string \<Rightarrow> string \<Rightarrow> byte \<Rightarrow> element list" where
  "ex_members mcc mnc rat =
     [Prim 2 1 [1], Prim 2 2 [1], Constr 2 4 [Prim 2 1 (bytes_of ''26201'')],
      Constr 2 8 [Prim 2 1 (bytes_of mcc), Prim 2 2 (bytes_of mnc), Prim 2 3 [1], Prim 2 4 [1], Prim 2 5 [1], Prim 2 6 [2]],
      Prim 2 18 [rat]]"

lemma ex_registration_body:
  "spec_body [] (event_record (ex_registration (ex_GUTI mcc mnc) 1)) = (ex_members mcc mnc 1, None)"
  "spec_body [] (event_record (ex_registration (ex_GUTI mcc mnc) 99)) = (ex_members mcc mnc 99, None)"
  using ex_zero_SUCI
  by (simp_all add: ex_registration_def event_record_def refl_AMFRegistration_def struct_lookups tags_AMFRegistration_def
      params_defs fld_def ex_int_bytes choice_tag_def choice_lookups spec_value_struct absent_struct
      refl_FiveGGUTI_def tags_FiveGGUTI_def ex_GUTI_def join_def enclose_def asn1_classes ex_members_def)

lemma ex_registration_encodes:
  assumes "mcc = ''262'' \<and> mnc = ''01'' \<or> mcc = '''' \<and> mnc = ''''" and "rat = 1 \<or> rat = 99"
  shows "\<exists>b. EncodeXIRI (ex_registration (ex_GUTI mcc mnc) rat) = Encoded b \<and> length b < 2 ^ 63"
proof -
  let ?e = "ex_registration (ex_GUTI mcc mnc) rat"
  have r: "is_record ?e" "validateEvent ?e = None" "?e \<noteq> EvNil"
    by (simp_all add: ex_registration_def is_record_def validateEvent_def)
  have n: "choice_tag ''xiriEvent'' (event_record ?e) = Some 1"
    by (simp add: ex_registration_def event_record_def choice_tag_event)
  obtain w where w: "spec_body [] (event_record ?e) = (ex_members mcc mnc w, None)"
    using assms(2) ex_registration_body [of mcc mnc] by blast
  let ?t = "Constr 0 16 [Prim 2 1 xIRIPayloadOID, Constr 2 2 [Constr 2 1 (ex_members mcc mnc w)]]"
  have "spec_payload ?e = ([?t], None)"
    unfolding payload_shape [OF r(1) n] w by (simp add: enclose_def join_def asn1_classes)
  then have "EncodeXIRI ?e = Encoded (der ?t)"
    using r ex_registration_valid [OF assms(1), of rat] by (simp add: EncodeXIRI_def encodePayload_spec)
  moreover have "length (der ?t) < 2 ^ 63"
    using assms(1) by (auto simp: ex_members_def xIRIPayloadOID_def Marshal_raw_def appendTagAndLength_def tag_octets_def
        length_octets_def Let_def)
  ultimately show ?thesis by blast
qed

theorem record_read_as_declared_witness:
  "\<exists>b. EncodeXIRI (ex_registration (ex_GUTI ''262'' ''01'') 1) = Encoded b \<and>
     read_ders b = Some [Constr 0 16 [Prim 2 1 xIRIPayloadOID, Constr 2 2 [Constr 2 1 (ex_members ''262'' ''01'' 1)]]]"
proof -
  obtain b where b: "EncodeXIRI (ex_registration (ex_GUTI ''262'' ''01'') 1) = Encoded b" "length b < 2 ^ 63"
    using ex_registration_encodes [of "''262''" "''01''" 1] by blast
  have "choice_tag ''xiriEvent'' (event_record (ex_registration (ex_GUTI ''262'' ''01'') 1)) = Some 1"
    by (simp add: ex_registration_def event_record_def choice_tag_event)
  with record_read_as_declared [OF b] b(1) ex_registration_body(1) [of "''262''" "''01''"] show ?thesis by auto
qed

theorem members_in_module_order_witness:
  "\<exists>b n ms. EncodeXIRI (ex_registration (ex_GUTI ''262'' ''01'') 1) = Encoded b \<and>
     read_ders b = Some [Constr 0 16 [Prim 2 1 xIRIPayloadOID, Constr 2 2 [Constr 2 n ms]]] \<and> sorted_wrt (<) (map etag ms)"
proof -
  obtain b where b: "EncodeXIRI (ex_registration (ex_GUTI ''262'' ''01'') 1) = Encoded b" "length b < 2 ^ 63"
    using ex_registration_encodes [of "''262''" "''01''" 1] by blast
  from members_in_module_order [OF b] b(1) show ?thesis by blast
qed

theorem encodes_exactly_witness: "permitted (GString (Iri_t ''MCC'') ''262'') False \<and> EncodeXIRI EvNil = Panicked"
proof -
  let ?e = "ex_registration (ex_GUTI ''262'' ''01'') 1"
  have "\<exists>b. EncodeXIRI ?e = Encoded b" using ex_registration_encodes [of "''262''" "''01''" 1] by blast
  then have "part (refl_event ?e) False (GString (Iri_t ''MCC'') ''262'') False \<longrightarrow> permitted (GString (Iri_t ''MCC'') ''262'') False"
    using encodes_exactly [of ?e] by blast
  moreover have "part (refl_event ?e) False (GString (Iri_t ''MCC'') ''262'') False"
  proof -
    have "part (refl_FiveGGUTI (ex_GUTI ''262'' ''01'')) False (GString (Iri_t ''MCC'') ''262'') False"
      unfolding refl_FiveGGUTI_def
      by (rule part.field [where n = "''MCC''"]) (auto simp: fld_def ex_GUTI_def part_simps mandatoryEnumFields_def)
    then have "part (event_record ?e) False (GString (Iri_t ''MCC'') ''262'') False"
      unfolding ex_registration_def event_record_def refl_event.simps goval.case refl_AMFRegistration_def
      by (intro part.field [where n = "''GUTI''"]) (auto simp: fld_def mandatoryEnumFields_def)
    then show ?thesis by (auto simp: ex_registration_def event_record_def intro: part.iface)
  qed
  moreover have "EncodeXIRI EvNil = Panicked" using encodes_exactly [of EvNil] by simp
  ultimately show ?thesis by blast
qed

lemma spec_fields_append:
  "length ps = length fs \<Longrightarrow>
   spec_fields tn field (ps @ qs) (fs @ gs) = join (spec_fields tn field ps fs) (spec_fields tn field qs gs)"
proof (induction ps arbitrary: fs)
  case (Cons p ps)
  then obtain n e v fs' where "fs = (n, e, v) # fs'" "length ps = length fs'" by (cases fs) auto
  with Cons.IH [of fs'] show ?case by (simp only: append_Cons spec_fields.simps join_assoc)
qed simp

text \<open>
  The members of a registration: those before the 5G-GUTI, the 5G-GUTI, the tracking areas and the
  radio access type. Neither the 5G-GUTI nor the radio access type can be refused.
\<close>

definition GUTI_member :: "FiveGGUTI \<Rightarrow> element" where
  "GUTI_member g = Constr 2 8 (Prim 2 1 (bytes_of (guti_MCC g)) # Prim 2 2 (bytes_of (guti_MNC g)) #
     [Prim 2 3 (int64Encoder (guti_AMFRegionID g)), Prim 2 4 (int64Encoder (guti_AMFSetID g)),
      Prim 2 5 (int64Encoder (guti_AMFPointer g)), Prim 2 6 (int64Encoder (guti_FiveGTMSI g))])"

lemma registration_body:
  "\<exists>x y. \<forall>g rat. spec_body [] (refl_AMFRegistration (r\<lparr>areg_RATType := rat, areg_GUTI := g\<rparr>)) =
     join x (join (wrote [GUTI_member g]) (join y (wrote (if rat = 0 then [] else [Prim 2 18 (int64Encoder rat)]))))"
proof -
  have g: "spec_fields tn [] [mand 8] [fld m (refl_FiveGGUTI g)] = wrote [GUTI_member g]" for tn m g
    by (simp add: GUTI_member_def refl_FiveGGUTI_def struct_lookups tags_FiveGGUTI_def params_defs fld_def join_def enclose_def asn1_classes)
  have t: "spec_fields tn [] [opt 18] [fld m (GInt u rat)] = wrote (if rat = 0 then [] else [Prim 2 18 (int64Encoder rat)])" for tn m u rat
    by (simp add: params_defs fld_def join_def asn1_classes)
  have s: "spec_body [] (GStruct (Iri_t ''AMFRegistration'')
       [a, b, c, d, e, f, fld ''GUTI'' (refl_FiveGGUTI g), h, fld ''RATType'' (GInt u rat)]) =
     join (spec_fields ''AMFRegistration'' [] [mand 1, mand 2, mand_explicit 4 ''supi'', opt 5, opt_explicit 6 ''pei'', opt_explicit 7 ''gpsi'']
             [a, b, c, d, e, f])
       (join (wrote [GUTI_member g]) (join (spec_fields ''AMFRegistration'' [] [opt 11] [h])
         (wrote (if rat = 0 then [] else [Prim 2 18 (int64Encoder rat)]))))" for a b c d e f g h u rat
  proof -
    let ?ps = "[mand 1, mand 2, mand_explicit 4 ''supi'', opt 5, opt_explicit 6 ''pei'', opt_explicit 7 ''gpsi'']"
    let ?ms = "[a, b, c, d, e, f]" and ?g = "[fld ''GUTI'' (refl_FiveGGUTI g)]" and ?r = "[fld ''RATType'' (GInt u rat)]"
    have "spec_body [] (GStruct (Iri_t ''AMFRegistration'') (?ms @ ?g @ [h] @ ?r)) =
        spec_fields ''AMFRegistration'' [] (?ps @ [mand 8] @ [opt 11] @ [opt 18]) (?ms @ ?g @ [h] @ ?r)"
      by (simp only: spec_body.simps Name.simps struct_lookups option.case tags_AMFRegistration_def append.simps)
    also have "\<dots> = join (spec_fields ''AMFRegistration'' [] ?ps ?ms) (spec_fields ''AMFRegistration'' []
        ([mand 8] @ [opt 11] @ [opt 18]) (?g @ [h] @ ?r))"
      by (rule spec_fields_append) (simp only: list.size)
    also have "spec_fields ''AMFRegistration'' [] ([mand 8] @ [opt 11] @ [opt 18]) (?g @ [h] @ ?r) =
        join (wrote [GUTI_member g]) (spec_fields ''AMFRegistration'' [] ([opt 11] @ [opt 18]) ([h] @ ?r))"
      using spec_fields_append [of "[mand 8]" ?g "''AMFRegistration''" "[]"] by (simp only: g list.size simp_thms)
    also have "spec_fields ''AMFRegistration'' [] ([opt 11] @ [opt 18]) ([h] @ ?r) =
        join (spec_fields ''AMFRegistration'' [] [opt 11] [h]) (wrote (if rat = 0 then [] else [Prim 2 18 (int64Encoder rat)]))"
      using spec_fields_append [of "[opt 11]" "[h]" "''AMFRegistration''" "[]"] by (simp only: t list.size simp_thms)
    finally show ?thesis by (simp only: append.simps)
  qed
  have "\<exists>a b c d e f h. \<forall>g rat. refl_AMFRegistration (r\<lparr>areg_RATType := rat, areg_GUTI := g\<rparr>) =
      GStruct (Iri_t ''AMFRegistration'')
        [a, b, c, d, e, f, fld ''GUTI'' (refl_FiveGGUTI g), h, fld ''RATType'' (GInt (Iri_t ''RATType'') rat)]"
    by (cases r) (auto simp: refl_AMFRegistration_def fld_def)
  then show ?thesis using s by metis
qed

text \<open>The check of a registration passes over the radio access type and over codes that are empty.\<close>

lemma registration_check:
  assumes "validateConstraints (refl_event (EvAMFRegistration r)) = None"
    and "mcc = '''' \<or> mcc = guti_MCC (areg_GUTI r)" and "mnc = '''' \<or> mnc = guti_MNC (areg_GUTI r)"
  shows "validateConstraints (refl_event (EvAMFRegistration
    (r\<lparr>areg_RATType := rat, areg_GUTI := (areg_GUTI r)\<lparr>guti_MCC := mcc, guti_MNC := mnc\<rparr>\<rparr>))) = None"
proof -
  have t: "walkConstrained (GInt (Iri_t ''RATType'') i) path z = None" for i path z
    by (simp add: constraintOf_def int_allowed_def enum_allowed_def intConstraints_def enumConstraints_def)
  have e: "walkConstrained (GString t '''') path z = None" for t path z
    by (simp add: constraintOf_def numeric_allowed_def utf8_allowed_def split: option.split)
  have c: "walk_fields tn (fld n v # fs) path = None \<longleftrightarrow>
      walkConstrained v (path @ ''.'' @ n) (tn @ ''.'' @ n \<in> set mandatoryEnumFields) = None \<and> walk_fields tn fs path = None"
    for tn n v fs path by (simp add: fld_def split: option.split)
  have g: "walkConstrained (refl_FiveGGUTI ((areg_GUTI r)\<lparr>guti_MCC := mcc, guti_MNC := mnc\<rparr>)) path z = None"
    if "walkConstrained (refl_FiveGGUTI (areg_GUTI r)) path z = None" for path z
    using that assms(2,3)
    by (elim disjE) (simp_all add: refl_FiveGGUTI_def c e del: walkConstrained.simps(9,10))
  show ?thesis
    using assms(1) g
    by (simp add: refl_AMFRegistration_def validateConstraints_def c t del: walkConstrained.simps(9,10))
qed

text \<open>
  C38. Two restrictions the check leaves out, on any registration. Take one that is encoded, give it
  any number as its radio access type, and empty the country code of its 5G-GUTI, its network code,
  both or neither: it is encoded still. A receiver reads the number in the octets, unless it is zero
  and the member is left out, and the codes as they are, empty ones as members without content. The
  module enumerates the radio access types, but that type is in none of the tables, and it gives the
  codes at least two digits, but the check leaves an empty mandatory member to the emitters to refuse.
\<close>

theorem empty_and_unknown_members_encoded:
  assumes "EncodeXIRI (EvAMFRegistration r) = Encoded b0"
    and "mcc = '''' \<or> mcc = guti_MCC (areg_GUTI r)" and "mnc = '''' \<or> mnc = guti_MNC (areg_GUTI r)"
    and "q = r\<lparr>areg_RATType := rat, areg_GUTI := (areg_GUTI r)\<lparr>guti_MCC := mcc, guti_MNC := mnc\<rparr>\<rparr>"
  shows "\<exists>b. EncodeXIRI (EvAMFRegistration q) = Encoded b \<and>
    (length b < 2 ^ 63 \<longrightarrow> (\<exists>gs ms.
       read_ders b = Some [Constr 0 16 [Prim 2 1 xIRIPayloadOID, Constr 2 2 [Constr 2 1 ms]]] \<and>
       (rat \<noteq> 0 \<longrightarrow> Prim 2 18 (int64Encoder rat) \<in> set ms) \<and>
       Constr 2 8 (Prim 2 1 (bytes_of mcc) # Prim 2 2 (bytes_of mnc) # gs) \<in> set ms))"
proof -
  let ?g = "(areg_GUTI r)\<lparr>guti_MCC := mcc, guti_MNC := mnc\<rparr>"
  have rec: "event_record (EvAMFRegistration p) = refl_AMFRegistration p" for p by (simp add: event_record_def)
  obtain x y where b: "\<And>g rat. spec_body [] (refl_AMFRegistration (r\<lparr>areg_RATType := rat, areg_GUTI := g\<rparr>)) =
      join x (join (wrote [GUTI_member g]) (join y (wrote (if rat = 0 then [] else [Prim 2 18 (int64Encoder rat)]))))"
    using registration_body [of r] by blast
  have "r\<lparr>areg_RATType := areg_RATType r, areg_GUTI := areg_GUTI r\<rparr> = r" by simp
  with b [of "areg_GUTI r" "areg_RATType r"] have "snd (join x (join (wrote [GUTI_member (areg_GUTI r)]) (join y
      (wrote (if areg_RATType r = 0 then [] else [Prim 2 18 (int64Encoder (areg_RATType r))]))))) = None"
    using Encoded_iff [of "EvAMFRegistration r"] assms(1) by (simp only: rec) (metis rec)
  then have n: "snd x = None" "snd y = None" by (auto simp: join_def split: if_splits)
  have q: "spec_body [] (event_record (EvAMFRegistration q)) =
      wrote (fst x @ GUTI_member ?g # fst y @ (if rat = 0 then [] else [Prim 2 18 (int64Encoder rat)]))"
    unfolding rec assms(4) b using n by (simp add: join_def)
  then obtain c where c: "EncodeXIRI (EvAMFRegistration q) = Encoded c"
    using Encoded_iff [of "EvAMFRegistration q"] registration_check [OF Encoded_payload(5) [OF assms(1)] assms(2,3)] assms(4)
    by (auto simp: is_record_def validateEvent_def)
  have "choice_tag ''xiriEvent'' (event_record (EvAMFRegistration q)) = Some 1" unfolding rec by (simp only: choice_tag_event)
  with Encoded_reads [OF c] q c show ?thesis by (fastforce simp: GUTI_member_def)
qed

theorem empty_and_unknown_members_encoded_witness:
  "(\<exists>b. EncodeXIRI (ex_registration (ex_GUTI '''' '''') 99) = Encoded b) \<and> 99 \<notin> snd ` set RATType_values"
proof -
  obtain r where r: "EvAMFRegistration r = ex_registration (ex_GUTI ''262'' ''01'') 1"
    "EvAMFRegistration (r\<lparr>areg_RATType := 99, areg_GUTI := (areg_GUTI r)\<lparr>guti_MCC := '''', guti_MNC := ''''\<rparr>\<rparr>) =
     ex_registration (ex_GUTI '''' '''') 99"
    by (simp add: ex_registration_def ex_GUTI_def)
  obtain b0 where "EncodeXIRI (EvAMFRegistration r) = Encoded b0"
    using ex_registration_encodes [of "''262''" "''01''" 1] r(1) by auto
  from empty_and_unknown_members_encoded [OF this, of "''''" "''''" _ 99, OF disjI1 [OF refl] disjI1 [OF refl] refl] r(2)
  have "\<exists>b. EncodeXIRI (ex_registration (ex_GUTI '''' '''') 99) = Encoded b" by auto
  moreover have "99 \<notin> snd ` set RATType_values" by (simp add: RATType_values_def)
  ultimately show ?thesis by blast
qed

end
