(* ===== verification/Xml.thy ===== *)
theory Xml
  imports Text
begin

text \<open>
  XML text: how the element escapes a value (\<open>encoding/xml.EscapeText\<close>, which
  \<open>src/types/xml.go\<close> and \<open>src/x1/trigger.go\<close> call) and a reader for what it writes.

  The reader is the specification of what a rendered document says. It reads a part of XML on
  purpose smaller than the language: elements, attributes in double quotes without references,
  character data with the predefined and the numeric references, and the XML declaration; a
  document with a comment, a CDATA section or a document type is not read. A document it reads is
  well formed, and \<open>encoding/xml\<close> reads the same elements from it. Names are resolved against the
  namespace declarations in scope the way \<open>xml.Decoder\<close> resolves them: a prefix nothing declares
  stands for itself.
\<close>

subsection \<open>xml.EscapeText\<close>

definition isInCharacterRange :: "nat \<Rightarrow> bool" where
  "isInCharacterRange r \<longleftrightarrow>
     r = 9 \<or> r = 10 \<or> r = 13 \<or> 32 \<le> r \<and> r \<le> 55295 \<or> 57344 \<le> r \<and> r \<le> 65533 \<or> 65536 \<le> r \<and> r \<le> 1114111"

text \<open>U+FFFD in UTF-8, which stands for what XML cannot carry.\<close>

definition escFFFD :: string where
  "escFFFD = [CHR 0xEF, CHR 0xBF, CHR 0xBD]"

text \<open>A character XML can carry: \<open>r\<close> and \<open>w\<close> are what \<open>utf8.DecodeRune\<close> returns for it.\<close>

definition legal_rune :: "nat \<Rightarrow> nat \<Rightarrow> bool" where
  "legal_rune r w \<longleftrightarrow> isInCharacterRange r \<and> \<not> (r = RuneError \<and> w = 1)"

text \<open>What is written for one character, of which \<open>s\<close> are the bytes.\<close>

definition escape_rune :: "nat \<Rightarrow> nat \<Rightarrow> string \<Rightarrow> string" where
  "escape_rune r w s =
     (if r = 34 then ''&#34;''
      else if r = 39 then ''&#39;''
      else if r = 38 then ''&amp;''
      else if r = 60 then ''&lt;''
      else if r = 62 then ''&gt;''
      else if r = 9 then ''&#x9;''
      else if r = 10 then ''&#xA;''
      else if r = 13 then ''&#xD;''
      else if \<not> legal_rune r w then escFFFD
      else s)"

text \<open>The characters of a string one after the other, each with its rune, its width and its bytes.\<close>

function pieces :: "string \<Rightarrow> (nat \<times> nat \<times> string) list" where
  "pieces s =
     (if s = [] then []
      else let (r, w) = DecodeRune (map code_of s) in (r, w, take w s) # pieces (drop w s))"
  by auto
termination
proof (relation "measure length")
  fix s :: string and p r w assume "s \<noteq> []" "p = DecodeRune (map code_of s)" "(r, w) = p"
  with DecodeRune_width [of "map code_of s"] have "0 < w" by (metis list.map_disc_iff snd_conv)
  with \<open>s \<noteq> []\<close> show "(drop w s, s) \<in> measure length" by auto
qed simp

declare pieces.simps [simp del]

definition EscapeText :: "string \<Rightarrow> string" where
  "EscapeText s = concat (map (\<lambda>(r, w, b). escape_rune r w b) (pieces s))"

text \<open>
  The text a reader gets: the string itself, except that U+FFFD stands where XML cannot carry a
  character. A \<open>clean\<close> string has no such character.
\<close>

definition carried :: "string \<Rightarrow> string" where
  "carried s = concat (map (\<lambda>(r, w, b). if legal_rune r w then b else escFFFD) (pieces s))"

definition clean :: "string \<Rightarrow> bool" where
  "clean s \<longleftrightarrow> list_all (\<lambda>(r, w, b). legal_rune r w) (pieces s)"

subsection \<open>Tokens\<close>

datatype token =
    TChar char
  | TStart string "(string \<times> string) list"
  | TEmpty string "(string \<times> string) list"
  | TEnd string
  | TSkip

definition name_char :: "char \<Rightarrow> bool" where
  "name_char c \<longleftrightarrow> (let k = code_of c in
     48 \<le> k \<and> k \<le> 57 \<or> 65 \<le> k \<and> k \<le> 90 \<or> 97 \<le> k \<and> k \<le> 122 \<or> k = 45 \<or> k = 46 \<or> k = 95)"

definition name_start :: "char \<Rightarrow> bool" where
  "name_start c \<longleftrightarrow> (let k = code_of c in 65 \<le> k \<and> k \<le> 90 \<or> 97 \<le> k \<and> k \<le> 122 \<or> k = 95)"

definition value_char :: "char \<Rightarrow> bool" where
  "value_char c \<longleftrightarrow> name_char c \<or> c \<in> set '':/ ''"

definition text_char :: "char \<Rightarrow> bool" where
  "text_char c \<longleftrightarrow> c \<noteq> CHR ''<'' \<and> c \<noteq> CHR ''&'' \<and> c \<noteq> CHR ''>'' \<and> c \<noteq> CHR 0x0D"

definition space_char :: "char \<Rightarrow> bool" where
  "space_char c \<longleftrightarrow> code_of c \<in> {9, 10, 32}"

text \<open>A name without a prefix, and a name with one at most.\<close>

definition is_name :: "string \<Rightarrow> bool" where
  "is_name n \<longleftrightarrow> n \<noteq> [] \<and> name_start (hd n) \<and> list_all name_char n"

definition split_qname :: "string \<Rightarrow> string \<times> string" where
  "split_qname q =
     (case dropWhile (\<lambda>c. c \<noteq> CHR '':'') q of
        [] \<Rightarrow> ('''', q)
      | _ # l \<Rightarrow> (takeWhile (\<lambda>c. c \<noteq> CHR '':'') q, l))"

definition is_qname :: "string \<Rightarrow> bool" where
  "is_qname q \<longleftrightarrow> (let (p, l) = split_qname q in is_name l \<and> (CHR '':'' \<in> set q \<longrightarrow> is_name p))"

text \<open>A name and what follows it.\<close>

definition qname_char :: "char \<Rightarrow> bool" where
  "qname_char c \<longleftrightarrow> name_char c \<or> c = CHR '':''"

definition read_name :: "string \<Rightarrow> (string \<times> string) option" where
  "read_name s =
     (let n = takeWhile qname_char s in if n \<noteq> [] \<and> is_qname n then Some (n, dropWhile qname_char s) else None)"

definition read_attr :: "string \<Rightarrow> ((string \<times> string) \<times> string) option" where
  "read_attr s =
     (case read_name s of
        None \<Rightarrow> None
      | Some (n, r) \<Rightarrow>
          if take 2 r = [CHR ''='', CHR 0x22] then
            (let v = takeWhile value_char (drop 2 r); q = dropWhile value_char (drop 2 r)
             in case q of
                  [] \<Rightarrow> None
                | c # r' \<Rightarrow> if c = CHR 0x22 then Some ((n, v), r') else None)
          else None)"

lemma read_name_shorter: "read_name s = Some (n, r) \<Longrightarrow> length r < length s \<and> s = n @ r"
proof -
  assume a: "read_name s = Some (n, r)"
  then have "n = takeWhile qname_char s" "r = dropWhile qname_char s" "n \<noteq> []"
    by (simp_all add: read_name_def Let_def split: if_splits)
  then have "s = n @ r" "n \<noteq> []" by simp_all
  then show ?thesis by simp
qed

lemma read_attr_shorter: "read_attr s = Some (a, r) \<Longrightarrow> length r < length s"
proof -
  assume a: "read_attr s = Some (a, r)"
  then obtain n q where n: "read_name s = Some (n, q)" by (auto simp: read_attr_def split: option.splits)
  with a have "CHR 0x22 # r = dropWhile value_char (drop 2 q)"
    by (auto simp: read_attr_def Let_def split: if_splits list.splits)
  then have "Suc (length r) \<le> length (drop 2 q)"
    by (metis length_Cons length_dropWhile_le)
  with read_name_shorter [OF n] show ?thesis by simp
qed

text \<open>The attributes of a start tag, whether it is that of an empty element, and what follows it.\<close>

function read_attrs :: "string \<Rightarrow> ((string \<times> string) list \<times> bool \<times> string) option" where
  "read_attrs s =
     (let t = dropWhile space_char s in
      if take 1 t = ''>'' then Some ([], False, drop 1 t)
      else if take 2 t = ''/>'' then Some ([], True, drop 2 t)
      else if t = s then None
      else case read_attr t of
        None \<Rightarrow> None
      | Some (a, r) \<Rightarrow> map_option (\<lambda>(as, e, r'). (a # as, e, r')) (read_attrs r))"
  by auto
termination
proof (relation "measure length")
  fix s t :: string and p a r
  assume "t = dropWhile space_char s" "read_attr t = Some p" "(a, r) = p"
  then show "(r, s) \<in> measure length"
    using read_attr_shorter [of t a r] length_dropWhile_le [of space_char s] by auto
qed simp

declare read_attrs.simps [simp del]

text \<open>A reference: the five predefined names and the numeric ones below 128.\<close>

definition references :: "(string \<times> char) list" where
  "references =
     [(''lt'', CHR ''<''), (''gt'', CHR ''>''), (''amp'', CHR ''&''), (''quot'', CHR 0x22), (''apos'', CHR 0x27),
      (''#34'', CHR 0x22), (''#39'', CHR 0x27), (''#x9'', CHR 0x09), (''#xA'', CHR 0x0A), (''#xD'', CHR 0x0D)]"

definition read_reference :: "string \<Rightarrow> (char \<times> string) option" where
  "read_reference s =
     (case dropWhile (\<lambda>c. c \<noteq> CHR '';'') s of
        [] \<Rightarrow> None
      | _ # r \<Rightarrow> map_option (\<lambda>c. (c, r)) (map_of references (takeWhile (\<lambda>c. c \<noteq> CHR '';'') s)))"

text \<open>The declaration: version 1.0 in UTF-8.\<close>

definition declaration_text :: string where
  "declaration_text = ''<?xml version='' @ [CHR 0x22] @ ''1.0'' @ [CHR 0x22] @ '' encoding='' @ [CHR 0x22] @ ''UTF-8'' @
     [CHR 0x22] @ ''?>''"

definition read_token :: "string \<Rightarrow> (token \<times> string) option" where
  "read_token s =
     (case s of
        [] \<Rightarrow> None
      | c # r \<Rightarrow>
          if c = CHR ''&'' then map_option (\<lambda>(d, r'). (TChar d, r')) (read_reference r)
          else if text_char c then Some (TChar c, r)
          else if c \<noteq> CHR ''<'' then None
          else if take (length declaration_text) s = declaration_text then Some (TSkip, drop (length declaration_text) s)
          else if take 1 r = ''/'' then
            (case read_name (drop 1 r) of
               None \<Rightarrow> None
             | Some (n, r') \<Rightarrow> if take 1 r' = ''>'' then Some (TEnd n, drop 1 r') else None)
          else
            (case read_name r of
               None \<Rightarrow> None
             | Some (n, r') \<Rightarrow>
                 map_option (\<lambda>(as, e, t). (if e then TEmpty n as else TStart n as, t)) (read_attrs r')))"

lemma read_attrs_shorter: "read_attrs s = Some (as, e, r) \<Longrightarrow> length r < length s"
proof (induction s arbitrary: as rule: read_attrs.induct)
  case (1 s)
  let ?t = "dropWhile space_char s"
  have l: "length ?t \<le> length s" by (rule length_dropWhile_le)
  consider "take 1 ?t = ''>''" | "take 2 ?t = ''/>''" | a q bs where "take 1 ?t \<noteq> ''>''" "take 2 ?t \<noteq> ''/>''"
      "?t \<noteq> s" "read_attr ?t = Some (a, q)" "read_attrs q = Some (bs, e, r)"
    using "1.prems" by (subst (asm) read_attrs.simps) (auto simp: Let_def split: if_splits option.splits)
  then show ?case
  proof cases
    case 1
    with "1.prems" have "r = drop 1 ?t" by (subst (asm) read_attrs.simps) (auto simp: Let_def)
    moreover from 1 have "?t \<noteq> []" by (cases ?t) auto
    ultimately show ?thesis using l by (cases ?t) simp_all
  next
    case 2
    from 2 have t: "?t \<noteq> []" by (metis list.distinct(1) take_Nil)
    from 2 have "take 1 ?t = ''/''" by (cases ?t) simp_all
    with 2 "1.prems" have "r = drop 2 ?t" by (subst (asm) read_attrs.simps) (auto simp: Let_def)
    then show ?thesis using l t by (cases ?t) simp_all
  next
    case 3
    from "1.IH" [OF refl 3(1,2,3,4) refl 3(5)] read_attr_shorter [OF 3(4)] l show ?thesis by simp
  qed
qed

lemma declaration_length: "0 < length declaration_text"
  by (simp add: declaration_text_def)

lemma read_token_shorter: "read_token s = Some (t, r) \<Longrightarrow> length r < length s"
proof (cases s)
  case (Cons c q)
  moreover assume "read_token s = Some (t, r)"
  moreover have "length r < length s" if "read_reference q = Some (d, r)" for d
  proof -
    from that have "\<exists>x. dropWhile (\<lambda>c. c \<noteq> CHR '';'') q = x # r"
      by (auto simp: read_reference_def split: list.splits)
    then have "length r < length q" by (metis Suc_le_eq length_Cons length_dropWhile_le)
    then show ?thesis using Cons by simp
  qed
  ultimately show ?thesis
    using read_name_shorter [of q] read_name_shorter [of "drop 1 q"] read_attrs_shorter declaration_length
    by (fastforce simp: read_token_def split: option.splits if_splits)
qed (simp add: read_token_def)

function tokens :: "string \<Rightarrow> token list option" where
  "tokens s =
     (if s = [] then Some []
      else case read_token s of
        None \<Rightarrow> None
      | Some (t, r) \<Rightarrow> map_option ((#) t) (tokens r))"
  by auto
termination
  by (relation "measure length") (auto dest: read_token_shorter)

declare tokens.simps [simp del]

subsection \<open>Documents\<close>

text \<open>
  An element with its name resolved, its attributes, the character data directly in it and the
  elements in it.
\<close>

datatype node =
  Node (nspace: string) (nlocal: string) (nattrs: "((string \<times> string) \<times> string) list") (ntext: string) (nkids: "node list")

text \<open>
  An element that is open: the declarations in scope, its name as written, its attributes, and the
  text and the elements read in it so far. The last frame is the document.
\<close>

datatype frame = Frame "(string \<times> string) list" string "(string \<times> string) list" string "node list"

text \<open>\<open>xmlns:p\<close> declares a prefix, \<open>xmlns\<close> alone what no prefix stands for.\<close>

definition declarations :: "(string \<times> string) list \<Rightarrow> (string \<times> string) list" where
  "declarations as =
     concat (map (\<lambda>(k, v). if fst (split_qname k) = ''xmlns'' then [(snd (split_qname k), v)]
                           else if k = ''xmlns'' then [('''', v)] else []) as)"

definition resolve_prefix :: "(string \<times> string) list \<Rightarrow> string \<Rightarrow> string" where
  "resolve_prefix env p =
     (if p = ''xmlns'' then p
      else if p = ''xml'' then ''http://www.w3.org/XML/1998/namespace''
      else case map_of env p of Some u \<Rightarrow> u | None \<Rightarrow> p)"

definition resolve_attrs :: "(string \<times> string) list \<Rightarrow> (string \<times> string) list \<Rightarrow> ((string \<times> string) \<times> string) list" where
  "resolve_attrs env as =
     map (\<lambda>(k, v). let (p, l) = split_qname k
                    in ((if p = ''xmlns'' \<or> p = '''' then p else resolve_prefix env p, l), v)) as"

text \<open>White space between the elements of an element is layout and is dropped.\<close>

definition content_text :: "string \<Rightarrow> node list \<Rightarrow> string" where
  "content_text t ks = (if ks \<noteq> [] \<and> list_all space_char t then '''' else t)"

fun close_frame :: "frame \<Rightarrow> node" where
  "close_frame (Frame env q as t ks) =
     (let (p, l) = split_qname q in Node (resolve_prefix env p) l (resolve_attrs env as) (content_text t ks) ks)"

declare close_frame.simps [simp del]

fun take_token :: "token \<Rightarrow> frame list \<Rightarrow> frame list option" where
  "take_token (TChar c) (Frame env q as t ks # st) = Some (Frame env q as (t @ [c]) ks # st)"
| "take_token (TStart n as) (Frame env q bs t ks # st) =
     Some (Frame (declarations as @ env) n as '''' [] # Frame env q bs t ks # st)"
| "take_token (TEmpty n as) (Frame env q bs t ks # st) =
     Some (Frame env q bs t (ks @ [close_frame (Frame (declarations as @ env) n as '''' [])]) # st)"
| "take_token (TEnd n) (Frame env q as t ks # Frame env' q' bs t' ks' # st) =
     (if n = q then Some (Frame env' q' bs t' (ks' @ [close_frame (Frame env q as t ks)]) # st) else None)"
| "take_token TSkip st = Some st"
| "take_token _ _ = None"

fun take_tokens :: "token list \<Rightarrow> frame list \<Rightarrow> frame list option" where
  "take_tokens [] st = Some st"
| "take_tokens (t # ts) st = (case take_token t st of None \<Rightarrow> None | Some st' \<Rightarrow> take_tokens ts st')"

definition parse :: "string \<Rightarrow> frame list \<Rightarrow> frame list option" where
  "parse s st = (case tokens s of None \<Rightarrow> None | Some ts \<Rightarrow> take_tokens ts st)"

text \<open>A document is one element, with white space around it at most, and of characters XML can carry.\<close>

definition read_xml :: "string \<Rightarrow> node option" where
  "read_xml s =
     (case parse s [Frame [] '''' [] '''' []] of
        Some [Frame _ _ _ t [x]] \<Rightarrow> if list_all space_char t \<and> clean s then Some x else None
      | _ \<Rightarrow> None)"

subsection \<open>Reading what is written\<close>

named_theorems reading

lemma parse_token:
  assumes "read_token (s @ r) = Some (t, r)" and "s @ r \<noteq> []"
  shows "parse (s @ r) st = (case take_token t st of None \<Rightarrow> None | Some st' \<Rightarrow> parse r st')"
proof -
  have "tokens (s @ r) = map_option ((#) t) (tokens r)"
    by (subst tokens.simps) (simp only: if_not_P [OF assms(2)] assms(1), simp)
  then show ?thesis by (cases "tokens r") (auto simp: parse_def split: option.split)
qed

lemma parse_Nil [simp]: "parse [] st = Some st"
  by (simp add: parse_def tokens.simps)

lemma parse_char:
  assumes "text_char c"
  shows "parse (c # s) (Frame env q as t ks # st) = parse s (Frame env q as (t @ [c]) ks # st)"
  using parse_token [of "[c]" s "TChar c"] assms by (auto simp: read_token_def text_char_def)

lemma parse_chars:
  "list_all text_char s \<Longrightarrow>
   parse (s @ r) (Frame env q as t ks # st) = parse r (Frame env q as (t @ s) ks # st)"
  by (induction s arbitrary: t) (simp_all add: parse_char)

lemma parse_reference:
  assumes "map_of references n = Some c" "CHR '';'' \<notin> set n"
  shows "parse (CHR ''&'' # n @ CHR '';'' # s) (Frame env q as t ks # st) = parse s (Frame env q as (t @ [c]) ks # st)"
proof -
  have "dropWhile (\<lambda>c. c \<noteq> CHR '';'') (n @ CHR '';'' # s) = CHR '';'' # s"
    "takeWhile (\<lambda>c. c \<noteq> CHR '';'') (n @ CHR '';'' # s) = n"
    using assms(2) by (subst dropWhile_append2 takeWhile_append2; auto)+
  then have "read_reference (n @ CHR '';'' # s) = Some (c, s)"
    using assms(1) by (simp add: read_reference_def)
  then show ?thesis
    using parse_token [of "CHR ''&'' # n @ '';''" s "TChar c"] by (simp add: read_token_def)
qed

lemma split_qname_eq:
  "CHR '':'' \<in> set q \<Longrightarrow> q = fst (split_qname q) @ CHR '':'' # snd (split_qname q)"
  "CHR '':'' \<notin> set q \<Longrightarrow> split_qname q = ('''', q)"
proof -
  assume "CHR '':'' \<in> set q"
  then have "dropWhile (\<lambda>c. c \<noteq> CHR '':'') q \<noteq> []" by (simp add: dropWhile_eq_Nil_conv)
  then obtain c l where "dropWhile (\<lambda>c. c \<noteq> CHR '':'') q = c # l" by (cases "dropWhile (\<lambda>c. c \<noteq> CHR '':'') q") auto
  moreover from this have "c = CHR '':''" using hd_dropWhile [of "\<lambda>c. c \<noteq> CHR '':''" q] by auto
  ultimately show "q = fst (split_qname q) @ CHR '':'' # snd (split_qname q)"
    using takeWhile_dropWhile_id [of "\<lambda>c. c \<noteq> CHR '':''" q] by (simp add: split_qname_def)
next
  assume "CHR '':'' \<notin> set q"
  then have "dropWhile (\<lambda>c. c \<noteq> CHR '':'') q = []" by (auto simp: dropWhile_eq_Nil_conv)
  then show "split_qname q = ('''', q)" unfolding split_qname_def by (simp only: list.case)
qed

lemma is_qname_chars: "is_qname q \<Longrightarrow> q \<noteq> [] \<and> name_start (hd q) \<and> list_all qname_char q"
proof (cases "CHR '':'' \<in> set q")
  case True
  assume "is_qname q"
  with True have n: "is_name (fst (split_qname q))" "is_name (snd (split_qname q))"
    by (auto simp: is_qname_def split: prod.splits)
  obtain p l where q: "q = p @ CHR '':'' # l" "p = fst (split_qname q)" "l = snd (split_qname q)"
    using split_qname_eq(1) [OF True] by blast
  from n have "is_name p" "is_name l" using q(2,3) by simp_all
  then show ?thesis unfolding q(1) by (auto simp: is_name_def qname_char_def list_all_iff)
next
  case False
  assume "is_qname q"
  with False split_qname_eq(2) [OF False] show ?thesis
    by (auto simp: is_qname_def is_name_def qname_char_def list_all_iff)
qed

lemma read_name_append:
  assumes "is_qname n" "r = [] \<or> \<not> qname_char (hd r)"
  shows "read_name (n @ r) = Some (n, r)"
proof -
  have "takeWhile qname_char (n @ r) = n" "dropWhile qname_char (n @ r) = r"
    using is_qname_chars [OF assms(1)] assms(2)
    by (cases r; auto simp: list_all_iff takeWhile_append dropWhile_append)+
  then show ?thesis using assms(1) is_qname_chars [OF assms(1)] by (simp add: read_name_def Let_def)
qed

lemma not_name_char: "\<not> qname_char (CHR ''>'')" "\<not> qname_char (CHR '' '')" "\<not> qname_char (CHR ''='')"
  "\<not> qname_char (CHR ''/'')" "\<not> qname_char (CHR ''?'')" "\<not> qname_char (CHR 0x22)"
  by (simp_all add: qname_char_def name_char_def code_of_def)

lemma name_start_char: "name_start c \<Longrightarrow> name_char c" "name_char c \<Longrightarrow> qname_char c" "name_char c \<Longrightarrow> c \<noteq> CHR '':''"
  by (auto simp: name_start_def name_char_def qname_char_def code_of_def Let_def)

text \<open>The attributes of a tag as they are written.\<close>

definition attr_text :: "string \<times> string \<Rightarrow> string" where
  "attr_text a = '' '' @ fst a @ ''='' @ [CHR 0x22] @ snd a @ [CHR 0x22]"

definition attr_ok :: "string \<times> string \<Rightarrow> bool" where
  "attr_ok a \<longleftrightarrow> is_qname (fst a) \<and> list_all value_char (snd a)"

lemma not_value_char: "\<not> value_char (CHR 0x22)"
  by (simp add: value_char_def name_char_def code_of_def)

lemma read_attr_text:
  assumes "attr_ok a"
  shows "read_attr (drop 1 (attr_text a) @ r) = Some (a, r)"
proof -
  obtain k v where a: "a = (k, v)" by force
  have k: "read_name (k @ CHR ''='' # CHR 0x22 # v @ CHR 0x22 # r) = Some (k, CHR ''='' # CHR 0x22 # v @ CHR 0x22 # r)"
    using assms by (intro read_name_append) (simp_all add: a attr_ok_def not_name_char)
  have "takeWhile value_char (v @ CHR 0x22 # r) = v" "dropWhile value_char (v @ CHR 0x22 # r) = CHR 0x22 # r"
    using assms by (auto simp: a attr_ok_def list_all_iff takeWhile_append dropWhile_append not_value_char)
  with k show ?thesis by (simp add: a attr_text_def read_attr_def)
qed

lemma read_attrs_text:
  "list_all attr_ok as \<Longrightarrow> read_attrs (concat (map attr_text as) @ CHR ''>'' # r) = Some (as, False, r)"
proof (induction as)
  case Nil
  have "dropWhile space_char (CHR ''>'' # r) = CHR ''>'' # r" by (simp add: space_char_def code_of_def)
  then show ?case by (subst read_attrs.simps) simp
next
  case (Cons a as)
  let ?r = "concat (map attr_text as) @ CHR ''>'' # r"
  let ?s = "attr_text a @ ?r"
  obtain c k where n: "fst a = c # k" "name_start c"
    using Cons.prems is_qname_chars [of "fst a"] by (cases "fst a") (auto simp: attr_ok_def)
  then have c: "\<not> space_char c" "c \<noteq> CHR ''>''" "c \<noteq> CHR ''/''"
    by (auto simp: name_start_def space_char_def code_of_def Let_def)
  have "dropWhile space_char ?s = drop 1 (attr_text a) @ ?r"
    using c(1) by (simp add: attr_text_def n space_char_def code_of_def)
  moreover have "take 1 (drop 1 (attr_text a) @ ?r) = [c]" "\<exists>d. take 2 (drop 1 (attr_text a) @ ?r) = [c, d]"
    by (simp_all add: attr_text_def n numeral_2_eq_2 take_Cons' split: nat.split) (cases "k", auto)
  moreover have "length (drop 1 (attr_text a) @ ?r) < length ?s" by (simp add: attr_text_def)
  then have "drop 1 (attr_text a) @ ?r \<noteq> ?s" by (metis less_irrefl)
  ultimately have "read_attrs ?s = map_option (\<lambda>(as, e, r'). (a # as, e, r')) (read_attrs ?r)"
    using c Cons.prems by (subst read_attrs.simps) (auto simp: Let_def read_attr_text [unfolded One_nat_def])
  with Cons show ?case by simp
qed

lemma parse_start:
  assumes "is_qname n" "list_all attr_ok bs"
  shows "parse (CHR ''<'' # n @ concat (map attr_text bs) @ CHR ''>'' # s) (Frame env q as t ks # st) =
     parse s (Frame (declarations bs @ env) n bs '''' [] # Frame env q as t ks # st)"
proof -
  let ?r = "concat (map attr_text bs) @ CHR ''>'' # s"
  have r: "read_name (n @ ?r) = Some (n, ?r)"
    by (rule read_name_append [OF assms(1)]) (cases bs; simp add: not_name_char attr_text_def)
  obtain c m where n: "n = c # m" "name_start c" using is_qname_chars [OF assms(1)] by (cases n) auto
  then have "c \<noteq> CHR ''?''" "c \<noteq> CHR ''/''" using name_start_char not_name_char by metis+
  then have "read_token (CHR ''<'' # n @ ?r) = Some (TStart n bs, s)"
    using r assms(2) by (simp add: read_token_def n read_attrs_text declaration_text_def text_char_def)
  then show ?thesis using parse_token [of "CHR ''<'' # n @ concat (map attr_text bs) @ ''>''" s] by simp
qed

lemma parse_end:
  assumes "is_qname n"
  shows "parse (CHR ''<'' # CHR ''/'' # n @ CHR ''>'' # s) (Frame env n as t ks # Frame env' q' bs t' ks' # st) =
     parse s (Frame env' q' bs t' (ks' @ [close_frame (Frame env n as t ks)]) # st)"
proof -
  have "read_name (n @ CHR ''>'' # s) = Some (n, CHR ''>'' # s)"
    using assms by (intro read_name_append) (simp_all add: not_name_char)
  then have "read_token (CHR ''<'' # CHR ''/'' # n @ CHR ''>'' # s) = Some (TEnd n, s)"
    by (simp add: read_token_def declaration_text_def text_char_def)
  then show ?thesis using parse_token [of "CHR ''<'' # CHR ''/'' # n @ ''>''" s] by simp
qed

subsection \<open>Escaped text reads back\<close>

lemma DecodeRune_bytes:
  "DecodeRune (b # bs) = (r, w) \<Longrightarrow>
   b < 128 \<and> r = b \<and> w = 1 \<or> 128 \<le> r \<and> (\<forall>x \<in> set (take w (b # bs)). 128 \<le> x)"
  by (auto simp: DecodeRune.simps continuation_def RuneError_def split: if_splits list.splits)

lemma pieces_Cons:
  assumes "DecodeRune (map code_of (c # s)) = (r, w)"
  shows "pieces (c # s) = (r, w, take w (c # s)) # pieces (drop w (c # s))"
  using assms by (subst pieces.simps) simp

lemma pieces_Nil [simp]: "pieces [] = []"
  by (subst pieces.simps) simp

lemma pieces_induct [case_names Nil Cons]:
  assumes "P []"
    and "\<And>c s r w. DecodeRune (map code_of (c # s)) = (r, w) \<Longrightarrow> P (drop w (c # s)) \<Longrightarrow> P (c # s)"
  shows "P s"
proof (induction s rule: pieces.induct)
  case (1 s)
  then show ?case using assms by (cases s) (auto simp: prod_eq_iff)
qed

lemma pieces_concat: "concat (map (\<lambda>(r, w, b). b) (pieces s)) = s"
  by (induction s rule: pieces_induct) (simp_all add: pieces_Cons)

lemma pieces_bytes:
  assumes "(r, w, b) \<in> set (pieces s)"
  shows "(\<exists>c. b = [c] \<and> r = code_of c) \<and> r < 128 \<and> w = 1 \<or> 128 \<le> r \<and> (\<forall>c \<in> set b. 128 \<le> code_of c)"
  using assms
proof (induction s rule: pieces_induct)
  case (Cons c s r' w')
  show ?case
  proof (cases "(r, w, b) = (r', w', take w' (c # s))")
    case True
    with DecodeRune_bytes [of "code_of c" "map code_of s" r' w'] Cons.hyps show ?thesis
      by (auto simp flip: list.map(2) simp: take_map)
  next
    case False
    with Cons show ?thesis by (auto simp: pieces_Cons)
  qed
qed simp

lemma markup_codes:
  "code_of c = 34 \<longleftrightarrow> c = CHR 0x22" "code_of c = 39 \<longleftrightarrow> c = CHR 0x27" "code_of c = 38 \<longleftrightarrow> c = CHR ''&''"
  "code_of c = 60 \<longleftrightarrow> c = CHR ''<''" "code_of c = 62 \<longleftrightarrow> c = CHR ''>''" "code_of c = 9 \<longleftrightarrow> c = CHR 0x09"
  "code_of c = 10 \<longleftrightarrow> c = CHR 0x0A" "code_of c = 13 \<longleftrightarrow> c = CHR 0x0D"
  using code_of_inject [of c "CHR 0x22"] code_of_inject [of c "CHR 0x27"] code_of_inject [of c "CHR ''&''"]
    code_of_inject [of c "CHR ''<''"] code_of_inject [of c "CHR ''>''"] code_of_inject [of c "CHR 0x09"]
    code_of_inject [of c "CHR 0x0A"] code_of_inject [of c "CHR 0x0D"]
  by (simp_all add: code_of_def)

lemma high_not_markup: "128 \<le> code_of c \<Longrightarrow> text_char c"
  by (auto simp: text_char_def code_of_def)

lemma text_escFFFD: "list_all text_char escFFFD"
  by (simp add: escFFFD_def text_char_def)

lemma parse_escape_rune:
  assumes "(r, w, b) \<in> set (pieces v)"
  shows "parse (escape_rune r w b @ s) (Frame env q as t ks # st) =
     parse s (Frame env q as (t @ (if legal_rune r w then b else escFFFD)) ks # st)"
  using pieces_bytes [OF assms]
proof (elim disjE conjE exE)
  fix c assume b: "b = [c]" "r = code_of c" and low: "r < 128" "w = 1"
  have ref: "parse (CHR ''&'' # n @ CHR '';'' # s) (Frame env q as t ks # st) =
      parse s (Frame env q as (t @ [c]) ks # st)" if "map_of references n = Some c" "CHR '';'' \<notin> set n" for n
    using parse_reference [OF that] .
  have legal: "legal_rune r w" if "r \<in> {34, 39, 38, 60, 62, 9, 10, 13}"
    using that by (auto simp: legal_rune_def isInCharacterRange_def RuneError_def)
  consider (special) "r \<in> {34, 39, 38, 60, 62, 9, 10, 13}" | (plain) "r \<notin> {34, 39, 38, 60, 62, 9, 10, 13}" by blast
  then show ?thesis
  proof cases
    case special
    then have "\<exists>n. escape_rune r w b = CHR ''&'' # n @ '';'' \<and> map_of references n = Some c \<and> CHR '';'' \<notin> set n"
      unfolding b by (elim insertE emptyE) (auto simp: escape_rune_def markup_codes references_def)
    with ref legal [OF special] b show ?thesis by auto
  next
    case plain
    then have "escape_rune r w b = (if legal_rune r w then b else escFFFD)"
      by (simp add: escape_rune_def)
    moreover have "text_char c" using plain b by (auto simp: text_char_def code_of_def)
    ultimately show ?thesis using b by (simp add: parse_chars [OF text_escFFFD] parse_char)
  qed
next
  assume "128 \<le> r" and b: "\<forall>c \<in> set b. 128 \<le> code_of c"
  then have "escape_rune r w b = (if legal_rune r w then b else escFFFD)"
    by (simp add: escape_rune_def)
  moreover have "list_all text_char b" using b high_not_markup by (auto simp: list_all_iff)
  ultimately show ?thesis by (simp add: parse_chars text_escFFFD)
qed

lemma parse_pieces:
  "set ps \<subseteq> set (pieces v) \<Longrightarrow>
   parse (concat (map (\<lambda>(r, w, b). escape_rune r w b) ps) @ s) (Frame env q as t ks # st) =
   parse s (Frame env q as (t @ concat (map (\<lambda>(r, w, b). if legal_rune r w then b else escFFFD) ps)) ks # st)"
proof (induction ps arbitrary: t)
  case (Cons p ps)
  obtain r w b where p: "p = (r, w, b)" by (cases p)
  with Cons.prems have "(r, w, b) \<in> set (pieces v)" by simp
  from parse_escape_rune [OF this] Cons show ?case by (simp add: p)
qed simp

lemma parse_escape [reading]:
  "parse (EscapeText v @ s) (Frame env q as t ks # st) = parse s (Frame env q as (t @ carried v) ks # st)"
  unfolding EscapeText_def carried_def by (rule parse_pieces [OF subset_refl])

lemma carried_clean: "clean v \<Longrightarrow> carried v = v"
proof -
  assume "clean v"
  then have "map (\<lambda>(r, w, b). if legal_rune r w then b else escFFFD) (pieces v) = map (\<lambda>(r, w, b). b) (pieces v)"
    by (auto simp: clean_def list_all_iff)
  then show ?thesis unfolding carried_def by (simp only: pieces_concat)
qed

lemma clean_ascii: "list_all (\<lambda>c. 32 \<le> code_of c \<and> code_of c < 128) v \<Longrightarrow> clean v"
proof (induction v)
  case (Cons c v)
  then have d: "DecodeRune (map code_of (c # v)) = (code_of c, 1)" by simp
  from Cons show ?case
    by (simp add: clean_def pieces_Cons [OF d] legal_rune_def isInCharacterRange_def RuneError_def)
qed (simp add: clean_def)

lemma carried_ascii: "list_all (\<lambda>c. 32 \<le> code_of c \<and> code_of c < 128) v \<Longrightarrow> carried v = v"
  by (rule carried_clean [OF clean_ascii])

lemma no_markup: "c \<in> set (EscapeText v) \<Longrightarrow> c \<noteq> CHR ''<'' \<and> c \<noteq> CHR ''>'' \<and> c \<noteq> CHR 0x22 \<and> c \<noteq> CHR 0x27"
proof -
  assume "c \<in> set (EscapeText v)"
  then obtain r w b where p: "(r, w, b) \<in> set (pieces v)" "c \<in> set (escape_rune r w b)"
    by (auto simp: EscapeText_def)
  show ?thesis
  proof (cases "c \<in> set b \<and> r \<notin> {34, 39, 38, 60, 62}")
    case True
    with pieces_bytes [OF p(1)] show ?thesis by (auto simp: code_of_def)
  next
    case False
    with p(2) show ?thesis by (auto simp: escape_rune_def escFFFD_def split: if_splits)
  qed
qed

subsection \<open>Pieces of a document\<close>

text \<open>Documents are of characters XML can carry, piece by piece.\<close>

lemma DecodeRune_take:
  "DecodeRune bs = (r, w) \<Longrightarrow> \<not> (r = RuneError \<and> w = 1) \<Longrightarrow> DecodeRune (take w bs) = (r, w)"
  by (cases bs) (auto simp: DecodeRune.simps split: if_splits list.splits)

lemma DecodeRune_append:
  "DecodeRune (b # bs) = (r, w) \<Longrightarrow> \<not> (r = RuneError \<and> w = 1) \<Longrightarrow> DecodeRune ((b # bs) @ cs) = (r, w)"
  by (auto simp: DecodeRune.simps split: if_splits list.splits)

lemma pieces_append:
  assumes "clean a"
  shows "pieces (a @ b) = pieces a @ pieces b"
  using assms
proof (induction a rule: pieces_induct)
  case (Cons c s r w)
  then have l: "legal_rune r w" "clean (drop w (c # s))" by (simp_all add: clean_def pieces_Cons)
  have d: "DecodeRune (map code_of ((c # s) @ b)) = (r, w)"
    using DecodeRune_append [of "code_of c" "map code_of s" r w "map code_of b"] Cons.hyps l(1) by (simp add: legal_rune_def)
  have w: "w \<le> length (c # s)" using DecodeRune_width [of "map code_of (c # s)"] Cons.hyps by simp
  have "pieces ((c # s) @ b) = (r, w, take w ((c # s) @ b)) # pieces (drop w ((c # s) @ b))"
    using pieces_Cons [of c "s @ b" r w] d by simp
  moreover have "take w ((c # s) @ b) = take w (c # s)" "drop w ((c # s) @ b) = drop w (c # s) @ b"
    using w unfolding take_append drop_append by simp_all
  ultimately show ?case using Cons l by (simp add: pieces_Cons)
qed simp

lemma clean_Nil [simp]: "clean []"
  by (simp add: clean_def)

lemma clean_append [simp]: "clean a \<Longrightarrow> clean (a @ b) \<longleftrightarrow> clean b"
  unfolding clean_def by (simp add: pieces_append clean_def)

lemma clean_concat: "(\<And>x. x \<in> set xs \<Longrightarrow> clean (f x)) \<Longrightarrow> clean (concat (map f xs))"
  by (induction xs) simp_all

lemma clean_Cons: "isInCharacterRange (code_of c) \<Longrightarrow> code_of c < 128 \<Longrightarrow> clean (c # s) \<longleftrightarrow> clean s"
proof -
  assume c: "isInCharacterRange (code_of c)" "code_of c < 128"
  then have "DecodeRune (map code_of [c]) = (code_of c, 1)" by simp
  then have "clean [c]" using c pieces_Cons [of c "[]"] by (simp add: clean_def legal_rune_def RuneError_def)
  from clean_append [OF this, of s] show ?thesis by simp
qed

lemma clean_printable [simp]: "32 \<le> code_of c \<Longrightarrow> code_of c < 128 \<Longrightarrow> clean (c # s) \<longleftrightarrow> clean s"
  by (simp add: clean_Cons isInCharacterRange_def)

lemma clean_escFFFD: "clean escFFFD"
proof -
  have "DecodeRune (map code_of escFFFD) = (65533, 3)"
    by (simp add: escFFFD_def code_of_def DecodeRune.simps continuation_def)
  then have "pieces escFFFD = [(65533, 3, escFFFD)]"
    using pieces_Cons [of "CHR 0xEF" "[CHR 0xBF, CHR 0xBD]" 65533 3] by (simp add: escFFFD_def)
  then show ?thesis by (simp add: clean_def legal_rune_def isInCharacterRange_def)
qed

lemma clean_escape_rune:
  assumes "(r, w, b) \<in> set (pieces v)"
  shows "clean (escape_rune r w b) \<and> (legal_rune r w \<longrightarrow> clean b)"
  using assms
proof (induction v rule: pieces_induct)
  case (Cons c s r' w')
  show ?case
  proof (cases "(r, w, b) = (r', w', take w' (c # s))")
    case True
    have w: "0 < w'" "w' \<le> length (c # s)" using DecodeRune_width [of "map code_of (c # s)"] Cons.hyps by auto

    have "clean b" if l: "legal_rune r w"
    proof -
      have b: "b \<noteq> []" "w = length b" using True w by auto
      have "DecodeRune (map code_of b) = (r, w)"
        using DecodeRune_take [of "map code_of (c # s)" r' w'] Cons.hyps True l
        by (simp add: legal_rune_def flip: take_map)
      then have "pieces b = [(r, w, b)]" using b by (subst pieces.simps) simp
      then show ?thesis using l by (simp add: clean_def)
    qed
    with clean_escFFFD show ?thesis by (auto simp: escape_rune_def code_of_def)
  next
    case False
    with Cons show ?thesis by (auto simp: pieces_Cons)
  qed
qed simp

lemma clean_EscapeText [simp]: "clean (EscapeText v)"
  unfolding EscapeText_def by (rule clean_concat) (use clean_escape_rune in auto)

lemma clean_name: "is_name n \<Longrightarrow> clean n"
proof -
  have "clean s" if "list_all name_char s" for s
    using that by (induction s) (auto simp: name_char_def Let_def)
  then show "is_name n \<Longrightarrow> clean n" by (simp add: is_name_def)
qed

text \<open>
  \<open>writes env v t ks\<close>: wherever \<open>v\<close> stands in an element in whose scope the declarations are
  \<open>env\<close>, the reader takes the text \<open>t\<close> and the elements \<open>ks\<close> from it, and goes on behind it.
\<close>

definition writes :: "(string \<times> string) list \<Rightarrow> string \<Rightarrow> string \<Rightarrow> node list \<Rightarrow> bool" where
  "writes env v tx kx \<longleftrightarrow> clean v \<and>
     (\<forall>s q as t ks st. parse (v @ s) (Frame env q as t ks # st) = parse s (Frame env q as (t @ tx) (ks @ kx) # st))"

lemma writesI:
  "clean v \<Longrightarrow> (\<And>s q as t ks st. parse (v @ s) (Frame env q as t ks # st) = parse s (Frame env q as (t @ tx) (ks @ kx) # st)) \<Longrightarrow>
   writes env v tx kx"
  by (simp add: writes_def)

lemma writesD:
  "writes env v tx kx \<Longrightarrow>
   parse (v @ s) (Frame env q as t ks # st) = parse s (Frame env q as (t @ tx) (ks @ kx) # st)"
  by (simp add: writes_def)

lemma writes_clean [simp]: "writes env v tx kx \<Longrightarrow> clean v"
  by (simp add: writes_def)

lemma writes_Nil: "writes env [] [] []"
  by (simp add: writes_def)

lemma writes_append: "writes env v tx kx \<Longrightarrow> writes env w ty ky \<Longrightarrow> writes env (v @ w) (tx @ ty) (kx @ ky)"
  by (simp add: writes_def)

lemma writes_concat:
  assumes "\<And>x. x \<in> set xs \<Longrightarrow> writes env (f x) tx [h x]"
  shows "writes env (concat (map f xs)) (concat (map (\<lambda>_. tx) xs)) (map h xs)"
  using assms
proof (induction xs)
  case (Cons x xs)
  then show ?case
    using writes_append [of env "f x" tx "[h x]" "concat (map f xs)" "concat (map (\<lambda>_. tx) xs)" "map h xs"] by simp
qed (simp add: writes_Nil)

lemma writes_escape: "writes env (EscapeText v) (carried v) []"
  by (rule writesI) (simp_all add: parse_escape)

definition plain :: "string \<Rightarrow> bool" where
  "plain s \<longleftrightarrow> list_all (\<lambda>c. text_char c \<and> 32 \<le> code_of c \<and> code_of c < 128) s"

lemma plain_text: "plain s \<Longrightarrow> clean s \<and> list_all text_char s"
  using clean_ascii [of s] by (auto simp: plain_def list_all_iff)

lemma writes_plain: "plain s \<Longrightarrow> writes env s s []"
  by (rule writesI) (simp_all add: parse_chars plain_text)

text \<open>The element a piece of text with a start and an end tag around it is.\<close>

definition element :: "(string \<times> string) list \<Rightarrow> string \<Rightarrow> string \<Rightarrow> string \<Rightarrow> node list \<Rightarrow> node" where
  "element env p n t ks = Node (resolve_prefix env p) n [] (content_text t ks) ks"

lemma split_qname_prefix: "CHR '':'' \<notin> set p \<Longrightarrow> split_qname (p @ CHR '':'' # n) = (p, n)"
  by (simp add: split_qname_def dropWhile_append takeWhile_append)

lemma close_frame_prefix [simp]:
  "CHR '':'' \<notin> set p \<Longrightarrow> close_frame (Frame env (p @ CHR '':'' # n) [] t ks) = element env p n t ks"
  by (simp add: close_frame.simps split_qname_prefix element_def resolve_attrs_def)

lemma name_no_colon: "is_name p \<Longrightarrow> CHR '':'' \<notin> set p"
  using name_start_char(3) by (auto simp: is_name_def list_all_iff)

lemma is_qname_prefixed: "is_name p \<Longrightarrow> is_name n \<Longrightarrow> is_qname (p @ CHR '':'' # n)"
  by (simp add: is_qname_def split_qname_prefix [OF name_no_colon])

lemma parse_tag:
  assumes "is_name p" "is_name n"
  shows "parse (CHR ''<'' # p @ CHR '':'' # n @ CHR ''>'' # s) (Frame env q as t ks # st) =
     parse s (Frame env (p @ CHR '':'' # n) [] '''' [] # Frame env q as t ks # st)"
  using parse_start [of "p @ CHR '':'' # n" "[]" s env q as t ks st] assms
  by (simp add: is_qname_prefixed declarations_def)

lemma parse_untag:
  assumes "is_name p" "is_name n"
  shows "parse (CHR ''<'' # CHR ''/'' # p @ CHR '':'' # n @ CHR ''>'' # s)
       (Frame env (p @ CHR '':'' # n) as t ks # Frame env' q' bs t' ks' # st) =
     parse s (Frame env' q' bs t' (ks' @ [close_frame (Frame env (p @ CHR '':'' # n) as t ks)]) # st)"
  using parse_end [of "p @ CHR '':'' # n" s env as t ks env' q' bs t' ks' st] assms
  by (simp add: is_qname_prefixed)

lemma parse_wrapped:
  assumes "writes env v tx kx" "is_name p" "is_name n" "CHR '':'' \<notin> set p"
  shows "parse (CHR ''<'' # p @ CHR '':'' # n @ CHR ''>'' # v @ CHR ''<'' # CHR ''/'' # p @ CHR '':'' # n @ CHR ''>'' # s)
       (Frame env q as t ks # st) =
     parse s (Frame env q as t (ks @ [element env p n tx kx]) # st)"
  using assms by (simp add: parse_tag writesD parse_untag)

end
