(* ===== verification/X1Render.thy ===== *)
theory X1Render
  imports Report Xml
begin

text \<open>
  What the element writes on X1: the escaping and the helpers of \<open>src/types/xml.go\<close> and
  \<open>src/x1/response.go\<close>, the bodies of the answers, the templates of \<open>src/x1/x1.go\<close>,
  \<open>src/x1/report.go\<close> and \<open>src/x1/trigger.go\<close>, timestamps and the two forms of an address. A template is
  the text it produces; a line of a template that holds one element is written with the helper
  that produces that line.

  An error text is what \<open>fmt.Errorf\<close> makes of its format and arguments; \<open>quote\<close>, the part of
  \<open>%q\<close> that consults the Unicode tables, is an argument.
\<close>

subsection \<open>Error texts\<close>

text \<open>A format with its arguments, each in its plain and in its quoted form.\<close>

fun Sprintf :: "string \<Rightarrow> (string \<times> string) list \<Rightarrow> string" where
  "Sprintf [] args = []"
| "Sprintf [c] args = [c]"
| "Sprintf (c # v # f) args =
     (if c \<noteq> CHR ''%'' then c # Sprintf (v # f) args
      else case args of
        [] \<Rightarrow> c # v # Sprintf f []
      | (p, quoted) # rest \<Rightarrow> (if v = CHR ''q'' then quoted else p) @ Sprintf f rest)"

fun error_text :: "(string \<Rightarrow> string) \<Rightarrow> reason \<Rightarrow> string"
  and arg_text :: "(string \<Rightarrow> string) \<Rightarrow> arg \<Rightarrow> string \<times> string" where
  "error_text quote (Errorf f args) = Sprintf f (map (arg_text quote) args)"
| "arg_text quote (S s) = (s, quote s)"
| "arg_text quote (N n) = (FormatUint n, FormatUint n)"
| "arg_text quote (W r) = (let t = error_text quote r in (t, quote t))"

subsection \<open>Timestamps\<close>

text \<open>
  \<open>x1Timestamp\<close> of a time in UTC, in nanoseconds since 1970: the layout prints four digits of the
  year, two of the month, day, hour, minute and second, and six of the fraction. The calendar
  repeats every 400 years, which are 146097 days.
\<close>

definition pad :: "nat \<Rightarrow> nat \<Rightarrow> string" where
  "pad w n = (let s = FormatUint n in replicate (w - length s) (CHR ''0'') @ s)"

definition leap :: "int \<Rightarrow> bool" where
  "leap y \<longleftrightarrow> y mod 4 = 0 \<and> (y mod 100 \<noteq> 0 \<or> y mod 400 = 0)"

definition month_lengths :: "int \<Rightarrow> nat list" where
  "month_lengths y = [31, if leap y then 29 else 28, 31, 30, 31, 30, 31, 31, 30, 31, 30, 31]"

function year_walk :: "int \<Rightarrow> nat \<Rightarrow> int \<times> nat" where
  "year_walk y d = (let n = sum_list (month_lengths y) in if d < n then (y, d) else year_walk (y + 1) (d - n))"
  by auto
termination
  by (relation "measure snd") (auto simp: month_lengths_def split: if_splits)

declare year_walk.simps [simp del]

fun month_walk :: "nat \<Rightarrow> nat list \<Rightarrow> nat \<Rightarrow> nat \<times> nat" where
  "month_walk m [] d = (m, d)"
| "month_walk m (n # ns) d = (if d < n then (m, d) else month_walk (m + 1) ns (d - n))"

definition civil :: "int \<Rightarrow> int \<times> nat \<times> nat" where
  "civil days =
     (let (y, doy) = year_walk 1970 (nat (days mod 146097));
          (m, d) = month_walk 1 (month_lengths y) doy
      in (y + 400 * (days div 146097), m, d + 1))"

definition year_text :: "int \<Rightarrow> string" where
  "year_text y = (if y < 0 then ''-'' @ pad 4 (nat (- y)) else pad 4 (nat y))"

definition x1Timestamp :: "int \<Rightarrow> string" where
  "x1Timestamp t =
     (let (y, m, d) = civil (t div 86400000000000);
          ns = nat (t mod 86400000000000);
          sec = ns div 1000000000
      in year_text y @ ''-'' @ pad 2 m @ ''-'' @ pad 2 d @ ''T'' @
         pad 2 (sec div 3600) @ '':'' @ pad 2 (sec mod 3600 div 60) @ '':'' @ pad 2 (sec mod 60) @ ''.'' @
         pad 6 (ns mod 1000000000 div 1000) @ ''Z'')"

subsection \<open>Emission helpers\<close>

definition newline :: string where "newline = [CHR 0x0A]"

definition escapeXML :: "string \<Rightarrow> string" where
  "escapeXML s = EscapeText s"

definition escapeXMLText :: "string \<Rightarrow> string" where
  "escapeXMLText s = EscapeText s"

definition indent :: "nat \<Rightarrow> string" where
  "indent n = replicate n (CHR '' '')"

definition open_tag :: "nat \<Rightarrow> string \<Rightarrow> string" where
  "open_tag ind name = indent ind @ ''<ns1:'' @ name @ ''>'' @ newline"

definition close_tag :: "nat \<Rightarrow> string \<Rightarrow> string" where
  "close_tag ind name = indent ind @ ''</ns1:'' @ name @ ''>'' @ newline"

definition el :: "nat \<Rightarrow> string \<Rightarrow> string \<Rightarrow> string" where
  "el ind name v = indent ind @ ''<ns1:'' @ name @ ''>'' @ v @ ''</ns1:'' @ name @ ''>'' @ newline"

definition openNS :: "nat \<Rightarrow> string \<Rightarrow> string \<Rightarrow> string" where
  "openNS ind ns name = indent ind @ ''<'' @ ns @ '':'' @ name @ ''>'' @ newline"

definition closeNS :: "nat \<Rightarrow> string \<Rightarrow> string \<Rightarrow> string" where
  "closeNS ind ns name = indent ind @ ''</'' @ ns @ '':'' @ name @ ''>'' @ newline"

definition elNS :: "nat \<Rightarrow> string \<Rightarrow> string \<Rightarrow> string \<Rightarrow> string" where
  "elNS ind ns name v = indent ind @ ''<'' @ ns @ '':'' @ name @ ''>'' @ v @ ''</'' @ ns @ '':'' @ name @ ''>'' @ newline"

subsection \<open>Addresses\<close>

text \<open>
  \<open>net.ParseIP\<close>, which refuses a zone, as sixteen octets, and \<open>To4\<close>, which also takes an IPv4
  address mapped into IPv6.
\<close>

definition v4InV6Prefix :: "nat list" where
  "v4InV6Prefix = replicate 10 0 @ [255, 255]"

definition ParseIP :: "string \<Rightarrow> nat list option" where
  "ParseIP s =
     (case ParseAddr s of
        Some (Addr4 b) \<Rightarrow> Some (v4InV6Prefix @ b)
      | Some (Addr6 b zone) \<Rightarrow> if zone = '''' then Some b else None
      | None \<Rightarrow> None)"

definition To4 :: "nat list \<Rightarrow> nat list option" where
  "To4 b = (if take 12 b = v4InV6Prefix then Some (drop 12 b) else None)"

definition dotted :: "nat list \<Rightarrow> string" where
  "dotted b = Join (map FormatUint b) ''.''"

definition isIPv6 :: "string \<Rightarrow> bool" where
  "isIPv6 addr \<longleftrightarrow> CHR '':'' \<in> set addr"

definition addressElement :: "string \<Rightarrow> string" where
  "addressElement addr = (if isIPv6 addr then ''IPv6Address'' else ''IPv4Address'')"

definition hex2 :: "nat \<Rightarrow> string" where
  "hex2 n = [hex_digit (n div 16 mod 16), hex_digit (n mod 16)]"

fun expandIPv6 :: "nat list \<Rightarrow> string" where
  "expandIPv6 (a # b # c # d # bs) = hex2 a @ hex2 b @ '':'' @ expandIPv6 (c # d # bs)"
| "expandIPv6 (a # b # bs) = hex2 a @ hex2 b"
| "expandIPv6 bs = []"

definition addressArm :: "string \<Rightarrow> string \<times> string" where
  "addressArm addr =
     (case ParseIP addr of
        None \<Rightarrow> (addressElement addr, addr)
      | Some ip \<Rightarrow>
          (case To4 ip of
             Some b \<Rightarrow> (''IPv4Address'', dotted b)
           | None \<Rightarrow> (''IPv6Address'', expandIPv6 ip)))"

subsection \<open>Target identifiers\<close>

definition XMLFragment :: "TargetIdentifier \<Rightarrow> string option" where
  "XMLFragment t =
     (case XMLElement (tiType t) of
        None \<Rightarrow> None
      | Some e \<Rightarrow> Some (''<'' @ e @ ''>'' @ escapeXMLText (tiValue t) @ ''</'' @ e @ ''>''))"

fun fragments_loop :: "TargetIdentifier list \<Rightarrow> string list \<Rightarrow> string list" where
  "fragments_loop [] out = out"
| "fragments_loop (t # ids) out =
     fragments_loop ids (case XMLFragment t of Some f \<Rightarrow> out @ [f] | None \<Rightarrow> out)"

definition XMLFragments :: "TargetIdentifier list \<Rightarrow> string list" where
  "XMLFragments ids = fragments_loop ids []"

text \<open>The local function \<open>el\<close> of \<open>extensionTargetArm\<close>.\<close>

definition ext_el :: "string \<Rightarrow> string \<Rightarrow> string" where
  "ext_el name v = ''<ext:'' @ name @ ''>'' @ escapeXML v @ ''</ext:'' @ name @ ''>''"

text \<open>\<open>strings.Cut\<close> at a character.\<close>

definition Cut :: "string \<Rightarrow> char \<Rightarrow> string \<times> string \<times> bool" where
  "Cut s c =
     (case dropWhile (\<lambda>d. d \<noteq> c) s of
        [] \<Rightarrow> (s, '''', False)
      | _ # r \<Rightarrow> (takeWhile (\<lambda>d. d \<noteq> c) s, r, True))"

definition extensionTargetArm :: "TargetIdentifier \<Rightarrow> string option" where
  "extensionTargetArm t =
     (case tiType t of
        TargetFSEID \<Rightarrow> Some (''<ext:FSEID>'' @ ext_el ''SEID'' (tiValue t) @ ''</ext:FSEID>'')
      | TargetFTEID \<Rightarrow>
          (let (teid, addr, hasAddr) = Cut (tiValue t) (CHR ''@'');
               arm = ''<ext:FTEID>'' @ ext_el ''TEID'' teid;
               arm = (if hasAddr then let (name, v) = addressArm addr in arm @ ext_el name v else arm)
           in Some (arm @ ''</ext:FTEID>''))
      | TargetPDRID \<Rightarrow> Some (ext_el ''PDRID'' (tiValue t))
      | TargetQERID \<Rightarrow> Some (ext_el ''QERID'' (tiValue t))
      | TargetNetworkInstance \<Rightarrow> Some (ext_el ''NetworkInstance'' (tiValue t))
      | TargetGTPTunnelDirection \<Rightarrow> Some (ext_el ''GTPTunnelDirection'' (tiValue t))
      | TargetPDR \<Rightarrow> Some (ext_el ''PDR'' (tiValue t))
      | _ \<Rightarrow> None)"

definition targetXML :: "TargetIdentifier \<Rightarrow> string" where
  "targetXML t =
     (case XMLElement (tiType t) of
        Some e \<Rightarrow> ''<ns1:'' @ e @ ''>'' @ escapeXML (tiValue t) @ ''</ns1:'' @ e @ ''>''
      | None \<Rightarrow>
          (case extensionTargetArm t of
             None \<Rightarrow> ''''
           | Some arm \<Rightarrow>
               ''<ns1:targetIdentifierExtension>'' @ ''<ns1:Owner>'' @ ExtensionOwner3GPP @ ''</ns1:Owner>'' @
               ''<ext:UPFLIT3TargetIdentifierExtensions>'' @ ''<ext:UPFLIT3TargetIdentifier>'' @ arm @
               ''</ext:UPFLIT3TargetIdentifier>'' @ ''</ext:UPFLIT3TargetIdentifierExtensions>'' @
               ''</ns1:targetIdentifierExtension>''))"

subsection \<open>Answers\<close>

text \<open>A fault as it is written: its code and its description.\<close>

definition fault_of :: "(string \<Rightarrow> string) \<Rightarrow> X1Error \<Rightarrow> nat \<times> string" where
  "fault_of quote e = (ErrorCode e, error_text quote (ErrorDescription e))"

definition unresolvedFault :: "nat \<Rightarrow> nat \<times> string \<Rightarrow> string" where
  "unresolvedFault ind f =
     open_tag (ind + 2) ''unresolvedFault'' @
     el (ind + 4) ''errorCode'' (FormatUint (fst f)) @
     el (ind + 4) ''errorDescription'' (escapeXML (snd f)) @
     close_tag (ind + 2) ''unresolvedFault''"

definition listOfFaults :: "nat \<Rightarrow> (nat \<times> string) list \<Rightarrow> string" where
  "listOfFaults ind fs =
     (if fs = [] then indent ind @ ''<ns1:listOfFaults/>'' @ newline
      else open_tag ind ''listOfFaults'' @ concat (map (unresolvedFault ind) fs) @ close_tag ind ''listOfFaults'')"

definition neStatusDetails :: "nat \<Rightarrow> (nat \<times> string) list \<Rightarrow> string" where
  "neStatusDetails ind fs =
     (let status = (if fs \<noteq> [] then ''Faults'' else ''OK'') in
      open_tag ind ''neStatusDetails'' @ el (ind + 2) ''neStatus'' status @ listOfFaults (ind + 2) fs @
      close_tag ind ''neStatusDetails'')"

definition deliveryAddress :: "nat \<Rightarrow> string \<Rightarrow> string" where
  "deliveryAddress ind address =
     (case SplitHostPort address of
        None \<Rightarrow> ''''
      | Some (host, port) \<Rightarrow>
          open_tag ind ''ipAddressAndPort'' @
          openNS (ind + 2) ''c'' ''address'' @
          (case ParseIP host of
             Some ip \<Rightarrow> (if To4 ip = None then elNS (ind + 4) ''c'' ''IPv6Address'' (escapeXML host)
                         else elNS (ind + 4) ''c'' ''IPv4Address'' (escapeXML host))
           | None \<Rightarrow> elNS (ind + 4) ''c'' ''IPv4Address'' (escapeXML host)) @
          closeNS (ind + 2) ''c'' ''address'' @
          openNS (ind + 2) ''c'' ''port'' @
          elNS (ind + 4) ''c'' ''TCPPort'' (escapeXML port) @
          closeNS (ind + 2) ''c'' ''port'' @
          close_tag ind ''ipAddressAndPort'')"

definition destinationProvenance :: "ReportedDestination \<Rightarrow> string" where
  "destinationProvenance d =
     (let note = (if rdConfigured d then ''declared in this element's configuration, not provisioned over X1''
                  else if ShadowsConfigured d then ''provisioned over X1, superseding a configured entry for this DID''
                  else ''provisioned over X1'')
      in if rdFriendlyName d = '''' then note else rdFriendlyName d @ '' ('' @ note @ '')'')"

definition destinationResponseDetails :: "nat \<Rightarrow> ReportedDestination \<Rightarrow> string" where
  "destinationResponseDetails ind d =
     (let (status, fs) =
        (if X1Server.ReportedDestination.Unreachable d then (''deliveryFault'', [(issueCodeNonTerminatingFault, ''delivery destination is unreachable'')])
         else (''activeAndWorking'', []))
      in open_tag ind ''destinationResponseDetails'' @
         open_tag (ind + 2) ''destinationDetails'' @
         el (ind + 4) ''dId'' (escapeXML (rdDID d)) @
         el (ind + 4) ''friendlyName'' (escapeXML (destinationProvenance d)) @
         el (ind + 4) ''deliveryType'' (escapeXML (rdDeliveryType d)) @
         open_tag (ind + 4) ''deliveryAddress'' @
         deliveryAddress (ind + 6) (rdAddress d) @
         close_tag (ind + 4) ''deliveryAddress'' @
         close_tag (ind + 2) ''destinationDetails'' @
         open_tag (ind + 2) ''destinationStatus'' @
         el (ind + 4) ''destinationDeliveryStatus'' status @
         listOfFaults (ind + 4) fs @
         close_tag (ind + 2) ''destinationStatus'' @
         close_tag ind ''destinationResponseDetails'')"

definition taskStatus :: "nat \<Rightarrow> (nat \<times> string) list \<Rightarrow> string" where
  "taskStatus ind fs =
     open_tag ind ''taskStatus'' @ el (ind + 2) ''provisioningStatus'' ''complete'' @ listOfFaults (ind + 2) fs @
     close_tag ind ''taskStatus''"

definition taskResponseDetails :: "nat \<Rightarrow> InterceptTask \<Rightarrow> (nat \<times> string) list \<Rightarrow> string" where
  "taskResponseDetails ind t fs =
     open_tag ind ''taskResponseDetails'' @
     open_tag (ind + 2) ''taskDetails'' @
     el (ind + 4) ''xId'' (escapeXML (XID t)) @
     open_tag (ind + 4) ''targetIdentifiers'' @
     concat (map (\<lambda>id. el (ind + 6) ''targetIdentifier'' (targetXML id)) (Targets t)) @
     close_tag (ind + 4) ''targetIdentifiers'' @
     el (ind + 4) ''deliveryType'' (deliveryTypeOf (Products t)) @
     open_tag (ind + 4) ''listOfDIDs'' @
     concat (map (\<lambda>did. el (ind + 6) ''dId'' (escapeXML did)) (DIDs t)) @
     close_tag (ind + 4) ''listOfDIDs'' @
     close_tag (ind + 2) ''taskDetails'' @
     taskStatus (ind + 2) fs @
     close_tag ind ''taskResponseDetails''"

text \<open>The faults of a task: \<open>m.TaskFaults[t.XID]\<close>, nil when there is no entry.\<close>

definition faults_of_task :: "(string \<Rightarrow> string) \<Rightarrow> X1ResponseMessage \<Rightarrow> InterceptTask \<Rightarrow> (nat \<times> string) list" where
  "faults_of_task quote m t =
     map (fault_of quote) (case map_of (rsTaskFaults m) (XID t) of Some es \<Rightarrow> es | None \<Rightarrow> [])"

definition requestMessageTypes :: "string list" where
  "requestMessageTypes =
     [''ActivateTask'', ''ModifyTask'', ''DeactivateTask'', ''DeactivateAllTasks'', ''GetTaskDetails'',
      ''CreateDestination'', ''ModifyDestination'', ''RemoveDestination'', ''RemoveAllDestinations'',
      ''GetDestinationDetails'', ''GetNEStatus'', ''GetAllDetails'', ''GetAllTaskDetails'',
      ''GetAllDestinationDetails'', ''GetAllGenericObjectDetails'', ''ListAllDetails'', ''ReportTaskIssue'',
      ''ReportDestinationIssue'', ''ReportNEIssue'', ''Ping'', ''Keepalive'', ''CreateObject'', ''ModifyObject'',
      ''GetObject'', ''DeleteObject'', ''ListObjectsOfType'', ''DeleteAllObjects'', ''ExtendedRequestMessageType'']"

definition TrimSuffix :: "string \<Rightarrow> string \<Rightarrow> string" where
  "TrimSuffix s suf =
     (if length suf \<le> length s \<and> drop (length s - length suf) s = suf
      then take (length s - length suf) s else s)"

definition requestMessageType :: "string \<Rightarrow> string" where
  "requestMessageType requestType =
     (let name = TrimSuffix requestType ''Request''
      in if name \<in> set requestMessageTypes then name else ''ExtendedRequestMessageType'')"

definition errorBody :: "(string \<Rightarrow> string) \<Rightarrow> X1ResponseMessage \<Rightarrow> string" where
  "errorBody quote m =
     el 4 ''requestMessageType'' (requestMessageType (rsRequestType m)) @
     open_tag 4 ''errorInformation'' @
     (case rsErrorInformation m of
        None \<Rightarrow> ''''
      | Some e \<Rightarrow>
          el 6 ''errorCode'' (FormatUint (ErrorCode e)) @
          el 6 ''errorDescription'' (escapeXML (error_text quote (ErrorDescription e)))) @
     close_tag 4 ''errorInformation''"

definition listBody :: "string \<Rightarrow> string \<Rightarrow> string" where
  "listBody name items = open_tag 4 name @ items @ close_tag 4 name"

definition task_items :: "(string \<Rightarrow> string) \<Rightarrow> X1ResponseMessage \<Rightarrow> string" where
  "task_items quote m = concat (map (\<lambda>t. taskResponseDetails 6 t (faults_of_task quote m t)) (rsTasks m))"

definition destination_items :: "X1ResponseMessage \<Rightarrow> string" where
  "destination_items m = concat (map (destinationResponseDetails 6) (rsDestinations m))"

definition allDetailsBody :: "(string \<Rightarrow> string) \<Rightarrow> X1ResponseMessage \<Rightarrow> string" where
  "allDetailsBody quote m =
     neStatusDetails 4 (map (fault_of quote) (rsFaults m)) @
     open_tag 4 ''listOfTaskResponseDetails'' @ task_items quote m @ close_tag 4 ''listOfTaskResponseDetails'' @
     open_tag 4 ''listOfDestinationResponseDetails'' @ destination_items m @
     close_tag 4 ''listOfDestinationResponseDetails''"

definition listAllDetailsBody :: "X1ResponseMessage \<Rightarrow> string" where
  "listAllDetailsBody m =
     open_tag 4 ''ListOfXIDs'' @
     concat (map (\<lambda>t. el 6 ''xId'' (escapeXML (XID t))) (rsTasks m)) @
     close_tag 4 ''ListOfXIDs'' @
     open_tag 4 ''ListOfDIDs'' @
     concat (map (\<lambda>d. el 6 ''dId'' (escapeXML (rdDID d))) (rsDestinations m)) @
     close_tag 4 ''ListOfDIDs''"

definition taskDetailsBody :: "(string \<Rightarrow> string) \<Rightarrow> X1ResponseMessage \<Rightarrow> string" where
  "taskDetailsBody quote m =
     (case rsTasks m of
        [] \<Rightarrow> ''''
      | t # _ \<Rightarrow> taskResponseDetails 4 t (faults_of_task quote m t))"

definition responseBody :: "(string \<Rightarrow> string) \<Rightarrow> X1ResponseMessage \<Rightarrow> string" where
  "responseBody quote m =
     (if rsType m = errorResponse then errorBody quote m
      else if rsType m = ''GetAllDetailsResponse'' then allDetailsBody quote m
      else if rsType m = ''GetTaskDetailsResponse'' then taskDetailsBody quote m
      else if rsType m = ''GetAllTaskDetailsResponse'' then listBody ''listOfTaskResponseDetails'' (task_items quote m)
      else if rsType m = ''GetAllDestinationDetailsResponse''
      then listBody ''listOfDestinationResponseDetails'' (destination_items m)
      else if rsType m = ''GetDestinationDetailsResponse''
      then (case rsDestinations m of [] \<Rightarrow> '''' | d # _ \<Rightarrow> destinationResponseDetails 4 d)
      else if rsType m = ''GetNEStatusResponse'' then neStatusDetails 4 (map (fault_of quote) (rsFaults m))
      else if rsType m = ''ListAllDetailsResponse'' then listAllDetailsBody m
      else if rsType m = ''GetAllGenericObjectDetailsResponse'' then ''''
      else if rsOK m \<noteq> '''' then el 4 ''oK'' (escapeXML (rsOK m))
      else '''')"

subsection \<open>Templates\<close>

definition Namespace :: string where
  "Namespace = ''http://uri.etsi.org/03221/X1/2017/10''"

definition NamespaceXSI :: string where
  "NamespaceXSI = ''http://www.w3.org/2001/XMLSchema-instance''"

definition NamespaceX1Ext3GPP :: string where
  "NamespaceX1Ext3GPP = ''urn:3GPP:ns:li:3GPPX1Extensions:r18:v6''"

definition NamespaceCommon :: string where
  "NamespaceCommon = ''http://uri.etsi.org/03280/common/2017/07''"



definition xml_declaration :: string where
  "xml_declaration = declaration_text @ newline"

text \<open>A start tag with its attributes, and the five lines every message begins with.\<close>

definition start_tag :: "string \<Rightarrow> (string \<times> string) list \<Rightarrow> string" where
  "start_tag n as = ''<'' @ n @ concat (map attr_text as) @ ''>''"

definition header_lines :: "string \<Rightarrow> string \<Rightarrow> string \<Rightarrow> string \<Rightarrow> string \<Rightarrow> string" where
  "header_lines adm ne stamp ver tx =
     el 4 ''admfIdentifier'' (escapeXML adm) @ el 4 ''neIdentifier'' (escapeXML ne) @
     el 4 ''messageTimestamp'' (escapeXML stamp) @ el 4 ''version'' ver @
     el 4 ''x1TransactionId'' (escapeXML tx)"

definition response_item :: "(string \<Rightarrow> string) \<Rightarrow> X1ResponseMessage \<Rightarrow> string" where
  "response_item quote m =
     newline @ indent 2 @ start_tag ''ns1:x1ResponseMessage'' [(''xsi:type'', ''ns1:'' @ rsType m)] @ newline @
     header_lines (rsAdmfIdentifier (rsHeader m)) (rsNeIdentifier (rsHeader m))
       (x1Timestamp (rsMessageTimestamp (rsHeader m))) (escapeXML (rsVersion (rsHeader m))) (rsTransactionID (rsHeader m)) @
     responseBody quote m @ ''</ns1:x1ResponseMessage>''"

definition marshalResponse :: "(string \<Rightarrow> string) \<Rightarrow> X1ResponseMessage list \<Rightarrow> string" where
  "marshalResponse quote ms =
     xml_declaration @
     start_tag ''ns1:X1Response''
       [(''xmlns:ns1'', Namespace), (''xmlns:xsi'', NamespaceXSI), (''xmlns:ext'', NamespaceX1Ext3GPP),
        (''xmlns:c'', NamespaceCommon)] @
     concat (map (response_item quote) ms) @ newline @ ''</ns1:X1Response>''"

definition topLevelErrorTemplate :: "X1ResponseHeader \<Rightarrow> string" where
  "topLevelErrorTemplate h =
     xml_declaration @ start_tag ''ns1:X1TopLevelErrorResponse'' [(''xmlns:ns1'', Namespace)] @ newline @
     el 2 ''admfIdentifier'' (escapeXML (rsAdmfIdentifier h)) @ el 2 ''neIdentifier'' (escapeXML (rsNeIdentifier h)) @
     el 2 ''messageTimestamp'' (escapeXML (x1Timestamp (rsMessageTimestamp h))) @
     el 2 ''version'' (escapeXML (rsVersion h)) @ ''</ns1:X1TopLevelErrorResponse>''"

text \<open>
  A request: the envelope with the namespaces its template declares, the type of the message, the
  header and the rest.
\<close>

definition request_document :: "(string \<times> string) list \<Rightarrow> string \<Rightarrow> string \<Rightarrow> string \<Rightarrow> string" where
  "request_document extra type head body =
     xml_declaration @
     start_tag ''ns1:X1Request'' ([(''xmlns:ns1'', Namespace), (''xmlns:xsi'', NamespaceXSI)] @ extra) @ newline @
     indent 2 @ start_tag ''ns1:x1RequestMessage'' [(''xsi:type'', ''ns1:'' @ type)] @ newline @
     head @ body @ close_tag 2 ''x1RequestMessage'' @ ''</ns1:X1Request>''"

definition report_lines :: "report_header \<Rightarrow> string" where
  "report_lines h = header_lines (rhAdmfID h) (rhNeID h) (x1Timestamp (rhTimestamp h)) supportedVersion (rhTxID h)"

definition reportTemplate :: "report_header \<Rightarrow> string \<Rightarrow> nat \<Rightarrow> string \<Rightarrow> string" where
  "reportTemplate h kind code description =
     request_document [] ''ReportNEIssueRequest'' (report_lines h)
       (el 4 ''typeOfNeIssueMessage'' (escapeXML kind) @ el 4 ''description'' (escapeXML description) @
        (if code \<noteq> 0 then el 4 ''issueCode'' (FormatUint code) else ''''))"

definition reportTaskTemplate :: "report_header \<Rightarrow> string \<Rightarrow> string \<Rightarrow> string \<Rightarrow> string" where
  "reportTaskTemplate h x reportType details =
     request_document [] ''ReportTaskIssueRequest'' (report_lines h)
       (el 4 ''xId'' (escapeXML x) @ el 4 ''taskReportType'' (escapeXML reportType) @
        (if details \<noteq> '''' then el 4 ''taskIssueDetails'' (escapeXML details) else ''''))"

definition reportDestinationTemplate :: "report_header \<Rightarrow> string \<Rightarrow> string \<Rightarrow> string \<Rightarrow> string" where
  "reportDestinationTemplate h did reportType details =
     request_document [] ''ReportDestinationIssueRequest'' (report_lines h)
       (el 4 ''dId'' (escapeXML did) @ el 4 ''destinationReportType'' (escapeXML reportType) @
        (if details \<noteq> '''' then el 4 ''destinationIssueDetails'' (escapeXML details) else ''''))"

definition render_report :: "report \<Rightarrow> string" where
  "render_report m =
     (case m of
        NEIssue h kind code description \<Rightarrow> reportTemplate h kind code description
      | TaskIssue h x reportType details \<Rightarrow> reportTaskTemplate h x reportType details
      | DestinationIssue h did reportType details \<Rightarrow> reportDestinationTemplate h did reportType details)"

end
