(* ===== verification/X1Wire.thy ===== *)
theory X1Wire
  imports X1Render
begin

text \<open>
  What a reader gets from the messages of \<open>X1Render\<close>. For each helper, body and template: the
  element it is, with the values it carries.
\<close>

subsection \<open>Helpers\<close>

lemma space_indent [simp]: "list_all space_char (indent n)"
  by (simp add: indent_def space_char_def code_of_def list_all_iff)

lemma space_newline [simp]: "list_all space_char newline"
  by (simp add: newline_def space_char_def code_of_def)

lemma space_concat [simp]: "list_all space_char t \<Longrightarrow> list_all space_char (concat (map (\<lambda>_. t) xs))"
  by (induction xs) simp_all

lemma code_of_literal [simp]: "code_of (Char b0 b1 b2 b3 b4 b5 b6 b7) = of_char (Char b0 b1 b2 b3 b4 b5 b6 b7)"
  by (simp add: code_of_def)

lemma space_text: "list_all space_char s \<Longrightarrow> list_all text_char s \<and> clean s"
proof (induction s)
  case (Cons c s)
  then have "text_char c" "clean (c # s) \<longleftrightarrow> clean s"
    by (auto simp: space_char_def text_char_def clean_Cons isInCharacterRange_def)
  with Cons show ?case by simp
qed simp

lemma parse_space: "list_all space_char w \<Longrightarrow>
  parse (w @ s) (Frame env q as t ks # st) = parse s (Frame env q as (t @ w) ks # st)"
  using parse_chars space_text by simp

lemma clean_layout [simp]: "clean (indent n)" "clean newline"
  using space_text space_indent space_newline by blast+

lemma is_name_prefixes: "is_name ''ns1''" "is_name ''c''" "is_name ''ext''"
  by (simp_all add: is_name_def name_char_def name_start_def code_of_def)



lemma clean_helpers [simp]:
  "is_name n \<Longrightarrow> clean (open_tag ind n)" "is_name n \<Longrightarrow> clean (close_tag ind n)"
  "is_name p \<Longrightarrow> is_name n \<Longrightarrow> clean (openNS ind p n)" "is_name p \<Longrightarrow> is_name n \<Longrightarrow> clean (closeNS ind p n)"
  "is_name n \<Longrightarrow> clean v \<Longrightarrow> clean (el ind n v)" "is_name p \<Longrightarrow> is_name n \<Longrightarrow> clean v \<Longrightarrow> clean (elNS ind p n v)"
  "clean (escapeXML v)"
  by (simp_all add: open_tag_def close_tag_def openNS_def closeNS_def el_def elNS_def clean_name escapeXML_def)

text \<open>A prefixed name, kept as one term.\<close>

definition qname :: "string \<Rightarrow> string \<Rightarrow> string" where
  "qname p n = p @ CHR '':'' # n"

lemma parse_open [reading]:
  "is_name n \<Longrightarrow> parse (open_tag ind n @ s) (Frame env q as t ks # st) =
     parse s (Frame env (qname ''ns1'' n) [] newline [] # Frame env q as (t @ indent ind) ks # st)"
  using parse_tag [of "''ns1''" n] is_name_prefixes by (simp add: open_tag_def parse_space qname_def)

text \<open>
  An element with elements in it, closed at a given indentation: between them is only layout.
\<close>

definition box :: "(string \<times> string) list \<Rightarrow> string \<Rightarrow> nat \<Rightarrow> string \<Rightarrow> node list \<Rightarrow> node" where
  "box env p ind n ks = Node (resolve_prefix env p) n [] (if ks = [] then newline @ indent ind else '''') ks"

lemma element_box:
  "list_all space_char t \<Longrightarrow> (ks = [] \<longrightarrow> t = newline) \<Longrightarrow> element env p n (t @ indent ind) ks = box env p ind n ks"
  by (auto simp: element_def box_def content_text_def)

lemma close_frame_ns1: "close_frame (Frame env (qname ''ns1'' n) [] t ks) = element env ''ns1'' n t ks"
  using close_frame_prefix [of "''ns1''" env n t ks] by (simp add: qname_def)

lemma parse_close [reading]:
  "is_name n \<Longrightarrow> list_all space_char t \<Longrightarrow> (ks = [] \<longrightarrow> t = newline) \<Longrightarrow>
   parse (close_tag ind n @ s) (Frame env (qname ''ns1'' n) [] t ks # Frame env' q' bs t' ks' # st) =
     parse s (Frame env' q' bs (t' @ newline) (ks' @ [box env ''ns1'' ind n ks]) # st)"
  using parse_untag [of "''ns1''" n] is_name_prefixes close_frame_ns1 [of env n "t @ indent ind" ks]
  by (simp add: close_tag_def parse_space qname_def element_box)

lemma parse_openNS [reading]:
  "is_name p \<Longrightarrow> is_name n \<Longrightarrow> parse (openNS ind p n @ s) (Frame env q as t ks # st) =
     parse s (Frame env (qname p n) [] newline [] # Frame env q as (t @ indent ind) ks # st)"
  using parse_tag [of p n] by (simp add: openNS_def parse_space qname_def)

lemma parse_closeNS [reading]:
  "is_name p \<Longrightarrow> is_name n \<Longrightarrow> CHR '':'' \<notin> set p \<Longrightarrow> list_all space_char t \<Longrightarrow> (ks = [] \<longrightarrow> t = newline) \<Longrightarrow>
   parse (closeNS ind p n @ s) (Frame env (qname p n) [] t ks # Frame env' q' bs t' ks' # st) =
     parse s (Frame env' q' bs (t' @ newline) (ks' @ [box env p ind n ks]) # st)"
  using parse_untag [of p n] by (simp add: closeNS_def parse_space qname_def element_box)

lemma writes_el:
  assumes "writes env v tx kx" "is_name n"
  shows "writes env (el ind n v) (indent ind @ newline) [element env ''ns1'' n tx kx]"
  by (rule writesI)
    (use assms parse_wrapped [OF assms(1) is_name_prefixes(1) assms(2)] in \<open>simp_all add: el_def parse_space clean_name\<close>)

lemma writes_elNS:
  assumes "writes env v tx kx" "is_name p" "is_name n" "CHR '':'' \<notin> set p"
  shows "writes env (elNS ind p n v) (indent ind @ newline) [element env p n tx kx]"
  by (rule writesI) (use assms parse_wrapped [OF assms] in \<open>simp_all add: elNS_def parse_space clean_name\<close>)

definition leaf :: "(string \<times> string) list \<Rightarrow> string \<Rightarrow> string \<Rightarrow> string \<Rightarrow> node" where
  "leaf env p n v = Node (resolve_prefix env p) n [] v []"

lemma element_leaf [simp]: "element env p n v [] = leaf env p n v"
  by (simp add: element_def leaf_def content_text_def)

lemma parse_el [reading]:
  "is_name n \<Longrightarrow> parse (el ind n (escapeXML v) @ s) (Frame env q as t ks # st) =
     parse s (Frame env q as (t @ indent ind @ newline) (ks @ [leaf env ''ns1'' n (carried v)]) # st)"
  using writesD [OF writes_el [OF writes_escape]] by (simp add: escapeXML_def)

lemma parse_el_plain [reading]:
  "is_name n \<Longrightarrow> plain v \<Longrightarrow> parse (el ind n v @ s) (Frame env q as t ks # st) =
     parse s (Frame env q as (t @ indent ind @ newline) (ks @ [leaf env ''ns1'' n v]) # st)"
  using writesD [OF writes_el [OF writes_plain]] by simp

lemma parse_elNS [reading]:
  "is_name p \<Longrightarrow> is_name n \<Longrightarrow> CHR '':'' \<notin> set p \<Longrightarrow> parse (elNS ind p n (escapeXML v) @ s) (Frame env q as t ks # st) =
     parse s (Frame env q as (t @ indent ind @ newline) (ks @ [leaf env p n (carried v)]) # st)"
  using writesD [OF writes_elNS [OF writes_escape]] by (simp add: escapeXML_def)

lemma plain_FormatUint [simp]: "plain (FormatUint n)"
proof -
  have "text_char c \<and> 32 \<le> code_of c \<and> code_of c < 128" if "is_digit c" for c
    using that by (auto simp: is_digit_def text_char_def)
  with FormatUint_digits [of n] show ?thesis by (auto simp: plain_def list_all_iff)
qed

lemma plain_literals [simp]:
  "plain ''OK''" "plain ''Faults''" "plain ''deliveryFault''" "plain ''activeAndWorking''" "plain ''complete''" "plain ''3GPP''"
  "plain ''X2Only''" "plain ''X3Only''" "plain ''X2andX3''" "plain ''v1.6.1''"
  by (simp_all add: plain_def text_char_def)

lemma plain_clean [simp]: "plain s \<Longrightarrow> clean s"
  using plain_text by blast

text \<open>The names that occur.\<close>

definition element_names :: "string list" where
  "element_names =
     [''unresolvedFault'', ''errorCode'', ''errorDescription'', ''listOfFaults'', ''neStatusDetails'', ''neStatus'',
      ''ipAddressAndPort'', ''address'', ''IPv4Address'', ''IPv6Address'', ''port'', ''TCPPort'', ''c'', ''ext'',
      ''destinationResponseDetails'', ''destinationDetails'', ''dId'', ''friendlyName'', ''deliveryType'',
      ''deliveryAddress'', ''destinationStatus'', ''destinationDeliveryStatus'', ''taskStatus'', ''provisioningStatus'',
      ''taskResponseDetails'', ''taskDetails'', ''xId'', ''targetIdentifiers'', ''targetIdentifier'', ''listOfDIDs'',
      ''requestMessageType'', ''errorInformation'', ''listOfTaskResponseDetails'', ''listOfDestinationResponseDetails'',
      ''ListOfXIDs'', ''ListOfDIDs'', ''oK'', ''admfIdentifier'', ''neIdentifier'', ''messageTimestamp'', ''version'',
      ''x1TransactionId'', ''x1ResponseMessage'', ''X1Response'', ''X1TopLevelErrorResponse'', ''X1Request'',
      ''x1RequestMessage'', ''typeOfNeIssueMessage'', ''description'', ''issueCode'', ''taskReportType'',
      ''taskIssueDetails'', ''destinationReportType'', ''destinationIssueDetails'', ''targetIdentifierExtension'',
      ''Owner'', ''UPFLIT3TargetIdentifierExtensions'', ''UPFLIT3TargetIdentifier'', ''FSEID'', ''SEID'', ''FTEID'',
      ''TEID'', ''PDRID'', ''QERID'', ''NetworkInstance'', ''GTPTunnelDirection'', ''PDR'', ''supiimsi'', ''peiImei'',
      ''gpsiMsisdn'', ''ipv4Address'', ''ipv6Address'', ''tcpPort'', ''udpPort'', ''correlationID'', ''productID'',
      ''ns1'', ''xmlns'', ''xsi'', ''type'']"

lemma element_names_are_names: "list_all is_name element_names"
  by (simp add: element_names_def is_name_def name_char_def name_start_def code_of_def)

lemma element_name: "n \<in> set element_names \<Longrightarrow> is_name n"
  using element_names_are_names by (simp add: list_all_iff)

lemmas names [simp] = element_names_are_names [unfolded element_names_def, unfolded list.pred_inject]

subsection \<open>Answers\<close>

text \<open>The elements of the answers, with the values they carry.\<close>

definition fault_node :: "(string \<times> string) list \<Rightarrow> nat \<Rightarrow> nat \<times> string \<Rightarrow> node" where
  "fault_node env ind f =
     box env ''ns1'' (ind + 2) ''unresolvedFault''
       [leaf env ''ns1'' ''errorCode'' (FormatUint (fst f)), leaf env ''ns1'' ''errorDescription'' (carried (snd f))]"

lemma writes_unresolvedFault:
  "writes env (unresolvedFault ind f) (indent (ind + 2) @ newline) [fault_node env ind f]"
  by (rule writesI) (simp_all add: unresolvedFault_def reading fault_node_def)


definition faults_node :: "(string \<times> string) list \<Rightarrow> nat \<Rightarrow> (nat \<times> string) list \<Rightarrow> node" where
  "faults_node env ind fs =
     (if fs = [] then leaf env ''ns1'' ''listOfFaults'' ''''
      else box env ''ns1'' ind ''listOfFaults'' (map (fault_node env ind) fs))"

lemma parse_no_faults:
  "parse (''<ns1:listOfFaults/>'' @ s) (Frame env q as t ks # st) =
     parse s (Frame env q as t (ks @ [leaf env ''ns1'' ''listOfFaults'' '''']) # st)"
proof -
  have "read_name (''ns1:listOfFaults'' @ ''/>'' @ s) = Some (''ns1:listOfFaults'', ''/>'' @ s)"
    using is_qname_prefixed [of "''ns1''" "''listOfFaults''"] by (intro read_name_append) (simp_all add: not_name_char)
  moreover have "read_attrs (''/>'' @ s) = Some ([], True, s)"
    by (subst read_attrs.simps) (simp add: space_char_def code_of_def)
  ultimately have "read_token (''<ns1:listOfFaults/>'' @ s) = Some (TEmpty ''ns1:listOfFaults'' [], s)"
    by (simp add: read_token_def text_char_def declaration_text_def)
  moreover have "close_frame (Frame env ''ns1:listOfFaults'' [] '''' []) = leaf env ''ns1'' ''listOfFaults'' ''''"
    using close_frame_ns1 [of env "''listOfFaults''" "''''" "[]"] by (simp add: qname_def)
  ultimately show ?thesis
    using parse_token [of "''<ns1:listOfFaults/>''" s] by (simp add: declarations_def)
qed

lemmas clean_unresolvedFault [simp] = writes_clean [OF writes_unresolvedFault]

lemma writes_listOfFaults: "writes env (listOfFaults ind fs) (indent ind @ newline) [faults_node env ind fs]"
proof (cases "fs = []")
  case True
  show ?thesis
    by (rule writesI) (simp_all add: True listOfFaults_def faults_node_def parse_space parse_no_faults [simplified])
next
  case False
  note items = writesD [OF writes_concat [OF writes_unresolvedFault]]
  show ?thesis by (rule writesI) (simp_all add: False listOfFaults_def faults_node_def reading items clean_concat)
qed

lemmas clean_listOfFaults [simp] = writes_clean [OF writes_listOfFaults]

lemmas parse_listOfFaults [reading] = writesD [OF writes_listOfFaults]

definition status_node :: "(string \<times> string) list \<Rightarrow> nat \<Rightarrow> (nat \<times> string) list \<Rightarrow> node" where
  "status_node env ind fs =
     box env ''ns1'' ind ''neStatusDetails''
       [leaf env ''ns1'' ''neStatus'' (if fs = [] then ''OK'' else ''Faults''), faults_node env (ind + 2) fs]"

lemma writes_neStatusDetails: "writes env (neStatusDetails ind fs) (indent ind @ newline) [status_node env ind fs]"
  by (rule writesI) (simp_all add: neStatusDetails_def Let_def status_node_def reading)

lemmas clean_neStatusDetails [simp] = writes_clean [OF writes_neStatusDetails]

definition address_nodes :: "(string \<times> string) list \<Rightarrow> nat \<Rightarrow> string \<Rightarrow> node list" where
  "address_nodes env ind address =
     (case SplitHostPort address of
        None \<Rightarrow> []
      | Some (host, port) \<Rightarrow>
          [box env ''ns1'' ind ''ipAddressAndPort''
             [box env ''c'' (ind + 2) ''address''
                [leaf env ''c'' (if \<exists>ip. ParseIP host = Some ip \<and> To4 ip = None then ''IPv6Address'' else ''IPv4Address'')
                   (carried host)],
              box env ''c'' (ind + 2) ''port'' [leaf env ''c'' ''TCPPort'' (carried port)]]])"

lemma writes_deliveryAddress:
  "writes env (deliveryAddress ind a) (if SplitHostPort a = None then '''' else indent ind @ newline) (address_nodes env ind a)"
  by (rule writesI)
    (auto simp: deliveryAddress_def address_nodes_def reading split: option.split prod.split)

lemmas clean_deliveryAddress [simp] = writes_clean [OF writes_deliveryAddress]

definition destination_node :: "(string \<times> string) list \<Rightarrow> nat \<Rightarrow> ReportedDestination \<Rightarrow> node" where
  "destination_node env ind d =
     box env ''ns1'' ind ''destinationResponseDetails''
       [box env ''ns1'' (ind + 2) ''destinationDetails''
          [leaf env ''ns1'' ''dId'' (carried (rdDID d)),
           leaf env ''ns1'' ''friendlyName'' (carried (destinationProvenance d)),
           leaf env ''ns1'' ''deliveryType'' (carried (rdDeliveryType d)),
           box env ''ns1'' (ind + 4) ''deliveryAddress'' (address_nodes env (ind + 6) (rdAddress d))],
        box env ''ns1'' (ind + 2) ''destinationStatus''
          [leaf env ''ns1'' ''destinationDeliveryStatus''
             (if X1Server.ReportedDestination.Unreachable d then ''deliveryFault'' else ''activeAndWorking''),
           faults_node env (ind + 4)
             (if X1Server.ReportedDestination.Unreachable d
              then [(issueCodeNonTerminatingFault, ''delivery destination is unreachable'')] else [])]]"

lemma address_nodes_Nil: "address_nodes env ind a = [] \<longleftrightarrow> SplitHostPort a = None"
  by (auto simp: address_nodes_def split: option.split prod.split)

lemma writes_destinationResponseDetails:
  "writes env (destinationResponseDetails ind d) (indent ind @ newline) [destination_node env ind d]"
  by (rule writesI)
    (simp_all add: destinationResponseDetails_def Let_def destination_node_def reading
      writesD [OF writes_deliveryAddress] address_nodes_Nil)

lemmas clean_destinationResponseDetails [simp] = writes_clean [OF writes_destinationResponseDetails]

text \<open>Elements written in one line.\<close>

definition inner :: "(string \<times> string) list \<Rightarrow> string \<Rightarrow> string \<Rightarrow> node list \<Rightarrow> node" where
  "inner env p n ks = Node (resolve_prefix env p) n [] '''' ks"

lemma element_inner [simp]: "element env p n '''' ks = inner env p n ks"
  by (simp add: element_def inner_def content_text_def)

lemma writes_inline:
  assumes "writes env v '''' kx" "is_name n"
  shows "writes env (''<ns1:'' @ n @ ''>'' @ v @ ''</ns1:'' @ n @ ''>'') '''' [inner env ''ns1'' n kx]"
    and "writes env (''<ext:'' @ n @ ''>'' @ v @ ''</ext:'' @ n @ ''>'') '''' [inner env ''ext'' n kx]"
  using assms by (intro writesI;
      use parse_wrapped [OF assms(1) is_name_prefixes(1) assms(2)] parse_wrapped [OF assms(1) is_name_prefixes(3) assms(2)]
        in \<open>simp add: clean_name\<close>)+

lemma writes_inline_text:
  assumes "is_name n" "writes env v tx []"
  shows "writes env (''<ns1:'' @ n @ ''>'' @ v @ ''</ns1:'' @ n @ ''>'') '''' [leaf env ''ns1'' n tx]"
    and "writes env (''<ext:'' @ n @ ''>'' @ v @ ''</ext:'' @ n @ ''>'') '''' [leaf env ''ext'' n tx]"
  using assms by (intro writesI;
      use parse_wrapped [OF assms(2) is_name_prefixes(1) assms(1)] parse_wrapped [OF assms(2) is_name_prefixes(3) assms(1)]
        in \<open>simp add: clean_name\<close>)+

lemma writes_ext_el: "is_name n \<Longrightarrow> writes env (ext_el n v) '''' [leaf env ''ext'' n (carried v)]"
  unfolding ext_el_def escapeXML_def by (rule writes_inline_text(2) [OF _ writes_escape])

text \<open>The element of an address is one of two.\<close>

lemma addressArm_name: "fst (addressArm a) = ''IPv4Address'' \<or> fst (addressArm a) = ''IPv6Address''"
  by (auto simp: addressArm_def addressElement_def split: option.split)

definition arm_nodes :: "(string \<times> string) list \<Rightarrow> TargetIdentifier \<Rightarrow> node list" where
  "arm_nodes env t =
     (case tiType t of
        TargetFSEID \<Rightarrow> [inner env ''ext'' ''FSEID'' [leaf env ''ext'' ''SEID'' (carried (tiValue t))]]
      | TargetFTEID \<Rightarrow>
          (let (teid, addr, hasAddr) = Cut (tiValue t) (CHR ''@'') in
           [inner env ''ext'' ''FTEID''
              (leaf env ''ext'' ''TEID'' (carried teid) #
               (if hasAddr then [leaf env ''ext'' (fst (addressArm addr)) (carried (snd (addressArm addr)))] else []))])
      | TargetPDRID \<Rightarrow> [leaf env ''ext'' ''PDRID'' (carried (tiValue t))]
      | TargetQERID \<Rightarrow> [leaf env ''ext'' ''QERID'' (carried (tiValue t))]
      | TargetNetworkInstance \<Rightarrow> [leaf env ''ext'' ''NetworkInstance'' (carried (tiValue t))]
      | TargetGTPTunnelDirection \<Rightarrow> [leaf env ''ext'' ''GTPTunnelDirection'' (carried (tiValue t))]
      | TargetPDR \<Rightarrow> [leaf env ''ext'' ''PDR'' (carried (tiValue t))]
      | _ \<Rightarrow> [])"

lemma writes_FTEID:
  assumes "Cut v (CHR ''@'') = (teid, addr, hasAddr)"
  shows "writes env (the (extensionTargetArm \<lparr>tiType = TargetFTEID, tiValue = v\<rparr>)) ''''
     (arm_nodes env \<lparr>tiType = TargetFTEID, tiValue = v\<rparr>)"
proof -
  have a: "is_name (fst (addressArm addr))" using addressArm_name [of addr] by auto
  have "writes env (ext_el ''TEID'' teid @ (if hasAddr then ext_el (fst (addressArm addr)) (snd (addressArm addr)) else []))
      ('''' @ '''')
      ([leaf env ''ext'' ''TEID'' (carried teid)] @
       (if hasAddr then [leaf env ''ext'' (fst (addressArm addr)) (carried (snd (addressArm addr)))] else []))"
    using a by (intro writes_append) (auto intro: writes_ext_el writes_Nil)
  from writes_inline(2) [OF this [simplified], of "''FTEID''"] show ?thesis
    using assms by (simp add: extensionTargetArm_def arm_nodes_def split_beta Let_def split: if_splits)
qed

lemma writes_arm:
  assumes "extensionTargetArm t = Some arm"
  shows "writes env arm '''' (arm_nodes env t)"
proof -
  obtain ty v where t: "t = \<lparr>tiType = ty, tiValue = v\<rparr>" by (cases t)
  show ?thesis
  proof (cases ty)
    case TargetFSEID
    with assms writes_inline(2) [OF writes_ext_el [of "''SEID''"], of "''FSEID''" env v] show ?thesis
      by (simp add: t extensionTargetArm_def arm_nodes_def)
  next
    case TargetFTEID
    with assms writes_FTEID [of v _ _ _ env] show ?thesis by (cases "Cut v (CHR ''@'')") (auto simp: t)
  qed (use assms in \<open>auto simp: t extensionTargetArm_def arm_nodes_def intro: writes_ext_el\<close>)
qed

definition target_nodes :: "(string \<times> string) list \<Rightarrow> TargetIdentifier \<Rightarrow> node list" where
  "target_nodes env t =
     (case XMLElement (tiType t) of
        Some e \<Rightarrow> [leaf env ''ns1'' e (carried (tiValue t))]
      | None \<Rightarrow>
          [inner env ''ns1'' ''targetIdentifierExtension''
             [leaf env ''ns1'' ''Owner'' ExtensionOwner3GPP,
              inner env ''ext'' ''UPFLIT3TargetIdentifierExtensions''
                [inner env ''ext'' ''UPFLIT3TargetIdentifier'' (arm_nodes env t)]]])"

lemma XMLElement_name: "XMLElement k = Some e \<Longrightarrow> is_name e"
  by (auto simp: XMLElement_def split: TargetIdentifierType.splits)

lemma extension_or_element: "XMLElement (tiType t) = None \<Longrightarrow> \<exists>arm. extensionTargetArm t = Some arm"
  by (auto simp: XMLElement_def extensionTargetArm_def Let_def split: TargetIdentifierType.splits prod.splits)

lemma writes_targetXML: "writes env (targetXML t) '''' (target_nodes env t)"
proof (cases "XMLElement (tiType t)")
  case (Some e)
  with writes_inline_text(1) [OF XMLElement_name [OF Some] writes_escape] show ?thesis
    by (simp add: targetXML_def target_nodes_def escapeXML_def)
next
  case None
  obtain arm where arm: "extensionTargetArm t = Some arm" using extension_or_element [OF None] by blast
  note k = writes_inline(2) [OF writes_inline(2) [OF writes_arm [OF arm, of env], of "''UPFLIT3TargetIdentifier''"],
      of "''UPFLIT3TargetIdentifierExtensions''", simplified]
  have o: "writes env (''<ns1:Owner>'' @ ExtensionOwner3GPP @ ''</ns1:Owner>'') '''' [leaf env ''ns1'' ''Owner'' ExtensionOwner3GPP]"
    using writes_inline_text(1) [of "''Owner''" env ExtensionOwner3GPP ExtensionOwner3GPP]
      writes_plain [of ExtensionOwner3GPP env] by (simp add: ExtensionOwner3GPP_def)
  from writes_inline(1) [OF writes_append [OF o k, simplified], of "''targetIdentifierExtension''"] show ?thesis
    by (simp add: targetXML_def target_nodes_def None arm)
qed

definition task_node :: "(string \<times> string) list \<Rightarrow> nat \<Rightarrow> InterceptTask \<Rightarrow> (nat \<times> string) list \<Rightarrow> node" where
  "task_node env ind t fs =
     box env ''ns1'' ind ''taskResponseDetails''
       [box env ''ns1'' (ind + 2) ''taskDetails''
          [leaf env ''ns1'' ''xId'' (carried (XID t)),
           box env ''ns1'' (ind + 4) ''targetIdentifiers''
             (map (\<lambda>id. inner env ''ns1'' ''targetIdentifier'' (target_nodes env id)) (Targets t)),
           leaf env ''ns1'' ''deliveryType'' (deliveryTypeOf (Products t)),
           box env ''ns1'' (ind + 4) ''listOfDIDs'' (map (\<lambda>did. leaf env ''ns1'' ''dId'' (carried did)) (DIDs t))],
        box env ''ns1'' (ind + 2) ''taskStatus''
          [leaf env ''ns1'' ''provisioningStatus'' ''complete'', faults_node env (ind + 4) fs]]"

lemma plain_deliveryTypeOf [simp]: "plain (deliveryTypeOf ps)"
  by (simp add: deliveryTypeOf_def deliveryX2Only_def deliveryX3Only_def deliveryX2andX3_def Let_def)

lemma writes_taskResponseDetails:
  "writes env (taskResponseDetails ind t fs) (indent ind @ newline) [task_node env ind t fs]"
proof -
  have el_target: "writes env (el k ''targetIdentifier'' (targetXML id)) (indent k @ newline)
      [inner env ''ns1'' ''targetIdentifier'' (target_nodes env id)]" for k id
    using writes_el [OF writes_targetXML [of env id], of "''targetIdentifier''" k] by simp
  have el_did: "writes env (el k ''dId'' (escapeXML did)) (indent k @ newline) [leaf env ''ns1'' ''dId'' (carried did)]" for k did
    by (rule writesI) (simp_all add: reading)
  note items = writesD [OF writes_concat [OF el_target]] writesD [OF writes_concat [OF el_did]]
  have items_clean: "clean (concat (map (\<lambda>id. el k ''targetIdentifier'' (targetXML id)) ts))"
    "clean (concat (map (\<lambda>did. el k ''dId'' (escapeXML did)) ds))" for k ts ds
    using writes_clean [OF el_target] by (auto intro: clean_concat)
  show ?thesis
    by (rule writesI)
      (simp_all add: taskResponseDetails_def taskStatus_def task_node_def reading items items_clean add.commute [of 4] del: add_2_eq_Suc add_2_eq_Suc')
qed

definition error_node :: "(string \<times> string) list \<Rightarrow> (nat \<times> string) option \<Rightarrow> node" where
  "error_node env e =
     box env ''ns1'' 4 ''errorInformation''
       (case e of
          None \<Rightarrow> []
        | Some (code, desc) \<Rightarrow>
            [leaf env ''ns1'' ''errorCode'' (FormatUint code), leaf env ''ns1'' ''errorDescription'' (carried desc)])"

lemma plain_requestMessageType: "plain (requestMessageType r)"
proof -
  have "list_all plain (''ExtendedRequestMessageType'' # requestMessageTypes)"
    by (simp add: requestMessageTypes_def plain_def text_char_def)
  then show ?thesis by (auto simp: requestMessageType_def Let_def list_all_iff)
qed

lemma writes_errorBody:
  "writes env (errorBody quote m) (indent 4 @ newline @ indent 4 @ newline)
     [leaf env ''ns1'' ''requestMessageType'' (requestMessageType (rsRequestType m)),
      error_node env (map_option (fault_of quote) (rsErrorInformation m))]"
  by (rule writesI)
    (cases "rsErrorInformation m"; simp add: errorBody_def error_node_def fault_of_def reading plain_requestMessageType)+

text \<open>The elements of an answer behind its header.\<close>

definition task_nodes :: "(string \<times> string) list \<Rightarrow> (string \<Rightarrow> string) \<Rightarrow> X1ResponseMessage \<Rightarrow> node list" where
  "task_nodes env quote m = map (\<lambda>t. task_node env 6 t (faults_of_task quote m t)) (rsTasks m)"

definition destination_nodes :: "(string \<times> string) list \<Rightarrow> X1ResponseMessage \<Rightarrow> node list" where
  "destination_nodes env m = map (destination_node env 6) (rsDestinations m)"

definition body_nodes :: "(string \<times> string) list \<Rightarrow> (string \<Rightarrow> string) \<Rightarrow> X1ResponseMessage \<Rightarrow> node list" where
  "body_nodes env quote m =
     (if rsType m = errorResponse
      then [leaf env ''ns1'' ''requestMessageType'' (requestMessageType (rsRequestType m)),
            error_node env (map_option (fault_of quote) (rsErrorInformation m))]
      else if rsType m = ''GetAllDetailsResponse''
      then [status_node env 4 (map (fault_of quote) (rsFaults m)),
            box env ''ns1'' 4 ''listOfTaskResponseDetails'' (task_nodes env quote m),
            box env ''ns1'' 4 ''listOfDestinationResponseDetails'' (destination_nodes env m)]
      else if rsType m = ''GetTaskDetailsResponse''
      then (case rsTasks m of [] \<Rightarrow> [] | t # _ \<Rightarrow> [task_node env 4 t (faults_of_task quote m t)])
      else if rsType m = ''GetAllTaskDetailsResponse''
      then [box env ''ns1'' 4 ''listOfTaskResponseDetails'' (task_nodes env quote m)]
      else if rsType m = ''GetAllDestinationDetailsResponse''
      then [box env ''ns1'' 4 ''listOfDestinationResponseDetails'' (destination_nodes env m)]
      else if rsType m = ''GetDestinationDetailsResponse''
      then (case rsDestinations m of [] \<Rightarrow> [] | d # _ \<Rightarrow> [destination_node env 4 d])
      else if rsType m = ''GetNEStatusResponse'' then [status_node env 4 (map (fault_of quote) (rsFaults m))]
      else if rsType m = ''ListAllDetailsResponse''
      then [box env ''ns1'' 4 ''ListOfXIDs'' (map (\<lambda>t. leaf env ''ns1'' ''xId'' (carried (XID t))) (rsTasks m)),
            box env ''ns1'' 4 ''ListOfDIDs'' (map (\<lambda>d. leaf env ''ns1'' ''dId'' (carried (rdDID d))) (rsDestinations m))]
      else if rsType m = ''GetAllGenericObjectDetailsResponse'' then []
      else if rsOK m \<noteq> '''' then [leaf env ''ns1'' ''oK'' (carried (rsOK m))]
      else [])"

lemma writes_tasks:
  "writes env (task_items quote m) (concat (map (\<lambda>_. indent 6 @ newline) (rsTasks m))) (task_nodes env quote m)"
  unfolding task_items_def task_nodes_def by (rule writes_concat) (rule writes_taskResponseDetails)

lemma writes_destinations:
  "writes env (destination_items m) (concat (map (\<lambda>_. indent 6 @ newline) (rsDestinations m))) (destination_nodes env m)"
  unfolding destination_items_def destination_nodes_def by (rule writes_concat) (rule writes_destinationResponseDetails)

lemmas clean_items [simp] = writes_clean [OF writes_tasks] writes_clean [OF writes_destinations]
  writes_clean [OF writes_taskResponseDetails] writes_clean [OF writes_errorBody]

lemma nodes_Nil [simp]: "task_nodes env quote m = [] \<longleftrightarrow> rsTasks m = []" "destination_nodes env m = [] \<longleftrightarrow> rsDestinations m = []"
  by (simp_all add: task_nodes_def destination_nodes_def)

lemma writes_el_escaped: "is_name n \<Longrightarrow> writes env (el ind n (escapeXML v)) (indent ind @ newline) [leaf env ''ns1'' n (carried v)]"
  by (rule writesI) (simp_all add: reading)

lemmas body_pieces = writesD [OF writes_tasks] writesD [OF writes_destinations]
  writesD [OF writes_concat [OF writes_el_escaped]]
  writesD [OF writes_neStatusDetails] writesD [OF writes_errorBody] writesD [OF writes_taskResponseDetails]
  writesD [OF writes_destinationResponseDetails]

lemma writes_responseBody: "\<exists>w. list_all space_char w \<and> writes env (responseBody quote m) w (body_nodes env quote m)"
proof -
  define d where "d k = indent k @ newline" for k

  consider (error) "rsType m = errorResponse" | (all) "rsType m = ''GetAllDetailsResponse''"
    | (task) "rsType m = ''GetTaskDetailsResponse''" | (tasks) "rsType m = ''GetAllTaskDetailsResponse''"
    | (dests) "rsType m = ''GetAllDestinationDetailsResponse''" | (dest) "rsType m = ''GetDestinationDetailsResponse''"
    | (ne) "rsType m = ''GetNEStatusResponse''" | (ls) "rsType m = ''ListAllDetailsResponse''"
    | (gen) "rsType m = ''GetAllGenericObjectDetailsResponse''"
    | (ack) "rsType m \<notin> {errorResponse, ''GetAllDetailsResponse'', ''GetTaskDetailsResponse'', ''GetAllTaskDetailsResponse'',
        ''GetAllDestinationDetailsResponse'', ''GetDestinationDetailsResponse'', ''GetNEStatusResponse'',
        ''ListAllDetailsResponse'', ''GetAllGenericObjectDetailsResponse''}"
    by blast
  then show ?thesis
  proof cases
    case error
    then show ?thesis using writes_errorBody [of env quote m]
      by (intro exI [of _ "d 4 @ d 4"]) (simp add: responseBody_def body_nodes_def d_def)
  next
    case all
    then have "writes env (responseBody quote m) (d 4 @ d 4 @ d 4) (body_nodes env quote m)"
      by (intro writesI) (simp_all add: responseBody_def allDetailsBody_def body_nodes_def errorResponse_def reading body_pieces d_def)
    then show ?thesis by (intro exI [of _ "d 4 @ d 4 @ d 4"]) (simp add: d_def)
  next
    case task
    then show ?thesis using writes_taskResponseDetails [of env 4] writes_Nil [of env]
      by (cases "rsTasks m")
        (auto simp: responseBody_def taskDetailsBody_def body_nodes_def errorResponse_def d_def
          intro!: exI [of _ "if rsTasks m = [] then '''' else d 4"])
  next
    case tasks
    then have "writes env (responseBody quote m) (d 4) (body_nodes env quote m)"
      by (intro writesI) (simp_all add: responseBody_def listBody_def body_nodes_def errorResponse_def reading body_pieces d_def)
    then show ?thesis by (intro exI [of _ "d 4"]) (simp add: d_def)
  next
    case dests
    then have "writes env (responseBody quote m) (d 4) (body_nodes env quote m)"
      by (intro writesI) (simp_all add: responseBody_def listBody_def body_nodes_def errorResponse_def reading body_pieces d_def)
    then show ?thesis by (intro exI [of _ "d 4"]) (simp add: d_def)
  next
    case dest
    then show ?thesis using writes_destinationResponseDetails [of env 4] writes_Nil [of env]
      by (cases "rsDestinations m")
        (auto simp: responseBody_def body_nodes_def errorResponse_def d_def
          intro!: exI [of _ "if rsDestinations m = [] then '''' else d 4"])
  next
    case ne
    then show ?thesis using writes_neStatusDetails [of env 4]
      by (intro exI [of _ "d 4"]) (simp add: responseBody_def body_nodes_def errorResponse_def d_def)
  next
    case ls
    then have "writes env (responseBody quote m) (d 4 @ d 4) (body_nodes env quote m)"
      by (intro writesI)
        (simp_all add: responseBody_def listAllDetailsBody_def body_nodes_def errorResponse_def reading body_pieces d_def clean_concat)
    then show ?thesis by (intro exI [of _ "d 4 @ d 4"]) (simp add: d_def)
  next
    case gen
    then show ?thesis using writes_Nil [of env]
      by (intro exI [of _ "''''"]) (simp add: responseBody_def body_nodes_def errorResponse_def)
  next
    case ack
    then show ?thesis using writes_Nil [of env] writes_el_escaped [of "''oK''" env 4 "rsOK m"]
      by (cases "rsOK m = ''''")
        (auto simp: responseBody_def body_nodes_def d_def intro!: exI [of _ "if rsOK m = '''' then '''' else d 4"])
  qed
qed

subsection \<open>Documents\<close>

text \<open>A text of printable ASCII characters is carried as it is.\<close>

definition printable :: "string \<Rightarrow> bool" where
  "printable s \<longleftrightarrow> list_all (\<lambda>c. 32 \<le> code_of c \<and> code_of c < 128) s"

lemma carried_printable: "printable s \<Longrightarrow> carried s = s"
  by (simp add: printable_def carried_ascii)

lemma printable_append [simp]: "printable (s @ t) \<longleftrightarrow> printable s \<and> printable t"
  by (simp add: printable_def)

lemma printable_Cons [simp]:
  "printable []" "printable (c # s) \<longleftrightarrow> 32 \<le> code_of c \<and> code_of c < 128 \<and> printable s"
  by (auto simp: printable_def)

lemma printable_FormatUint [simp]: "printable (FormatUint n)"
  using FormatUint_digits [of n] by (auto simp: printable_def list_all_iff is_digit_def)

lemma printable_pad [simp]: "printable (pad w n)"
  by (simp add: pad_def Let_def) (simp add: printable_def list_all_iff code_of_def)

lemma carried_x1Timestamp [simp]: "carried (x1Timestamp t) = x1Timestamp t"
proof -
  have "printable (x1Timestamp t)"
    by (simp add: x1Timestamp_def year_text_def Let_def split_beta)
  then show ?thesis by (rule carried_printable)
qed

definition header_nodes :: "(string \<times> string) list \<Rightarrow> string \<Rightarrow> string \<Rightarrow> int \<Rightarrow> string \<Rightarrow> string \<Rightarrow> node list" where
  "header_nodes env adm ne t ver tx =
     [leaf env ''ns1'' ''admfIdentifier'' (carried adm), leaf env ''ns1'' ''neIdentifier'' (carried ne),
      leaf env ''ns1'' ''messageTimestamp'' (x1Timestamp t), leaf env ''ns1'' ''version'' (carried ver),
      leaf env ''ns1'' ''x1TransactionId'' (carried tx)]"

definition header_space :: string where
  "header_space =
     (indent 4 @ newline) @ (indent 4 @ newline) @ (indent 4 @ newline) @ (indent 4 @ newline) @ (indent 4 @ newline)"

lemma space_header [simp]: "list_all space_char header_space"
  by (simp add: header_space_def)

lemma writes_header:
  "writes env (header_lines adm ne (x1Timestamp t) (escapeXML ver) tx) header_space (header_nodes env adm ne t ver tx)"
  by (rule writesI) (simp_all add: header_lines_def reading header_nodes_def header_space_def)

lemma supportedVersion_text: "plain supportedVersion" "carried supportedVersion = supportedVersion"
  using carried_clean [of supportedVersion] by (simp_all add: supportedVersion_def)

lemma writes_request_header:
  "writes env (header_lines adm ne (x1Timestamp t) supportedVersion tx) header_space
     (header_nodes env adm ne t supportedVersion tx)"
  by (rule writesI) (simp_all add: header_lines_def reading header_nodes_def header_space_def supportedVersion_text)

lemma parse_declaration:
  "parse (xml_declaration @ s) (Frame env q as t ks # st) = parse s (Frame env q as (t @ newline) ks # st)"
proof -
  have "read_token (declaration_text @ newline @ s) = Some (TSkip, newline @ s)" "declaration_text @ newline @ s \<noteq> []"
    by (simp_all add: read_token_def declaration_text_def text_char_def)
  from parse_token [OF this] show ?thesis by (simp add: xml_declaration_def parse_space)
qed

lemma parse_start_tag:
  "is_qname n \<Longrightarrow> list_all attr_ok bs \<Longrightarrow> parse (start_tag n bs @ s) (Frame env q as t ks # st) =
     parse s (Frame (declarations bs @ env) n bs '''' [] # Frame env q as t ks # st)"
  using parse_start [of n bs s] by (simp add: start_tag_def)

lemma namespace_values: "list_all value_char Namespace" "list_all value_char NamespaceXSI"
  "list_all value_char NamespaceX1Ext3GPP" "list_all value_char NamespaceCommon"
  by (simp_all add: Namespace_def NamespaceXSI_def NamespaceX1Ext3GPP_def NamespaceCommon_def value_char_def name_char_def)

lemma qnames [simp]:
  "is_qname ''xmlns:ns1''" "is_qname ''xmlns:xsi''" "is_qname ''xmlns:ext''" "is_qname ''xmlns:c''" "is_qname ''xsi:type''"
  "is_name n \<Longrightarrow> is_qname (qname ''ns1'' n)"
  using is_qname_prefixed [of "''xmlns''" "''ns1''"] is_qname_prefixed [of "''xmlns''" "''xsi''"]
    is_qname_prefixed [of "''xmlns''" "''ext''"] is_qname_prefixed [of "''xmlns''" "''c''"]
    is_qname_prefixed [of "''xsi''" "''type''"] is_qname_prefixed [of "''ns1''" n] by (simp_all add: qname_def)

lemma clean_start_tag: "is_qname n \<Longrightarrow> list_all attr_ok bs \<Longrightarrow> clean (start_tag n bs)"
proof -
  have q: "clean q" if "is_qname q" for q
    using is_qname_chars [OF that]
    by (intro clean_ascii) (auto simp: list_all_iff qname_char_def name_char_def Let_def)
  have v: "clean v" if "list_all value_char v" for v
    using that by (intro clean_ascii) (auto simp: list_all_iff value_char_def name_char_def Let_def)
  have "clean (attr_text a)" if "attr_ok a" for a
    using that q v by (simp add: attr_text_def attr_ok_def)
  then have "list_all attr_ok bs \<Longrightarrow> clean (concat (map attr_text bs))" by (intro clean_concat) (simp add: list_all_iff)
  then show "is_qname n \<Longrightarrow> list_all attr_ok bs \<Longrightarrow> clean (start_tag n bs)"
    using q by (simp add: start_tag_def)
qed

lemma clean_declaration [simp]: "clean xml_declaration"
  by (simp add: xml_declaration_def declaration_text_def)

text \<open>The declarations of an answer, and those of a request with its own on top.\<close>

definition response_env :: "(string \<times> string) list" where
  "response_env = [(''ns1'', Namespace), (''xsi'', NamespaceXSI), (''ext'', NamespaceX1Ext3GPP), (''c'', NamespaceCommon)]"

definition request_env :: "(string \<times> string) list \<Rightarrow> (string \<times> string) list" where
  "request_env extra = [(''ns1'', Namespace), (''xsi'', NamespaceXSI)] @ declarations extra"

definition message_node :: "string \<Rightarrow> string \<Rightarrow> node list \<Rightarrow> node" where
  "message_node n type ks = Node Namespace n [((NamespaceXSI, ''type''), ''ns1:'' @ type)] '''' ks"

lemma close_message:
  assumes "map_of env ''ns1'' = Some Namespace" "map_of env ''xsi'' = Some NamespaceXSI" "list_all space_char t" "ks \<noteq> []"
  shows "close_frame (Frame env (qname ''ns1'' n) [(''xsi:type'', ''ns1:'' @ type)] t ks) = message_node n type ks"
proof -
  have "split_qname (qname ''ns1'' n) = (''ns1'', n)" "split_qname ''xsi:type'' = (''xsi'', ''type'')"
    using split_qname_prefix [of "''ns1''" n] split_qname_prefix [of "''xsi''" "''type''"] by (simp_all add: qname_def)
  then show ?thesis
    using assms by (simp add: close_frame.simps message_node_def resolve_prefix_def resolve_attrs_def content_text_def)
qed

definition response_node :: "(string \<Rightarrow> string) \<Rightarrow> X1ResponseMessage \<Rightarrow> node" where
  "response_node quote m =
     message_node ''x1ResponseMessage'' (rsType m)
       (header_nodes response_env (rsAdmfIdentifier (rsHeader m)) (rsNeIdentifier (rsHeader m))
          (rsMessageTimestamp (rsHeader m)) (rsVersion (rsHeader m)) (rsTransactionID (rsHeader m)) @
        body_nodes response_env quote m)"

lemma type_attr:
  "list_all value_char ty \<Longrightarrow> attr_ok (''xsi:type'', ''ns1:'' @ ty)" "declarations [(''xsi:type'', v)] = []"
  using split_qname_prefix [of "''xsi''" "''type''"]
  by (simp_all add: attr_ok_def declarations_def) (simp_all add: value_char_def name_char_def)

lemma writes_response_item:
  assumes "list_all value_char (rsType m)"
  shows "writes response_env (response_item quote m) (newline @ indent 2) [response_node quote m]"
proof -
  obtain w where w: "list_all space_char w" "writes response_env (responseBody quote m) w (body_nodes response_env quote m)"
    using writes_responseBody by blast
  have e: "map_of response_env ''ns1'' = Some Namespace" "map_of response_env ''xsi'' = Some NamespaceXSI"
    by (simp_all add: response_env_def)
  have u: "parse (''</ns1:x1ResponseMessage>'' @ s)
      (Frame env (qname ''ns1'' ''x1ResponseMessage'') as t ks # Frame env' q' bs t' ks' # st) =
    parse s (Frame env' q' bs t' (ks' @ [close_frame (Frame env (qname ''ns1'' ''x1ResponseMessage'') as t ks)]) # st)"
    for s env as t ks env' q' bs t' ks' st
    using parse_untag [of "''ns1''" "''x1ResponseMessage''"] is_name_prefixes by (simp add: qname_def)
  have n: "''ns1:x1ResponseMessage'' = qname ''ns1'' ''x1ResponseMessage''" by (simp add: qname_def)

  show ?thesis
    by (rule writesI)
      (simp_all add: response_item_def parse_space clean_start_tag writes_clean [OF writes_header] writes_clean [OF w(2)] parse_start_tag type_attr [simplified] assms writesD [OF writes_header]
        writesD [OF w(2)] u [simplified] n close_message [OF e, simplified] w(1) response_node_def header_nodes_def)
qed

lemma parse_last_tag:
  "is_name n \<Longrightarrow> parse (''</ns1:'' @ n @ ''>'') [Frame env (qname ''ns1'' n) as t ks, Frame env' q' bs t' ks'] =
     Some [Frame env' q' bs t' (ks' @ [close_frame (Frame env (qname ''ns1'' n) as t ks)])]"
  using parse_untag [of "''ns1''" n "[]"] is_name_prefixes by (simp add: qname_def)

lemma declarations_of_roots:
  "declarations [(''xmlns:ns1'', a), (''xmlns:xsi'', b), (''xmlns:ext'', c), (''xmlns:c'', d)] =
     [(''ns1'', a), (''xsi'', b), (''ext'', c), (''c'', d)]"
  "declarations ([(''xmlns:ns1'', a), (''xmlns:xsi'', b)] @ extra) = [(''ns1'', a), (''xsi'', b)] @ declarations extra"
  "declarations [(''xmlns:ns1'', a)] = [(''ns1'', a)]"
  by (simp_all add: declarations_def split_qname_def)

text \<open>The root of a document, of which only the name and the elements in it matter.\<close>

definition is_root :: "node \<Rightarrow> string \<Rightarrow> node list \<Rightarrow> bool" where
  "is_root x n ks \<longleftrightarrow> nspace x = Namespace \<and> nlocal x = n \<and> nkids x = ks"

lemma close_root:
  assumes "map_of env ''ns1'' = Some Namespace"
  shows "is_root (close_frame (Frame env (qname ''ns1'' n) as t ks)) n ks"
proof -
  have "split_qname (qname ''ns1'' n) = (''ns1'', n)" using split_qname_prefix [of "''ns1''" n] by (simp add: qname_def)
  with assms show ?thesis by (simp add: close_frame.simps is_root_def resolve_prefix_def)
qed

lemma read_marshalResponse:
  assumes "\<forall>m \<in> set ms. list_all value_char (rsType m)"
  shows "\<exists>x. read_xml (marshalResponse quote ms) = Some x \<and> is_root x ''X1Response'' (map (response_node quote) ms)"
proof -
  let ?as = "[(''xmlns:ns1'', Namespace), (''xmlns:xsi'', NamespaceXSI), (''xmlns:ext'', NamespaceX1Ext3GPP), (''xmlns:c'', NamespaceCommon)]"
  have as: "list_all attr_ok ?as" "declarations ?as = response_env"
    by (simp_all add: attr_ok_def namespace_values declarations_of_roots response_env_def)
  have items: "writes response_env (concat (map (response_item quote) ms)) (concat (map (\<lambda>_. newline @ indent 2) ms))
      (map (response_node quote) ms)"
    using assms by (intro writes_concat writes_response_item) auto
  have n: "''ns1:X1Response'' = qname ''ns1'' ''X1Response''" by (simp add: qname_def)
  let ?t = "concat (map (\<lambda>_. newline @ indent 2) ms) @ newline"
  let ?f = "Frame response_env (qname ''ns1'' ''X1Response'') ?as ?t (map (response_node quote) ms)"
  have "parse (marshalResponse quote ms) [Frame [] '''' [] '''' []] = Some [Frame [] '''' [] newline [close_frame ?f]]"
    using parse_last_tag [of "''X1Response''" response_env ?as ?t "map (response_node quote) ms" "[]" "''''" "[]" newline "[]"]
    by (simp add: marshalResponse_def parse_declaration parse_start_tag n as [simplified] writesD [OF items] parse_space)
  moreover have "clean (marshalResponse quote ms)"
    by (simp add: marshalResponse_def n clean_start_tag as [simplified] writes_clean [OF items])
  ultimately have "read_xml (marshalResponse quote ms) = Some (close_frame ?f)" by (simp add: read_xml_def)
  moreover have "is_root (close_frame ?f) ''X1Response'' (map (response_node quote) ms)"
    by (rule close_root) (simp add: response_env_def)
  ultimately show ?thesis by blast
qed

lemma read_request_document:
  assumes "list_all attr_ok extra" "list_all value_char ty" "list_all space_char w"
    and "\<And>env. env = request_env extra \<Longrightarrow> writes env head header_space (hs env) \<and> writes env body w (bs env)"
    and "hs (request_env extra) \<noteq> []"
  shows "\<exists>x. read_xml (request_document extra ty head body) = Some x \<and>
     is_root x ''X1Request'' [message_node ''x1RequestMessage'' ty (hs (request_env extra) @ bs (request_env extra))]"
proof -
  let ?e = "request_env extra"
  let ?as = "[(''xmlns:ns1'', Namespace), (''xmlns:xsi'', NamespaceXSI)] @ extra"
  have as: "list_all attr_ok ?as" "declarations ?as = ?e"
    using assms(1) by (simp_all add: attr_ok_def namespace_values declarations_of_roots [simplified] request_env_def)
  have e: "map_of ?e ''ns1'' = Some Namespace" "map_of ?e ''xsi'' = Some NamespaceXSI" by (simp_all add: request_env_def)
  have n: "''ns1:X1Request'' = qname ''ns1'' ''X1Request''" "''ns1:x1RequestMessage'' = qname ''ns1'' ''x1RequestMessage''"
    by (simp_all add: qname_def)
  have u: "parse (close_tag 2 ''x1RequestMessage'' @ s)
      (Frame ?e (qname ''ns1'' ''x1RequestMessage'') bs t ks # Frame env' q' cs t' ks' # st) =
    parse s (Frame env' q' cs (t' @ newline) (ks' @ [close_frame (Frame ?e (qname ''ns1'' ''x1RequestMessage'') bs (t @ indent 2) ks)]) # st)"
    for s bs t ks env' q' cs t' ks' st
    using parse_untag [of "''ns1''" "''x1RequestMessage''"] is_name_prefixes by (simp add: close_tag_def parse_space qname_def)
  let ?ks = "hs ?e @ bs ?e"
  let ?m = "message_node ''x1RequestMessage'' ty ?ks"
  have m: "close_frame (Frame ?e (qname ''ns1'' ''x1RequestMessage'') [(''xsi:type'', ''ns1:'' @ ty)]
      (newline @ header_space @ w @ indent 2) ?ks) = ?m"
    using assms(3,5) by (intro close_message [OF e]) simp_all
  let ?f = "Frame ?e (qname ''ns1'' ''X1Request'') ?as (newline @ indent 2 @ newline) [?m]"
  have h: "writes ?e head header_space (hs ?e)" "writes ?e body w (bs ?e)" using assms(4) by auto
  have "parse (request_document extra ty head body) [Frame [] '''' [] '''' []] = Some [Frame [] '''' [] newline [close_frame ?f]]"
    using parse_last_tag [of "''X1Request''" ?e ?as "newline @ indent 2 @ newline" "[?m]" "[]" "''''" "[]" newline "[]"] m
    by (simp add: request_document_def parse_declaration parse_start_tag n as [simplified] parse_space
        type_attr [simplified] assms(2) writesD [OF h(1)] writesD [OF h(2)] u)
  moreover have "clean (request_document extra ty head body)"
    by (simp add: request_document_def n clean_start_tag as [simplified] type_attr [simplified] assms(2)
        writes_clean [OF h(1)] writes_clean [OF h(2)])
  ultimately have "read_xml (request_document extra ty head body) = Some (close_frame ?f)" by (simp add: read_xml_def)
  moreover have "is_root (close_frame ?f) ''X1Request'' [?m]" by (rule close_root) (simp add: request_env_def)
  ultimately show ?thesis by blast
qed

end
