(* ===== verification/X1Decode.thy ===== *)
theory X1Decode
  imports X1Render "HOL-Library.Monad_Syntax"
begin

text \<open>
  What \<open>xml.Unmarshal\<close> puts into the structs of \<open>src/x1/messages.go\<close>, by their tags: a field with a
  namespace takes the child elements of that name in that namespace, one without takes them in any;
  a string is the text of the last such element, a slice has one entry per element, a struct and a
  pointer to one take the fields of all of them together, and \<open>a>b\<close> looks in the children of every
  \<open>a\<close>. A number that does not parse is an error of the whole call, which is \<open>None\<close>. Fields that
  nothing reads (the timestamp of a request, mediation details) are left out, and of
  \<open>strings.TrimSpace\<close> only the ASCII spaces are modelled.
\<close>

subsection \<open>Fields\<close>

definition named :: "string \<Rightarrow> node \<Rightarrow> bool" where
  "named l x \<longleftrightarrow> nlocal x = l"

definition named_in :: "string \<Rightarrow> string \<Rightarrow> node \<Rightarrow> bool" where
  "named_in sp l x \<longleftrightarrow> nspace x = sp \<and> nlocal x = l"

definition text_field :: "(node \<Rightarrow> bool) \<Rightarrow> node list \<Rightarrow> string" where
  "text_field p ks = (let xs = filter p ks in if xs = [] then '''' else ntext (last xs))"

definition merged :: "(node \<Rightarrow> bool) \<Rightarrow> node list \<Rightarrow> node list" where
  "merged p ks = concat (map nkids (filter p ks))"

definition texts :: "(node \<Rightarrow> bool) \<Rightarrow> node list \<Rightarrow> string list" where
  "texts p ks = map ntext (filter p ks)"

definition TrimSpace :: "string \<Rightarrow> string" where
  "TrimSpace s = (let sp = (\<lambda>c. code_of c \<in> {9, 10, 11, 12, 13, 32})
     in rev (dropWhile sp (rev (dropWhile sp s))))"

text \<open>A number: the empty text is zero.\<close>

definition uint_text :: "nat \<Rightarrow> string \<Rightarrow> nat option" where
  "uint_text bits s = (if s = '''' then Some 0 else ParseUint (TrimSpace s) bits)"

definition int_text :: "string \<Rightarrow> int option" where
  "int_text s =
     (if s = '''' then Some 0
      else case TrimSpace s of
        [] \<Rightarrow> None
      | c # r \<Rightarrow>
          if c = CHR ''-'' then (case ParseUint r 64 of Some n \<Rightarrow> if n \<le> 2 ^ 63 then Some (- int n) else None | None \<Rightarrow> None)
          else (case ParseUint (if c = CHR ''+'' then r else c # r) 64 of
                  Some n \<Rightarrow> if n < 2 ^ 63 then Some (int n) else None | None \<Rightarrow> None))"

text \<open>A numeric field: an error if one of its elements is, and \<open>None\<close> inside if there is none.\<close>

definition number_field :: "(string \<Rightarrow> 'a option) \<Rightarrow> (node \<Rightarrow> bool) \<Rightarrow> node list \<Rightarrow> 'a option option" where
  "number_field conv p ks =
     map_option (\<lambda>vs. if vs = [] then None else Some (last vs)) (those (map conv (texts p ks)))"

definition uint_field :: "nat \<Rightarrow> (node \<Rightarrow> bool) \<Rightarrow> node list \<Rightarrow> nat option option" where
  "uint_field bits = number_field (uint_text bits)"

text \<open>A pointer to a struct.\<close>

definition pointer_field :: "(node list \<Rightarrow> 'a option) \<Rightarrow> (node \<Rightarrow> bool) \<Rightarrow> node list \<Rightarrow> 'a option option" where
  "pointer_field dec p ks = (if filter p ks = [] then Some None else map_option Some (dec (merged p ks)))"

definition slice_field :: "(node list \<Rightarrow> 'a option) \<Rightarrow> (node \<Rightarrow> bool) \<Rightarrow> node list \<Rightarrow> 'a list option" where
  "slice_field dec p ks = those (map (\<lambda>x. dec (nkids x)) (filter p ks))"

subsection \<open>Requests\<close>

definition dec_IPAddress :: "node list \<Rightarrow> IPAddress" where
  "dec_IPAddress ks =
     \<lparr>IPv4 = text_field (named_in NamespaceCommon ''IPv4Address'') ks,
      IPv6 = text_field (named_in NamespaceCommon ''IPv6Address'') ks\<rparr>"

definition dec_Port :: "node list \<Rightarrow> Port option" where
  "dec_Port ks = do {
     tcp \<leftarrow> uint_field 16 (named_in NamespaceCommon ''TCPPort'') ks;
     udp \<leftarrow> uint_field 16 (named_in NamespaceCommon ''UDPPort'') ks;
     Some \<lparr>TCPPort = map_option of_nat tcp, UDPPort = map_option of_nat udp\<rparr> }"

definition dec_IPAddressPort :: "node list \<Rightarrow> IPAddressPort option" where
  "dec_IPAddressPort ks = do {
     port \<leftarrow> dec_Port (merged (named_in NamespaceCommon ''port'') ks);
     Some \<lparr>ipAddress = dec_IPAddress (merged (named_in NamespaceCommon ''address'') ks), ipPort = port\<rparr> }"

definition dec_MessageExtension :: "node list \<Rightarrow> MessageExtension" where
  "dec_MessageExtension ks =
     (let assoc = named_in NamespaceX1Ext3GPP ''IdentifierAssociationExtensions'' in
      \<lparr>extOwner = text_field (named ''Owner'') ks,
       IdentifierAssociation =
         (if filter assoc ks = [] then None
          else Some (text_field (named_in NamespaceX1Ext3GPP ''IdentifierAssociationEventsGenerated'') (merged assoc ks))),
       Content = map nlocal (filter (\<lambda>x. \<not> named ''Owner'' x \<and> \<not> assoc x) ks)\<rparr>)"

definition dec_DestinationDetails :: "node list \<Rightarrow> DestinationDetails option" where
  "dec_DestinationDetails ks = do {
     addr \<leftarrow> pointer_field dec_IPAddressPort (named ''ipAddressAndPort'') (merged (named ''deliveryAddress'') ks);
     Some \<lparr>ddDID = text_field (named ''dId'') ks, ddFriendlyName = text_field (named ''friendlyName'') ks,
           ddDeliveryType = text_field (named ''deliveryType'') ks, IPAddressAndPort = addr,
           ddExtensions = map (\<lambda>x. dec_MessageExtension (nkids x)) (filter (named ''destinationDetailsExtensions'') ks)\<rparr> }"

definition dec_FTEID :: "node list \<Rightarrow> FTEID option" where
  "dec_FTEID ks = do {
     teid \<leftarrow> uint_field 32 (named_in NamespaceX1Ext3GPP ''TEID'') ks;
     Some \<lparr>TEID = of_nat (case teid of Some n \<Rightarrow> n | None \<Rightarrow> 0),
           fteidIPv4 = text_field (named_in NamespaceX1Ext3GPP ''IPv4Address'') ks,
           fteidIPv6 = text_field (named_in NamespaceX1Ext3GPP ''IPv6Address'') ks\<rparr> }"

definition dec_FSEID :: "node list \<Rightarrow> FSEID option" where
  "dec_FSEID ks = do {
     seid \<leftarrow> uint_field 64 (named_in NamespaceX1Ext3GPP ''SEID'') ks;
     Some \<lparr>SEID = of_nat (case seid of Some n \<Rightarrow> n | None \<Rightarrow> 0),
           fseidIPv4 = text_field (named_in NamespaceX1Ext3GPP ''IPv4Address'') ks,
           fseidIPv6 = text_field (named_in NamespaceX1Ext3GPP ''IPv6Address'') ks\<rparr> }"

definition dec_UPFLIT3Identifier :: "node list \<Rightarrow> UPFLIT3Identifier option" where
  "dec_UPFLIT3Identifier ks = do {
     fseid \<leftarrow> pointer_field dec_FSEID (named_in NamespaceX1Ext3GPP ''FSEID'') ks;
     pdrid \<leftarrow> uint_field 32 (named_in NamespaceX1Ext3GPP ''PDRID'') ks;
     qerid \<leftarrow> uint_field 32 (named_in NamespaceX1Ext3GPP ''QERID'') ks;
     fteid \<leftarrow> pointer_field dec_FTEID (named_in NamespaceX1Ext3GPP ''FTEID'') ks;
     Some \<lparr>upfFSEID = fseid, upfPDRID = map_option of_nat pdrid, upfQERID = map_option of_nat qerid,
           NetworkInstance = text_field (named_in NamespaceX1Ext3GPP ''NetworkInstance'') ks,
           GTPTunnelDirection = text_field (named_in NamespaceX1Ext3GPP ''GTPTunnelDirection'') ks,
           upfFTEID = fteid, upfPDR = text_field (named_in NamespaceX1Ext3GPP ''PDR'') ks\<rparr> }"

definition dec_TargetIdentifierExtension :: "node list \<Rightarrow> TargetIdentifierExtension option" where
  "dec_TargetIdentifierExtension ks = do {
     t3 \<leftarrow> pointer_field (slice_field dec_UPFLIT3Identifier (named_in NamespaceX1Ext3GPP ''UPFLIT3TargetIdentifier''))
            (named_in NamespaceX1Ext3GPP ''UPFLIT3TargetIdentifierExtensions'') ks;
     Some \<lparr>tieOwner = text_field (named ''Owner'') ks, UPFT3 = t3\<rparr> }"

definition dec_TargetIdentifier :: "node list \<Rightarrow> X1TargetIdentifier option" where
  "dec_TargetIdentifier ks = do {
     extension \<leftarrow> pointer_field dec_TargetIdentifierExtension (named ''targetIdentifierExtension'') ks;
     let f = (\<lambda>l. text_field (named l) ks);
     Some (X1TargetIdentifier (f ''imsi'') (f ''supiimsi'') (f ''supinai'') (f ''peiImei'') (f ''peiImeisv'')
       (f ''gpsiMsisdn'') (f ''e164Number'') (f ''gtpuTunnelId'') (f ''ipv4Address'') (f ''ipv6Address'')
       (f ''tcpPort'') (f ''udpPort'') extension) }"

text \<open>\<open>strconv.ParseBool\<close>.\<close>

definition bool_text :: "string \<Rightarrow> bool option" where
  "bool_text s =
     (if s = '''' then Some False
      else if TrimSpace s \<in> {''1'', ''t'', ''T'', ''TRUE'', ''true'', ''True''} then Some True
      else if TrimSpace s \<in> {''0'', ''f'', ''F'', ''FALSE'', ''false'', ''False''} then Some False
      else None)"

definition dec_TaskDetails :: "node list \<Rightarrow> TaskDetails option" where
  "dec_TaskDetails ks = do {
     targets \<leftarrow> slice_field dec_TargetIdentifier (named ''targetIdentifier'') (merged (named ''targetIdentifiers'') ks);
     implicit \<leftarrow> number_field bool_text (named ''implicitDeactivationAllowed'') ks;
     Some \<lparr>tdXID = text_field (named ''xId'') ks, TargetIdentifiers = targets,
           tdDeliveryType = text_field (named ''deliveryType'') ks,
           ListOfDIDs = texts (named ''dId'') (merged (named ''listOfDIDs'') ks),
           DSIDs = texts (named ''dSId'') (merged (named ''listOfDIDs'') ks),
           tdCorrelationID = text_field (named ''correlationID'') ks, tdProductID = text_field (named ''productID'') ks,
           ListOfServiceTypes = texts (named ''serviceType'') (merged (named ''listOfServiceTypes'') ks),
           TaskDetailsExtensions = map (\<lambda>x. dec_MessageExtension (nkids x)) (filter (named ''taskDetailsExtensions'') ks),
           ListOfTrafficPolicyReferences =
             texts (named ''trafficPolicyReference'') (merged (named ''listOfTrafficPolicyReferences'') ks)\<rparr> }"

definition type_attribute :: "node \<Rightarrow> string" where
  "type_attribute x = (case map_of (rev (nattrs x)) (NamespaceXSI, ''type'') of Some v \<Rightarrow> v | None \<Rightarrow> '''')"

definition dec_X1RequestMessage :: "node \<Rightarrow> X1RequestMessage option" where
  "dec_X1RequestMessage x = do {
     let ks = nkids x;
     td \<leftarrow> pointer_field dec_TaskDetails (named ''taskDetails'') ks;
     dd \<leftarrow> pointer_field dec_DestinationDetails (named ''destinationDetails'') ks;
     Some \<lparr>rqType = type_attribute x, AdmfIdentifier = text_field (named ''admfIdentifier'') ks,
           NeIdentifier = text_field (named ''neIdentifier'') ks, rqVersion = text_field (named ''version'') ks,
           rqTransactionID = text_field (named ''x1TransactionId'') ks, rqTaskDetails = td,
           rqXID = text_field (named ''xId'') ks, rqDestinationDetails = dd, rqDID = text_field (named ''dId'') ks\<rparr> }"

text \<open>\<open>X1Request\<close>, with its root element checked.\<close>

definition Unmarshal_X1Request :: "node \<Rightarrow> X1RequestMessage list option" where
  "Unmarshal_X1Request x =
     (if named_in Namespace ''X1Request'' x
      then those (map dec_X1RequestMessage (filter (named ''x1RequestMessage'') (nkids x))) else None)"

subsection \<open>Answers\<close>

record TaskStatus =
  ProvisioningStatus :: string
  tsFaults :: "(int \<times> string) list"

record TaskResponseDetails =
  trTaskDetails :: TaskDetails
  trTaskStatus :: TaskStatus

text \<open>\<open>X1ResponseMessage\<close> as a requester reads it.\<close>

record X1Answer =
  anType :: string
  anAdmfIdentifier :: string
  anNeIdentifier :: string
  anMessageTimestamp :: string
  anVersion :: string
  anTransactionID :: string
  anOK :: string
  anErrorInformation :: "(int \<times> string) option"
  TaskResponses :: "TaskResponseDetails list"
  AllTaskResponses :: "TaskResponseDetails list"

definition dec_X1Error :: "node list \<Rightarrow> (int \<times> string) option" where
  "dec_X1Error ks = do {
     code \<leftarrow> number_field int_text (named ''errorCode'') ks;
     Some (case code of Some n \<Rightarrow> n | None \<Rightarrow> 0, text_field (named ''errorDescription'') ks) }"

definition dec_TaskStatus :: "node list \<Rightarrow> TaskStatus option" where
  "dec_TaskStatus ks = do {
     fs \<leftarrow> slice_field dec_X1Error (named ''unresolvedFault'') (merged (named ''listOfFaults'') ks);
     Some \<lparr>ProvisioningStatus = text_field (named ''provisioningStatus'') ks, tsFaults = fs\<rparr> }"

definition dec_TaskResponseDetails :: "node list \<Rightarrow> TaskResponseDetails option" where
  "dec_TaskResponseDetails ks = do {
     td \<leftarrow> dec_TaskDetails (merged (named ''taskDetails'') ks);
     ts \<leftarrow> dec_TaskStatus (merged (named ''taskStatus'') ks);
     Some \<lparr>trTaskDetails = td, trTaskStatus = ts\<rparr> }"

definition dec_X1ResponseMessage :: "node \<Rightarrow> X1Answer option" where
  "dec_X1ResponseMessage x = do {
     let ks = nkids x;
     e \<leftarrow> pointer_field dec_X1Error (named ''errorInformation'') ks;
     trs \<leftarrow> slice_field dec_TaskResponseDetails (named ''taskResponseDetails'') ks;
     all \<leftarrow> slice_field dec_TaskResponseDetails (named ''taskResponseDetails'') (merged (named ''listOfTaskResponseDetails'') ks);
     Some \<lparr>anType = type_attribute x, anAdmfIdentifier = text_field (named ''admfIdentifier'') ks,
           anNeIdentifier = text_field (named ''neIdentifier'') ks,
           anMessageTimestamp = text_field (named ''messageTimestamp'') ks, anVersion = text_field (named ''version'') ks,
           anTransactionID = text_field (named ''x1TransactionId'') ks, anOK = text_field (named ''oK'') ks,
           anErrorInformation = e, TaskResponses = trs, AllTaskResponses = all\<rparr> }"

definition Unmarshal_X1Response :: "node \<Rightarrow> X1Answer list option" where
  "Unmarshal_X1Response x =
     (if named_in Namespace ''X1Response'' x
      then those (map dec_X1ResponseMessage (filter (named ''x1ResponseMessage'') (nkids x))) else None)"

definition ReportedTasks :: "X1Answer \<Rightarrow> TaskResponseDetails list" where
  "ReportedTasks m = (if AllTaskResponses m \<noteq> [] then AllTaskResponses m else TaskResponses m)"

definition Healthy :: "TaskStatus \<Rightarrow> bool" where
  "Healthy t \<longleftrightarrow> tsFaults t = [] \<and> (ProvisioningStatus t = '''' \<or> ProvisioningStatus t = ''complete'')"

text \<open>\<open>Describe\<close>; \<open>quote\<close> is the verb \<open>%q\<close>, and \<open>%d\<close> prints the code.\<close>

definition int_string :: "int \<Rightarrow> string" where
  "int_string n = (if n < 0 then ''-'' @ FormatUint (nat (- n)) else FormatUint (nat n))"

fun describe_faults :: "(int \<times> string) list \<Rightarrow> string \<Rightarrow> string" where
  "describe_faults [] b = b"
| "describe_faults (f # fs) b =
     describe_faults fs (b @ (if b \<noteq> '''' then ''; '' else '''') @ ''unresolved fault '' @ int_string (fst f))"

definition Describe :: "(string \<Rightarrow> string) \<Rightarrow> TaskStatus \<Rightarrow> string" where
  "Describe quote t =
     (let b = (if ProvisioningStatus t \<noteq> '''' \<and> ProvisioningStatus t \<noteq> ''complete''
               then ''provisioning status '' @ quote (ProvisioningStatus t) else '''');
          b = describe_faults (tsFaults t) b
      in if b = '''' then ''no fault reported'' else b)"

end
