(* ===== verification/Requester.thy ===== *)
theory Requester
  imports X1Wire X1Decode
begin

text \<open>
  The requesting side of X1 (\<open>src/x1/trigger.go\<close>): a triggering function tasks a point of
  interception. Requests are the text they are sent as; the network is an argument that takes the
  text posted and gives the HTTP response or the error of the call. What the clock and the random
  source give for a request are fields of the requester. The HTTP handler of the server
  (\<open>ServeHTTP\<close> of \<open>src/x1/x1.go\<close>) and the reporter's reading of its answers
  (\<open>readReportResponse\<close> of \<open>src/x1/report.go\<close>) are here too, because they are the other ends of the
  same documents.
\<close>

subsection \<open>Data\<close>

record Requester =
  authenticated :: bool
  ourID :: string
  reqNeID :: string
  reqNow :: int
  reqFresh :: string

definition NewRequester :: "string \<Rightarrow> string \<Rightarrow> bool \<Rightarrow> int \<Rightarrow> string \<Rightarrow> Requester" where
  "NewRequester our ne hasTLS t fresh =
     \<lparr>authenticated = hasTLS, ourID = our, reqNeID = ne, reqNow = t, reqFresh = fresh\<rparr>"

record Trigger =
  trXID :: xid
  trProductID :: xid
  trCorrelationID :: "64 word"
  trSEID :: "64 word"
  trSEIDAddress :: string
  trDIDs :: "string list"

record Destination =
  dsDID :: string
  dsFriendlyName :: string
  dsDeliveryType :: string
  dsAddress :: string
  dsPort :: "16 word"

datatype request_error =
    RequestError (reCode: int) (reDescription: string)
  | ResponseError (Field: string) (Want: string) (Got: string)
  | PlainError reason

definition ResponseError_Error :: "(string \<Rightarrow> string) \<Rightarrow> string \<Rightarrow> string \<Rightarrow> string \<Rightarrow> string" where
  "ResponseError_Error quote f want got =
     ''x1: response could not be attributed to the request that produced it: '' @ f @ '' = '' @ quote got @ '', want '' @ quote want"

definition RequestError_Error :: "int \<Rightarrow> string \<Rightarrow> string" where
  "RequestError_Error code description =
     ''x1: request refused with code '' @ int_string code @ '': '' @ description"

text \<open>A response: the connection it came over is \<open>None\<close> when it was not TLS.\<close>

record http_response =
  StatusCode :: nat
  respBody :: "string option"
  PeerCertificates :: "certificate list option"

record request_header =
  hdOurID :: string
  hdNeID :: string
  hdTimestamp :: int
  hdTxID :: string
  hdType :: string

definition requester_header :: "Requester \<Rightarrow> string \<Rightarrow> request_header" where
  "requester_header r msgType =
     \<lparr>hdOurID = ourID r, hdNeID = reqNeID r, hdTimestamp = reqNow r, hdTxID = reqFresh r, hdType = msgType\<rparr>"

definition maxRequestBytes :: nat where
  "maxRequestBytes = 1048576"

subsection \<open>Binding an answer to its request\<close>

definition responseTypeFor :: "string \<Rightarrow> string" where
  "responseTypeFor requestType = TrimSuffix requestType ''Request'' @ ''Response''"

definition validateBound :: "request_header \<Rightarrow> X1Answer list \<Rightarrow> request_error + X1Answer" where
  "validateBound h out =
     (case out of
        [] \<Rightarrow> Inl (ResponseError ''message count'' ''1'' ''0'')
      | m # rest \<Rightarrow>
          if rest \<noteq> [] then Inl (ResponseError ''message count'' ''1'' (FormatUint (length out)))
          else if localType (anType m) \<noteq> responseTypeFor (hdType h) \<and> localType (anType m) \<noteq> errorResponse
          then Inl (ResponseError ''response type'' (responseTypeFor (hdType h)) (localType (anType m)))
          else if anTransactionID m \<noteq> hdTxID h then Inl (ResponseError ''x1TransactionId'' (hdTxID h) (anTransactionID m))
          else if anNeIdentifier m \<noteq> hdNeID h then Inl (ResponseError ''neIdentifier'' (hdNeID h) (anNeIdentifier m))
          else if anAdmfIdentifier m \<noteq> hdOurID h then Inl (ResponseError ''admfIdentifier'' (hdOurID h) (anAdmfIdentifier m))
          else if anVersion m \<noteq> supportedVersion then Inl (ResponseError ''version'' supportedVersion (anVersion m))
          else Inr m)"

definition bindsResponderCert :: "http_response \<Rightarrow> bool \<Rightarrow> string \<Rightarrow> string \<Rightarrow> request_error option" where
  "bindsResponderCert resp auth role identifier =
     (if \<not> auth then None
      else case PeerCertificates resp of
        Some (c # _) \<Rightarrow>
          (if \<not> certBinds (Some c) role identifier
           then Some (ResponseError ''peer certificate'' identifier (certIdentifier (Some c) role)) else None)
      | _ \<Rightarrow> Some (ResponseError ''peer certificate'' identifier ''none''))"

text \<open>
  \<open>isTopLevelError\<close> looks at the first element of the body; \<open>Unmarshal_response\<close> is
  \<open>xml.Unmarshal\<close> into an \<open>X1Response\<close>.
\<close>

function isTopLevelError :: "string \<Rightarrow> bool" where
  "isTopLevelError s =
     (case read_token s of
        None \<Rightarrow> False
      | Some (t, r) \<Rightarrow>
          (case t of
             TStart n as \<Rightarrow> snd (split_qname n) = ''X1TopLevelErrorResponse''
           | TEmpty n as \<Rightarrow> snd (split_qname n) = ''X1TopLevelErrorResponse''
           | _ \<Rightarrow> isTopLevelError r))"
  by auto
termination
  by (relation "measure length") (auto dest: read_token_shorter)

declare isTopLevelError.simps [simp del]

definition Unmarshal_response :: "string \<Rightarrow> X1Answer list option" where
  "Unmarshal_response body = do { x \<leftarrow> read_xml body; Unmarshal_X1Response x }"

definition readBoundResponse ::
  "request_header \<Rightarrow> http_response \<Rightarrow> bool \<Rightarrow> string \<Rightarrow> string \<Rightarrow> request_error + X1Answer" where
  "readBoundResponse h resp auth role identifier =
     (if StatusCode resp \<noteq> 200 then Inl (PlainError (Errorf ''x1: NE returned status %d'' [N (StatusCode resp)]))
      else case respBody resp of
        None \<Rightarrow> Inl (PlainError (errorf0 ''x1: reading response: %w''))
      | Some stream \<Rightarrow>
          (let body = take maxRequestBytes stream in
           case bindsResponderCert resp auth role identifier of
             Some e \<Rightarrow> Inl e
           | None \<Rightarrow>
               (case Unmarshal_response body of
                  None \<Rightarrow>
                    if isTopLevelError body
                    then Inl (ResponseError ''request'' ''a parseable X1 request'' ''TopLevelError'')
                    else Inl (PlainError (errorf0 ''x1: malformed response: %w''))
                | Some out \<Rightarrow> validateBound h out)))"

definition readResponse :: "Requester \<Rightarrow> request_header \<Rightarrow> http_response \<Rightarrow> request_error + X1Answer" where
  "readResponse r h resp = readBoundResponse h resp (authenticated r) roleNE (hdNeID h)"

text \<open>The reporter's: the peer is the ADMF, and it is this element that the answer names as the NE.\<close>

definition readReportResponse :: "bool \<Rightarrow> string \<Rightarrow> string \<Rightarrow> string \<Rightarrow> string \<Rightarrow> http_response \<Rightarrow> request_error option" where
  "readReportResponse auth adm ne requestType txID resp =
     (let h = \<lparr>hdOurID = adm, hdNeID = ne, hdTimestamp = 0, hdTxID = txID, hdType = requestType\<rparr> in
      case readBoundResponse h resp auth roleADMF adm of
        Inl e \<Rightarrow> Some e
      | Inr m \<Rightarrow>
          (case anErrorInformation m of
             Some (code, description) \<Rightarrow> Some (RequestError code description)
           | None \<Rightarrow> None))"

subsection \<open>Requests\<close>

definition request_lines :: "request_header \<Rightarrow> string" where
  "request_lines h = header_lines (hdOurID h) (hdNeID h) (x1Timestamp (hdTimestamp h)) supportedVersion (hdTxID h)"

definition task_lines :: "string \<Rightarrow> string \<Rightarrow> string \<Rightarrow> 64 word \<Rightarrow> string \<Rightarrow> string \<Rightarrow> string list \<Rightarrow> string" where
  "task_lines x productID correlationID seid address addressElem dids =
        open_tag 4 ''taskDetails'' @
        el 6 ''xId'' (escapeXML x) @
        open_tag 6 ''targetIdentifiers'' @
        open_tag 8 ''targetIdentifier'' @
        open_tag 10 ''targetIdentifierExtension'' @
        el 12 ''Owner'' ''3GPP'' @
        openNS 12 ''ext'' ''UPFLIT3TargetIdentifierExtensions'' @
        openNS 14 ''ext'' ''UPFLIT3TargetIdentifier'' @
        openNS 16 ''ext'' ''FSEID'' @
        elNS 18 ''ext'' ''SEID'' (FormatUint (unat seid)) @
        (if address \<noteq> '''' then elNS 18 ''ext'' addressElem (escapeXML address) else '''') @
        closeNS 16 ''ext'' ''FSEID'' @
        closeNS 14 ''ext'' ''UPFLIT3TargetIdentifier'' @
        closeNS 12 ''ext'' ''UPFLIT3TargetIdentifierExtensions'' @
        close_tag 10 ''targetIdentifierExtension'' @
        close_tag 8 ''targetIdentifier'' @
        close_tag 6 ''targetIdentifiers'' @
        el 6 ''deliveryType'' ''X3Only'' @
        open_tag 6 ''listOfDIDs'' @
        concat (map (\<lambda>d. el 8 ''dId'' (escapeXML d)) dids) @
        close_tag 6 ''listOfDIDs'' @
        el 6 ''correlationID'' correlationID @
        el 6 ''productID'' (escapeXML productID) @
        close_tag 4 ''taskDetails''"

definition taskTemplate :: "request_header \<Rightarrow> string \<Rightarrow> string \<Rightarrow> string \<Rightarrow> 64 word \<Rightarrow> string \<Rightarrow> string \<Rightarrow> string list \<Rightarrow> string" where
  "taskTemplate h x productID correlationID seid address addressElem dids =
     request_document [(''xmlns:ext'', NamespaceX1Ext3GPP)] (hdType h) (request_lines h)
       (task_lines x productID correlationID seid address addressElem dids)"

definition deactivateTemplate :: "request_header \<Rightarrow> string \<Rightarrow> string" where
  "deactivateTemplate h x =
     request_document [] ''DeactivateTaskRequest'' (request_lines h) (el 4 ''xId'' (escapeXML x))"

definition destination_lines :: "string \<Rightarrow> string \<Rightarrow> string \<Rightarrow> string \<Rightarrow> string \<Rightarrow> 16 word \<Rightarrow> string" where
  "destination_lines did friendlyName deliveryType address addressElem port =
        open_tag 4 ''destinationDetails'' @
        el 6 ''dId'' (escapeXML did) @
        (if friendlyName \<noteq> '''' then el 6 ''friendlyName'' (escapeXML friendlyName) else '''') @
        el 6 ''deliveryType'' (escapeXML deliveryType) @
        open_tag 6 ''deliveryAddress'' @
        open_tag 8 ''ipAddressAndPort'' @
        openNS 10 ''c'' ''address'' @
        elNS 12 ''c'' addressElem (escapeXML address) @
        closeNS 10 ''c'' ''address'' @
        openNS 10 ''c'' ''port'' @
        elNS 12 ''c'' ''TCPPort'' (FormatUint (unat port)) @
        closeNS 10 ''c'' ''port'' @
        close_tag 8 ''ipAddressAndPort'' @
        close_tag 6 ''deliveryAddress'' @
        close_tag 4 ''destinationDetails''"

definition destinationTemplate :: "request_header \<Rightarrow> string \<Rightarrow> string \<Rightarrow> string \<Rightarrow> string \<Rightarrow> string \<Rightarrow> 16 word \<Rightarrow> string" where
  "destinationTemplate h did friendlyName deliveryType address addressElem port =
     request_document [(''xmlns:c'', NamespaceCommon)] ''CreateDestinationRequest'' (request_lines h)
       (destination_lines did friendlyName deliveryType address addressElem port)"

definition keepaliveTemplate :: "request_header \<Rightarrow> string" where
  "keepaliveTemplate h = request_document [] ''KeepaliveRequest'' (request_lines h) ''''"

definition detailsTemplate :: "request_header \<Rightarrow> string" where
  "detailsTemplate h = request_document [] ''GetAllDetailsRequest'' (request_lines h) ''''"

subsection \<open>Operations\<close>

text \<open>The network: what posting a text gives.\<close>

type_synonym network = "string \<Rightarrow> reason + http_response"

definition send :: "network \<Rightarrow> string \<Rightarrow> request_header \<Rightarrow> Requester \<Rightarrow> request_error option" where
  "send postXML body h r =
     (case postXML body of
        Inl e \<Rightarrow> Some (PlainError e)
      | Inr resp \<Rightarrow>
          (case readResponse r h resp of
             Inl e \<Rightarrow> Some e
           | Inr m \<Rightarrow>
               (case anErrorInformation m of
                  Some (code, description) \<Rightarrow> Some (RequestError code description)
                | None \<Rightarrow>
                    if anOK m = ''''
                    then Some (PlainError (Errorf ''x1: response %q carried neither acknowledgement nor error'' [S (localType (anType m))]))
                    else None)))"

definition CreateDestination :: "network \<Rightarrow> Destination \<Rightarrow> Requester \<Rightarrow> request_error option" where
  "CreateDestination postXML d r =
     (if dsDID d = '''' \<or> dsAddress d = '''' \<or> dsPort d = 0
      then Some (PlainError (errorf0 ''x1: destination needs a DID, address and port''))
      else case deliveryProducts (dsDeliveryType d) of
        Inl (Err _ e) \<Rightarrow> Some (PlainError (Errorf ''x1: destination: %w'' [W e]))
      | Inr _ \<Rightarrow>
          (let (element, address) = addressArm (dsAddress d);
               h = requester_header r ''CreateDestinationRequest''
           in send postXML
                (destinationTemplate h (dsDID d) (dsFriendlyName d) (dsDeliveryType d) address element (dsPort d)) h r))"

definition task_document :: "request_header \<Rightarrow> Trigger \<Rightarrow> string" where
  "task_document h t =
     (let (element, address) = addressArm (trSEIDAddress t) in
      taskTemplate h (trXID t) (trProductID t) (FormatUint (unat (trCorrelationID t))) (trSEID t) address element (trDIDs t))"

definition task :: "network \<Rightarrow> string \<Rightarrow> Trigger \<Rightarrow> Requester \<Rightarrow> request_error option" where
  "task postXML msgType t r =
     (if trXID t = '''' then Some (PlainError (errorf0 ''x1: trigger needs an XID''))
      else if trProductID t = '''' then Some (PlainError (errorf0 ''x1: trigger needs a ProductID (the warrant XID)''))
      else if trCorrelationID t = 0 then Some (PlainError (errorf0 ''x1: trigger needs a non-zero CorrelationID''))
      else if trSEID t = 0 then Some (PlainError (errorf0 ''x1: trigger needs a SEID to detect the session''))
      else if trDIDs t = [] then Some (PlainError (errorf0 ''x1: trigger needs at least one destination''))
      else let h = requester_header r msgType in send postXML (task_document h t) h r)"

definition ActivateTask :: "network \<Rightarrow> Trigger \<Rightarrow> Requester \<Rightarrow> request_error option" where
  "ActivateTask postXML t r = task postXML ''ActivateTaskRequest'' t r"

definition ModifyTask :: "network \<Rightarrow> Trigger \<Rightarrow> Requester \<Rightarrow> request_error option" where
  "ModifyTask postXML t r = task postXML ''ModifyTaskRequest'' t r"

definition Requester_ReportedTasks :: "network \<Rightarrow> Requester \<Rightarrow> request_error + TaskResponseDetails list" where
  "Requester_ReportedTasks postXML r =
     (let h = requester_header r ''GetAllDetailsRequest'' in
      case postXML (detailsTemplate h) of
        Inl e \<Rightarrow> Inl (PlainError e)
      | Inr resp \<Rightarrow>
          (case readResponse r h resp of
             Inl e \<Rightarrow> Inl e
           | Inr m \<Rightarrow>
               (case anErrorInformation m of
                  Some (code, description) \<Rightarrow> Inl (RequestError code description)
                | None \<Rightarrow> Inr (ReportedTasks m))))"

fun xids_loop :: "TaskResponseDetails list \<Rightarrow> xid list \<Rightarrow> xid list" where
  "xids_loop [] xids = xids"
| "xids_loop (t # ts) xids =
     xids_loop ts (if tdXID (trTaskDetails t) \<noteq> '''' then xids @ [tdXID (trTaskDetails t)] else xids)"

definition TaskXIDs :: "network \<Rightarrow> Requester \<Rightarrow> request_error + xid list" where
  "TaskXIDs postXML r =
     (case Requester_ReportedTasks postXML r of
        Inl e \<Rightarrow> Inl e
      | Inr ts \<Rightarrow> Inr (xids_loop ts []))"

definition Requester_Keepalive :: "network \<Rightarrow> Requester \<Rightarrow> request_error option" where
  "Requester_Keepalive postXML r =
     (let h = requester_header r ''KeepaliveRequest'' in send postXML (keepaliveTemplate h) h r)"

definition DeactivateTask :: "network \<Rightarrow> xid \<Rightarrow> Requester \<Rightarrow> request_error option" where
  "DeactivateTask postXML x r =
     (if x = '''' then Some (PlainError (errorf0 ''x1: deactivate needs an XID''))
      else let h = requester_header r ''DeactivateTaskRequest'' in send postXML (deactivateTemplate h x) h r)"

subsection \<open>The other end\<close>

definition Unmarshal_request :: "string \<Rightarrow> X1RequestMessage list option" where
  "Unmarshal_request body = do { x \<leftarrow> read_xml body; Unmarshal_X1Request x }"

record http_request =
  Method :: string
  rqBody :: "string option"
  rqPeers :: "certificate list option"

text \<open>
  \<open>ServeHTTP\<close>. Each message comes with what the network function answers while it is applied and the
  identifier drawn then (\<open>feed\<close>). \<open>http.Error\<close> ends its text with a newline.
\<close>

definition peer_certificate :: "certificate list option \<Rightarrow> certificate option" where
  "peer_certificate cs = (case cs of Some (c # _) \<Rightarrow> Some c | _ \<Rightarrow> None)"

definition ServeHTTP ::
  "(string \<Rightarrow> string) \<Rightarrow> (nat \<Rightarrow> Observations \<times> string) \<Rightarrow> http_request \<Rightarrow> Server \<Rightarrow> Server \<times> nat \<times> string" where
  "ServeHTTP quote feed rq s =
     (if Method rq \<noteq> ''POST'' then (s, 405, ''X1 requires POST'' @ newline)
      else case rqBody rq of
        None \<Rightarrow> (s, 400, ''read error'' @ newline)
      | Some stream \<Rightarrow>
          (let body = take maxRequestBytes stream;
               peer = peer_certificate (rqPeers rq);
               msgs = map_option (\<lambda>ms. map (\<lambda>(i, m). (m, feed i)) (enumerate 0 ms)) (Unmarshal_request body);
               (s', resp) = Process msgs peer s
           in case resp of
                None \<Rightarrow> (s', 200, topLevelErrorTemplate (topLevelError peer s'))
              | Some out \<Rightarrow> (s', 200, marshalResponse quote out)))"

end
