(* ===== verification/X1Exchange.thy ===== *)
theory X1Exchange
  imports Requester X1Tasking
begin

text \<open>
  Both ends of X1 together: what the server decodes from the requests of a triggering function, what
  that function decodes from the server's answers, and what the two know about each other's state
  after an exchange.
\<close>

subsection \<open>Decoding what was read\<close>

lemma node_simps [simp]:
  "nlocal (leaf env p n v) = n" "ntext (leaf env p n v) = v" "nkids (leaf env p n v) = []"
  "nspace (leaf env p n v) = resolve_prefix env p"
  "nlocal (box env p ind n ks) = n" "nkids (box env p ind n ks) = ks" "nspace (box env p ind n ks) = resolve_prefix env p"
  "nlocal (inner env p n ks) = n" "nkids (inner env p n ks) = ks" "nspace (inner env p n ks) = resolve_prefix env p"
  "nlocal (message_node n ty ks) = n" "nkids (message_node n ty ks) = ks"
  by (simp_all add: leaf_def box_def inner_def message_node_def)

lemma type_of_message [simp]: "type_attribute (message_node n ty ks) = ''ns1:'' @ ty"
  by (simp add: type_attribute_def message_node_def)

lemma TrimSpace_digits: "list_all is_digit s \<Longrightarrow> TrimSpace s = s"
proof -
  let ?sp = "\<lambda>c. code_of c \<in> {9, 10, 11, 12, 13, 32}"
  assume "list_all is_digit s"
  then have d: "\<forall>c \<in> set s. \<not> ?sp c" by (auto simp: list_all_iff is_digit_def)
  have keep: "dropWhile ?sp u = u" if "\<forall>c \<in> set u. \<not> ?sp c" for u using that by (cases u) simp_all
  have "dropWhile ?sp s = s" "dropWhile ?sp (rev s) = rev s" using keep [of s] keep [of "rev s"] d by simp_all
  then show ?thesis by (simp only: TrimSpace_def Let_def rev_rev_ident)
qed

lemma uint_text_FormatUint: "n < 2 ^ bits \<Longrightarrow> uint_text bits (FormatUint n) = Some n"
  using FormatUint_digits [of n] ParseUint_FormatUint [of n bits] by (simp add: uint_text_def TrimSpace_digits)

lemma int_text_FormatUint [simp]: "n < 2 ^ 63 \<Longrightarrow> int_text (FormatUint n) = Some (int n)"
proof -
  assume n: "n < 2 ^ 63"
  obtain c r where s: "FormatUint n = c # r" using FormatUint_digits [of n] by (cases "FormatUint n") auto
  then have "c \<noteq> CHR ''-''" "c \<noteq> CHR ''+''" using FormatUint_digits [of n] by (auto simp: is_digit_def)
  moreover have "ParseUint (FormatUint n) 64 = Some n" by (rule ParseUint_FormatUint) (use n in simp)
  ultimately show ?thesis
    using n FormatUint_digits [of n] by (simp add: int_text_def TrimSpace_digits s)
qed

lemma those_map_Some: "(\<And>x. x \<in> set xs \<Longrightarrow> f x = Some (g x)) \<Longrightarrow> those (map f xs) = Some (map g xs)"
  by (induction xs) auto

lemma filter_map_same: "(\<And>x. p (f x)) \<Longrightarrow> filter p (map f xs) = map f xs"
  by (induction xs) auto

lemmas field_defs = text_field_def merged_def texts_def number_field_def uint_field_def pointer_field_def slice_field_def
  named_def named_in_def

subsection \<open>Requests\<close>

definition trigger_env :: "(string \<times> string) list" where
  "trigger_env = request_env [(''xmlns:ext'', NamespaceX1Ext3GPP)]"

definition trigger_node :: "Trigger \<Rightarrow> node" where
  "trigger_node t =
     box trigger_env ''ns1'' 4 ''taskDetails''
       [leaf trigger_env ''ns1'' ''xId'' (carried (trXID t)),
        box trigger_env ''ns1'' 6 ''targetIdentifiers''
          [box trigger_env ''ns1'' 8 ''targetIdentifier''
             [box trigger_env ''ns1'' 10 ''targetIdentifierExtension''
                [leaf trigger_env ''ns1'' ''Owner'' ''3GPP'',
                 box trigger_env ''ext'' 12 ''UPFLIT3TargetIdentifierExtensions''
                   [box trigger_env ''ext'' 14 ''UPFLIT3TargetIdentifier''
                      [box trigger_env ''ext'' 16 ''FSEID''
                         (leaf trigger_env ''ext'' ''SEID'' (FormatUint (unat (trSEID t))) #
                          (if snd (addressArm (trSEIDAddress t)) = '''' then []
                           else [leaf trigger_env ''ext'' (fst (addressArm (trSEIDAddress t)))
                                   (carried (snd (addressArm (trSEIDAddress t))))]))]]]]],
        leaf trigger_env ''ns1'' ''deliveryType'' ''X3Only'',
        box trigger_env ''ns1'' 6 ''listOfDIDs'' (map (\<lambda>d. leaf trigger_env ''ns1'' ''dId'' (carried d)) (trDIDs t)),
        leaf trigger_env ''ns1'' ''correlationID'' (FormatUint (unat (trCorrelationID t))),
        leaf trigger_env ''ns1'' ''productID'' (carried (trProductID t))]"

lemma parse_elNS_plain [reading]:
  "is_name p \<Longrightarrow> is_name n \<Longrightarrow> CHR '':'' \<notin> set p \<Longrightarrow> plain v \<Longrightarrow> parse (elNS ind p n v @ s) (Frame env q as t ks # st) =
     parse s (Frame env q as (t @ indent ind @ newline) (ks @ [leaf env p n v]) # st)"
  using writesD [OF writes_elNS [OF writes_plain]] by simp

lemma is_name_arm [simp]: "is_name (fst (addressArm a))"
  using addressArm_name [of a] by auto

definition task_lines_of :: "Trigger \<Rightarrow> string" where
  "task_lines_of t =
     (let (element, address) = addressArm (trSEIDAddress t) in
      task_lines (trXID t) (trProductID t) (FormatUint (unat (trCorrelationID t))) (trSEID t) address element (trDIDs t))"

lemma writes_task_lines: "writes trigger_env (task_lines_of t) (indent 4 @ newline) [trigger_node t]"
proof -
  obtain e a where arm: "addressArm (trSEIDAddress t) = (e, a)" by fastforce
  have e: "is_name e" using is_name_arm [of "trSEIDAddress t"] arm by simp
  note dids = writesD [OF writes_concat [OF writes_el_escaped]]
  have c: "clean (concat (map (\<lambda>d. el 8 ''dId'' (escapeXML d)) ds))" for ds by (rule clean_concat) simp
  show ?thesis
    by (rule writesI)
      (cases "a = ''''"; simp add: task_lines_of_def arm task_lines_def trigger_node_def reading e c dids)+
qed

lemma Unmarshal_document:
  assumes "list_all attr_ok extra" "list_all value_char ty" "list_all space_char w"
    and "writes (request_env extra) body w bs"
  shows "Unmarshal_request (request_document extra ty (request_lines h) body) =
     those [dec_X1RequestMessage (message_node ''x1RequestMessage'' ty
       (header_nodes (request_env extra) (hdOurID h) (hdNeID h) (hdTimestamp h) supportedVersion (hdTxID h) @ bs))]"
proof -
  let ?hs = "\<lambda>env. header_nodes env (hdOurID h) (hdNeID h) (hdTimestamp h) supportedVersion (hdTxID h)"
  have "\<exists>x. read_xml (request_document extra ty (request_lines h) body) = Some x \<and>
      is_root x ''X1Request'' [message_node ''x1RequestMessage'' ty (?hs (request_env extra) @ (\<lambda>_. bs) (request_env extra))]"
    using assms writes_request_header
    by (intro read_request_document [where w = w]) (auto simp: request_lines_def header_nodes_def)
  then show ?thesis
    by (auto simp: Unmarshal_request_def Unmarshal_X1Request_def is_root_def named_def named_in_def)
qed

text \<open>The header of a decoded request.\<close>

definition with_header :: "request_header \<Rightarrow> string \<Rightarrow> TaskDetails option \<Rightarrow> string \<Rightarrow> DestinationDetails option \<Rightarrow> X1RequestMessage" where
  "with_header h ty td x dd =
     \<lparr>rqType = ''ns1:'' @ ty, AdmfIdentifier = carried (hdOurID h), NeIdentifier = carried (hdNeID h),
      rqVersion = supportedVersion, rqTransactionID = carried (hdTxID h), rqTaskDetails = td, rqXID = x,
      rqDestinationDetails = dd, rqDID = ''''\<rparr>"

definition trigger_details :: "Trigger \<Rightarrow> TaskDetails" where
  "trigger_details t =
     (let (element, address) = addressArm (trSEIDAddress t);
          fseid = \<lparr>SEID = trSEID t, fseidIPv4 = (if element = ''IPv4Address'' then carried address else ''''),
                   fseidIPv6 = (if element = ''IPv6Address'' then carried address else '''')\<rparr>;
          criterion = \<lparr>upfFSEID = Some fseid, upfPDRID = None, upfQERID = None, NetworkInstance = '''',
                       GTPTunnelDirection = '''', upfFTEID = None, upfPDR = ''''\<rparr>
      in \<lparr>tdXID = carried (trXID t),
          TargetIdentifiers =
            [X1TargetIdentifier '''' '''' '''' '''' '''' '''' '''' '''' '''' '''' '''' ''''
               (Some \<lparr>tieOwner = ''3GPP'', UPFT3 = Some [criterion]\<rparr>)],
          tdDeliveryType = ''X3Only'', ListOfDIDs = map carried (trDIDs t), DSIDs = [],
          tdCorrelationID = FormatUint (unat (trCorrelationID t)), tdProductID = carried (trProductID t),
          ListOfServiceTypes = [], TaskDetailsExtensions = [], ListOfTrafficPolicyReferences = []\<rparr>)"

lemma env_lookups [simp]:
  "resolve_prefix trigger_env ''ext'' = NamespaceX1Ext3GPP" "resolve_prefix response_env ''ext'' = NamespaceX1Ext3GPP"
  "resolve_prefix (request_env [(''xmlns:c'', NamespaceCommon)]) ''c'' = NamespaceCommon"
  by (simp_all add: resolve_prefix_def trigger_env_def request_env_def response_env_def declarations_def split_qname_def)

lemma carried_Nil [simp]: "carried [] = []"
  by (simp add: carried_def)

lemma uint_text_words [simp]:
  "uint_text 64 (FormatUint (unat (w :: 64 word))) = Some (unat w)"
  "uint_text 16 (FormatUint (unat (v :: 16 word))) = Some (unat v)"
proof -
  have "unat w < 2 ^ 64" "unat v < 2 ^ 16" using unsigned_less [of w] unsigned_less [of v] by simp_all
  then show "uint_text 64 (FormatUint (unat w)) = Some (unat w)" "uint_text 16 (FormatUint (unat v)) = Some (unat v)"
    by (simp_all add: uint_text_FormatUint)
qed

lemma texts_map: "texts p (map (\<lambda>d. leaf env q n (f d)) ds) = (if p (leaf env q n '''') then map f ds else [])"
  if "\<And>u v. p (leaf env q n u) = p (leaf env q n v)"
  using that [of _ "''''"] by (induction ds) (auto simp: texts_def)

lemma dec_trigger_node: "dec_TaskDetails (nkids (trigger_node t)) = Some (trigger_details t)"
proof -
  obtain e a where arm: "addressArm (trSEIDAddress t) = (e, a)" by fastforce
  have e: "e = ''IPv4Address'' \<or> e = ''IPv6Address''" using addressArm_name [of "trSEIDAddress t"] arm by simp
  have d: "filter (\<lambda>x. nlocal x = n) (map (\<lambda>d. leaf trigger_env ''ns1'' ''dId'' (carried d)) ds) =
      (if n = ''dId'' then map (\<lambda>d. leaf trigger_env ''ns1'' ''dId'' (carried d)) ds else [])" for n ds
    by (induction ds) auto
  show ?thesis
    using e by (elim disjE; cases "a = ''''")
      (simp_all add: trigger_node_def trigger_details_def arm dec_TaskDetails_def field_defs dec_TargetIdentifier_def
        dec_TargetIdentifierExtension_def dec_UPFLIT3Identifier_def dec_FSEID_def d comp_def)
qed

lemma header_node_simps [simp]:
  "header_nodes env adm ne t ver tx =
     [leaf env ''ns1'' ''admfIdentifier'' (carried adm), leaf env ''ns1'' ''neIdentifier'' (carried ne),
      leaf env ''ns1'' ''messageTimestamp'' (x1Timestamp t), leaf env ''ns1'' ''version'' (carried ver),
      leaf env ''ns1'' ''x1TransactionId'' (carried tx)]"
  by (simp add: header_nodes_def)

lemma trigger_node_name: "nlocal (trigger_node t) = ''taskDetails''"
  by (simp add: trigger_node_def)

text \<open>What the server decodes from each request.\<close>

lemma Unmarshal_task_document:
  assumes "list_all value_char (hdType h)"
  shows "Unmarshal_request (task_document h t) = Some [with_header h (hdType h) (Some (trigger_details t)) '''' None]"
proof -
  have d: "task_document h t = request_document [(''xmlns:ext'', NamespaceX1Ext3GPP)] (hdType h) (request_lines h) (task_lines_of t)"
    by (simp add: task_document_def taskTemplate_def task_lines_of_def split_beta Let_def)
  show ?thesis
    unfolding d
    using Unmarshal_document [of "[(''xmlns:ext'', NamespaceX1Ext3GPP)]" "hdType h" "indent 4 @ newline" "task_lines_of t" "[trigger_node t]" h]
      assms writes_task_lines [of t, unfolded trigger_env_def]
    by (simp add: attr_ok_def namespace_values dec_X1RequestMessage_def with_header_def field_defs trigger_node_name
        dec_trigger_node supportedVersion_text)
qed

lemma Unmarshal_keepalive:
  "Unmarshal_request (keepaliveTemplate h) = Some [with_header h ''KeepaliveRequest'' None '''' None]"
  using Unmarshal_document [of "[]" "''KeepaliveRequest''" "''''" "''''" "[]" h] writes_Nil
  by (simp add: keepaliveTemplate_def value_char_def name_char_def dec_X1RequestMessage_def with_header_def field_defs supportedVersion_text)

lemma Unmarshal_details:
  "Unmarshal_request (detailsTemplate h) = Some [with_header h ''GetAllDetailsRequest'' None '''' None]"
  using Unmarshal_document [of "[]" "''GetAllDetailsRequest''" "''''" "''''" "[]" h] writes_Nil
  by (simp add: detailsTemplate_def value_char_def name_char_def dec_X1RequestMessage_def with_header_def field_defs supportedVersion_text)

lemma Unmarshal_deactivate:
  "Unmarshal_request (deactivateTemplate h x) = Some [with_header h ''DeactivateTaskRequest'' None (carried x) None]"
  using Unmarshal_document [of "[]" "''DeactivateTaskRequest''" "indent 4 @ newline" "el 4 ''xId'' (escapeXML x)"
      "[leaf (request_env []) ''ns1'' ''xId'' (carried x)]" h] writes_el_escaped
  by (simp add: deactivateTemplate_def value_char_def name_char_def dec_X1RequestMessage_def with_header_def field_defs supportedVersion_text)

text \<open>A destination.\<close>

abbreviation dest_env :: "(string \<times> string) list" where
  "dest_env \<equiv> request_env [(''xmlns:c'', NamespaceCommon)]"

definition dest_node :: "string \<Rightarrow> string \<Rightarrow> string \<Rightarrow> string \<Rightarrow> string \<Rightarrow> 16 word \<Rightarrow> node" where
  "dest_node did friendlyName deliveryType address addressElem port =
     box dest_env ''ns1'' 4 ''destinationDetails''
       ([leaf dest_env ''ns1'' ''dId'' (carried did)] @
        (if friendlyName = '''' then [] else [leaf dest_env ''ns1'' ''friendlyName'' (carried friendlyName)]) @
        [leaf dest_env ''ns1'' ''deliveryType'' (carried deliveryType),
         box dest_env ''ns1'' 6 ''deliveryAddress''
           [box dest_env ''ns1'' 8 ''ipAddressAndPort''
              [box dest_env ''c'' 10 ''address'' [leaf dest_env ''c'' addressElem (carried address)],
               box dest_env ''c'' 10 ''port'' [leaf dest_env ''c'' ''TCPPort'' (FormatUint (unat port))]]]])"

lemma writes_destination_lines:
  assumes "is_name ae"
  shows "writes dest_env (destination_lines did fn dt a ae port) (indent 4 @ newline) [dest_node did fn dt a ae port]"
  by (rule writesI) (cases "fn = ''''"; simp add: destination_lines_def dest_node_def reading assms)+

definition destination_details :: "string \<Rightarrow> string \<Rightarrow> string \<Rightarrow> string \<Rightarrow> string \<Rightarrow> 16 word \<Rightarrow> DestinationDetails" where
  "destination_details did friendlyName deliveryType address addressElem port =
     \<lparr>ddDID = carried did, ddFriendlyName = carried friendlyName, ddDeliveryType = carried deliveryType,
      IPAddressAndPort =
        Some \<lparr>ipAddress = \<lparr>IPv4 = (if addressElem = ''IPv4Address'' then carried address else ''''),
                            IPv6 = (if addressElem = ''IPv6Address'' then carried address else '''')\<rparr>,
              ipPort = \<lparr>TCPPort = Some port, UDPPort = None\<rparr>\<rparr>,
      ddExtensions = []\<rparr>"

lemma dec_dest_node:
  assumes "ae = ''IPv4Address'' \<or> ae = ''IPv6Address''"
  shows "dec_DestinationDetails (nkids (dest_node did fn dt a ae port)) = Some (destination_details did fn dt a ae port)"
  using assms by (elim disjE; cases "fn = ''''")
    (simp_all add: dest_node_def destination_details_def dec_DestinationDetails_def field_defs dec_IPAddressPort_def
      dec_Port_def dec_IPAddress_def)

lemma Unmarshal_destination:
  assumes "ae = ''IPv4Address'' \<or> ae = ''IPv6Address''"
  shows "Unmarshal_request (destinationTemplate h did fn dt a ae port) =
     Some [with_header h ''CreateDestinationRequest'' None '''' (Some (destination_details did fn dt a ae port))]"
proof -
  have "is_name ae" using assms by auto
  then show ?thesis
    using Unmarshal_document [of "[(''xmlns:c'', NamespaceCommon)]" "''CreateDestinationRequest''" "indent 4 @ newline"
        "destination_lines did fn dt a ae port" "[dest_node did fn dt a ae port]" h]
      writes_destination_lines [of ae did fn dt a port] dec_dest_node [OF assms, of did fn dt a port]
    by (simp add: destinationTemplate_def attr_ok_def namespace_values value_char_def name_char_def
        dec_X1RequestMessage_def with_header_def field_defs supportedVersion_text dest_node_def)
qed

subsection \<open>Answers\<close>

text \<open>
  A target as a requester decodes it. The numeric criteria have to parse; \<open>numeric_target\<close> says that
  they do.
\<close>

definition numeric_target :: "TargetIdentifier \<Rightarrow> bool" where
  "numeric_target t \<longleftrightarrow>
     (case tiType t of
        TargetFSEID \<Rightarrow> uint_text 64 (carried (tiValue t)) \<noteq> None
      | TargetFTEID \<Rightarrow> uint_text 32 (carried (fst (Cut (tiValue t) (CHR ''@'')))) \<noteq> None
      | TargetPDRID \<Rightarrow> uint_text 32 (carried (tiValue t)) \<noteq> None
      | TargetQERID \<Rightarrow> uint_text 32 (carried (tiValue t)) \<noteq> None
      | _ \<Rightarrow> True)"

definition no_criterion :: UPFLIT3Identifier where
  "no_criterion = \<lparr>upfFSEID = None, upfPDRID = None, upfQERID = None, NetworkInstance = '''', GTPTunnelDirection = '''',
     upfFTEID = None, upfPDR = ''''\<rparr>"

definition criterion_view :: "TargetIdentifier \<Rightarrow> UPFLIT3Identifier" where
  "criterion_view t =
     (let v = carried (tiValue t) in
      case tiType t of
        TargetFSEID \<Rightarrow> no_criterion\<lparr>upfFSEID := Some \<lparr>SEID = of_nat (the (uint_text 64 v)), fseidIPv4 = '''', fseidIPv6 = ''''\<rparr>\<rparr>
      | TargetFTEID \<Rightarrow>
          (let (teid, addr, hasAddr) = Cut (tiValue t) (CHR ''@''); (e, a) = addressArm addr in
           no_criterion\<lparr>upfFTEID := Some \<lparr>TEID = of_nat (the (uint_text 32 (carried teid))),
             fteidIPv4 = (if hasAddr \<and> e = ''IPv4Address'' then carried a else ''''),
             fteidIPv6 = (if hasAddr \<and> e = ''IPv6Address'' then carried a else '''')\<rparr>\<rparr>)
      | TargetPDRID \<Rightarrow> no_criterion\<lparr>upfPDRID := Some (of_nat (the (uint_text 32 v)))\<rparr>
      | TargetQERID \<Rightarrow> no_criterion\<lparr>upfQERID := Some (of_nat (the (uint_text 32 v)))\<rparr>
      | TargetNetworkInstance \<Rightarrow> no_criterion\<lparr>NetworkInstance := v\<rparr>
      | TargetGTPTunnelDirection \<Rightarrow> no_criterion\<lparr>GTPTunnelDirection := v\<rparr>
      | TargetPDR \<Rightarrow> no_criterion\<lparr>upfPDR := v\<rparr>
      | _ \<Rightarrow> no_criterion)"

definition target_view :: "TargetIdentifier \<Rightarrow> X1TargetIdentifier" where
  "target_view t =
     (let arm = (\<lambda>k. if tiType t = k then carried (tiValue t) else '''') in
      X1TargetIdentifier '''' (arm TargetSUPI) '''' (arm TargetPEI) '''' (arm TargetGPSI) '''' '''' (arm TargetUEIPv4)
        (arm TargetUEIPv6) (arm TargetTCPPort) (arm TargetUDPPort)
        (if XMLElement (tiType t) = None then Some \<lparr>tieOwner = ExtensionOwner3GPP, UPFT3 = Some [criterion_view t]\<rparr> else None))"

lemmas criterion_defs = arm_nodes_def criterion_view_def no_criterion_def dec_UPFLIT3Identifier_def

lemma dec_criterion:
  assumes "numeric_target t" "XMLElement (tiType t) = None"
  shows "dec_UPFLIT3Identifier (arm_nodes response_env t) = Some (criterion_view t)"
proof (cases "tiType t")
  case TargetFTEID
  obtain teid addr hasAddr where c: "Cut (tiValue t) (CHR ''@'') = (teid, addr, hasAddr)" by (metis prod_cases3)
  obtain e a where arm: "addressArm addr = (e, a)" by fastforce
  have e: "e = ''IPv4Address'' \<or> e = ''IPv6Address''" using addressArm_name [of addr] arm by simp
  obtain n where n: "uint_text 32 (carried teid) = Some n" using assms(1) TargetFTEID c by (auto simp: numeric_target_def)
  show ?thesis
    using e by (elim disjE; cases hasAddr)
      (simp_all add: TargetFTEID n arm_nodes_def criterion_view_def no_criterion_def c arm dec_UPFLIT3Identifier_def
        dec_FTEID_def field_defs)
next
  case TargetFSEID
  then obtain n where "uint_text 64 (carried (tiValue t)) = Some n" using assms(1) by (auto simp: numeric_target_def)
  with TargetFSEID show ?thesis by (simp add: criterion_defs dec_FSEID_def field_defs)
next
  case TargetPDRID
  then obtain n where "uint_text 32 (carried (tiValue t)) = Some n" using assms(1) by (auto simp: numeric_target_def)
  with TargetPDRID show ?thesis by (simp add: criterion_defs field_defs)
next
  case TargetQERID
  then obtain n where "uint_text 32 (carried (tiValue t)) = Some n" using assms(1) by (auto simp: numeric_target_def)
  with TargetQERID show ?thesis by (simp add: criterion_defs field_defs)
qed (use assms(2) in \<open>simp_all add: XMLElement_def criterion_defs field_defs\<close>)

lemma dec_target:
  assumes "numeric_target t"
  shows "dec_TargetIdentifier (target_nodes response_env t) = Some (target_view t)"
proof (cases "XMLElement (tiType t)")
  case None
  note c = dec_criterion [OF assms None]
  have "tiType t \<notin> {TargetSUPI, TargetPEI, TargetGPSI, TargetUEIPv4, TargetUEIPv6, TargetTCPPort, TargetUDPPort}"
    using None by (auto simp: XMLElement_def)
  then show ?thesis
    by (simp add: None c target_nodes_def target_view_def dec_TargetIdentifier_def dec_TargetIdentifierExtension_def
        field_defs Let_def)
next
  case (Some e)
  then have "XMLElement (tiType t) \<noteq> None" by simp
  then show ?thesis
    by (cases "tiType t")
      (simp_all add: XMLElement_def target_nodes_def target_view_def dec_TargetIdentifier_def field_defs)
qed

definition task_view :: "InterceptTask \<Rightarrow> (nat \<times> string) list \<Rightarrow> TaskResponseDetails" where
  "task_view t fs =
     \<lparr>trTaskDetails =
        \<lparr>tdXID = carried (XID t), TargetIdentifiers = map target_view (Targets t), tdDeliveryType = deliveryTypeOf (Products t),
         ListOfDIDs = map carried (DIDs t), DSIDs = [], tdCorrelationID = '''', tdProductID = '''', ListOfServiceTypes = [],
         TaskDetailsExtensions = [], ListOfTrafficPolicyReferences = []\<rparr>,
      trTaskStatus =
        \<lparr>ProvisioningStatus = ''complete'', tsFaults = map (\<lambda>f. (int (fst f), carried (snd f))) fs\<rparr>\<rparr>"

lemma filter_leaves:
  "filter (\<lambda>x. nlocal x = n) (map (\<lambda>d. leaf env p l (f d)) ds) = (if n = l then map (\<lambda>d. leaf env p l (f d)) ds else [])"
  by (induction ds) auto

lemma dec_faults:
  assumes "list_all (\<lambda>f. fst f < 2 ^ 63) fs"
  shows "slice_field dec_X1Error (named ''unresolvedFault'') (nkids (faults_node env ind fs)) =
     Some (map (\<lambda>f. (int (fst f), carried (snd f))) fs)"
proof -
  have "those (map (\<lambda>x. dec_X1Error (nkids x)) (map (fault_node env ind) fs)) = Some (map (\<lambda>f. (int (fst f), carried (snd f))) fs)"
    unfolding map_map comp_def
    by (rule those_map_Some) (use assms in \<open>auto simp: list_all_iff fault_node_def dec_X1Error_def field_defs\<close>)
  moreover have "filter (named ''unresolvedFault'') (map (fault_node env ind) fs) = map (fault_node env ind) fs"
    by (rule filter_map_same) (simp add: fault_node_def named_def)
  ultimately show ?thesis by (auto simp: faults_node_def slice_field_def)
qed

lemma dec_targets:
  assumes "list_all numeric_target ts"
  shows "slice_field dec_TargetIdentifier (named ''targetIdentifier'')
      (map (\<lambda>i. inner response_env ''ns1'' ''targetIdentifier'' (target_nodes response_env i)) ts) = Some (map target_view ts)"
proof -
  have "filter (named ''targetIdentifier'') (map (\<lambda>i. inner response_env ''ns1'' ''targetIdentifier'' (target_nodes response_env i)) ts) =
      map (\<lambda>i. inner response_env ''ns1'' ''targetIdentifier'' (target_nodes response_env i)) ts"
    by (rule filter_map_same) (simp add: named_def)
  moreover have "those (map (\<lambda>i. dec_TargetIdentifier (target_nodes response_env i)) ts) = Some (map target_view ts)"
    by (rule those_map_Some) (use assms dec_target in \<open>auto simp: list_all_iff\<close>)
  ultimately show ?thesis by (simp add: slice_field_def comp_def)
qed

lemma faults_node_name [simp]: "nlocal (faults_node env ind fs) = ''listOfFaults''"
  by (simp add: faults_node_def)

lemma dec_task:
  assumes "list_all numeric_target (Targets t)" "list_all (\<lambda>f. fst f < 2 ^ 63) fs"
  shows "dec_TaskResponseDetails (nkids (task_node response_env ind t fs)) = Some (task_view t fs)"
  using dec_targets [OF assms(1)] dec_faults [OF assms(2), of response_env "ind + 4"]
  by (simp add: task_node_def task_view_def dec_TaskResponseDetails_def dec_TaskDetails_def dec_TaskStatus_def
      merged_def texts_def text_field_def number_field_def named_def filter_leaves comp_def)

text \<open>An answer as a requester decodes it. \<open>answer_fits\<close> says that its numbers are in range.\<close>

definition read_error :: "nat \<times> string \<Rightarrow> int \<times> string" where
  "read_error f = (int (fst f), carried (snd f))"

definition details_types :: "string list" where
  "details_types =
     [errorResponse, ''GetAllDetailsResponse'', ''GetTaskDetailsResponse'', ''GetAllTaskDetailsResponse'',
      ''GetAllDestinationDetailsResponse'', ''GetDestinationDetailsResponse'', ''GetNEStatusResponse'',
      ''ListAllDetailsResponse'', ''GetAllGenericObjectDetailsResponse'']"

definition task_views :: "(string \<Rightarrow> string) \<Rightarrow> X1ResponseMessage \<Rightarrow> TaskResponseDetails list" where
  "task_views quote m = map (\<lambda>t. task_view t (faults_of_task quote m t)) (rsTasks m)"

definition answer_of :: "(string \<Rightarrow> string) \<Rightarrow> X1ResponseMessage \<Rightarrow> X1Answer" where
  "answer_of quote m =
     \<lparr>anType = ''ns1:'' @ rsType m, anAdmfIdentifier = carried (rsAdmfIdentifier (rsHeader m)),
      anNeIdentifier = carried (rsNeIdentifier (rsHeader m)), anMessageTimestamp = x1Timestamp (rsMessageTimestamp (rsHeader m)),
      anVersion = carried (rsVersion (rsHeader m)), anTransactionID = carried (rsTransactionID (rsHeader m)),
      anOK = (if rsType m \<in> set details_types then '''' else carried (rsOK m)),
      anErrorInformation =
        (if rsType m = errorResponse
         then Some (case rsErrorInformation m of None \<Rightarrow> (0, '''') | Some e \<Rightarrow> read_error (fault_of quote e)) else None),
      TaskResponses = (if rsType m = ''GetTaskDetailsResponse'' then take 1 (task_views quote m) else []),
      AllTaskResponses =
        (if rsType m = ''GetAllDetailsResponse'' \<or> rsType m = ''GetAllTaskDetailsResponse'' then task_views quote m else [])\<rparr>"

definition in_range :: "X1Error list \<Rightarrow> bool" where
  "in_range es \<longleftrightarrow> list_all (\<lambda>e. ErrorCode e < 2 ^ 63) es"

definition answer_fits :: "X1ResponseMessage \<Rightarrow> bool" where
  "answer_fits m \<longleftrightarrow>
     (case rsErrorInformation m of None \<Rightarrow> True | Some e \<Rightarrow> ErrorCode e < 2 ^ 63) \<and>
     list_all (\<lambda>t. list_all numeric_target (Targets t)) (rsTasks m) \<and>
     list_all (\<lambda>p. in_range (snd p)) (rsTaskFaults m)"

lemma faults_in_range:
  assumes "answer_fits m"
  shows "list_all (\<lambda>f. fst f < 2 ^ 63) (faults_of_task quote m t)"
proof (cases "map_of (rsTaskFaults m) (XID t)")
  case (Some es)
  then have "(XID t, es) \<in> set (rsTaskFaults m)" by (rule map_of_SomeD)
  with assms Some show ?thesis
    by (fastforce simp: answer_fits_def list_all_iff in_range_def faults_of_task_def fault_of_def)
qed (simp add: faults_of_task_def)

lemma dec_tasks:
  assumes "answer_fits m"
  shows "slice_field dec_TaskResponseDetails (named ''taskResponseDetails'') (task_nodes response_env quote m) =
     Some (task_views quote m)"
proof -
  have n: "nlocal (task_node env i t fs) = ''taskResponseDetails''" for env i t fs by (simp add: task_node_def)
  then have "filter (named ''taskResponseDetails'') (task_nodes response_env quote m) = task_nodes response_env quote m"
    unfolding task_nodes_def by (intro filter_map_same) (simp add: named_def)
  moreover have "those (map (\<lambda>t. dec_TaskResponseDetails (nkids (task_node response_env 6 t (faults_of_task quote m t)))) (rsTasks m)) =
      Some (task_views quote m)"
    unfolding task_views_def
    by (rule those_map_Some) (use assms in \<open>auto simp: answer_fits_def list_all_iff intro!: dec_task faults_in_range [OF assms]\<close>)
  ultimately show ?thesis by (simp add: slice_field_def task_nodes_def comp_def)
qed

lemma dec_error:
  assumes "answer_fits m"
  shows "dec_X1Error (nkids (error_node env (map_option (fault_of quote) (rsErrorInformation m)))) =
     Some (case rsErrorInformation m of None \<Rightarrow> (0, '''') | Some e \<Rightarrow> read_error (fault_of quote e))"
  using assms
  by (cases "rsErrorInformation m")
    (simp_all add: error_node_def dec_X1Error_def field_defs answer_fits_def fault_of_def read_error_def)

lemma body_names:
  "nlocal (error_node env e) = ''errorInformation''" "nlocal (status_node env i fs) = ''neStatusDetails''"
  "nlocal (task_node env i t gs) = ''taskResponseDetails''" "nlocal (destination_node env i d) = ''destinationResponseDetails''"
  by (simp_all add: error_node_def status_node_def task_node_def destination_node_def Let_def)

lemma dec_first_task:
  assumes "answer_fits m" "rsTasks m = t # ts"
  shows "dec_TaskResponseDetails (nkids (task_node response_env i t (faults_of_task quote m t))) =
     Some (task_view t (faults_of_task quote m t))"
  using assms faults_in_range [OF assms(1)] by (intro dec_task) (auto simp: answer_fits_def)

text \<open>The header and the body of an answer are decoded apart, their elements having different names.\<close>

definition header_names :: "string list" where
  "header_names = [''admfIdentifier'', ''neIdentifier'', ''messageTimestamp'', ''version'', ''x1TransactionId'']"

lemma fields_behind:
  assumes "filter p hs = []"
  shows "text_field p (hs @ bs) = text_field p bs" "pointer_field dec p (hs @ bs) = pointer_field dec p bs"
    "slice_field dec' p (hs @ bs) = slice_field dec' p bs" "merged p (hs @ bs) = merged p bs"
  using assms by (simp_all add: text_field_def pointer_field_def slice_field_def merged_def)

lemma dec_headed:
  assumes "list_all (\<lambda>x. nlocal x \<notin> set header_names) bs"
    and e: "pointer_field dec_X1Error (named ''errorInformation'') bs = Some e"
    and trs: "slice_field dec_TaskResponseDetails (named ''taskResponseDetails'') bs = Some trs"
    and all: "slice_field dec_TaskResponseDetails (named ''taskResponseDetails'') (merged (named ''listOfTaskResponseDetails'') bs) = Some ts"
  shows "dec_X1ResponseMessage (message_node n ty (header_nodes env adm ne t ver tx @ bs)) =
     Some \<lparr>anType = ''ns1:'' @ ty, anAdmfIdentifier = carried adm, anNeIdentifier = carried ne,
       anMessageTimestamp = x1Timestamp t, anVersion = carried ver, anTransactionID = carried tx,
       anOK = text_field (named ''oK'') bs, anErrorInformation = e, TaskResponses = trs, AllTaskResponses = ts\<rparr>"
proof -
  have "filter (named l) bs = []" if "l \<in> set header_names" for l
    using assms(1) that by (auto simp: list_all_iff filter_empty_conv named_def)
  then have h: "text_field (named l) (hs @ bs) = text_field (named l) hs" if "l \<in> set header_names" for l hs
    using that by (simp add: text_field_def)
  let ?hs = "header_nodes env adm ne t ver tx"
  have "filter (named l) ?hs = []" if "l \<notin> set header_names" for l
    using that by (auto simp: header_names_def named_def)
  then have b: "filter (named ''oK'') ?hs = []" "filter (named ''errorInformation'') ?hs = []"
    "filter (named ''taskResponseDetails'') ?hs = []" "filter (named ''listOfTaskResponseDetails'') ?hs = []"
    by (simp_all add: header_names_def del: header_node_simps)
  have f: "text_field (named ''admfIdentifier'') ?hs = carried adm" "text_field (named ''neIdentifier'') ?hs = carried ne"
    "text_field (named ''messageTimestamp'') ?hs = x1Timestamp t" "text_field (named ''version'') ?hs = carried ver"
    "text_field (named ''x1TransactionId'') ?hs = carried tx"
    by (simp_all add: text_field_def named_def)
  show ?thesis
    unfolding dec_X1ResponseMessage_def
    by (simp add: h f e trs all header_names_def fields_behind [OF b(1)] fields_behind [OF b(2)] fields_behind [OF b(3)]
        fields_behind [OF b(4)] del: header_node_simps)
qed

lemma response_kinds:
  obtains "rsType m = errorResponse" | "rsType m = ''GetAllDetailsResponse''" | "rsType m = ''GetTaskDetailsResponse''"
    | "rsType m = ''GetAllTaskDetailsResponse''" | "rsType m = ''GetAllDestinationDetailsResponse''"
    | "rsType m = ''GetDestinationDetailsResponse''" | "rsType m = ''GetNEStatusResponse''"
    | "rsType m = ''ListAllDetailsResponse''" | "rsType m = ''GetAllGenericObjectDetailsResponse''"
    | "rsType m \<notin> set details_types"
  unfolding details_types_def by auto

lemma dec_response:
  assumes "answer_fits m"
  shows "dec_X1ResponseMessage (response_node quote m) = Some (answer_of quote m)"
proof -
  let ?bs = "body_nodes response_env quote m"
  let ?a = "answer_of quote m"
  note tasks = dec_tasks [OF assms, of quote, unfolded slice_field_def task_views_def]
  note defs = body_nodes_def answer_of_def details_types_def errorResponse_def header_names_def body_names field_defs
  note error = dec_error [OF assms, of response_env quote]
  note first = dec_first_task [OF assms, of _ _ 4 quote]
  have "list_all (\<lambda>x. nlocal x \<notin> set header_names) ?bs \<and>
      pointer_field dec_X1Error (named ''errorInformation'') ?bs = Some (anErrorInformation ?a) \<and>
      slice_field dec_TaskResponseDetails (named ''taskResponseDetails'') ?bs = Some (TaskResponses ?a) \<and>
      slice_field dec_TaskResponseDetails (named ''taskResponseDetails'') (merged (named ''listOfTaskResponseDetails'') ?bs) =
        Some (AllTaskResponses ?a) \<and>
      text_field (named ''oK'') ?bs = anOK ?a"
    by (cases rule: response_kinds [of m])
      (simp_all add: defs error tasks first task_views_def split: list.split)
  then show ?thesis
    unfolding response_node_def by (subst dec_headed) (auto simp: answer_of_def)
qed

text \<open>What a requester decodes from a document of answers.\<close>

lemma Unmarshal_answers:
  assumes "\<forall>m \<in> set ms. list_all value_char (rsType m) \<and> answer_fits m"
  shows "Unmarshal_response (marshalResponse quote ms) = Some (map (answer_of quote) ms)"
proof -
  obtain x where x: "read_xml (marshalResponse quote ms) = Some x" "is_root x ''X1Response'' (map (response_node quote) ms)"
    using read_marshalResponse [of ms quote] assms by auto
  have "filter (named ''x1ResponseMessage'') (map (response_node quote) ms) = map (response_node quote) ms"
    by (rule filter_map_same) (simp add: named_def response_node_def)
  moreover have "those (map (\<lambda>m. dec_X1ResponseMessage (response_node quote m)) ms) = Some (map (answer_of quote) ms)"
    using assms by (intro those_map_Some dec_response) auto
  ultimately show ?thesis
    using x by (simp add: Unmarshal_response_def Unmarshal_X1Response_def is_root_def named_in_def comp_def)
qed

text \<open>
  C16. The answers of the element read back: a requester decodes one message for each answer, in their
  order, with the header, the acknowledgement, the error, and the tasks, targets, destinations and
  faults of the answer. The message types are plain text, every criterion of the kinds FSEID, FTEID,
  PDRID and QERID that an answer lists is a number a reader accepts, and every error and fault code
  is within a Go \<open>int\<close>; the other texts may hold anything. No text can end its element or start
  another, and a character that XML cannot carry comes back as the replacement character (\<open>carried\<close>).
\<close>

theorem answers_read_back:
  assumes "\<forall>m \<in> set ms. list_all value_char (rsType m) \<and> answer_fits m"
  shows "Unmarshal_response (marshalResponse quote ms) = Some (map (answer_of quote) ms)"
  using assms by (rule Unmarshal_answers)

definition ex_refusal :: X1ResponseMessage where
  "ex_refusal =
     (empty_response \<lparr>rsAdmfIdentifier = ''a<1'', rsNeIdentifier = ''</ns1:neIdentifier>'', rsMessageTimestamp = 0,
        rsVersion = supportedVersion, rsTransactionID = ''t''\<rparr>)
       \<lparr>rsType := errorResponse, rsErrorInformation := Some (X1Error 1000 (errorf0 ''<&>''))\<rparr>"

theorem answers_read_back_witness:
  "Unmarshal_response (marshalResponse id [ex_refusal, ex_refusal]) = Some [answer_of id ex_refusal, answer_of id ex_refusal] \<and>
   anNeIdentifier (answer_of id ex_refusal) = ''</ns1:neIdentifier>''"
proof -
  have "list_all value_char errorResponse" by code_simp
  then have "\<forall>m \<in> set [ex_refusal, ex_refusal]. list_all value_char (rsType m) \<and> answer_fits m"
    by (simp add: ex_refusal_def answer_fits_def empty_response_def)
  from answers_read_back [OF this, of id] have "Unmarshal_response (marshalResponse id [ex_refusal, ex_refusal]) =
      Some [answer_of id ex_refusal, answer_of id ex_refusal]" by simp
  moreover have "carried ''</ns1:neIdentifier>'' = ''</ns1:neIdentifier>''" by (rule carried_clean) simp
  ultimately show ?thesis by (simp add: answer_of_def ex_refusal_def empty_response_def)
qed

end
