(* ===== verification/X1Session.thy ===== *)
theory X1Session
  imports X1Exchange
begin

text \<open>
  A triggering function and a point of interception joined by a network that delivers, or loses what is
  sent either way: what the one is told about the other's state is true, and what the one asks for is
  what the other does.
\<close>

subsection \<open>A network with the element behind it\<close>

text \<open>
  The element serves what is posted. The caller presents the certificate \<open>caller\<close>, the element
  \<open>ne\<close>.
\<close>

definition served ::
  "(string \<Rightarrow> string) \<Rightarrow> (nat \<Rightarrow> Observations \<times> string) \<Rightarrow> certificate \<Rightarrow> certificate \<Rightarrow> Server \<Rightarrow> string \<Rightarrow>
   Server \<times> http_response" where
  "served quote feed caller ne s body =
     (let (s', code, answer) = ServeHTTP quote feed \<lparr>Method = ''POST'', rqBody = Some body, rqPeers = Some [caller]\<rparr> s
      in (s', \<lparr>StatusCode = code, respBody = Some answer, PeerCertificates = Some [ne]\<rparr>))"

definition over ::
  "(string \<Rightarrow> string) \<Rightarrow> (nat \<Rightarrow> Observations \<times> string) \<Rightarrow> certificate \<Rightarrow> certificate \<Rightarrow> Server \<Rightarrow> network" where
  "over quote feed caller ne s body = Inr (snd (served quote feed caller ne s body))"

text \<open>
  What can become of an exchange: both documents arrive, or the request is lost, or the answer. The
  result is the state the element is left in and what the call of the network returns; \<open>lost\<close> is the
  error it returns then.
\<close>

datatype fate = Delivered | RequestLost | AnswerLost

definition across ::
  "fate \<Rightarrow> reason \<Rightarrow> (string \<Rightarrow> string) \<Rightarrow> (nat \<Rightarrow> Observations \<times> string) \<Rightarrow> certificate \<Rightarrow> certificate \<Rightarrow>
   Server \<Rightarrow> string \<Rightarrow> Server \<times> (reason + http_response)" where
  "across fate lost quote feed caller ne s body =
     (case fate of
        Delivered \<Rightarrow> (fst (served quote feed caller ne s body), Inr (snd (served quote feed caller ne s body)))
      | RequestLost \<Rightarrow> (s, Inl lost)
      | AnswerLost \<Rightarrow> (fst (served quote feed caller ne s body), Inl lost))"

abbreviation reply ::
  "fate \<Rightarrow> reason \<Rightarrow> (string \<Rightarrow> string) \<Rightarrow> (nat \<Rightarrow> Observations \<times> string) \<Rightarrow> certificate \<Rightarrow> certificate \<Rightarrow> Server \<Rightarrow> network" where
  "reply fate lost quote feed caller ne s \<equiv> (\<lambda>body. snd (across fate lost quote feed caller ne s body))"

lemma reply_Delivered: "reply Delivered lost quote feed caller ne s = over quote feed caller ne s"
  by (simp add: across_def over_def fun_eq_iff)

text \<open>The peer's certificate is asked for when the requester speaks TLS.\<close>

definition trusted :: "certificate \<Rightarrow> Requester \<Rightarrow> bool" where
  "trusted ne r \<longleftrightarrow> (authenticated r \<longrightarrow> certBinds (Some ne) roleNE (reqNeID r))"

text \<open>The answer to one message, and whether it fits: its numbers a Go \<open>int\<close>, its document the limit.\<close>

definition answer_to :: "(nat \<Rightarrow> Observations \<times> string) \<Rightarrow> certificate \<Rightarrow> Server \<Rightarrow> X1RequestMessage \<Rightarrow> X1ResponseMessage" where
  "answer_to feed caller s m = fst (snd (applyAuthenticated (fst (feed 0)) (snd (feed 0)) m (Some caller) s))"

definition answer_within :: "(string \<Rightarrow> string) \<Rightarrow> X1ResponseMessage \<Rightarrow> bool" where
  "answer_within quote rm \<longleftrightarrow> answer_fits rm \<and> length (marshalResponse quote [rm]) \<le> maxRequestBytes"

lemma served_one:
  assumes "Unmarshal_request body = Some [m]" "length body \<le> maxRequestBytes"
  shows "served quote feed caller ne s body =
    (fst (applyAuthenticated (fst (feed 0)) (snd (feed 0)) m (Some caller) s),
     \<lparr>StatusCode = 200, respBody = Some (marshalResponse quote [answer_to feed caller s m]), PeerCertificates = Some [ne]\<rparr>)"
  using assms
  by (cases "feed 0")
    (simp add: served_def ServeHTTP_def Let_def peer_certificate_def Process_def answer_to_def case_prod_beta)

subsection \<open>Types of answers\<close>

text \<open>The requests of a triggering function and the types they are answered with.\<close>

definition trigger_requests :: "string list" where
  "trigger_requests =
     [''ActivateTaskRequest'', ''ModifyTaskRequest'', ''DeactivateTaskRequest'', ''CreateDestinationRequest'',
      ''KeepaliveRequest'', ''GetAllDetailsRequest'']"

definition all_types_ok :: bool where
  "all_types_ok \<longleftrightarrow>
     list_all (\<lambda>ty. localType (''ns1:'' @ ty) = ty \<and> ReplaceFirst ty ''Request'' ''Response'' = responseTypeFor ty \<and>
       list_all value_char (responseTypeFor ty) \<and> localType (''ns1:'' @ responseTypeFor ty) = responseTypeFor ty \<and>
       responseTypeFor ty \<noteq> errorResponse \<and> list_all value_char ty) trigger_requests \<and>
     list_all value_char errorResponse \<and> localType (''ns1:'' @ errorResponse) = errorResponse"

lemma all_types_ok: all_types_ok
  by code_simp

lemma type_facts:
  assumes "ty \<in> set trigger_requests"
  shows "localType (''ns1:'' @ ty) = ty" "ReplaceFirst ty ''Request'' ''Response'' = responseTypeFor ty"
    "list_all value_char (responseTypeFor ty)" "localType (''ns1:'' @ responseTypeFor ty) = responseTypeFor ty"
    "responseTypeFor ty \<noteq> errorResponse" "list_all value_char ty" "list_all value_char errorResponse"
    "localType (''ns1:'' @ errorResponse) = errorResponse"
  using all_types_ok assms unfolding all_types_ok_def list_all_iff by blast+

definition acknowledged_types_ok :: bool where
  "acknowledged_types_ok \<longleftrightarrow>
     list_all (\<lambda>ty. ty = ''GetAllDetailsRequest'' \<or> responseTypeFor ty \<notin> set details_types) trigger_requests"

lemma acknowledged_types_ok: acknowledged_types_ok
  by code_simp

lemma acknowledged_types:
  "ty \<in> set trigger_requests \<Longrightarrow> ty \<noteq> ''GetAllDetailsRequest'' \<Longrightarrow> responseTypeFor ty \<notin> set details_types"
  using acknowledged_types_ok unfolding acknowledged_types_ok_def list_all_iff by blast

lemma kinds:
  "map_of request_kinds ''ActivateTaskRequest'' = Some RqActivateTask"
  "map_of request_kinds ''ModifyTaskRequest'' = Some RqModifyTask"
  "map_of request_kinds ''DeactivateTaskRequest'' = Some RqDeactivateTask"
  "map_of request_kinds ''CreateDestinationRequest'' = Some RqCreateDestination"
  "map_of request_kinds ''KeepaliveRequest'' = Some RqKeepalive"
  "map_of request_kinds ''GetAllDetailsRequest'' = Some RqGetAllDetails"
  by code_simp+

lemma fixed_types:
  "responseTypeFor ''DeactivateTaskRequest'' = ''DeactivateTaskResponse''"
  "responseTypeFor ''CreateDestinationRequest'' = ''CreateDestinationResponse''"
  "responseTypeFor ''KeepaliveRequest'' = ''KeepaliveResponse''"
  by code_simp+

lemma answer_type:
  assumes "localType (rqType m) = ty" "ty \<in> set trigger_requests"
    and "applyAuthenticated ob fresh m peer s = (s', rm, ok)"
  shows "rsType rm = (if rsErrorInformation rm = None then responseTypeFor ty else errorResponse)"
    and "rsErrorInformation rm = None \<Longrightarrow> ok \<and> rsOK rm = ackOK"
proof -
  have "rsType rm1 = responseTypeFor ty" if "apply_request ob m rm0 s0 = (s1, None, rm1)" for rm0 s0 s1 rm1
    using assms(2) that type_facts(2) [OF assms(2)] unfolding trigger_requests_def list.set
    by (elim insertE emptyE) (auto simp: apply_request_def Let_def kinds assms(1) fixed_types split: prod.splits)
  then have t: "rsType rm1 = responseTypeFor ty \<and> rsErrorInformation rm1 = rsErrorInformation rm0"
    if "apply_request ob m rm0 s0 = (s1, None, rm1)" for rm0 s0 s1 rm1
    using that apply_request_cases by blast
  from assms(3) show "rsType rm = (if rsErrorInformation rm = None then responseTypeFor ty else errorResponse)"
    and "rsErrorInformation rm = None \<Longrightarrow> ok \<and> rsOK rm = ackOK"
    by (auto simp: applyAuthenticated_def refuse_unauthenticated_def apply_message_def Let_def empty_response_def
        split: option.splits prod.splits x1_error.splits dest!: t)
qed

subsection \<open>One exchange\<close>

text \<open>What a triggering function puts on the wire survives the wire.\<close>

definition clean_requester :: "Requester \<Rightarrow> bool" where
  "clean_requester r \<longleftrightarrow> clean (ourID r) \<and> clean (reqNeID r) \<and> uuidPattern (reqFresh r)"

lemma uuid_clean: "uuidPattern x \<Longrightarrow> clean x"
proof -
  assume u: "uuidPattern x"
  have "is_lhex c \<Longrightarrow> 32 \<le> code_of c \<and> code_of c < 128" for c by (auto simp: is_lhex_def is_digit_def)
  moreover have "c = CHR ''-'' \<or> is_lhex c" if "c \<in> set x" for c
    using uuid_shape(2) [OF u] that by (auto simp: list_all_iff)
  moreover have "code_of (CHR ''-'') = 45" by (simp add: code_of_def)
  ultimately have "printable x" by (force simp: printable_def list_all_iff)
  then show ?thesis by (simp add: printable_def clean_ascii list_all_iff)
qed

lemma clean_requesterD:
  assumes "clean_requester r"
  shows "carried (ourID r) = ourID r" "carried (reqNeID r) = reqNeID r" "carried (reqFresh r) = reqFresh r"
  using assms uuid_clean by (simp_all add: clean_requester_def carried_clean)

text \<open>The answer to a request of \<open>r\<close>, as \<open>r\<close> reads it.\<close>

lemma read_answer:
  assumes "clean_requester r" "ty \<in> set trigger_requests" "h = requester_header r ty"
    and "m = with_header h ty td x dd" "rm = answer_to feed caller s m" "answer_within quote rm"
    and "trusted ne r"
  shows "readResponse r h \<lparr>StatusCode = 200, respBody = Some (marshalResponse quote [rm]), PeerCertificates = Some [ne]\<rparr> =
    (if carried (neID (options s)) = reqNeID r then Inr (answer_of quote rm)
     else Inl (ResponseError ''neIdentifier'' (reqNeID r) (carried (neID (options s)))))"
proof -
  obtain s' ok where a: "applyAuthenticated (fst (feed 0)) (snd (feed 0)) m (Some caller) s = (s', rm, ok)"
    using assms(5) by (metis answer_to_def prod.collapse)
  have lt: "localType (rqType m) = ty" using assms(4) type_facts(1) [OF assms(2)] by (simp add: with_header_def)
  note ty = answer_type [OF lt assms(2) a]
  have v: "list_all value_char (rsType rm)" "localType (anType (answer_of quote rm)) = rsType rm"
    using ty(1) type_facts [OF assms(2)] by (auto simp: answer_of_def)
  have u: "Unmarshal_response (marshalResponse quote [rm]) = Some [answer_of quote rm]"
    using Unmarshal_answers [of "[rm]" quote] v(1) assms(6) by (simp add: answer_within_def)
  have "rsHeader rm = response_header (snd (feed 0)) m s" unfolding assms(5) answer_to_def by (rule applyAuthenticated_header)
  moreover have "versionPattern supportedVersion" by code_simp
  ultimately have hd: "anTransactionID (answer_of quote rm) = reqFresh r" "anAdmfIdentifier (answer_of quote rm) = ourID r"
    "anNeIdentifier (answer_of quote rm) = carried (neID (options s))" "anVersion (answer_of quote rm) = supportedVersion"
    using assms(1) clean_requesterD [OF assms(1)] supportedVersion_text
    by (simp_all add: answer_of_def response_header_def assms(3,4) with_header_def requester_header_def echoVersion_def
        echoTransactionID_def clean_requester_def)
  have "take maxRequestBytes (marshalResponse quote [rm]) = marshalResponse quote [rm]" using assms(6) by (simp add: answer_within_def)
  then show ?thesis
    using u v(2) hd ty(1) assms(7)
    by (auto simp: readResponse_def readBoundResponse_def bindsResponderCert_def validateBound_def assms(3) requester_header_def
        trusted_def Let_def)
qed

text \<open>
  The requester is told of success exactly when the element took the message from a peer it
  authenticated and did what it asks.
\<close>

lemma send_over:
  assumes "clean_requester r" "ty \<in> set trigger_requests" "ty \<noteq> ''GetAllDetailsRequest''" "h = requester_header r ty"
    and "m = with_header h ty td x dd" "answer_within quote (answer_to feed caller s m)"
    and "trusted ne r"
    and "Unmarshal_request body = Some [m]" "length body \<le> maxRequestBytes"
  shows "send (over quote feed caller ne s) body h r = None \<longleftrightarrow>
    authenticate m (Some caller) s = None \<and>
    rsErrorInformation (snd (apply_message (fst (feed 0)) (snd (feed 0)) m (recordActivity s))) = None"
proof -
  let ?rm = "answer_to feed caller s m"
  obtain s' ok where a: "applyAuthenticated (fst (feed 0)) (snd (feed 0)) m (Some caller) s = (s', ?rm, ok)"
    by (metis answer_to_def prod.collapse)
  have lt: "localType (rqType m) = ty" using assms(5) type_facts(1) [OF assms(2)] by (simp add: with_header_def)
  note ty = answer_type [OF lt assms(2) a]
  note nd = acknowledged_types [OF assms(2,3)]
  have auth: "ok \<Longrightarrow> carried (neID (options s)) = reqNeID r"
    using a clean_requesterD(2) [OF assms(1)]
    by (auto simp: applyAuthenticated_def authenticate_def assms(4,5) with_header_def requester_header_def
        split: option.splits if_splits prod.splits)
  have ok: "ok \<longleftrightarrow> authenticate m (Some caller) s = None"
    using a by (auto simp: applyAuthenticated_def split: option.splits prod.splits)
  have rm: "ok \<Longrightarrow> ?rm = snd (apply_message (fst (feed 0)) (snd (feed 0)) m (recordActivity s))"
    using a by (auto simp: applyAuthenticated_def split: option.splits prod.splits)
  have ack: "carried ackOK \<noteq> ''''" using carried_clean [of ackOK] by (simp add: ackOK_def)
  have e: "anErrorInformation (answer_of quote ?rm) = None \<longleftrightarrow> rsErrorInformation ?rm = None"
    using ty(1) type_facts(5) [OF assms(2)] by (simp add: answer_of_def)
  have "anOK (answer_of quote ?rm) \<noteq> ''''" if "rsErrorInformation ?rm = None"
    using that ty nd ack by (simp add: answer_of_def)
  then show ?thesis
    using read_answer [OF assms(1,2,4,5) refl assms(6,7)] served_one [OF assms(8,9), of quote feed caller ne s] auth ok rm e ty(2)
    by (auto simp: send_def over_def split: option.splits)
qed

text \<open>What the exchange does to the element.\<close>

lemma served_state:
  assumes "Unmarshal_request body = Some [m]" "length body \<le> maxRequestBytes"
  shows "authenticate m (Some caller) s = None \<Longrightarrow>
      fst (served quote feed caller ne s body) = fst (apply_message (fst (feed 0)) (snd (feed 0)) m (recordActivity s))"
    and "authenticate m (Some caller) s \<noteq> None \<Longrightarrow> \<exists>c. fst (served quote feed caller ne s body) = emit (AuthFailure c) s"
  by (auto simp: served_one [OF assms] applyAuthenticated_def refuse_unauthenticated_def case_prod_beta)

lemma apply_message_result:
  assumes "apply_request ob m (empty_response (response_header fresh m s)) s = (s', err, rm)"
  shows "fst (apply_message ob fresh m s) = s'" "rsErrorInformation (snd (apply_message ob fresh m s)) = None \<longleftrightarrow> err = None"
  using assms apply_request_cases [OF assms]
  by (auto simp: apply_message_def Let_def empty_response_def split: option.split x1_error.split)

text \<open>
  The state a refused message leaves: that of before, but for the note of the sign of life or of the
  failure to authenticate.
\<close>

definition same_tasking :: "Server \<Rightarrow> Server \<Rightarrow> bool" where
  "same_tasking s s' \<longleftrightarrow> store s' = store s \<and> destinations s' = destinations s \<and> configured s' = configured s \<and>
     (events s' = events s \<or> (\<exists>c. events s' = events s @ [AuthFailure c]))"

lemma refused_same_tasking:
  assumes "Unmarshal_request body = Some [m]" "length body \<le> maxRequestBytes"
    and "\<not> (authenticate m (Some caller) s = None \<and>
      rsErrorInformation (snd (apply_message (fst (feed 0)) (snd (feed 0)) m (recordActivity s))) = None)"
  shows "same_tasking s (fst (served quote feed caller ne s body))"
proof (cases "authenticate m (Some caller) s")
  case None
  let ?a = "apply_message (fst (feed 0)) (snd (feed 0)) m (recordActivity s)"
  have "fst ?a = recordActivity s"
    using apply_message_cases [of _ _ m "recordActivity s" "fst ?a" "snd ?a"] None assms(3) by simp
  then show ?thesis using served_state(1) [OF assms(1,2) None] by (simp add: same_tasking_def)
next
  case (Some f)
  then show ?thesis using served_state(2) [OF assms(1,2), of caller s quote feed ne] by (auto simp: same_tasking_def emit_def)
qed

text \<open>Whether the element takes a message from a peer it authenticates and does what it asks.\<close>

definition complies :: "(nat \<Rightarrow> Observations \<times> string) \<Rightarrow> certificate \<Rightarrow> Server \<Rightarrow> X1RequestMessage \<Rightarrow> bool" where
  "complies feed caller s m \<longleftrightarrow> authenticate m (Some caller) s = None \<and>
     rsErrorInformation (snd (apply_message (fst (feed 0)) (snd (feed 0)) m (recordActivity s))) = None"

lemma untrusted_unread:
  "\<not> trusted ne r \<Longrightarrow> PeerCertificates resp = Some [ne] \<Longrightarrow> hdNeID h = reqNeID r \<Longrightarrow> \<exists>e. readResponse r h resp = Inl e"
  by (auto simp: trusted_def readResponse_def readBoundResponse_def bindsResponderCert_def Let_def split: option.splits)

lemma send_across:
  assumes "clean_requester r" "ty \<in> set trigger_requests" "ty \<noteq> ''GetAllDetailsRequest''" "h = requester_header r ty"
    and "m = with_header h ty td x dd" "answer_within quote (answer_to feed caller s m)"
    and "Unmarshal_request body = Some [m]" "length body \<le> maxRequestBytes"
  shows "send (reply fate lost quote feed caller ne s) body h r = None \<longleftrightarrow> fate = Delivered \<and> trusted ne r \<and> complies feed caller s m"
proof (cases "fate = Delivered")
  case True
  show ?thesis
  proof (cases "trusted ne r")
    case t: True
    show ?thesis unfolding True reply_Delivered send_over [OF assms(1-6) t assms(7,8)] using t by (simp add: complies_def)
  next
    case False
    have "hdNeID h = reqNeID r" by (simp add: assms(4) requester_header_def)
    then have "\<exists>e. readResponse r h (snd (served quote feed caller ne s body)) = Inl e"
      by (intro untrusted_unread [OF False]) (simp_all add: served_one [OF assms(7,8)])
    then show ?thesis unfolding True reply_Delivered using False by (auto simp: send_def over_def)
  qed
qed (cases fate; simp add: send_def across_def)

lemma across_state:
  assumes "Unmarshal_request body = Some [m]" "length body \<le> maxRequestBytes"
  shows "complies feed caller s m \<Longrightarrow> fate \<noteq> RequestLost \<Longrightarrow>
      fst (across fate lost quote feed caller ne s body) = fst (apply_message (fst (feed 0)) (snd (feed 0)) m (recordActivity s))"
    and "\<not> complies feed caller s m \<or> fate = RequestLost \<Longrightarrow> same_tasking s (fst (across fate lost quote feed caller ne s body))"
proof -
  show "complies feed caller s m \<Longrightarrow> fate \<noteq> RequestLost \<Longrightarrow>
      fst (across fate lost quote feed caller ne s body) = fst (apply_message (fst (feed 0)) (snd (feed 0)) m (recordActivity s))"
    using served_state(1) [OF assms] by (cases fate) (simp_all add: complies_def across_def)
  have "same_tasking s s" by (simp add: same_tasking_def)
  then show "\<not> complies feed caller s m \<or> fate = RequestLost \<Longrightarrow> same_tasking s (fst (across fate lost quote feed caller ne s body))"
    using refused_same_tasking [OF assms] by (cases fate) (simp_all add: complies_def across_def)
qed

text \<open>
  How a call ends: with nil when it did what it is for, otherwise with the element's tasking as it
  was, or with the effect there and the answer lost or its sender not believed.
\<close>

definition told_truly :: "fate \<Rightarrow> certificate \<Rightarrow> Requester \<Rightarrow> bool \<Rightarrow> Server \<Rightarrow> Server \<Rightarrow> request_error option \<Rightarrow> bool" where
  "told_truly fate ne r worked s s' res \<longleftrightarrow>
     (case res of
        None \<Rightarrow> fate = Delivered \<and> trusted ne r \<and> worked
      | Some e \<Rightarrow> same_tasking s s' \<or> worked \<and> (fate = AnswerLost \<or> \<not> trusted ne r))"

lemma told_trulyI:
  assumes "Unmarshal_request body = Some [m]" "length body \<le> maxRequestBytes"
    and "res = None \<longleftrightarrow> fate = Delivered \<and> trusted ne r \<and> complies feed caller s m"
    and "s' = fst (across fate lost quote feed caller ne s body)"
    and "complies feed caller s m \<Longrightarrow> s' = fst (apply_message (fst (feed 0)) (snd (feed 0)) m (recordActivity s)) \<Longrightarrow> worked"
  shows "told_truly fate ne r worked s s' res"
proof (cases "complies feed caller s m \<and> fate \<noteq> RequestLost")
  case True
  then have "worked" using assms(4,5) across_state(1) [OF assms(1,2)] by blast
  with True assms(3) show ?thesis by (cases res; cases fate) (auto simp: told_truly_def)
next
  case False
  then have "same_tasking s s'" "res \<noteq> None" using assms(3,4) across_state(2) [OF assms(1,2)] by auto
  then show ?thesis by (auto simp: told_truly_def)
qed

subsection \<open>Triggers\<close>

text \<open>The checks of \<open>task\<close>, and the task a trigger stands for.\<close>

definition trigger_ok :: "Trigger \<Rightarrow> bool" where
  "trigger_ok t \<longleftrightarrow> trXID t \<noteq> '''' \<and> trProductID t \<noteq> '''' \<and> trCorrelationID t \<noteq> 0 \<and> trSEID t \<noteq> 0 \<and> trDIDs t \<noteq> []"

definition clean_trigger :: "Trigger \<Rightarrow> bool" where
  "clean_trigger t \<longleftrightarrow> clean (trXID t) \<and> clean (trProductID t) \<and> list_all clean (trDIDs t)"

definition triggered :: "Server \<Rightarrow> Trigger \<Rightarrow> InterceptTask" where
  "triggered s t =
     \<lparr>XID = trXID t, Targets = [\<lparr>tiType = TargetFSEID, tiValue = FormatUint (unat (trSEID t))\<rparr>], DIDs = trDIDs t,
      Products = [ProductCC], Deliveries = fst (resolveDIDs s (trDIDs t)), State = TaskActive, ProductID = trProductID t,
      CorrelationID = trCorrelationID t, RecordScope = RecordScopeStandard\<rparr>"

lemma ParseUint_word64: "ParseUint (FormatUint (unat (w :: 64 word))) 64 = Some (unat w)"
  using unsigned_less [of w] by (intro ParseUint_FormatUint) simp

lemma triggered_details:
  assumes "clean_trigger t" "taskFromDetails (trigger_details t) s = Inr u"
  shows "u\<lparr>State := TaskActive\<rparr> = triggered s t"
proof -
  have "carried (trXID t) = trXID t" "carried (trProductID t) = trProductID t" "map carried (trDIDs t) = trDIDs t"
    using assms(1) by (auto simp: clean_trigger_def carried_clean list_all_iff intro: map_idI)
  moreover have "FormatUint n \<noteq> ''''" for n using FormatUint_digits [of n] by simp
  ultimately show ?thesis
    using assms(2)
    by (auto simp: taskFromDetails_def trigger_details_def triggered_def Let_def split_beta mapTarget_def mapExtensionTarget_def
        mapUPFLIT3Identifier_def deliveryProducts_def x1_literals recordScope_def ParseUint_word64
        split: if_splits sum.splits option.splits)
qed

lemma transition_applied:
  assumes "clean_trigger t" "applyTaskTransition m b (recordActivity s) = (s', None)" "rqTaskDetails m = Some (trigger_details t)"
  shows "Get (trXID t) (store s') = Some (triggered s t)" "x \<noteq> trXID t \<Longrightarrow> Get x (store s') = Get x (store s)"
    "destinations s' = destinations s" "b \<Longrightarrow> Get (trXID t) (store s) \<noteq> None"
    "events s' = (if Get (trXID t) (store s) = Some (triggered s t) then events s
       else events s @ [TaskChange (Get (trXID t) (store s)) (Some (triggered s t))])"
proof -
  from applyTaskTransition_shape [OF assms(2)] assms(3) obtain u where
    u: "taskFromDetails (trigger_details t) (recordActivity s) = Inr u" "b \<longrightarrow> store_abs (store s) (XID u) \<noteq> None"
    "s' = notifyChanged (store_abs (store s) (XID u)) (u\<lparr>State := TaskActive\<rparr>) ((recordActivity s)\<lparr>store := fst (Activate u (store s))\<rparr>)"
    by auto
  have "resolveDIDs (recordActivity s) ds = resolveDIDs s ds" for ds
    by (intro resolveDIDs_cong) (simp add: resolveLocked_def split: option.split)
  then have e: "u\<lparr>State := TaskActive\<rparr> = triggered s t" using triggered_details [OF assms(1) u(1)] by (simp add: triggered_def)
  have "XID (u\<lparr>State := TaskActive\<rparr>) = trXID t" unfolding e by (simp add: triggered_def)
  then have x: "XID u = trXID t" by simp
  have n: "XID u \<noteq> ''''" using taskFromDetails_shape(2) [OF u(1)] .
  show "Get (trXID t) (store s') = Some (triggered s t)" "x \<noteq> trXID t \<Longrightarrow> Get x (store s') = Get x (store s)"
    "destinations s' = destinations s" "b \<Longrightarrow> Get (trXID t) (store s) \<noteq> None"
    "events s' = (if Get (trXID t) (store s) = Some (triggered s t) then events s
       else events s @ [TaskChange (Get (trXID t) (store s)) (Some (triggered s t))])"
    using u(2) st.lookup_activate [OF n, of "store s"] st.lookup_activate_other [of x u "store s"] n
    by (auto simp: u(3) e x st.lookup_view)
qed

text \<open>The request of a trigger: activation, or with \<open>b\<close> modification.\<close>

definition trigger_type :: "bool \<Rightarrow> string" where
  "trigger_type b = (if b then ''ModifyTaskRequest'' else ''ActivateTaskRequest'')"

definition trigger_message :: "bool \<Rightarrow> Trigger \<Rightarrow> Requester \<Rightarrow> X1RequestMessage" where
  "trigger_message b t r =
     with_header (requester_header r (trigger_type b)) (trigger_type b) (Some (trigger_details t)) '''' None"

definition trigger_body :: "bool \<Rightarrow> Trigger \<Rightarrow> Requester \<Rightarrow> string" where
  "trigger_body b t r = task_document (requester_header r (trigger_type b)) t"

lemma trigger_type_known: "trigger_type b \<in> set trigger_requests" "trigger_type b \<noteq> ''GetAllDetailsRequest''"
  by (simp_all add: trigger_type_def trigger_requests_def)

lemma Unmarshal_trigger: "Unmarshal_request (trigger_body b t r) = Some [trigger_message b t r]"
  using Unmarshal_task_document [of "requester_header r (trigger_type b)" t] type_facts(6) [OF trigger_type_known(1), of b]
  by (simp add: trigger_body_def trigger_message_def requester_header_def)

lemma apply_trigger:
  "\<exists>s' err rm. apply_request ob (trigger_message b t r) rm0 s = (s', err, rm) \<and>
     applyTaskTransition (trigger_message b t r) b s = (s', err)"
proof -
  have "localType (rqType (trigger_message b t r)) = trigger_type b"
    using type_facts(1) [OF trigger_type_known(1)] by (simp add: trigger_message_def with_header_def)
  then show ?thesis
    by (cases b) (simp_all add: apply_request_def trigger_type_def kinds Let_def split: prod.split)
qed

text \<open>What makes the element accept a trigger.\<close>

definition acceptable :: "Server \<Rightarrow> Trigger \<Rightarrow> bool" where
  "acceptable s t \<longleftrightarrow>
     uuidPattern (trXID t) \<and> uuidPattern (trProductID t) \<and> list_all uuidPattern (trDIDs t) \<and>
     honoursCorrelation (options s) \<and> snd (resolveDIDs s (trDIDs t)) = [] \<and>
     (requireDIDs (options s) \<longrightarrow> hasDelivery (fst (resolveDIDs s (trDIDs t))) DeliveryX3) \<and>
     canApply (options s) ((triggered s t)\<lparr>State := TaskUnset\<rparr>) = None"

lemma trigger_details_well_formed:
  assumes "acceptable s t"
  shows "malformedTaskIdentifiers (trigger_details t) = None" "unhonourableTaskFields (trigger_details t) True = None"
proof -
  have "carried x = x" if "uuidPattern x" for x using that by (simp add: uuid_clean carried_clean)
  moreover from this have "map carried (trDIDs t) = trDIDs t" using assms by (auto simp: acceptable_def list_all_iff intro: map_idI)
  ultimately show "malformedTaskIdentifiers (trigger_details t) = None" "unhonourableTaskFields (trigger_details t) True = None"
    using assms
    by (simp_all add: acceptable_def malformedTaskIdentifiers_iff malformed_targets_iff trigger_details_def Let_def split_beta
        malformedTargetValue_def populatedArms_def populatedLIT3Arms_def unhonourableTaskFields_def)
qed

lemma trigger_task_from:
  assumes "acceptable s t" "trigger_ok t"
  shows "taskFromDetails (trigger_details t) s = Inr ((triggered s t)\<lparr>State := TaskUnset\<rparr>)"
proof -
  have "carried x = x" if "uuidPattern x" for x using that by (simp add: uuid_clean carried_clean)
  moreover from this have "map carried (trDIDs t) = trDIDs t" using assms(1) by (auto simp: acceptable_def list_all_iff intro: map_idI)
  moreover have "FormatUint n \<noteq> ''''" for n using FormatUint_digits [of n] by simp
  ultimately show ?thesis
    using assms
    by (simp add: acceptable_def trigger_ok_def taskFromDetails_def trigger_details_def triggered_def Let_def split_beta
        mapTarget_def mapExtensionTarget_def mapUPFLIT3Identifier_def deliveryProducts_def x1_literals recordScope_def
        ParseUint_word64)
qed

lemma trigger_transition:
  assumes "acceptable s t" "trigger_ok t" "b \<Longrightarrow> Get (trXID t) (store s) \<noteq> None" "rqTaskDetails m = Some (trigger_details t)"
  shows "snd (applyTaskTransition m b s) = None"
proof -
  let ?u = "(triggered s t)\<lparr>State := TaskUnset\<rparr>"
  have u: "XID ?u = trXID t" "XID ?u \<noteq> ''''" using assms(2) by (simp_all add: triggered_def trigger_ok_def)
  have x: "tdXID (trigger_details t) = trXID t"
    using taskFromDetails_shape(1) [OF trigger_task_from [OF assms(1,2)]] u(1) by simp
  have "snd (Activate ?u (store s))" using u(2) st.ok_activate by blast
  moreover note st.lookup_activate [OF u(2), of "store s"]
  ultimately have "activate m s = (s\<lparr>store := fst (Activate ?u (store s))\<rparr>, Inr (triggered s t))"
    using assms(1,4) trigger_task_from [OF assms(1,2)]
    by (simp add: activate_def acceptable_def case_prod_beta Let_def) (simp add: triggered_def)
  then show ?thesis
    using assms trigger_details_well_formed [OF assms(1)] x
    by (auto simp: applyTaskTransition_def acceptable_def Let_def)
qed

lemma acceptable_cong: "acceptable (recordActivity s) t = acceptable s t"
proof -
  have "resolveDIDs (recordActivity s) ds = resolveDIDs s ds" for ds
    by (intro resolveDIDs_cong) (simp add: resolveLocked_def split: option.split)
  then show ?thesis by (simp add: acceptable_def triggered_def)
qed

text \<open>The answer to a message that the switch takes without an error.\<close>

lemma acknowledged:
  assumes "authenticate m (Some caller) s = None"
    and "\<And>rm. apply_request (fst (feed 0)) m rm (recordActivity s) = (s', None, rm\<lparr>rsType := ty\<rparr>)"
  shows "answer_to feed caller s m = (empty_response (response_header (snd (feed 0)) m s))\<lparr>rsType := ty, rsOK := ackOK\<rparr>"
proof -
  have "faultsForTasks ob [] = []" for ob by (simp add: faultsForTasks_def split: option.split)
  moreover have "response_header f m (recordActivity s) = response_header f m s" for f by (simp add: response_header_def)
  ultimately show ?thesis
    using assms by (simp add: answer_to_def applyAuthenticated_def apply_message_def Let_def case_prod_beta empty_response_def)
qed

lemma acknowledged_fits: "answer_fits ((empty_response h)\<lparr>rsType := ty, rsOK := ackOK\<rparr>)"
  by (simp add: answer_fits_def empty_response_def)

lemma trigger_answer:
  assumes "acceptable s t" "trigger_ok t" "b \<Longrightarrow> Get (trXID t) (store s) \<noteq> None"
    and "authenticate (trigger_message b t r) (Some caller) s = None"
  shows "answer_to feed caller s (trigger_message b t r) =
    (empty_response (response_header (snd (feed 0)) (trigger_message b t r) s))\<lparr>rsType := responseTypeFor (trigger_type b), rsOK := ackOK\<rparr>"
proof -
  let ?m = "trigger_message b t r" and ?s = "recordActivity s"
  have lt: "localType (rqType ?m) = trigger_type b"
    using type_facts(1) [OF trigger_type_known(1)] by (simp add: trigger_message_def with_header_def)
  then have k: "map_of request_kinds (localType (rqType ?m)) = Some (if b then RqModifyTask else RqActivateTask)"
    by (simp add: trigger_type_def kinds)
  have "rqTaskDetails ?m = Some (trigger_details t)" by (simp add: trigger_message_def with_header_def)
  then have t: "snd (applyTaskTransition ?m b ?s) = None"
    using trigger_transition [of ?s t b ?m] assms(1-3) by (simp add: acceptable_cong)
  have "apply_request (fst (feed 0)) ?m rm ?s = (fst (applyTaskTransition ?m b ?s), None, rm\<lparr>rsType := responseTypeFor (trigger_type b)\<rparr>)" for rm
    using t k lt type_facts(2) [OF trigger_type_known(1), of b]
    by (cases b) (simp_all add: apply_request_def Let_def case_prod_beta)
  then show ?thesis by (rule acknowledged [OF assms(4)])
qed

text \<open>
  The effect of a trigger: the element holds exactly the task the trigger stands for, with every other
  task and destination as before, and its point of interception was told of the change, if it was one;
  a modification was of a task held before.
\<close>

definition trigger_applied :: "bool \<Rightarrow> Trigger \<Rightarrow> Server \<Rightarrow> Server \<Rightarrow> bool" where
  "trigger_applied b t s s' \<longleftrightarrow> Get (trXID t) (store s') = Some (triggered s t) \<and>
     (\<forall>x. x \<noteq> trXID t \<longrightarrow> Get x (store s') = Get x (store s)) \<and> destinations s' = destinations s \<and>
     (b \<longrightarrow> Get (trXID t) (store s) \<noteq> None) \<and>
     events s' = (if Get (trXID t) (store s) = Some (triggered s t) then events s
       else events s @ [TaskChange (Get (trXID t) (store s)) (Some (triggered s t))])"

text \<open>
  C10. What a triggering function is told of its trigger is true. The network delivers both documents,
  or loses the request, or loses the answer. When the call returns nil, both were delivered, over TLS
  the element's certificate binds the identifier it is addressed by, and the trigger is applied (as
  \<open>trigger_applied\<close> says). When the call returns an error, either the element's tasking is untouched, or
  the trigger is applied and the answer was lost or came with a certificate that does not bind. The
  trigger is complete (no identifier, correlation, session or list of destinations is empty), its
  identifiers and the requester's are text that XML can carry, the documents are below the size at
  which reading stops, and the code of an error answer is within a Go \<open>int\<close>.
\<close>

theorem trigger_acknowledged_iff_applied:
  assumes "clean_requester r" and "trigger_ok t" and "clean_trigger t" and "length (trigger_body b t r) \<le> maxRequestBytes"
    and "answer_within quote (answer_to feed caller s (trigger_message b t r))"
    and "s' = fst (across fate lost quote feed caller ne s (trigger_body b t r))"
    and "res = (if b then ModifyTask else ActivateTask) (reply fate lost quote feed caller ne s) t r"
  shows "case res of
      None \<Rightarrow> fate = Delivered \<and> trusted ne r \<and> trigger_applied b t s s'
    | Some e \<Rightarrow> same_tasking s s' \<or> trigger_applied b t s s' \<and> (fate = AnswerLost \<or> \<not> trusted ne r)"
proof -
  let ?m = "trigger_message b t r" and ?h = "requester_header r (trigger_type b)" and ?s = "recordActivity s"
  have "res = send (reply fate lost quote feed caller ne s) (trigger_body b t r) ?h r"
    using assms(2,7) by (simp add: trigger_ok_def ActivateTask_def ModifyTask_def task_def trigger_type_def trigger_body_def Let_def)
  then have iff: "res = None \<longleftrightarrow> fate = Delivered \<and> trusted ne r \<and> complies feed caller s ?m"
    using send_across [OF assms(1) trigger_type_known refl trigger_message_def assms(5) Unmarshal_trigger assms(4)] by simp
  have "trigger_applied b t s s'"
    if "complies feed caller s ?m" "s' = fst (apply_message (fst (feed 0)) (snd (feed 0)) ?m ?s)"
  proof -
    obtain s1 err rm where a: "apply_request (fst (feed 0)) ?m (empty_response (response_header (snd (feed 0)) ?m ?s)) ?s = (s1, err, rm)"
      "applyTaskTransition ?m b ?s = (s1, err)" using apply_trigger by blast
    have "err = None" "s' = s1" using that apply_message_result [OF a(1)] by (simp_all add: complies_def)
    moreover have "rqTaskDetails ?m = Some (trigger_details t)" by (simp add: trigger_message_def with_header_def)
    ultimately show ?thesis
      using transition_applied [OF assms(3), of ?m b s s1] a(2) unfolding trigger_applied_def by auto
  qed
  with told_trulyI [OF Unmarshal_trigger assms(4) iff assms(6)] show ?thesis unfolding told_truly_def by blast
qed

lemma acceptable_sent:
  assumes "clean_requester r" "trigger_ok t" "acceptable s t" "b \<Longrightarrow> Get (trXID t) (store s) \<noteq> None"
    and "trusted ne r" "length (trigger_body b t r) \<le> maxRequestBytes"
    and "length (marshalResponse quote [answer_to feed caller s (trigger_message b t r)]) \<le> maxRequestBytes"
    and "authenticate (trigger_message b t r) (Some caller) s = None"
  shows "answer_within quote (answer_to feed caller s (trigger_message b t r))"
    and "(if b then ModifyTask else ActivateTask) (over quote feed caller ne s) t r = None"
proof -
  let ?m = "trigger_message b t r" and ?h = "requester_header r (trigger_type b)"
  note ans = trigger_answer [OF assms(3,2,4,8), of feed]
  show w: "answer_within quote (answer_to feed caller s ?m)"
    using assms(7) by (simp add: answer_within_def ans acknowledged_fits)
  have "answer_to feed caller s ?m = snd (apply_message (fst (feed 0)) (snd (feed 0)) ?m (recordActivity s))"
    using assms(8) by (simp add: answer_to_def applyAuthenticated_def case_prod_beta)
  moreover have "rsErrorInformation (answer_to feed caller s ?m) = None" by (simp add: ans empty_response_def)
  ultimately have "rsErrorInformation (snd (apply_message (fst (feed 0)) (snd (feed 0)) ?m (recordActivity s))) = None" by metis
  then have "send (over quote feed caller ne s) (trigger_body b t r) ?h r = None"
    using assms(8) send_over [OF assms(1) trigger_type_known refl trigger_message_def w assms(5) Unmarshal_trigger assms(6)] by simp
  then show "(if b then ModifyTask else ActivateTask) (over quote feed caller ne s) t r = None"
    using assms(2) by (auto simp: trigger_ok_def ActivateTask_def ModifyTask_def task_def trigger_type_def trigger_body_def Let_def)
qed

text \<open>
  C15. A complete and acceptable trigger is accepted: the call returns nil over a network that delivers.
  Acceptable means: its identifiers are UUIDs, the element honours a provisioned correlation, resolves every
  destination named, to an X3 endpoint among others where it insists on destinations, and its point of
  interception can apply the task (\<open>CanApply\<close>); a modification is of a task that is held. The caller's
  certificate binds the identifier it asserts, which is the responsible ADMF's where one is configured,
  the element is the one addressed and over TLS its certificate binds that, the requester's own
  identifiers are text that XML can carry, and the documents are below the size at which reading
  stops.
\<close>

theorem acceptable_trigger_acknowledged:
  assumes "clean_requester r" and "trigger_ok t" and "acceptable s t" and "b \<longrightarrow> Get (trXID t) (store s) \<noteq> None"
    and "trusted ne r" and "certBinds (Some caller) roleADMF (ourID r)" and "ourID r \<noteq> ''''"
    and "admfID (options s) \<in> {'''', ourID r}" and "neID (options s) = reqNeID r"
    and "length (trigger_body b t r) \<le> maxRequestBytes"
    and "length (marshalResponse quote [answer_to feed caller s (trigger_message b t r)]) \<le> maxRequestBytes"
  shows "(if b then ModifyTask else ActivateTask) (over quote feed caller ne s) t r = None"
proof -
  have a: "authenticate (trigger_message b t r) (Some caller) s = None"
    using assms(6-9) clean_requesterD [OF assms(1)]
    by (auto simp: authenticate_def trigger_message_def with_header_def requester_header_def)
  have held: "b \<Longrightarrow> Get (trXID t) (store s) \<noteq> None" using assms(4) by blast
  show ?thesis by (rule acceptable_sent(2) [OF assms(1-3) held assms(5,10,11) a])
qed

text \<open>An exchange for the examples.\<close>

definition ex_requester :: Requester where
  "ex_requester = NewRequester ''a1'' ''ne1'' True 0 ex_uuid"

definition ex_trigger :: Trigger where
  "ex_trigger = \<lparr>trXID = ex_uuid, trProductID = ex_uuid, trCorrelationID = 7, trSEID = 5, trSEIDAddress = '''', trDIDs = [ex_uuid]\<rparr>"

definition ex_caller :: certificate where
  "ex_caller = \<lparr>SubjectNames = [(oidUID, StringValue ''a1'')], URIs = []\<rparr>"

definition ex_ne :: certificate where
  "ex_ne = \<lparr>SubjectNames = [(oidUID, StringValue ''ne1'')], URIs = []\<rparr>"

definition ex_poi :: Server where
  "ex_poi = HonoursCorrelationID (fst (createDestination (Some (ex_destination ''::1'')) ex_server))"

definition ex_feed :: "nat \<Rightarrow> Observations \<times> string" where
  "ex_feed n = (ex_observations, ex_uuid)"

lemma length_escape: "length (EscapeText v) \<le> 5 * length v"
proof (induction v rule: pieces_induct)
  case (Cons c s r w)
  have "1 \<le> w" "w \<le> length (c # s)" using DecodeRune_width [of "map code_of (c # s)"] Cons.hyps by auto
  moreover from this have "length (escape_rune r w (take w (c # s))) \<le> 5 * w" by (auto simp: escape_rune_def escFFFD_def)
  ultimately show ?case using Cons.IH by (simp add: EscapeText_def pieces_Cons [OF Cons.hyps])
qed (simp add: EscapeText_def)

lemma ex_exchange:
  "clean_requester ex_requester" "trigger_ok ex_trigger" "certBinds (Some ex_ne) roleNE (reqNeID ex_requester)"
  "certBinds (Some ex_caller) roleADMF (ourID ex_requester)" "ourID ex_requester = ''a1''" "reqNeID ex_requester = ''ne1''"
  "clean_trigger ex_trigger"
  by (simp_all add: clean_requester_def ex_requester_def NewRequester_def ex_uuid_ok trigger_ok_def ex_trigger_def certBinds_def
      ex_ne_def ex_caller_def clean_trigger_def uuid_clean)

lemma ex_trusted: "trusted ex_ne ex_requester"
  using ex_exchange(3) by (simp add: trusted_def)

lemma ex_poi_simps:
  "options ex_poi = (options ex_server)\<lparr>honoursCorrelation := True\<rparr>" "store ex_poi = New" "clock ex_poi = 0"
  "resolveDIDs ex_poi [ex_uuid] = ([\<lparr>deType = DeliveryX3, deAddress = ''[::1]:8'', deDID = ex_uuid\<rparr>], [])"
  using ex_create [OF ex_loopback]
  by (simp_all add: ex_poi_def HonoursCorrelationID_def resolveDIDs_def resolveLocked_def endpoints_def x1_literals ex_port)

lemma ex_acceptable: "acceptable ex_poi ex_trigger"
  by (simp add: acceptable_def ex_trigger_def ex_uuid_ok ex_poi_simps)

lemma length_FormatUint: "n < 10 \<Longrightarrow> length (FormatUint n) = 1"
  by (subst FormatUint.simps) simp

lemma length_pad: "length (pad w n) = max w (length (FormatUint n))"
  by (simp add: pad_def Let_def)

lemma ex_stamp: "length (x1Timestamp 0) = 27"
proof -
  have f: "FormatUint 0 = ''0''" "FormatUint (Suc 0) = ''1''" "FormatUint 1970 = ''1970''" by code_simp+
  have "civil 0 = (1970, 1, 1)" by (simp add: civil_def year_walk.simps month_lengths_def leap_def)
  then show ?thesis by (simp add: x1Timestamp_def year_text_def length_pad f)
qed

lemma ex_uuid_length: "length ex_uuid = 36"
  using uuid_shape(1) [OF ex_uuid_ok] .

lemmas layout_defs = el_def elNS_def open_tag_def close_tag_def openNS_def closeNS_def start_tag_def attr_text_def indent_def
  newline_def xml_declaration_def declaration_text_def header_lines_def Namespace_def NamespaceXSI_def NamespaceX1Ext3GPP_def
  NamespaceCommon_def escapeXML_def

text \<open>Bounds on the size of the documents.\<close>

lemma header_length:
  "length (header_lines adm ne stamp ver tx) \<le> 300 + 5 * (length adm + length ne + length stamp + length tx) + length ver"
  using length_escape [of adm] length_escape [of ne] length_escape [of stamp] length_escape [of tx]
  by (simp add: header_lines_def layout_defs)

lemma request_length:
  "length (request_document extra ty head body) \<le>
     600 + length (concat (map attr_text extra)) + length ty + length head + length body"
  by (simp add: request_document_def layout_defs)

lemma acknowledged_length:
  assumes "ty \<notin> set details_types"
  shows "length (marshalResponse quote [(empty_response h)\<lparr>rsType := ty, rsOK := ackOK\<rparr>]) \<le>
    1500 + length ty + 5 * (length (rsAdmfIdentifier h) + length (rsNeIdentifier h) + length (x1Timestamp (rsMessageTimestamp h)) +
      length (rsTransactionID h) + length (rsVersion h))"
proof -
  have "responseBody quote ((empty_response h)\<lparr>rsType := ty, rsOK := ackOK\<rparr>) = el 4 ''oK'' (escapeXML ackOK)"
    using assms by (simp add: responseBody_def details_types_def ackOK_def)
  then show ?thesis
    using header_length [of "rsAdmfIdentifier h" "rsNeIdentifier h" "x1Timestamp (rsMessageTimestamp h)"
        "EscapeText (rsVersion h)" "rsTransactionID h"] length_escape [of "rsVersion h"] length_escape [of ackOK]
    by (simp add: marshalResponse_def response_item_def layout_defs empty_response_def ackOK_def del: header_lines_def)
qed

lemma ex_request_lines: "length (request_lines (requester_header ex_requester ty)) \<le> 1000"
  using header_length [of "''a1''" "''ne1''" "x1Timestamp 0" supportedVersion ex_uuid]
  by (simp add: request_lines_def requester_header_def ex_requester_def NewRequester_def ex_stamp ex_uuid_length supportedVersion_def)

lemma ex_body_length: "length (trigger_body b ex_trigger ex_requester) \<le> maxRequestBytes"
proof -
  have "ParseAddr '''' = None" by code_simp
  then have "length (task_lines_of ex_trigger) \<le> 2000"
    using length_escape [of ex_uuid]
    by (simp add: task_lines_of_def task_lines_def ex_trigger_def addressArm_def ParseIP_def layout_defs ex_uuid_length length_FormatUint)
  then show ?thesis
    using request_length [of "[(''xmlns:ext'', NamespaceX1Ext3GPP)]" "trigger_type b"
        "request_lines (requester_header ex_requester (trigger_type b))" "task_lines_of ex_trigger"] ex_request_lines [of "trigger_type b"]
    by (simp add: trigger_body_def task_document_def taskTemplate_def task_lines_of_def split_beta Let_def layout_defs
        maxRequestBytes_def trigger_type_def requester_header_def split: if_splits)
qed

lemma ex_authenticated: "authenticate (trigger_message b ex_trigger ex_requester) (Some ex_caller) ex_poi = None"
  using clean_requesterD [OF ex_exchange(1)] ex_exchange(4)
  by (simp add: authenticate_def trigger_message_def with_header_def requester_header_def ex_exchange ex_poi_simps)

lemma ex_acknowledged_length:
  assumes "ty \<notin> set details_types" "length ty \<le> 100" "m = with_header (requester_header ex_requester t) u td x dd"
    and "neID (options s) = ''ne1''" "clock s = 0"
  shows "length (marshalResponse quote [(empty_response (response_header ex_uuid m s))\<lparr>rsType := ty, rsOK := ackOK\<rparr>]) \<le> maxRequestBytes"
proof -
  have "versionPattern supportedVersion" by code_simp
  then have "response_header ex_uuid m s =
      \<lparr>rsAdmfIdentifier = ''a1'', rsNeIdentifier = ''ne1'', rsMessageTimestamp = 0, rsVersion = supportedVersion, rsTransactionID = ex_uuid\<rparr>"
    using clean_requesterD [OF ex_exchange(1)] assms(4,5)
    by (simp add: assms(3) response_header_def with_header_def requester_header_def ex_exchange echoVersion_def
        echoTransactionID_def ex_uuid_ok) (simp add: ex_requester_def NewRequester_def ex_uuid_ok)
  then show ?thesis
    using acknowledged_length [OF assms(1), of quote "response_header ex_uuid m s"] assms(2)
    by (simp add: maxRequestBytes_def ex_stamp ex_uuid_length supportedVersion_def)
qed

lemma ex_answer_length:
  "length (marshalResponse quote [answer_to ex_feed ex_caller ex_poi (trigger_message False ex_trigger ex_requester)]) \<le> maxRequestBytes"
proof -
  have t: "responseTypeFor (trigger_type False) = ''ActivateTaskResponse''" by code_simp
  have f: "''ActivateTaskResponse'' \<notin> set details_types" by code_simp
  show ?thesis
    unfolding trigger_answer [OF ex_acceptable ex_exchange(2) _ ex_authenticated, of False ex_feed, simplified] t
    unfolding ex_feed_def snd_conv trigger_message_def
    by (rule ex_acknowledged_length [OF f _ refl]) (simp_all add: ex_poi_simps)
qed

theorem acceptable_trigger_acknowledged_witness:
  "ActivateTask (over id ex_feed ex_caller ex_ne ex_poi) ex_trigger ex_requester = None"
  using acceptable_trigger_acknowledged [where b = False and quote = id and feed = ex_feed, OF ex_exchange(1,2) ex_acceptable _ ex_trusted ex_exchange(4) _ _ _
      ex_body_length ex_answer_length]
  by (simp add: ex_exchange ex_poi_simps)

theorem trigger_acknowledged_iff_applied_witness:
  "trigger_applied False ex_trigger ex_poi (fst (served id ex_feed ex_caller ex_ne ex_poi (trigger_body False ex_trigger ex_requester)))"
proof -
  note sent = acceptable_sent [where b = False and quote = id and feed = ex_feed, OF ex_exchange(1,2) ex_acceptable _ ex_trusted
      ex_body_length ex_answer_length ex_authenticated, simplified]
  show ?thesis
    using trigger_acknowledged_iff_applied [where b = False and fate = Delivered and ne = ex_ne,
        OF ex_exchange(1,2,7) ex_body_length sent(1) refl refl] sent(2)
    unfolding reply_Delivered by (simp add: across_def)
qed

subsection \<open>Withdrawals\<close>

definition withdraw_message :: "xid \<Rightarrow> Requester \<Rightarrow> X1RequestMessage" where
  "withdraw_message x r =
     with_header (requester_header r ''DeactivateTaskRequest'') ''DeactivateTaskRequest'' None (carried x) None"

definition withdraw_body :: "xid \<Rightarrow> Requester \<Rightarrow> string" where
  "withdraw_body x r = deactivateTemplate (requester_header r ''DeactivateTaskRequest'') x"

lemma Unmarshal_withdraw: "Unmarshal_request (withdraw_body x r) = Some [withdraw_message x r]"
  by (simp add: withdraw_body_def withdraw_message_def Unmarshal_deactivate)

lemma apply_withdraw:
  "\<exists>s' err rm. apply_request ob (withdraw_message x r) rm0 s = (s', err, rm) \<and> deactivate (carried x) s = (s', err)"
proof -
  have "''DeactivateTaskRequest'' \<in> set trigger_requests" by (simp add: trigger_requests_def)
  from type_facts(1) [OF this] have "localType (rqType (withdraw_message x r)) = ''DeactivateTaskRequest''"
    by (simp add: withdraw_message_def with_header_def)
  then show ?thesis
    by (cases "deactivate (carried x) s") (simp add: apply_request_def kinds Let_def, simp add: withdraw_message_def with_header_def)
qed

text \<open>
  The effect of a withdrawal: the element held the task and holds it no longer, every other task and
  every destination is as before, and its point of interception was told of the removal.
\<close>

definition withdrawn :: "xid \<Rightarrow> Server \<Rightarrow> Server \<Rightarrow> bool" where
  "withdrawn x s s' \<longleftrightarrow>
     (\<exists>t. Get x (store s) = Some t \<and> events s' = events s @ [TaskChange (Some t) None, Purge t PurgeWithdrawal]) \<and>
     Get x (store s') = None \<and> (\<forall>y. y \<noteq> x \<longrightarrow> Get y (store s') = Get y (store s)) \<and> destinations s' = destinations s"

text \<open>
  C13. What a triggering function is told of a withdrawal is true, over a network that delivers both
  documents, or loses the request, or loses the answer. When the call returns nil, both were
  delivered, over TLS the element's certificate binds the identifier it is addressed by, and the
  task is withdrawn (as \<open>withdrawn\<close> says). When it returns an error, either the element's tasking is
  untouched, or the task is withdrawn and the answer was lost or came with a certificate that does not
  bind. The identifiers are text that XML can carry, the task's is not empty, the documents are below
  the size at which reading stops, and the code of an error answer is within a Go \<open>int\<close>.
\<close>

theorem withdrawal_acknowledged_iff_removed:
  assumes "clean_requester r" and "x \<noteq> ''''" and "clean x" and "length (withdraw_body x r) \<le> maxRequestBytes"
    and "answer_within quote (answer_to feed caller s (withdraw_message x r))"
    and "s' = fst (across fate lost quote feed caller ne s (withdraw_body x r))"
    and "res = DeactivateTask (reply fate lost quote feed caller ne s) x r"
  shows "case res of
      None \<Rightarrow> fate = Delivered \<and> trusted ne r \<and> withdrawn x s s'
    | Some e \<Rightarrow> same_tasking s s' \<or> withdrawn x s s' \<and> (fate = AnswerLost \<or> \<not> trusted ne r)"
proof -
  let ?m = "withdraw_message x r" and ?h = "requester_header r ''DeactivateTaskRequest''" and ?s = "recordActivity s"
  have "res = send (reply fate lost quote feed caller ne s) (withdraw_body x r) ?h r"
    using assms(2,7) by (simp add: DeactivateTask_def withdraw_body_def Let_def)
  moreover have ty: "''DeactivateTaskRequest'' \<in> set trigger_requests" "''DeactivateTaskRequest'' \<noteq> ''GetAllDetailsRequest''"
    by (simp_all add: trigger_requests_def)
  ultimately have iff: "res = None \<longleftrightarrow> fate = Delivered \<and> trusted ne r \<and> complies feed caller s ?m"
    using send_across [OF assms(1) ty refl withdraw_message_def assms(5) Unmarshal_withdraw assms(4)] by simp
  have "withdrawn x s s'"
    if "complies feed caller s ?m" "s' = fst (apply_message (fst (feed 0)) (snd (feed 0)) ?m ?s)"
  proof -
    obtain s1 err rm where a: "apply_request (fst (feed 0)) ?m (empty_response (response_header (snd (feed 0)) ?m ?s)) ?s = (s1, err, rm)"
      "deactivate (carried x) ?s = (s1, err)" using apply_withdraw by blast
    have "err = None" "s' = s1" using that apply_message_result [OF a(1)] by (simp_all add: complies_def)
    with a(2) show ?thesis
      using assms(2,3)
      by (auto simp: withdrawn_def deactivate_shape carried_clean removal_events_def st.views validIdentifier_def
          split: if_splits option.splits)
  qed
  with told_trulyI [OF Unmarshal_withdraw assms(4) iff assms(6)] show ?thesis unfolding told_truly_def by blast
qed

text \<open>The keepalive: nil exactly when the element authenticated it, and then its fail-safe counts from now.\<close>

definition keepalive_message :: "Requester \<Rightarrow> X1RequestMessage" where
  "keepalive_message r = with_header (requester_header r ''KeepaliveRequest'') ''KeepaliveRequest'' None '''' None"

definition keepalive_body :: "Requester \<Rightarrow> string" where
  "keepalive_body r = keepaliveTemplate (requester_header r ''KeepaliveRequest'')"

lemma keepalive_acknowledged_iff:
  assumes "clean_requester r" "trusted ne r" "length (keepalive_body r) \<le> maxRequestBytes"
    and "answer_within quote (answer_to feed caller s (keepalive_message r))"
  shows "Requester_Keepalive (over quote feed caller ne s) r = None \<longleftrightarrow> authenticate (keepalive_message r) (Some caller) s = None"
    and "Requester_Keepalive (over quote feed caller ne s) r = None \<Longrightarrow>
      fst (served quote feed caller ne s (keepalive_body r)) = recordActivity s"
proof -
  let ?m = "keepalive_message r" and ?h = "requester_header r ''KeepaliveRequest''" and ?s = "recordActivity s"
  have ty: "''KeepaliveRequest'' \<in> set trigger_requests" "''KeepaliveRequest'' \<noteq> ''GetAllDetailsRequest''"
    by (simp_all add: trigger_requests_def)
  have u: "Unmarshal_request (keepalive_body r) = Some [?m]" by (simp add: keepalive_body_def keepalive_message_def Unmarshal_keepalive)
  from type_facts(1) [OF ty(1)] have "localType (rqType ?m) = ''KeepaliveRequest''" by (simp add: keepalive_message_def with_header_def)
  then have a: "apply_request ob ?m rm0 ?s = (?s, None, rm0\<lparr>rsType := ''KeepaliveResponse''\<rparr>)" for ob rm0
    by (simp add: apply_request_def kinds)
  note iff = send_over [OF assms(1) ty refl keepalive_message_def assms(4,2) u assms(3)]
  then show "Requester_Keepalive (over quote feed caller ne s) r = None \<longleftrightarrow> authenticate ?m (Some caller) s = None"
    by (simp add: Requester_Keepalive_def keepalive_body_def Let_def apply_message_result [OF a])
  then show "Requester_Keepalive (over quote feed caller ne s) r = None \<Longrightarrow> fst (served quote feed caller ne s (keepalive_body r)) = ?s"
    using served_state(1) [OF u assms(3), of caller s quote feed ne] by (simp add: apply_message_result [OF a])
qed

text \<open>A withdrawal of the task of \<open>ex_tasked\<close>.\<close>

lemma ex_tasked_frame: "options ex_tasked = options ex_server" "clock ex_tasked = 0"
proof -
  show "options ex_tasked = options ex_server"
    using fixed.on_steps [OF process_loop_steps [of 1 "system_init ex_server"
        "[(ex_request ''ActivateTaskRequest'', ex_observations, ex_uuid)]" ex_peer "[]"]]
    by (simp add: system_init_def ex_tasked_def Process_def case_prod_beta)
  show "clock ex_tasked = 0"
    using ex_authenticates [of "''ActivateTaskRequest''"]
    by (simp add: ex_tasked_def Process_def applyAuthenticated_def case_prod_beta apply_keeps_time)
qed

lemma ex_withdraw_authenticated: "authenticate (withdraw_message ex_uuid ex_requester) (Some ex_caller) ex_tasked = None"
  using clean_requesterD [OF ex_exchange(1)] ex_exchange(4)
  by (simp add: authenticate_def withdraw_message_def with_header_def requester_header_def ex_exchange ex_tasked_frame)

lemma ex_withdraw_answer:
  "answer_to ex_feed ex_caller ex_tasked (withdraw_message ex_uuid ex_requester) =
     (empty_response (response_header ex_uuid (withdraw_message ex_uuid ex_requester) ex_tasked))
       \<lparr>rsType := ''DeactivateTaskResponse'', rsOK := ackOK\<rparr>"
proof -
  let ?m = "withdraw_message ex_uuid ex_requester"
  note a = ex_withdraw_authenticated
  have d: "snd (deactivate (carried ex_uuid) (recordActivity ex_tasked)) = None"
    using ex_tasked_get by (simp add: deactivate_shape ex_uuid_ok uuid_clean carried_clean st.lookup_view)
  have t: "''DeactivateTaskRequest'' \<in> set trigger_requests" by (simp add: trigger_requests_def)
  have lt: "localType (rqType ?m) = ''DeactivateTaskRequest''"
    using type_facts(1) [OF t] by (simp add: withdraw_message_def with_header_def)
  have x: "rqXID ?m = carried ex_uuid" by (simp add: withdraw_message_def with_header_def)
  have "apply_request (fst (ex_feed 0)) ?m rm (recordActivity ex_tasked) =
      (fst (deactivate (carried ex_uuid) (recordActivity ex_tasked)), None, rm\<lparr>rsType := ''DeactivateTaskResponse''\<rparr>)" for rm
    using d by (simp add: apply_request_def lt kinds x case_prod_beta)
  then have "answer_to ex_feed ex_caller ex_tasked ?m =
      (empty_response (response_header (snd (ex_feed 0)) ?m ex_tasked))\<lparr>rsType := ''DeactivateTaskResponse'', rsOK := ackOK\<rparr>"
    by (rule acknowledged [OF a])
  then show ?thesis by (simp add: ex_feed_def)
qed

theorem withdrawal_acknowledged_iff_removed_witness:
  "DeactivateTask (over id ex_feed ex_caller ex_ne ex_tasked) ex_uuid ex_requester = None \<and>
   Get ex_uuid (store (fst (served id ex_feed ex_caller ex_ne ex_tasked (withdraw_body ex_uuid ex_requester)))) = None"
proof -
  have n: "''DeactivateTaskResponse'' \<notin> set details_types" by code_simp
  have l: "length (withdraw_body ex_uuid ex_requester) \<le> maxRequestBytes"
    using request_length [of "[]" "''DeactivateTaskRequest''" "request_lines (requester_header ex_requester ''DeactivateTaskRequest'')"
        "el 4 ''xId'' (escapeXML ex_uuid)"] ex_request_lines [of "''DeactivateTaskRequest''"] length_escape [of ex_uuid]
    by (simp add: withdraw_body_def deactivateTemplate_def maxRequestBytes_def layout_defs ex_uuid_length del: header_lines_def)
  have w: "answer_within id (answer_to ex_feed ex_caller ex_tasked (withdraw_message ex_uuid ex_requester))"
    unfolding answer_within_def ex_withdraw_answer
    by (rule conjI [OF acknowledged_fits ex_acknowledged_length [OF n _ withdraw_message_def]]) (simp_all add: ex_tasked_frame)
  have t: "''DeactivateTaskRequest'' \<in> set trigger_requests" "''DeactivateTaskRequest'' \<noteq> ''GetAllDetailsRequest''"
    by (simp_all add: trigger_requests_def)
  have "snd (apply_message (fst (ex_feed 0)) (snd (ex_feed 0)) (withdraw_message ex_uuid ex_requester) (recordActivity ex_tasked)) =
      answer_to ex_feed ex_caller ex_tasked (withdraw_message ex_uuid ex_requester)"
    by (simp add: answer_to_def applyAuthenticated_def ex_withdraw_authenticated case_prod_beta)
  then have "DeactivateTask (over id ex_feed ex_caller ex_ne ex_tasked) ex_uuid ex_requester = None"
    using send_over [OF ex_exchange(1) t refl withdraw_message_def w ex_trusted Unmarshal_withdraw l] ex_withdraw_authenticated
    by (simp add: DeactivateTask_def withdraw_body_def [symmetric] Let_def ex_withdraw_answer) (simp add: empty_response_def)
  then show ?thesis
    using withdrawal_acknowledged_iff_removed [where fate = Delivered and ne = ex_ne,
        OF ex_exchange(1) ex_uuid_not_empty uuid_clean [OF ex_uuid_ok] l w refl refl]
    unfolding reply_Delivered by (simp add: across_def withdrawn_def)
qed

end
