(* ===== verification/X1Reconcile.thy ===== *)
theory X1Reconcile
  imports X1Session
begin

text \<open>
  What a triggering function learns when it asks a point of interception what it holds
  (\<open>ReportedTasks\<close> and \<open>TaskXIDs\<close> of \<open>src/x1/trigger.go\<close>), what it may conclude from any answer
  at all, whoever sent it, and the destinations it creates.
\<close>

subsection \<open>The inventory\<close>

definition details_message :: "Requester \<Rightarrow> X1RequestMessage" where
  "details_message r = with_header (requester_header r ''GetAllDetailsRequest'') ''GetAllDetailsRequest'' None '''' None"

definition details_body :: "Requester \<Rightarrow> string" where
  "details_body r = detailsTemplate (requester_header r ''GetAllDetailsRequest'')"

lemma Unmarshal_details_body: "Unmarshal_request (details_body r) = Some [details_message r]"
  by (simp add: details_body_def details_message_def Unmarshal_details)

lemma details_type: "''GetAllDetailsRequest'' \<in> set trigger_requests"
  by (simp add: trigger_requests_def)

lemma details_response_type: "responseTypeFor ''GetAllDetailsRequest'' = ''GetAllDetailsResponse''"
  by code_simp

text \<open>The faults the network function reports for a task, when it is asked.\<close>

definition faults_for :: "(string \<Rightarrow> string) \<Rightarrow> Observations \<Rightarrow> InterceptTask list \<Rightarrow> InterceptTask \<Rightarrow> (nat \<times> string) list" where
  "faults_for quote ob ts t =
     map (fault_of quote) (case map_of (faultsForTasks ob ts) (XID t) of Some es \<Rightarrow> es | None \<Rightarrow> [])"

lemma details_answer:
  assumes "authenticate (details_message r) (Some caller) s = None"
  shows "rsType (answer_to feed caller s (details_message r)) = ''GetAllDetailsResponse''"
    and "task_views quote (answer_to feed caller s (details_message r)) =
      map (\<lambda>t. task_view t (faults_for quote (fst (feed 0)) (Snapshot (store s)) t)) (Snapshot (store s))"
    and "rsErrorInformation (answer_to feed caller s (details_message r)) = None"
    and "rsTasks (answer_to feed caller s (details_message r)) = Snapshot (store s)"
    and "answer_to feed caller s (details_message r) =
      (empty_response (response_header (snd (feed 0)) (details_message r) s))
        \<lparr>rsType := ''GetAllDetailsResponse'', rsTasks := Snapshot (store s), rsDestinations := heldDestinations (fst (feed 0)) (recordActivity s),
         rsFaults := unresolvedFaults (fst (feed 0)), rsTaskFaults := faultsForTasks (fst (feed 0)) (Snapshot (store s)), rsOK := ackOK\<rparr>"
proof -
  let ?m = "details_message r"
  have lt: "localType (rqType ?m) = ''GetAllDetailsRequest''"
    using type_facts(1) [OF details_type] by (simp add: details_message_def with_header_def)
  note rt = type_facts(2) [OF details_type, unfolded details_response_type]
  have a: "answer_to feed caller s ?m =
      (snd (snd (apply_request (fst (feed 0)) ?m (empty_response (response_header (snd (feed 0)) ?m (recordActivity s))) (recordActivity s))))
        \<lparr>rsTaskFaults := faultsForTasks (fst (feed 0)) (Snapshot (store s)), rsOK := ackOK\<rparr>"
    by (simp add: answer_to_def applyAuthenticated_def assms apply_message_def apply_request_def lt kinds case_prod_beta Let_def)
  show "answer_to feed caller s ?m =
      (empty_response (response_header (snd (feed 0)) ?m s))
        \<lparr>rsType := ''GetAllDetailsResponse'', rsTasks := Snapshot (store s), rsDestinations := heldDestinations (fst (feed 0)) (recordActivity s),
         rsFaults := unresolvedFaults (fst (feed 0)), rsTaskFaults := faultsForTasks (fst (feed 0)) (Snapshot (store s)), rsOK := ackOK\<rparr>"
    by (simp add: a apply_request_def lt kinds rt empty_response_def response_header_def Let_def)
  then show "rsType (answer_to feed caller s ?m) = ''GetAllDetailsResponse''"
    "rsErrorInformation (answer_to feed caller s ?m) = None" "rsTasks (answer_to feed caller s ?m) = Snapshot (store s)"
    "task_views quote (answer_to feed caller s ?m) =
      map (\<lambda>t. task_view t (faults_for quote (fst (feed 0)) (Snapshot (store s)) t)) (Snapshot (store s))"
    by (simp_all add: empty_response_def task_views_def faults_of_task_def faults_for_def)
qed

lemma xids_loop_filter: "xids_loop ts xs = xs @ filter (\<lambda>x. x \<noteq> '''') (map (\<lambda>t. tdXID (trTaskDetails t)) ts)"
  by (induction ts arbitrary: xs) auto

lemma reported_tasks:
  assumes "clean_requester r" "trusted ne r" "length (details_body r) \<le> maxRequestBytes"
    and "answer_within quote (answer_to feed caller s (details_message r))"
    and "authenticate (details_message r) (Some caller) s = None"
  shows "Requester_ReportedTasks (over quote feed caller ne s) r =
    Inr (map (\<lambda>t. task_view t (faults_for quote (fst (feed 0)) (Snapshot (store s)) t)) (Snapshot (store s)))"
proof -
  let ?m = "details_message r" and ?h = "requester_header r ''GetAllDetailsRequest''"
  note d = details_answer [OF assms(5), where feed = feed]
  have "carried (neID (options s)) = reqNeID r"
    using assms(5) clean_requesterD(2) [OF assms(1)]
    by (auto simp: authenticate_def details_message_def with_header_def requester_header_def split: if_splits)
  then have "readResponse r ?h (snd (served quote feed caller ne s (details_body r))) =
      Inr (answer_of quote (answer_to feed caller s ?m))"
    using read_answer [OF assms(1) details_type refl details_message_def refl assms(4,2)]
    by (simp add: served_one [OF Unmarshal_details_body assms(3)])
  moreover have "anErrorInformation (answer_of quote (answer_to feed caller s ?m)) = None"
    by (simp add: answer_of_def d errorResponse_def)
  moreover have "ReportedTasks (answer_of quote (answer_to feed caller s ?m)) = task_views quote (answer_to feed caller s ?m)"
    by (simp add: ReportedTasks_def answer_of_def d(1))
  ultimately show ?thesis
    by (simp add: Requester_ReportedTasks_def over_def details_body_def [symmetric] Let_def d(2))
qed

lemma inventory_read:
  assumes "tasking_ok s" and "clean_requester r" and "trusted ne r" and "length (details_body r) \<le> maxRequestBytes"
    and "answer_within quote (answer_to feed caller s (details_message r))"
    and "authenticate (details_message r) (Some caller) s = None"
  shows "\<exists>xs ts. TaskXIDs (over quote feed caller ne s) r = Inr xs \<and> Requester_ReportedTasks (over quote feed caller ne s) r = Inr ts \<and>
     (\<forall>x. x \<in> set xs \<longleftrightarrow> Get x (store s) \<noteq> None) \<and> sorted xs \<and> distinct xs \<and>
     list_all2 (\<lambda>x t. \<exists>u. Get x (store s) = Some u \<and> tdXID (trTaskDetails t) = x \<and> ListOfDIDs (trTaskDetails t) = DIDs u \<and>
       tdDeliveryType (trTaskDetails t) = deliveryTypeOf (Products u) \<and> TargetIdentifiers (trTaskDetails t) = map target_view (Targets u) \<and>
       (Healthy (trTaskStatus t) \<longleftrightarrow> faults_for quote (fst (feed 0)) (Snapshot (store s)) u = [])) xs ts"
proof -
  note ok = assms(1)
  then have inv: "store_inv (store s)" by (simp add: tasking_ok_def)
  have held: "Get (XID u) (store s) = Some u \<and> uuidPattern (XID u) \<and> list_all uuidPattern (DIDs u)" if "u \<in> set (Snapshot (store s))" for u
    using that st.set_tasks [OF inv] st.view_key [OF inv] ok by (fastforce simp: ran_def tasking_ok_def task_ok_def st.lookup_view)
  have c: "carried x = x" if "uuidPattern x" for x using that by (simp add: uuid_clean carried_clean)
  let ?v = "\<lambda>u. task_view u (faults_for quote (fst (feed 0)) (Snapshot (store s)) u)"
  have rep: "Requester_ReportedTasks (over quote feed caller ne s) r = Inr (map ?v (Snapshot (store s)))"
    by (rule reported_tasks [OF assms(2-6)])
  have x: "tdXID (trTaskDetails (?v u)) = XID u" "map carried (DIDs u) = DIDs u" "XID u \<noteq> ''''" if "u \<in> set (Snapshot (store s))" for u
    using held [OF that] c st.view_key [OF inv, of "XID u" u] by (auto simp: task_view_def list_all_iff st.lookup_view intro: map_idI)
  have "filter (\<lambda>x. x \<noteq> '''') (map (\<lambda>t. tdXID (trTaskDetails t)) (map ?v (Snapshot (store s)))) = map XID (Snapshot (store s))"
    using x by (simp cong: map_cong)
  then have xids: "TaskXIDs (over quote feed caller ne s) r = Inr (map XID (Snapshot (store s)))"
    by (simp add: TaskXIDs_def rep xids_loop_filter)
  moreover have "z \<in> set (map XID (Snapshot (store s))) \<longleftrightarrow> Get z (store s) \<noteq> None" for z
    using held st.set_tasks [OF inv] st.view_key [OF inv] by (fastforce simp: ran_def image_iff st.lookup_view)
  moreover have "list_all2 (\<lambda>x t. \<exists>u. Get x (store s) = Some u \<and> tdXID (trTaskDetails t) = x \<and> ListOfDIDs (trTaskDetails t) = DIDs u \<and>
       tdDeliveryType (trTaskDetails t) = deliveryTypeOf (Products u) \<and> TargetIdentifiers (trTaskDetails t) = map target_view (Targets u) \<and>
       (Healthy (trTaskStatus t) \<longleftrightarrow> faults_for quote (fst (feed 0)) (Snapshot (store s)) u = [])) (map XID (Snapshot (store s))) (map ?v (Snapshot (store s)))"
    unfolding list.rel_map by (rule list.rel_refl_strong) (use held x in \<open>auto simp: task_view_def Healthy_def\<close>)
  ultimately show ?thesis using rep st.order_tasks [OF inv] by blast
qed

subsection \<open>Whom a triggering function believes\<close>

text \<open>An answer that repeats what the request says.\<close>

definition attributed :: "request_header \<Rightarrow> X1Answer \<Rightarrow> bool" where
  "attributed h m \<longleftrightarrow>
     localType (anType m) \<in> {responseTypeFor (hdType h), errorResponse} \<and> anTransactionID m = hdTxID h \<and>
     anNeIdentifier m = hdNeID h \<and> anAdmfIdentifier m = hdOurID h \<and> anVersion m = supportedVersion"

lemma validateBound_iff: "validateBound h out = Inr m \<longleftrightarrow> out = [m] \<and> attributed h m"
  by (cases out) (auto simp: validateBound_def attributed_def)

lemma bindsResponderCert_iff:
  "bindsResponderCert resp auth role i = None \<longleftrightarrow>
     (auth \<longrightarrow> (\<exists>c cs. PeerCertificates resp = Some (c # cs) \<and>
        ((oidUID, StringValue i) \<in> set (SubjectNames c) \<or> certBindingURNPrefix @ role @ '':'' @ i \<in> set (URIs c)) \<and> i \<noteq> ''''))"
  by (auto simp: bindsResponderCert_def certBinds_iff split: option.splits list.splits)

lemma readBoundResponse_iff:
  "readBoundResponse h resp auth role i = Inr m \<longleftrightarrow>
     StatusCode resp = 200 \<and> bindsResponderCert resp auth role i = None \<and> attributed h m \<and>
     (\<exists>stream. respBody resp = Some stream \<and> Unmarshal_response (take maxRequestBytes stream) = Some [m])"
  by (auto simp: readBoundResponse_def validateBound_iff Let_def split: option.splits if_splits)

text \<open>
  C12. A call returns nil exactly for one answer that can be attributed to it: a response with status 200
  whose first megabyte is read as a document with exactly one message, of the type the request is
  answered with or an error response, that repeats the transaction identifier, both identifiers and
  the version of the request, has no error information and an acknowledgement; and, when the requester
  has a TLS configuration, the peer presented a certificate that binds the identifier the request was
  addressed to, as a network element (without one, the answer's peer is not checked). Whatever else the
  network returns is an error. Reading is that of theories \<open>Xml\<close> and \<open>X1Decode\<close>.
\<close>

theorem only_attributed_answers_believed:
  "send net body h r = None \<longleftrightarrow>
     (\<exists>resp stream m. net body = Inr resp \<and> StatusCode resp = 200 \<and> respBody resp = Some stream \<and>
        Unmarshal_response (take maxRequestBytes stream) = Some [m] \<and> attributed h m \<and>
        anErrorInformation m = None \<and> anOK m \<noteq> '''' \<and>
        (authenticated r \<longrightarrow> (\<exists>c cs. PeerCertificates resp = Some (c # cs) \<and> hdNeID h \<noteq> '''' \<and>
           ((oidUID, StringValue (hdNeID h)) \<in> set (SubjectNames c) \<or>
            certBindingURNPrefix @ roleNE @ '':'' @ hdNeID h \<in> set (URIs c)))))"
proof (cases "net body")
  case (Inr resp)
  show ?thesis
  proof (cases "readResponse r h resp")
    case (Inl e)
    then have "\<not> (\<exists>m. readBoundResponse h resp (authenticated r) roleNE (hdNeID h) = Inr m)" by (simp add: readResponse_def)
    with Inl Inr show ?thesis by (simp add: send_def) (auto simp: readBoundResponse_iff bindsResponderCert_iff)
  next
    case (Inr m)
    then have "readBoundResponse h resp (authenticated r) roleNE (hdNeID h) = Inr m" by (simp add: readResponse_def)
    with Inr \<open>net body = Inr resp\<close> show ?thesis
      by (auto simp: send_def readBoundResponse_iff bindsResponderCert_iff split: option.splits)
  qed
qed (simp add: send_def)

theorem only_attributed_answers_believed_witness:
  "\<exists>m. attributed (requester_header ex_requester ''ActivateTaskRequest'') m \<and> anOK m \<noteq> '''' \<and>
     Unmarshal_response (take maxRequestBytes (the (respBody (snd (served id ex_feed ex_caller ex_ne ex_poi (trigger_body False ex_trigger ex_requester)))))) = Some [m]"
proof -
  have "ActivateTask (over id ex_feed ex_caller ex_ne ex_poi) ex_trigger ex_requester = None"
    using acceptable_sent(2) [where b = False and quote = id and feed = ex_feed, OF ex_exchange(1,2) ex_acceptable _ ex_trusted
        ex_body_length ex_answer_length ex_authenticated] by simp
  then have "send (over id ex_feed ex_caller ex_ne ex_poi) (trigger_body False ex_trigger ex_requester)
      (requester_header ex_requester ''ActivateTaskRequest'') ex_requester = None"
    using ex_exchange(2) by (simp add: trigger_ok_def ActivateTask_def task_def trigger_body_def trigger_type_def Let_def)
  from only_attributed_answers_believed [THEN iffD1, OF this] show ?thesis by (auto simp: over_def)
qed

text \<open>
  A trigger that lacks its identifier, its warrant, its correlation, its session or its destination
  is refused before anything is sent, and so are a withdrawal without an identifier and a destination
  without an address or with a delivery type that does not exist: the network does not matter.
\<close>

lemma incomplete_calls_send_nothing:
  "\<not> trigger_ok t \<Longrightarrow> ActivateTask net t r = ActivateTask net' t r \<and> ActivateTask net t r \<noteq> None \<and>
     ModifyTask net t r = ModifyTask net' t r \<and> ModifyTask net t r \<noteq> None"
  "DeactivateTask net '''' r = DeactivateTask net' '''' r \<and> DeactivateTask net '''' r \<noteq> None"
  "dsDID d = '''' \<or> dsAddress d = '''' \<or> dsPort d = 0 \<or> (\<exists>e. deliveryProducts (dsDeliveryType d) = Inl e) \<Longrightarrow>
     CreateDestination net d r = CreateDestination net' d r \<and> CreateDestination net d r \<noteq> None"
  by (auto simp: trigger_ok_def ActivateTask_def ModifyTask_def task_def DeactivateTask_def CreateDestination_def split: sum.splits x1_error.splits)

subsection \<open>The inventory, or none\<close>

text \<open>What does not decode.\<close>

lemma those_None: "x \<in> set xs \<Longrightarrow> f x = None \<Longrightarrow> those (map f xs) = None"
  by (induction xs) (auto split: option.split)

lemma dec_unreadable_criterion:
  assumes "\<not> numeric_target t"
  shows "dec_UPFLIT3Identifier (arm_nodes response_env t) = None"
proof (cases "tiType t")
  case TargetFTEID
  obtain teid addr hasAddr where c: "Cut (tiValue t) (CHR ''@'') = (teid, addr, hasAddr)" by (metis prod_cases3)
  have n: "uint_text 32 (carried teid) = None" using assms TargetFTEID c by (simp add: numeric_target_def)
  have e: "fst (addressArm addr) = ''IPv4Address'' \<or> fst (addressArm addr) = ''IPv6Address''" using addressArm_name [of addr] by auto
  show ?thesis
    using e by (elim disjE; cases hasAddr)
      (simp_all add: TargetFTEID n arm_nodes_def c dec_UPFLIT3Identifier_def dec_FTEID_def field_defs)
qed (use assms in \<open>auto simp: numeric_target_def arm_nodes_def dec_UPFLIT3Identifier_def dec_FSEID_def field_defs\<close>)

lemma dec_unreadable_target:
  assumes "\<not> numeric_target t"
  shows "dec_TargetIdentifier (target_nodes response_env t) = None"
proof -
  have "XMLElement (tiType t) = None" using assms by (cases "tiType t") (simp_all add: numeric_target_def XMLElement_def)
  then show ?thesis
    by (simp add: target_nodes_def dec_TargetIdentifier_def dec_TargetIdentifierExtension_def field_defs
        dec_unreadable_criterion [OF assms])
qed

lemma dec_unreadable_task:
  assumes "\<not> list_all numeric_target (Targets t)"
  shows "dec_TaskResponseDetails (nkids (task_node response_env ind t fs)) = None"
proof -
  obtain i where i: "i \<in> set (Targets t)" "\<not> numeric_target i" using assms by (auto simp: list_all_iff)
  let ?n = "\<lambda>i. inner response_env ''ns1'' ''targetIdentifier'' (target_nodes response_env i)"
  have "filter (named ''targetIdentifier'') (map ?n (Targets t)) = map ?n (Targets t)"
    by (rule filter_map_same) (simp add: named_def)
  moreover have "those (map (\<lambda>i. dec_TargetIdentifier (target_nodes response_env i)) (Targets t)) = None"
    by (rule those_None [OF i(1)]) (rule dec_unreadable_target [OF i(2)])
  ultimately have "slice_field dec_TargetIdentifier (named ''targetIdentifier'') (map ?n (Targets t)) = None"
    by (simp add: slice_field_def comp_def)
  then show ?thesis
    by (simp add: task_node_def dec_TaskResponseDetails_def dec_TaskDetails_def merged_def named_def)
qed

lemma Unmarshal_unreadable:
  assumes "rsType rm = ''GetAllDetailsResponse''" "t \<in> set (rsTasks rm)" "\<not> list_all numeric_target (Targets t)"
  shows "Unmarshal_response (marshalResponse quote [rm]) = None"
proof -
  have v: "list_all value_char (rsType rm)" unfolding assms(1) by code_simp
  obtain x where x: "read_xml (marshalResponse quote [rm]) = Some x" "is_root x ''X1Response'' [response_node quote rm]"
    using read_marshalResponse [of "[rm]" quote] v by auto
  let ?ns = "task_nodes response_env quote rm"
  have "filter (named ''taskResponseDetails'') ?ns = ?ns"
    unfolding task_nodes_def by (intro filter_map_same) (simp add: named_def body_names)
  moreover have "those (map (\<lambda>t. dec_TaskResponseDetails (nkids (task_node response_env 6 t (faults_of_task quote rm t)))) (rsTasks rm)) = None"
    by (rule those_None [OF assms(2)]) (rule dec_unreadable_task [OF assms(3)])
  ultimately have d: "slice_field dec_TaskResponseDetails (named ''taskResponseDetails'') ?ns = None"
    by (simp add: slice_field_def task_nodes_def comp_def)
  have "merged (named ''listOfTaskResponseDetails'') (nkids (response_node quote rm)) = ?ns"
    by (simp add: response_node_def body_nodes_def assms(1) errorResponse_def merged_def named_def body_names)
  with d have "dec_X1ResponseMessage (response_node quote rm) = None"
    by (simp add: dec_X1ResponseMessage_def bind_eq_None_conv Let_def)
  with x show ?thesis
    by (simp add: Unmarshal_response_def Unmarshal_X1Response_def is_root_def named_in_def named_def response_node_def)
qed

text \<open>
  Every other case is an error: a lost document, a certificate that does not bind, a question the
  element does not authenticate, and a held criterion that is written as a number and is none.
\<close>

lemma inventory_unread:
  assumes "clean_requester r" and "length (details_body r) \<le> maxRequestBytes"
    and "length (marshalResponse quote [answer_to feed caller s (details_message r)]) \<le> maxRequestBytes"
    and "\<not> (fate = Delivered \<and> trusted ne r \<and> authenticate (details_message r) (Some caller) s = None \<and>
      (\<forall>t \<in> set (Snapshot (store s)). list_all numeric_target (Targets t)))"
  shows "\<exists>e. Requester_ReportedTasks (reply fate lost quote feed caller ne s) r = Inl e"
proof (cases "fate = Delivered")
  case True
  let ?m = "details_message r" and ?h = "requester_header r ''GetAllDetailsRequest''"
  let ?rm = "answer_to feed caller s ?m"
  note one = served_one [OF Unmarshal_details_body assms(2), of quote feed caller ne s]
  have "\<exists>e. readResponse r ?h (snd (served quote feed caller ne s (details_body r))) = Inl e \<or>
      (\<exists>m. readResponse r ?h (snd (served quote feed caller ne s (details_body r))) = Inr m \<and> anErrorInformation m \<noteq> None)"
  proof (cases "trusted ne r")
    case t: True
    show ?thesis
    proof (cases "authenticate ?m (Some caller) s")
      case None
      then obtain t where "t \<in> set (Snapshot (store s))" "\<not> list_all numeric_target (Targets t)" using assms(4) True t by blast
      then have "Unmarshal_response (marshalResponse quote [?rm]) = None"
        using Unmarshal_unreadable [of ?rm t] details_answer(1,4) [OF None, of feed] by simp
      then have "readResponse r ?h (snd (served quote feed caller ne s (details_body r))) \<noteq> Inr m" for m
        using assms(3) by (auto simp: one readResponse_def readBoundResponse_iff)
      then show ?thesis by (metis sumE)
    next
      case (Some f)
      then have rm: "rsErrorInformation ?rm = Some (X1Error (fst f) (errorf0 (snd f)))" "rsType ?rm = errorResponse"
        "rsTasks ?rm = []" "rsTaskFaults ?rm = []" and f: "fst f < 2 ^ 63"
        by (auto simp: answer_to_def applyAuthenticated_def refuse_unauthenticated_def empty_response_def authenticate_def x1_codes
            split: option.splits if_splits)
      then have w: "answer_within quote ?rm" using assms(3) by (simp add: answer_within_def answer_fits_def)
      have "anErrorInformation (answer_of quote ?rm) \<noteq> None" by (simp add: answer_of_def rm)
      with read_answer [OF assms(1) details_type refl details_message_def refl w t] show ?thesis
        by (simp add: one)
    qed
  next
    case False
    have "hdNeID ?h = reqNeID r" by (simp add: requester_header_def)
    then show ?thesis using untrusted_unread [OF False] by (simp add: one)
  qed
  then show ?thesis
    unfolding True reply_Delivered
    by (auto simp: Requester_ReportedTasks_def over_def details_body_def Let_def split: option.splits)
qed (cases fate; simp add: Requester_ReportedTasks_def across_def Let_def)

text \<open>
  C11. The inventory a triggering function is given is what the element holds, or it is given none. The
  calls succeed exactly when both documents are delivered, over TLS the element's certificate binds the
  identifier it is addressed by, the element authenticates the question, and every criterion it holds
  that is written as a number is a number a reader accepts (\<open>numeric_target\<close>). They then give the
  identifiers of the held tasks, each once and in order, and each task with its own targets, its
  destinations and its delivery type, healthy exactly when the network function reports no fault for
  it; in every other case they give an error. The requester's identifiers are text that XML can carry,
  the documents are below the size at which reading stops, and the codes of task faults are within
  a Go \<open>int\<close>.
\<close>

theorem inventory_is_what_is_held:
  assumes "server_reachable ne0 opts timeout y" and "s = srv y" and "clean_requester r"
    and "length (details_body r) \<le> maxRequestBytes"
    and "length (marshalResponse quote [answer_to feed caller s (details_message r)]) \<le> maxRequestBytes"
    and "list_all (\<lambda>p. in_range (snd p)) (rsTaskFaults (answer_to feed caller s (details_message r)))"
    and "net = reply fate lost quote feed caller ne s"
  shows "if fate = Delivered \<and> trusted ne r \<and> authenticate (details_message r) (Some caller) s = None \<and>
      (\<forall>x u. Get x (store s) = Some u \<longrightarrow> list_all numeric_target (Targets u))
    then \<exists>xs ts. TaskXIDs net r = Inr xs \<and> Requester_ReportedTasks net r = Inr ts \<and>
      (\<forall>x. x \<in> set xs \<longleftrightarrow> Get x (store s) \<noteq> None) \<and> sorted xs \<and> distinct xs \<and>
      list_all2 (\<lambda>x t. \<exists>u. Get x (store s) = Some u \<and> tdXID (trTaskDetails t) = x \<and> ListOfDIDs (trTaskDetails t) = DIDs u \<and>
        tdDeliveryType (trTaskDetails t) = deliveryTypeOf (Products u) \<and> TargetIdentifiers (trTaskDetails t) = map target_view (Targets u) \<and>
        (Healthy (trTaskStatus t) \<longleftrightarrow> faults_for quote (fst (feed 0)) (Snapshot (store s)) u = [])) xs ts
    else (\<exists>e. TaskXIDs net r = Inl e) \<and> (\<exists>e. Requester_ReportedTasks net r = Inl e)"
proof -
  have ok: "tasking_ok s" using reachable_ok(1) [OF assms(1)] assms(2) by simp
  then have "set (Snapshot (store s)) = ran (\<lambda>x. Get x (store s))"
    using st.set_tasks by (simp add: tasking_ok_def st.lookup_view)
  then have n: "(\<forall>x u. Get x (store s) = Some u \<longrightarrow> list_all numeric_target (Targets u)) \<longleftrightarrow>
      (\<forall>t \<in> set (Snapshot (store s)). list_all numeric_target (Targets t))" by (auto simp: ran_def)
  show ?thesis
  proof (cases "fate = Delivered \<and> trusted ne r \<and> authenticate (details_message r) (Some caller) s = None \<and>
      (\<forall>t \<in> set (Snapshot (store s)). list_all numeric_target (Targets t))")
    case True
    then have "answer_within quote (answer_to feed caller s (details_message r))"
      using assms(5,6) details_answer(3,4) [where feed = feed] by (simp add: answer_within_def answer_fits_def list_all_iff)
    then show ?thesis
      using inventory_read [OF ok assms(3) _ assms(4)] True unfolding assms(7) n by (simp add: reply_Delivered)
  next
    case False
    then show ?thesis
      using inventory_unread [OF assms(3-5) False, of lost] unfolding assms(7) n by (auto simp: TaskXIDs_def)
  qed
qed

text \<open>An element that holds one task, \<open>ex_tasked\<close> among them.\<close>

definition ex_like :: "Server \<Rightarrow> InterceptTask \<Rightarrow> bool" where
  "ex_like s u \<longleftrightarrow> options s = options ex_server \<and> clock s = 0 \<and> destinations s = [] \<and> configured s = [] \<and>
     Snapshot (store s) = [u]"

lemma Snapshot_one: "XID u \<noteq> '''' \<Longrightarrow> Snapshot (fst (Activate u New)) = [u\<lparr>State := TaskActive\<rparr>]"
proof -
  let ?st = "fst (Activate u New)"
  assume u: "XID u \<noteq> ''''"
  note inv = st.invar_activate [OF st.invar_empty, of u]
  have s: "set (Snapshot ?st) = {u\<lparr>State := TaskActive\<rparr>}"
    using u by (simp add: st.set_tasks [OF inv] st.view_activate st.view_empty)
  moreover have "distinct (Snapshot ?st)" using st.order_tasks [OF inv] by (simp add: distinct_map)
  ultimately have "length (Snapshot ?st) = 1" using distinct_card [of "Snapshot ?st"] by simp
  then obtain t where "Snapshot ?st = [t]" by (auto simp: length_Suc_conv)
  with s show ?thesis by simp
qed

lemma ex_tasked_like: "ex_like ex_tasked ex_held"
proof -
  have "Snapshot (store ex_tasked) = [ex_held]"
    unfolding ex_tasked_state(1) by (subst Snapshot_one) (simp_all add: ex_held_def)
  then show ?thesis by (simp add: ex_like_def ex_tasked_frame ex_tasked_state) (simp add: ex_server_def NewServer_def)
qed

lemma ex_details_answer:
  assumes "ex_like s u"
  shows "authenticate (details_message ex_requester) (Some ex_caller) s = None"
    "answer_to ex_feed ex_caller s (details_message ex_requester) =
       (empty_response (response_header ex_uuid (details_message ex_requester) s))
         \<lparr>rsType := ''GetAllDetailsResponse'', rsTasks := [u], rsOK := ackOK\<rparr>"
proof -
  show a: "authenticate (details_message ex_requester) (Some ex_caller) s = None"
    using clean_requesterD [OF ex_exchange(1)] ex_exchange(4) assms
    by (simp add: authenticate_def details_message_def with_header_def requester_header_def ex_exchange ex_like_def)
  show "answer_to ex_feed ex_caller s (details_message ex_requester) =
     (empty_response (response_header ex_uuid (details_message ex_requester) s))
       \<lparr>rsType := ''GetAllDetailsResponse'', rsTasks := [u], rsOK := ackOK\<rparr>"
    using assms unfolding details_answer(5) [OF a]
    by (simp add: ex_feed_def ex_observations_def ex_like_def heldDestinations_def heldDestinationsLocked_def annotateReachability_def
        unresolvedFaults_def faultsForTasks_def empty_response_def)
qed

lemma ex_details_length:
  assumes "ex_like s u" "length (taskResponseDetails 6 u []) \<le> 2000"
  shows "length (marshalResponse quote [answer_to ex_feed ex_caller s (details_message ex_requester)]) \<le> maxRequestBytes"
proof -
  let ?h = "response_header ex_uuid (details_message ex_requester) s"
  have "versionPattern supportedVersion" by code_simp
  then have h: "?h = \<lparr>rsAdmfIdentifier = ''a1'', rsNeIdentifier = ''ne1'', rsMessageTimestamp = 0, rsVersion = supportedVersion, rsTransactionID = ex_uuid\<rparr>"
    using clean_requesterD [OF ex_exchange(1)] assms(1)
    by (simp add: details_message_def response_header_def with_header_def requester_header_def ex_exchange echoVersion_def
        echoTransactionID_def ex_uuid_ok ex_like_def) (simp add: ex_requester_def NewRequester_def ex_uuid_ok)
  show ?thesis
    unfolding ex_details_answer(2) [OF assms(1)] h
    using header_length [of "''a1''" "''ne1''" "x1Timestamp 0" "EscapeText supportedVersion" ex_uuid] length_escape [of supportedVersion]
      assms(2)
    by (simp add: marshalResponse_def response_item_def responseBody_def errorResponse_def allDetailsBody_def neStatusDetails_def listOfFaults_def
        task_items_def destination_items_def faults_of_task_def empty_response_def maxRequestBytes_def ex_stamp ex_uuid_length
        layout_defs supportedVersion_def del: header_lines_def)
qed

lemma ex_task_length:
  "length (taskResponseDetails 6 ex_held []) \<le> 2000"
  "length (taskResponseDetails 6 (ex_held\<lparr>Targets := [\<lparr>tiType = TargetFTEID, tiValue = ''abc''\<rparr>]\<rparr>) []) \<le> 2000"
  using length_escape [of ex_uuid] length_escape [of "''001''"] length_escape [of "''abc''"]
  by (simp_all add: taskResponseDetails_def taskStatus_def listOfFaults_def ex_held_def targetXML_def XMLElement_def deliveryTypeOf_def
      deliveryX2Only_def extensionTargetArm_def ext_el_def Cut_def ExtensionOwner3GPP_def layout_defs ex_uuid_length
      del: add_2_eq_Suc add_2_eq_Suc')

lemma ex_details_body: "length (details_body ex_requester) \<le> maxRequestBytes"
  using request_length [of "[]" "''GetAllDetailsRequest''" "request_lines (requester_header ex_requester ''GetAllDetailsRequest'')" "''''"]
    ex_request_lines [of "''GetAllDetailsRequest''"]
  by (simp add: details_body_def detailsTemplate_def maxRequestBytes_def)

theorem inventory_is_what_is_held_witness:
  "TaskXIDs (over id ex_feed ex_caller ex_ne ex_tasked) ex_requester = Inr [ex_uuid]"
proof -
  have u: "Get x (store ex_tasked) = Some u \<longleftrightarrow> x = ex_uuid \<and> u = ex_held" for x u
    unfolding ex_tasked_state(1) st.lookup_view st.view_activate st.view_empty by (auto simp: ex_held_def)
  have f: "list_all (\<lambda>p. in_range (snd p)) (rsTaskFaults (answer_to ex_feed ex_caller ex_tasked (details_message ex_requester)))"
    by (simp add: ex_details_answer(2) [OF ex_tasked_like] empty_response_def)
  have n: "list_all numeric_target (Targets ex_held)" by (simp add: ex_held_def numeric_target_def)
  obtain xs where xs: "TaskXIDs (over id ex_feed ex_caller ex_ne ex_tasked) ex_requester = Inr xs"
    "\<And>x. x \<in> set xs \<longleftrightarrow> Get x (store ex_tasked) \<noteq> None" "distinct xs"
    using inventory_is_what_is_held [where fate = Delivered and ne = ex_ne and quote = id and net = "over id ex_feed ex_caller ex_ne ex_tasked",
        OF ex_reachable [of 1] _ ex_exchange(1) ex_details_body ex_details_length [OF ex_tasked_like ex_task_length(1)] f]
      ex_details_answer(1) [OF ex_tasked_like] ex_trusted n by (auto simp: reply_Delivered u)
  have "Get x (store ex_tasked) \<noteq> None \<longleftrightarrow> x = ex_uuid" for x
    unfolding ex_tasked_state(1) st.lookup_view st.view_activate st.view_empty by (simp add: ex_held_def)
  then have "set xs = {ex_uuid}" using xs(2) by auto
  with xs(3) have "xs = [ex_uuid]" by (cases xs; cases "tl xs") (auto simp: insert_eq_iff)
  with xs(1) show ?thesis by simp
qed

subsection \<open>Targets echoed\<close>

text \<open>
  The identifiers that come back as they are: those a conformant request gives. Numbers are decimal
  without leading zeros and in range, the address of a tunnel endpoint is written the way the schema
  wants it, and what the mapping lower-cases is in lower case.
\<close>

definition echo_stable :: "(string \<Rightarrow> string) \<Rightarrow> TargetIdentifier \<Rightarrow> bool" where
  "echo_stable uni t \<longleftrightarrow> tiValue t \<noteq> '''' \<and> clean (tiValue t) \<and>
     (case tiType t of
        TargetFSEID \<Rightarrow> (\<exists>n < 2 ^ 64. 0 < n \<and> tiValue t = FormatUint n)
      | TargetFTEID \<Rightarrow> (\<exists>n < 2 ^ 32. tiValue t = FormatUint n \<or>
          (\<exists>a. tiValue t = FormatUint n @ ''@'' @ a \<and> a \<noteq> '''' \<and> clean a \<and> snd (addressArm a) = a))
      | TargetPDRID \<Rightarrow> (\<exists>n < 2 ^ 32. tiValue t = FormatUint n)
      | TargetQERID \<Rightarrow> (\<exists>n < 2 ^ 32. tiValue t = FormatUint n)
      | TargetNetworkInstance \<Rightarrow> ToLower uni (tiValue t) = tiValue t
      | TargetGTPTunnelDirection \<Rightarrow> tiValue t \<in> {GTPDirectionOutbound, GTPDirectionInbound}
      | TargetPDR \<Rightarrow> ToLower uni (tiValue t) = tiValue t
      | _ \<Rightarrow> True)"

lemma Cut_absent: "c \<notin> set xs \<Longrightarrow> Cut xs c = (xs, '''', False)"
proof -
  assume "c \<notin> set xs"
  then have d: "dropWhile (\<lambda>d. d \<noteq> c) xs = []" by (auto simp: dropWhile_eq_Nil_conv)
  show ?thesis by (simp only: Cut_def d list.case)
qed

lemma Cut_present: "c \<notin> set xs \<Longrightarrow> Cut (xs @ c # ys) c = (xs, ys, True)"
  by (induction xs) (auto simp: Cut_def split: list.splits)

lemma Cut_digits:
  "Cut (FormatUint n) (CHR ''@'') = (FormatUint n, '''', False)"
  "Cut (FormatUint n @ ''@'' @ a) (CHR ''@'') = (FormatUint n, a, True)"
proof -
  have "CHR ''@'' \<notin> set (FormatUint n)" using FormatUint_digits [of n] by (auto simp: list_all_iff is_digit_def code_of_def)
  then show "Cut (FormatUint n) (CHR ''@'') = (FormatUint n, '''', False)"
    "Cut (FormatUint n @ ''@'' @ a) (CHR ''@'') = (FormatUint n, a, True)" by (simp_all add: Cut_absent Cut_present)
qed

lemma carried_FormatUint [simp]: "carried (FormatUint n) = FormatUint n"
  using printable_FormatUint by (rule carried_printable)

lemma echo_stable_numeric: "echo_stable uni t \<Longrightarrow> numeric_target t"
  by (cases "tiType t") (auto simp: echo_stable_def numeric_target_def Cut_digits [simplified] uint_text_FormatUint)

lemma unat_FormatUint:
  "n < 2 ^ 64 \<Longrightarrow> unat (of_nat n :: 64 word) = n" "m < 2 ^ 32 \<Longrightarrow> unat (of_nat m :: 32 word) = m"
  by (simp_all add: unat_of_nat)

lemma echo_criterion:
  assumes "echo_stable uni t" "XMLElement (tiType t) = None"
  shows "mapUPFLIT3Identifier uni (criterion_view t) = Inr t"
proof (cases "tiType t")
  case TargetFTEID
  then obtain n a where n: "n < 2 ^ 32" and v: "tiValue t = FormatUint n \<or>
      (tiValue t = FormatUint n @ ''@'' @ a \<and> a \<noteq> '''' \<and> clean a \<and> snd (addressArm a) = a)"
    using assms(1) by (auto simp: echo_stable_def)
  obtain e where arm: "e = fst (addressArm a)" "e = ''IPv4Address'' \<or> e = ''IPv6Address''" using addressArm_name [of a] by auto
  have t: "t = \<lparr>tiType = TargetFTEID, tiValue = tiValue t\<rparr>" using TargetFTEID by (cases t) simp
  note defs = TargetFTEID criterion_view_def no_criterion_def mapUPFLIT3Identifier_def uint_text_FormatUint [OF n] unat_FormatUint(2) [OF n]
  from v show ?thesis
  proof
    assume "tiValue t = FormatUint n"
    then show ?thesis by (subst (2) t) (simp add: defs Cut_digits split_beta)
  next
    assume w: "tiValue t = FormatUint n @ ''@'' @ a \<and> a \<noteq> '''' \<and> clean a \<and> snd (addressArm a) = a"
    then show ?thesis using arm
      by (subst (2) t) (elim disjE; simp add: defs Cut_digits [simplified] split_beta carried_clean)
  qed
next
  case TargetFSEID
  with assms show ?thesis
    by (cases t) (auto simp: echo_stable_def criterion_view_def no_criterion_def mapUPFLIT3Identifier_def uint_text_FormatUint
        unat_FormatUint word_unat_eq_iff)
next
  case TargetPDRID
  with assms show ?thesis
    by (cases t) (auto simp: echo_stable_def criterion_view_def no_criterion_def mapUPFLIT3Identifier_def uint_text_FormatUint unat_FormatUint)
next
  case TargetQERID
  with assms show ?thesis
    by (cases t) (auto simp: echo_stable_def criterion_view_def no_criterion_def mapUPFLIT3Identifier_def uint_text_FormatUint unat_FormatUint)
next
  case TargetGTPTunnelDirection
  with assms show ?thesis
    by (cases t) (auto simp: echo_stable_def criterion_view_def no_criterion_def mapUPFLIT3Identifier_def carried_clean)
qed (use assms in \<open>cases t; simp add: echo_stable_def XMLElement_def criterion_view_def no_criterion_def mapUPFLIT3Identifier_def carried_clean\<close>)+

text \<open>
  C17. A target of a details answer reads back as the target that is held: the text of the answer is
  taken apart by a reader into the identifier the schema declares, and mapping that identifier gives
  the target again, the subscriber's and the packet-detection criteria alike. This is so for the
  values conformant requests give.
\<close>

theorem echoed_target_round_trip:
  assumes "echo_stable uni t"
  shows "\<exists>ks v. writes response_env (targetXML t) '''' ks \<and> dec_TargetIdentifier ks = Some v \<and>
     populatedArms v = 1 \<and> mapTarget uni v = Inr [t]"
proof -
  have n: "carried (tiValue t) = tiValue t" "tiValue t \<noteq> ''''" using assms by (auto simp: echo_stable_def carried_clean)
  have "populatedArms (target_view t) = 1 \<and> mapTarget uni (target_view t) = Inr [t]"
  proof (cases "XMLElement (tiType t)")
    case None
    then have "tiType t \<notin> {TargetSUPI, TargetPEI, TargetGPSI, TargetUEIPv4, TargetUEIPv6, TargetTCPPort, TargetUDPPort}"
      by (auto simp: XMLElement_def)
    with None echo_criterion [OF assms None] show ?thesis
      by (simp add: target_view_def populatedArms_def mapTarget_def mapExtensionTarget_def)
  next
    case (Some e)
    then have "XMLElement (tiType t) \<noteq> None" by simp
    then show ?thesis using n
      by (cases t; cases "tiType t") (simp_all add: XMLElement_def target_view_def populatedArms_def mapTarget_def one_def)
  qed
  then show ?thesis using writes_targetXML dec_target [OF echo_stable_numeric [OF assms]] by blast
qed

theorem echoed_target_round_trip_witness:
  "\<exists>ks v. writes response_env (targetXML \<lparr>tiType = TargetFTEID, tiValue = FormatUint 7\<rparr>) '''' ks \<and> dec_TargetIdentifier ks = Some v \<and>
     mapTarget id v = Inr [\<lparr>tiType = TargetFTEID, tiValue = FormatUint 7\<rparr>]"
proof -
  have "FormatUint 7 \<noteq> ''''" "clean (FormatUint 7)"
    using FormatUint_digits [of 7] printable_FormatUint [of 7] by (simp_all add: printable_def clean_ascii list_all_iff)
  then have "echo_stable id \<lparr>tiType = TargetFTEID, tiValue = FormatUint 7\<rparr>"
    by (auto simp: echo_stable_def intro!: exI [of _ 7])
  from echoed_target_round_trip [OF this] show ?thesis by blast
qed

definition tunnel_target :: "string \<Rightarrow> X1TargetIdentifier" where
  "tunnel_target v = X1TargetIdentifier '''' '''' '''' '''' '''' '''' '''' v '''' '''' '''' '''' None"

text \<open>One target replaced by another that is mapped.\<close>

lemma map_targets_acc:
  "map_targets uni tis acc = (case map_targets uni tis [] of Inl e \<Rightarrow> Inl e | Inr ts \<Rightarrow> Inr (acc @ ts))"
proof (induction tis arbitrary: acc)
  case (Cons ti tis)
  show ?case
  proof (cases "mapTarget uni ti")
    case (Inr ts)
    then show ?thesis using Cons [of "acc @ ts"] Cons [of ts] by (simp split: sum.split)
  qed simp
qed simp

lemma map_targets_replace:
  "map_targets uni (front @ a # rear) acc = Inr ts \<Longrightarrow> mapTarget uni b = Inr bs \<Longrightarrow>
   \<exists>ts'. map_targets uni (front @ b # rear) acc = Inr ts' \<and> set bs \<subseteq> set ts'"
proof (induction front arbitrary: acc)
  case Nil
  then obtain as where "mapTarget uni a = Inr as" "map_targets uni rear (acc @ as) = Inr ts" by (auto split: sum.splits)
  then obtain us where "map_targets uni rear [] = Inr us"
    using map_targets_acc [of uni rear "acc @ as"] by (cases "map_targets uni rear []") auto
  then show ?case using Nil.prems(2) map_targets_acc [of uni rear "acc @ bs"] by auto
qed (auto split: sum.splits)

abbreviation tunnelled :: "TaskDetails \<Rightarrow> X1TargetIdentifier list \<Rightarrow> string \<Rightarrow> X1TargetIdentifier list \<Rightarrow> TaskDetails" where
  "tunnelled d front v rear \<equiv> d\<lparr>TargetIdentifiers := front @ tunnel_target v # rear\<rparr>"

lemma tunnel_mapped:
  "v \<noteq> '''' \<Longrightarrow> mapTarget uni (tunnel_target v) = Inr [\<lparr>tiType = TargetFTEID, tiValue = v\<rparr>]"
  by (simp add: mapTarget_def tunnel_target_def one_def)

lemma tunnel_accepted:
  assumes "applyTaskTransition m False s = (s0, None)" and "rqTaskDetails m = Some (tunnelled d front w rear)"
    and "\<forall>t. canApply (options s) t = None" and "v \<noteq> ''''"
    and "m' = m\<lparr>rqTaskDetails := Some (tunnelled d front v rear)\<rparr>"
  shows "\<exists>s' u. applyTaskTransition m' False s = (s', None) \<and> Get (tdXID d) (store s') = Some u \<and>
    \<lparr>tiType = TargetFTEID, tiValue = v\<rparr> \<in> set (Targets u)"
proof -
  let ?d = "tunnelled d front v rear"
  from applyTaskTransition_shape [OF assms(1)] assms(2) obtain t where
    t: "malformedTaskIdentifiers (tunnelled d front w rear) = None"
      "unhonourableTaskFields (tunnelled d front w rear) (honoursCorrelation (options s)) = None"
      "taskFromDetails (tunnelled d front w rear) s = Inr t" by auto
  have mal: "malformedTaskIdentifiers ?d = None"
    using t(1) assms(4)
    by (auto simp: malformedTaskIdentifiers_iff malformed_targets_iff tunnel_target_def malformedTargetValue_def populatedArms_def)
  have "unhonourableTaskFields (d\<lparr>TargetIdentifiers := us\<rparr>) h = unhonourableTaskFields d h" for us h
    by (simp add: unhonourableTaskFields_def)
  with t(2) have unh: "unhonourableTaskFields ?d (honoursCorrelation (options s)) = None" by simp
  obtain ts where "map_targets (lowerText (options s)) (front @ tunnel_target w # rear) [] = Inr ts"
    using t(3) by (auto simp: taskFromDetails_def split: if_splits sum.splits)
  from map_targets_replace [OF this tunnel_mapped [OF assms(4)]] obtain ts' where
    ts: "map_targets (lowerText (options s)) (front @ tunnel_target v # rear) [] = Inr ts'"
      "\<lparr>tiType = TargetFTEID, tiValue = v\<rparr> \<in> set ts'" by auto
  have u: "taskFromDetails ?d s = Inr (t\<lparr>Targets := ts'\<rparr>)"
    using t(3) ts(1) by (auto simp: taskFromDetails_def recordScope_def Let_def case_prod_beta split: if_splits sum.splits option.splits)
  let ?u = "t\<lparr>Targets := ts'\<rparr>"
  have x: "XID ?u = tdXID d" "XID ?u \<noteq> ''''" using taskFromDetails_shape(1,2) [OF u] by simp_all
  have "snd (Activate ?u (store s))" using x(2) st.ok_activate by blast
  moreover note st.lookup_activate [OF x(2), of "store s"]
  ultimately have "activate m' s = (s\<lparr>store := fst (Activate ?u (store s))\<rparr>, Inr (?u\<lparr>State := TaskActive\<rparr>))"
    using assms(3) u by (simp add: activate_def assms(5) case_prod_beta Let_def)
  then have "applyTaskTransition m' False s = (notifyChanged (Get (tdXID d) (store s)) (?u\<lparr>State := TaskActive\<rparr>)
      (s\<lparr>store := fst (Activate ?u (store s))\<rparr>), None)"
    using mal unh by (simp add: applyTaskTransition_def assms(5) Let_def)
  moreover have "store (notifyChanged p q z) = store z" for p q z by (simp add: notifyChanged_def)
  ultimately show ?thesis using st.lookup_activate [OF x(2), of "store s"] x(1) ts(2) by auto
qed

text \<open>
  C40. The element accepts what it cannot echo. A \<open>gtpuTunnelId\<close> is an integer in the schema; let \<open>v\<close> be
  a text that is not empty, holds no \<open>@\<close> and is not read as a 32-bit decimal number. On an element of
  any reachable state whose point of interception refuses nothing of its own (\<open>CanApply\<close>): when an
  activation with some tunnel among its targets is acknowledged, the same activation with \<open>v\<close> for that
  tunnel is acknowledged as well, and the task is held with \<open>v\<close> for its criterion. A triggering function
  that then asks this element for its inventory gets an error, whatever the network does and whatever
  else the element holds (the requester's identifiers are text that XML can carry, and the documents
  of the question and the answer are below the size at which reading stops).
\<close>

theorem unvalidated_tunnel_hides_inventory:
  assumes "server_reachable ne0 opts timeout y" and "s = srv y" and "\<forall>t. canApply (options s) t = None"
    and "v \<noteq> ''''" and "CHR ''@'' \<notin> set v" and "uint_text 32 (carried v) = None"
    and "localType (rqType m) = ''ActivateTaskRequest''" and "rqTaskDetails m = Some (tunnelled d front w rear)"
    and "rsErrorInformation (snd (apply_message ob fresh m s)) = None"
    and "apply_message ob fresh (m\<lparr>rqTaskDetails := Some (tunnelled d front v rear)\<rparr>) s = (s', rm)"
  shows "rsErrorInformation rm = None \<and> rsOK rm = ackOK \<and>
    (\<exists>u. Get (tdXID d) (store s') = Some u \<and> \<lparr>tiType = TargetFTEID, tiValue = v\<rparr> \<in> set (Targets u)) \<and>
    (\<forall>fate lost quote feed caller ne r. clean_requester r \<longrightarrow> length (details_body r) \<le> maxRequestBytes \<longrightarrow>
       length (marshalResponse quote [answer_to feed caller s' (details_message r)]) \<le> maxRequestBytes \<longrightarrow>
       (\<exists>e. TaskXIDs (reply fate lost quote feed caller ne s') r = Inl e))"
proof -
  let ?m' = "m\<lparr>rqTaskDetails := Some (tunnelled d front v rear)\<rparr>"
  have req: "apply_request ob n rm s = (let (s1, err) = applyTaskTransition n False s
      in (s1, err, rm\<lparr>rsType := ReplaceFirst ''ActivateTaskRequest'' ''Request'' ''Response''\<rparr>))"
    if "localType (rqType n) = ''ActivateTaskRequest''" for n rm
    using that by (simp add: apply_request_def kinds Let_def)
  obtain s0 err where a: "applyTaskTransition m False s = (s0, err)" by fastforce
  have "err = None" using assms(9) a
    by (cases err) (auto simp: apply_message_def req [OF assms(7)] empty_response_def split: x1_error.splits)
  from tunnel_accepted [OF a [unfolded this] assms(8,3,4) refl] obtain s1 u where
    acc: "applyTaskTransition ?m' False s = (s1, None)" and u: "Get (tdXID d) (store s1) = Some u"
      "\<lparr>tiType = TargetFTEID, tiValue = v\<rparr> \<in> set (Targets u)" by blast
  have r: "s' = s1" "rsErrorInformation rm = None" "rsOK rm = ackOK"
    using assms(10) acc req [of ?m'] assms(7) by (auto simp: apply_message_def empty_response_def)
  have "tasking_ok s" using reachable_ok(1) [OF assms(1)] assms(2) by simp
  then have "tasking_ok (fst (apply_message ob fresh ?m' s))" by (rule tk.on_apply)
  then have "store_inv (store s')" using assms(10) by (simp add: tasking_ok_def)
  then have m: "u \<in> set (Snapshot (store s'))" using u(1) r(1) st.set_tasks by (fastforce simp: ran_def st.lookup_view)
  have "\<not> numeric_target \<lparr>tiType = TargetFTEID, tiValue = v\<rparr>" using assms(5,6) by (simp add: numeric_target_def Cut_absent)
  then have "\<not> list_all numeric_target (Targets u)" using u(2) by (auto simp: list_all_iff)
  with m have "\<not> (\<forall>t \<in> set (Snapshot (store s')). list_all numeric_target (Targets t))" by blast
  then have "\<exists>e. TaskXIDs (reply fate lost quote feed caller ne s') r = Inl e"
    if "clean_requester r" "length (details_body r) \<le> maxRequestBytes"
      "length (marshalResponse quote [answer_to feed caller s' (details_message r)]) \<le> maxRequestBytes"
    for fate lost quote feed caller ne r
    using inventory_unread [OF that, of fate ne lost] by (auto simp: TaskXIDs_def)
  then show ?thesis using r u by blast
qed

definition ex_tunnelled :: "string \<Rightarrow> X1RequestMessage" where
  "ex_tunnelled v = (ex_request ''ActivateTaskRequest'')\<lparr>rqTaskDetails := Some (tunnelled ex_details [] v [])\<rparr>"

abbreviation ex_tunnel_held :: "string \<Rightarrow> InterceptTask" where
  "ex_tunnel_held v \<equiv> ex_held\<lparr>Targets := [\<lparr>tiType = TargetFTEID, tiValue = v\<rparr>]\<rparr>"

lemma ex_tunnel_applied:
  assumes "v \<noteq> ''''"
  shows "\<exists>rm. apply_message ex_observations ex_uuid (ex_tunnelled v) ex_server =
      (emit (TaskChange None (Some (ex_tunnel_held v))) (ex_server\<lparr>store := fst (Activate ((ex_tunnel_held v)\<lparr>State := TaskUnset\<rparr>) New)\<rparr>), rm) \<and>
    rsErrorInformation rm = None"
proof -
  let ?m = "ex_tunnelled v" and ?d = "ex_details\<lparr>TargetIdentifiers := [tunnel_target v]\<rparr>" and ?u = "(ex_tunnel_held v)\<lparr>State := TaskUnset\<rparr>"
  have "map_of request_kinds (localType ''ActivateTaskRequest'') = Some RqActivateTask" by code_simp
  moreover have "rqType ?m = rqType (ex_request ''ActivateTaskRequest'')" by (simp add: ex_tunnelled_def)
  ultimately have k: "map_of request_kinds (localType (rqType ?m)) = Some RqActivateTask" by (simp add: ex_request_def)
  have ok: "malformedTaskIdentifiers ?d = None" "unhonourableTaskFields ?d b = None" for b
    by (simp_all add: malformedTaskIdentifiers_def validIdentifier_def ex_uuid_ok ex_details_def malformedTargetValue_def tunnel_target_def
        populatedArms_def unhonourableTaskFields_def)
  have t: "taskFromDetails ?d ex_server = Inr ?u"
    using assms by (simp add: taskFromDetails_def ex_details_def ex_held_def tunnel_target_def mapTarget_def one_def deliveryProducts_def
        x1_literals resolveDIDs_def recordScope_def RecordScopeStandard_def)
  have "XID ?u \<noteq> ''''" by (simp add: ex_held_def)
  note g = st.lookup_activate [OF this]
  have d: "rqTaskDetails ?m = Some ?d" by (simp add: ex_tunnelled_def)
  have "applyTaskTransition ?m False ex_server =
      (emit (TaskChange None (Some (ex_tunnel_held v))) (ex_server\<lparr>store := fst (Activate ?u New)\<rparr>), None)"
    by (simp add: applyTaskTransition_def d ok activate_def t case_prod_beta g st.ok_activate notifyChanged_def Let_def st.views)
      (simp add: ex_held_def)
  then show ?thesis
    by (simp add: apply_message_def apply_request_def k Let_def empty_response_def)
qed

theorem unvalidated_tunnel_hides_inventory_witness:
  "\<exists>s e. Get ex_uuid (store s) \<noteq> None \<and> TaskXIDs (over id ex_feed ex_caller ex_ne s) ex_requester = Inl e"
proof -
  have "carried ''abc'' = ''abc''" by (rule carried_clean) simp
  moreover have "uint_text 32 ''abc'' = None" by code_simp
  ultimately have v: "uint_text 32 (carried ''abc'') = None" by simp
  have "localType ''ActivateTaskRequest'' = ''ActivateTaskRequest''" by code_simp
  moreover have "rqType (ex_tunnelled ''7'') = rqType (ex_request ''ActivateTaskRequest'')" by (simp add: ex_tunnelled_def)
  ultimately have lt: "localType (rqType (ex_tunnelled ''7'')) = ''ActivateTaskRequest''" by (simp add: ex_request_def)
  let ?u = "ex_tunnel_held ''abc''"
  let ?s = "emit (TaskChange None (Some ?u)) (ex_server\<lparr>store := fst (Activate (?u\<lparr>State := TaskUnset\<rparr>) New)\<rparr>)"
  obtain rm where "apply_message ex_observations ex_uuid (ex_tunnelled ''abc'') ex_server = (?s, rm)"
    using ex_tunnel_applied [of "''abc''"] by auto
  then have a: "apply_message ex_observations ex_uuid
      ((ex_tunnelled ''7'')\<lparr>rqTaskDetails := Some (tunnelled ex_details [] ''abc'' [])\<rparr>) ex_server = (?s, rm)"
    by (simp add: ex_tunnelled_def)
  have d: "rqTaskDetails (ex_tunnelled ''7'') = Some (tunnelled ex_details [] ''7'' [])" by (simp add: ex_tunnelled_def)
  have ack: "rsErrorInformation (snd (apply_message ex_observations ex_uuid (ex_tunnelled ''7'') ex_server)) = None"
    using ex_tunnel_applied [of "''7''"] by auto
  have r: "server_reachable ''ne1'' [] 1 (system_init ex_server)"
    using server_reachable_init [of "[]" "''ne1''" 1 id 0] by (simp add: ex_server_def)
  have s: "ex_server = srv (system_init ex_server)" by (simp add: system_init_def)
  have na: "\<forall>t. canApply (options ex_server) t = None" "''abc'' \<noteq> ''''" "CHR ''@'' \<notin> set ''abc''" by simp_all
  have "XID (?u\<lparr>State := TaskUnset\<rparr>) \<noteq> ''''" "?u\<lparr>State := TaskUnset, State := TaskActive\<rparr> = ?u" by (simp_all add: ex_held_def)
  then have like: "ex_like ?s ?u" using Snapshot_one [of "?u\<lparr>State := TaskUnset\<rparr>"]
    by (simp add: ex_like_def emit_def) (simp add: ex_server_def NewServer_def)
  note h = unvalidated_tunnel_hides_inventory [OF r s na v lt d ack a]
  have "\<exists>e. TaskXIDs (reply Delivered lost id ex_feed ex_caller ex_ne ?s) ex_requester = Inl e" for lost
    using h ex_exchange(1) ex_details_body ex_details_length [OF like ex_task_length(2)] by blast
  moreover have "Get ex_uuid (store ?s) \<noteq> None" using h by (auto simp: ex_details_def)
  ultimately show ?thesis unfolding reply_Delivered by blast
qed

subsection \<open>Destinations\<close>

definition destination_complete :: "Destination \<Rightarrow> bool" where
  "destination_complete d \<longleftrightarrow> dsDID d \<noteq> '''' \<and> dsAddress d \<noteq> '''' \<and> dsPort d \<noteq> 0 \<and> deliveryProducts (dsDeliveryType d) \<in> range Inr"

definition clean_destination :: "Destination \<Rightarrow> bool" where
  "clean_destination d \<longleftrightarrow> clean (dsDID d) \<and> clean (dsFriendlyName d) \<and> clean (dsDeliveryType d) \<and> clean (snd (addressArm (dsAddress d)))"

definition destination_message :: "Destination \<Rightarrow> Requester \<Rightarrow> X1RequestMessage" where
  "destination_message d r =
     with_header (requester_header r ''CreateDestinationRequest'') ''CreateDestinationRequest'' None ''''
       (Some (destination_details (dsDID d) (dsFriendlyName d) (dsDeliveryType d) (snd (addressArm (dsAddress d)))
          (fst (addressArm (dsAddress d))) (dsPort d)))"

definition destination_body :: "Destination \<Rightarrow> Requester \<Rightarrow> string" where
  "destination_body d r =
     destinationTemplate (requester_header r ''CreateDestinationRequest'') (dsDID d) (dsFriendlyName d) (dsDeliveryType d)
       (snd (addressArm (dsAddress d))) (fst (addressArm (dsAddress d))) (dsPort d)"

text \<open>The address an element dials for it.\<close>

definition dialled :: "Destination \<Rightarrow> string" where
  "dialled d =
     (let (element, address) = addressArm (dsAddress d);
          host = (if element = ''IPv4Address'' then address else ''['' @ address @ '']'')
      in host @ '':'' @ FormatUint (unat (dsPort d)))"

lemma Unmarshal_destination_body: "Unmarshal_request (destination_body d r) = Some [destination_message d r]"
  using Unmarshal_destination [OF addressArm_name] by (simp add: destination_body_def destination_message_def)

lemma destination_type: "''CreateDestinationRequest'' \<in> set trigger_requests" "''CreateDestinationRequest'' \<noteq> ''GetAllDetailsRequest''"
  by (simp_all add: trigger_requests_def)

lemma apply_destination:
  "apply_request ob (destination_message d r) rm s =
     (let (s', err) = createDestination (rqDestinationDetails (destination_message d r)) s
      in (s', err, rm\<lparr>rsType := ''CreateDestinationResponse''\<rparr>))"
proof -
  have "localType (rqType (destination_message d r)) = ''CreateDestinationRequest''"
    using type_facts(1) [OF destination_type(1)] by (simp add: destination_message_def with_header_def)
  then show ?thesis by (simp add: apply_request_def kinds)
qed

lemma dialled_details:
  assumes "clean_destination d" "destinationFrom (destination_details (dsDID d) (dsFriendlyName d) (dsDeliveryType d)
      (snd (addressArm (dsAddress d))) (fst (addressArm (dsAddress d))) (dsPort d)) = Inr dest"
  shows "dest = \<lparr>hdAddress = dialled d, hdDeliveryType = dsDeliveryType d, hdFriendlyName = dsFriendlyName d, hdConfigured = False\<rparr>"
proof -
  obtain e a where arm: "addressArm (dsAddress d) = (e, a)" by fastforce
  have "e = ''IPv4Address'' \<or> e = ''IPv6Address''" using addressArm_name [of "dsAddress d"] arm by simp
  moreover have "carried a = a" "carried (dsDeliveryType d) = dsDeliveryType d" "carried (dsFriendlyName d) = dsFriendlyName d"
    using assms(1) arm by (simp_all add: clean_destination_def carried_clean)
  ultimately show ?thesis
    using assms(2) arm
    by (auto simp: destinationFrom_def destination_details_def dialled_def Port_Value_def IPAddress_Valid_def IPAddress_Arms_def Let_def
        split: if_splits option.splits)
qed

text \<open>
  The effect of a creation: the identifier was not taken by a created destination before, resolves now
  to the address in the form the schema wants with the port and the delivery type asked for, every
  other identifier resolves as before and no task changed.
\<close>

definition created :: "Destination \<Rightarrow> Server \<Rightarrow> Server \<Rightarrow> bool" where
  "created d s s' \<longleftrightarrow> map_of (destinations s) (dsDID d) = None \<and>
     resolveLocked (dsDID d) s' = Some \<lparr>hdAddress = dialled d, hdDeliveryType = dsDeliveryType d, hdFriendlyName = dsFriendlyName d,
       hdConfigured = False\<rparr> \<and>
     (\<forall>did. did \<noteq> dsDID d \<longrightarrow> resolveLocked did s' = resolveLocked did s) \<and> store s' = store s \<and> events s' = events s"


definition ex_dest :: Destination where
  "ex_dest = \<lparr>dsDID = ex_uuid, dsFriendlyName = '''', dsDeliveryType = ''X3Only'', dsAddress = ''10.0.0.1'', dsPort = 8\<rparr>"

lemma ex_arm: "addressArm ''10.0.0.1'' = (''IPv4Address'', ''10.0.0.1'')"
  by code_simp

lemma ex_created:
  "snd (createDestination (rqDestinationDetails (destination_message ex_dest ex_requester)) (recordActivity ex_server)) = None"
proof -
  have p: "ParseAddr ''10.0.0.1'' = Some (Addr4 [10, 0, 0, 1])" by code_simp
  have c: "carried ''10.0.0.1'' = ''10.0.0.1''" "carried ''X3Only'' = ''X3Only''" "carried ex_uuid = ex_uuid"
    using uuid_clean [OF ex_uuid_ok] by (simp_all add: carried_clean)
  have e: "destinations ex_server = []" "configured ex_server = []" by (simp_all add: ex_server_def NewServer_def)
  show ?thesis
    by (simp add: e destination_message_def with_header_def destination_details_def ex_dest_def ex_arm c createDestination_def
        validIdentifier_def ex_uuid_ok deliveryProducts_def x1_literals destinationFrom_def IPAddress_Valid_def IPAddress_Arms_def p
        Port_Valid_def Port_Arms_def Port_Value_def Let_def)
qed


subsection \<open>Reports\<close>

text \<open>
  C39. A report counts as delivered, and is recorded as reported, exactly for one answer that can be
  attributed to it: status 200, one message that repeats the transaction identifier, the identifiers
  and the version, from a peer whose certificate binds the responsible ADMF, and no error
  information in it. An acknowledgement is not asked for: an \<open>ErrorResponse\<close> with no error
  information counts as delivered too.
\<close>

theorem report_delivered_iff:
  "readReportResponse auth adm ne requestType txID resp = None \<longleftrightarrow>
     (\<exists>stream m. StatusCode resp = 200 \<and> respBody resp = Some stream \<and>
        Unmarshal_response (take maxRequestBytes stream) = Some [m] \<and>
        localType (anType m) \<in> {responseTypeFor requestType, errorResponse} \<and> anTransactionID m = txID \<and>
        anNeIdentifier m = ne \<and> anAdmfIdentifier m = adm \<and> anVersion m = supportedVersion \<and> anErrorInformation m = None \<and>
        (\<not> auth \<or> (\<exists>c cs. PeerCertificates resp = Some (c # cs) \<and> certBinds (Some c) roleADMF adm)))"
proof -
  let ?h = "\<lparr>hdOurID = adm, hdNeID = ne, hdTimestamp = 0, hdTxID = txID, hdType = requestType\<rparr>"
  have b: "bindsResponderCert resp auth roleADMF adm = None \<longleftrightarrow>
      (\<not> auth \<or> (\<exists>c cs. PeerCertificates resp = Some (c # cs) \<and> certBinds (Some c) roleADMF adm))"
    by (auto simp: bindsResponderCert_def split: option.splits list.splits)
  have r: "readReportResponse auth adm ne requestType txID resp = None \<longleftrightarrow>
      (\<exists>m. readBoundResponse ?h resp auth roleADMF adm = Inr m \<and> anErrorInformation m = None)"
    by (auto simp: readReportResponse_def Let_def split: sum.splits option.splits)
  show ?thesis unfolding r readBoundResponse_iff b attributed_def by auto
qed

definition ex_report_answer :: X1ResponseMessage where
  "ex_report_answer =
     (empty_response \<lparr>rsAdmfIdentifier = ''a1'', rsNeIdentifier = ''ne1'', rsMessageTimestamp = 0, rsVersion = supportedVersion,
        rsTransactionID = ''t''\<rparr>)\<lparr>rsType := ''ReportTaskIssueResponse'', rsOK := ackOK\<rparr>"

theorem report_delivered_iff_witness:
  "readReportResponse True ''a1'' ''ne1'' ''ReportTaskIssueRequest'' ''t''
     \<lparr>StatusCode = 200, respBody = Some (marshalResponse id [ex_report_answer]), PeerCertificates = Some [ex_caller]\<rparr> = None"
proof -
  let ?ty = "''ReportTaskIssueResponse''"
  have n: "?ty \<notin> set details_types" and t: "responseTypeFor ''ReportTaskIssueRequest'' = ?ty" by code_simp+
  have l: "localType (''ns1:'' @ ?ty) = ?ty" and e: "?ty \<noteq> errorResponse" by code_simp+
  have "length (marshalResponse id [ex_report_answer]) \<le> maxRequestBytes"
    unfolding ex_report_answer_def
    by (rule order_trans [OF acknowledged_length [OF n]]) (simp add: maxRequestBytes_def ex_stamp supportedVersion_def)
  moreover have "list_all value_char ?ty" by code_simp
  then have "Unmarshal_response (marshalResponse id [ex_report_answer]) = Some [answer_of id ex_report_answer]"
    using Unmarshal_answers [of "[ex_report_answer]" id] by (simp add: ex_report_answer_def acknowledged_fits)
  moreover have "certBinds (Some ex_caller) roleADMF ''a1''"
    using ex_exchange(4) by (simp add: ex_requester_def NewRequester_def)
  ultimately show ?thesis
    using e l t supportedVersion_text unfolding report_delivered_iff
    by (simp add: answer_of_def ex_report_answer_def empty_response_def carried_clean)
qed

end
