(* ===== verification/Mtls.thy ===== *)
theory Mtls
  imports Requester
begin

text \<open>
  The credentials of an element and the TLS configurations made from them (\<open>src/mtls/mtls.go\<close>), and
  the HTTP server of the X1 endpoint (\<open>src/x1/listener.go\<close>). What \<open>crypto/tls\<close>, \<open>crypto/x509\<close> and the
  file system do is an argument: reading a key pair, reading a file, and the certificates in a PEM text. A
  configuration has the fields the code sets and the two that switch verification off; a field that is
  not set has Go's zero value.
\<close>

subsection \<open>Credentials\<close>

record 'k Material =
  matCert :: 'k
  caPool :: "certificate list"

datatype ClientAuthType = NoClientCert | RequireAndVerifyClientCert

record 'k tls_config =
  Certificates :: "'k list"
  ClientCAs :: "certificate list option"
  RootCAs :: "certificate list option"
  ClientAuth :: ClientAuthType
  MinVersion :: nat
  InsecureSkipVerify :: bool

definition VersionTLS12 :: nat where "VersionTLS12 = 0x0303"

definition Load ::
  "(string \<Rightarrow> string \<Rightarrow> 'k option) \<Rightarrow> (string \<Rightarrow> string option) \<Rightarrow> (string \<Rightarrow> certificate list) \<Rightarrow>
   string \<Rightarrow> string \<Rightarrow> string \<Rightarrow> reason + 'k Material" where
  "Load keyPair readFile parsePEM certPath keyPath caCertPath =
     (case keyPair certPath keyPath of
        None \<Rightarrow> Inl (errorf0 ''mtls: load LI certificate/key: %w'')
      | Some c \<Rightarrow>
          (case readFile caCertPath of
             None \<Rightarrow> Inl (errorf0 ''mtls: read LI CA certificate: %w'')
           | Some pem \<Rightarrow>
               let pool = parsePEM pem in
               if pool = [] then Inl (Errorf ''mtls: LI CA file %q contains no valid certificate'' [S caCertPath])
               else Inr \<lparr>matCert = c, caPool = pool\<rparr>))"

definition ServerTLS :: "'k Material \<Rightarrow> 'k tls_config" where
  "ServerTLS m =
     \<lparr>Certificates = [matCert m], ClientCAs = Some (caPool m), RootCAs = None, ClientAuth = RequireAndVerifyClientCert,
      MinVersion = VersionTLS12, InsecureSkipVerify = False\<rparr>"

definition ClientTLS :: "'k Material \<Rightarrow> 'k tls_config" where
  "ClientTLS m =
     \<lparr>Certificates = [matCert m], ClientCAs = None, RootCAs = Some (caPool m), ClientAuth = NoClientCert,
      MinVersion = VersionTLS12, InsecureSkipVerify = False\<rparr>"

text \<open>All three files are needed, and nothing but the configured anchors is trusted.\<close>

lemma Load_iff:
  "Load keyPair readFile parsePEM certPath keyPath caCertPath = Inr m \<longleftrightarrow>
     keyPair certPath keyPath = Some (matCert m) \<and> caPool m \<noteq> [] \<and>
     (\<exists>pem. readFile caCertPath = Some pem \<and> parsePEM pem = caPool m)"
  by (cases m) (auto simp: Load_def Let_def split: option.splits)

subsection \<open>The listener\<close>

text \<open>Times are nanoseconds, as in the code.\<close>

definition x1ReadHeaderTimeout :: int where "x1ReadHeaderTimeout = 10000000000"
definition x1ReadTimeout :: int where "x1ReadTimeout = 30000000000"
definition x1WriteTimeout :: int where "x1WriteTimeout = 30000000000"
definition x1IdleTimeout :: int where "x1IdleTimeout = 60000000000"

record ('h, 'k) http_server =
  Handler :: 'h
  TLSConfig :: "'k tls_config option"
  ReadHeaderTimeout :: int
  ReadTimeout :: int
  WriteTimeout :: int
  IdleTimeout :: int
  logs_errors :: bool

definition NewListener :: "'h \<Rightarrow> 'k tls_config option \<Rightarrow> ('h, 'k) http_server" where
  "NewListener handler tlsConfig =
     \<lparr>Handler = handler, TLSConfig = tlsConfig, ReadHeaderTimeout = x1ReadHeaderTimeout, ReadTimeout = x1ReadTimeout,
      WriteTimeout = x1WriteTimeout, IdleTimeout = x1IdleTimeout, logs_errors = False\<rparr>"

text \<open>
  Behind the listener a request always comes with a verified peer certificate: the documented meaning
  of \<open>RequireAndVerifyClientCert\<close> is that a handshake succeeds only for a non-empty chain that verifies
  against the configured anchors. The refusal for a missing certificate is then never given.
\<close>

lemma served_peers_are_verified:
  assumes handshake: "\<And>cfg chain. ClientAuth cfg = RequireAndVerifyClientCert \<Longrightarrow> accepts cfg chain \<Longrightarrow>
      chain \<noteq> [] \<and> (\<exists>anchors. ClientCAs cfg = Some anchors \<and> verifies anchors (hd chain))"
    and "TLSConfig (NewListener handler (Some (ServerTLS m))) = Some cfg" "accepts cfg chain"
  shows "\<exists>c. peer_certificate (Some chain) = Some c \<and> verifies (caPool m) c \<and>
    authenticate msg (peer_certificate (Some chain)) s \<noteq> Some (errCodeADMFCertMismatch, ''no client certificate presented'')"
proof -
  have cfg: "cfg = ServerTLS m" using assms(2) by (simp add: NewListener_def)
  then have "chain \<noteq> []" "verifies (caPool m) (hd chain)"
    using handshake [of cfg chain] assms(3) by (auto simp: ServerTLS_def)
  then show ?thesis
    by (cases chain) (auto simp: peer_certificate_def authenticate_def errCodeADMFCertMismatch_def errCodeUnexpectedADMF_def errCodeUnexpectedNE_def)
qed

end
