(* ===== verification/Spec2Isabelle.thy ===== *)
theory Spec2Isabelle
  imports Report IriSpec X1Reconcile Mtls
begin

text \<open>
  A verification of the lawful-interception library \<open>li\<close>, a Go module that a 5G network function
  links in order to be a point of interception. This theory holds no definitions of its own; it
  imports every theory of the development and says what they hold.

  \<^bold>\<open>The program.\<close> The administration function (ADMF) sends warrants over X1, an XML interface over
  mutual TLS. The X1 server authenticates each message, validates it, and provisions tasks and
  delivery destinations into the task store; it tells the network function about every change,
  answers interrogations, and withdraws all tasking when the ADMF falls silent. The network function
  asks the store which tasks a subscriber's event matches, encodes the event as an IRI record (DER), and
  hands the record to the X2/X3 delivery side: units are numbered and labelled, queued for the
  sender of their destination, and written to a connection that keepalives watch over. What goes
  wrong (a destination that cannot be reached, a task that fails) is reported back to the ADMF
  over X1. A triggering function is the requesting side of the same X1 interface: it tasks another
  point of interception and reads its inventory.

  \<^bold>\<open>Foundations.\<close>
  \<^item> \<open>Prelude\<close>: bytes, big-endian integers, Go maps as association lists, the parts of \<open>strings\<close> and
    \<open>strconv\<close> that are called, and the shared lemmas; the locale \<open>field_codec\<close> for fixed-width fields.
  \<^item> \<open>Netip\<close>: \<open>netip.ParseAddr\<close> and \<open>net.SplitHostPort\<close>. \<open>Text\<close>: UTF-8 as \<open>range\<close> reads it.
  \<^item> \<open>Xml\<close>: \<open>xml.EscapeText\<close> and a reader for documents, with its namespaces. \<open>Der\<close>: what
    \<open>encoding/asn1\<close> writes, and a reader for the encoding rules.

  \<^bold>\<open>Data and store.\<close>
  \<^item> \<open>Types\<close> (\<open>src/types/types.go\<close>, \<open>src/types/xml.go\<close>): targets, products, endpoints, tasks and the questions asked of a
    task.
  \<^item> \<open>Store\<close> (\<open>src/store/store.go\<close>): tasks by identifier and the inverted index by target. The
    locale \<open>task_store\<close> is the contract towards the server: a map from identifier to task, and
    answers that depend on nothing else. Shown: \<open>Match\<close> returns exactly the tasks that name the
    criterion, and no answer depends on the history.

  \<^bold>\<open>Delivery\<close> (\<open>src/x2x3\<close>).
  \<^item> \<open>Pdu\<close> (\<open>x2x3.go\<close>): the wire format. \<open>Marshal\<close> writes into a buffer as the code does and refines the
    layout \<open>wire\<close>; \<open>Marshal\<close> and \<open>Unmarshal\<close> are inverse in both directions; the locale \<open>framing\<close>
    gives the decoding of a stream of units.
  \<^item> \<open>Sequencer\<close> (\<open>sequencer.go\<close>, \<open>attributes.go\<close>): numbers per context, 32 bits and wrapping, and the
    interleavings of \<open>Next\<close> at the grain of its critical sections.
  \<^item> \<open>Keepalive\<close> and \<open>Delivery\<close> (\<open>keepalive.go\<close>, \<open>client.go\<close>): the keepalive counter, and the client
    with its connections, its timer, its reader, and the retry that resumes at a unit boundary.
    Shown over every history: product arrives at most once and in order, every stream decodes as
    whole units, the reader's buffer is bounded (through the locale \<open>connection_property\<close>).
  \<^item> \<open>Async\<close> (\<open>async.go\<close>): queue and worker over any sender with the contract of the locale \<open>sender\<close>, which
    the client is shown to meet; order and the at-most-once guarantee carry over, and a closed
    sender drains. \<open>Pool\<close> (\<open>pool.go\<close>): one sender per address.

  \<^bold>\<open>X1, the element's side\<close> (\<open>src/x1\<close>).
  \<^item> \<open>X1Messages\<close> (\<open>messages.go\<close>, and the part of \<open>x1.go\<close> that looks at a message alone): requests, their validation and the
    mapping of target identifiers. \<open>X1Auth\<close> (\<open>auth.go\<close>): what a certificate binds.
  \<^item> \<open>X1Server\<close> (\<open>x1.go\<close>, and the part of \<open>response.go\<close> that reads state): the server's state and every operation.
    \<open>X1Tasking\<close>: the interleaving of requests and the watchdog as the step relation \<open>x1_step\<close>, and the
    locale \<open>server_invariant\<close>, interpreted for the tasking invariant, for the agreement of the store with
    what the network function was told, and for what never changes. Shown: tasking always resolves
    to current destinations, an error changes nothing, an unauthenticated message changes
    nothing, the fail-safe purges everything, and never after the ADMF was heard again.
  \<^item> \<open>Report\<close> (\<open>report.go\<close>, \<open>faultwatch.go\<close>): the reservation protocol for reports and the destination
    watcher. What the ADMF does with a report and what the reporter is told of it are independent. Shown:
    in every interleaving the reporter's record of a condition agrees with the ADMF's list wherever
    the last exchange that either counts as done was taken by the one and confirmed to the other,
    and what a lost answer leaves behind.

  \<^bold>\<open>X1 as text, and both ends together.\<close>
  \<^item> \<open>X1Render\<close> (\<open>response.go\<close> and the templates of \<open>x1.go\<close>, \<open>report.go\<close> and \<open>trigger.go\<close>): every document
    written. \<open>X1Wire\<close>: the element tree a reader gets from each. \<open>X1Decode\<close> (the struct tags of
    \<open>messages.go\<close>): what \<open>xml.Unmarshal\<close> makes of a tree.
  \<^item> \<open>Requester\<close> (\<open>trigger.go\<close>, \<open>ServeHTTP\<close> of \<open>x1.go\<close>, \<open>readReportResponse\<close> of \<open>report.go\<close>): requests posted and
    answers bound to them.
  \<^item> \<open>X1Exchange\<close>: what each end decodes from the other's text; no value breaks out of its element.
    \<open>X1Session\<close>: a triggering function joined to an element by a network that delivers, loses the
    request or loses the answer (\<open>fate\<close>). A call returns nil only when the element did what was asked;
    on an error nothing changed, or it was done and the answer was lost or not trusted. \<open>X1Reconcile\<close>:
    when an inventory is read, that it is the inventory held, and which answers are believed at all.
  \<^item> \<open>Mtls\<close> (\<open>src/mtls/mtls.go\<close>, \<open>src/x1/listener.go\<close>): credentials, the two TLS configurations, and the
    server the endpoint runs in.

  \<^bold>\<open>IRI records\<close> (\<open>src/iri\<close>).
  \<^item> \<open>Iri\<close> (\<open>iri.go\<close>, \<open>causevalues.go\<close>): the records, their tags, and their reflected form.
    \<open>IriConstraints\<close> (\<open>constraints.go\<close>): the restrictions and the walk that applies them. \<open>IriEmit\<close>
    (\<open>emit.go\<close>): the hand-written emit methods. \<open>IriSpec\<close>: the encoding the tags describe, which the
    emit methods are shown to write, and which a DER reader reads back.

  \<^bold>\<open>Bounds.\<close> Integers of fixed width are words where they wrap (sequence numbers, the length fields
  of a unit) and natural numbers with their bound written out elsewhere. Encoded records are assumed
  shorter than \<open>2 ^ 63\<close> octets, the largest length a Go slice can have. Requests and answers are cut
  at \<open>maxRequestBytes\<close> as the code cuts them, and the theorems about a whole exchange assume that the
  documents are not longer. Loops are total functions: over the list they consume, or with a measure;
  the worker, the timer, the reader and the watchdog run for ever by design, and are steps.

  \<^bold>\<open>Concurrency.\<close> What a lock makes atomic is one function of the state, and theorems about a
  running system quantify over all sequences of those steps. Values are not shared in HOL, so
  copies made to avoid aliasing (\<open>cloneTask\<close>) leave no trace.

  \<^bold>\<open>Not modelled.\<close> Sockets, TLS handshakes and HTTP transport are the network argument of the
  operations that use them, with every outcome allowed. Of \<open>encoding/xml\<close> the reader covers elements, attributes
  without references, character data with its references and the declaration: a document with
  comments, processing instructions, CDATA sections, attributes in single quotes or a document type is
  one it does not read, where Go may. The documents the program itself writes hold none of these; a
  statement that quantifies over every answer of a network counts such an answer as unreadable. The parts of \<open>%q\<close> and \<open>strings.ToLower\<close> that consult the Unicode tables, and the
  clock and the random source, are arguments or fields. The loops that only wait for a tick and call
  an operation (\<open>Watch\<close> of the server and of the destination watcher) are represented by that
  operation. Callbacks into the network function appear as recorded events.
\<close>

end
